(* ===== verification/Prelude.thy ===== *)
theory Prelude
  imports Main "HOL-Library.Word" "HOL-Library.AList" "HOL-Library.List_Lexorder"
    "HOL-Library.Char_ord"
begin

text \<open>
  The prelude of the development: Go's error values, the sequencing of calls that may fail,
  byte strings, and Go maps.

  A Go map is an association list with distinct keys (\<open>gm_ok\<close>). The order of the list is the
  order in which the runtime happens to enumerate the map: a theorem that quantifies over all
  lists holds for every enumeration order, and an operation whose result depends on the order is
  visible as such.
\<close>

section \<open>Collections of rules\<close>

named_theorems go_errs \<open>elimination of the error-passing idioms\<close>
named_theorems go_maps \<open>lookup laws of Go maps\<close>

section \<open>Decimal text\<close>

text \<open>The verb \<open>%d\<close>.\<close>

fun dec_nat :: "nat \<Rightarrow> string" where
  "dec_nat n = (if n < 10 then [char_of (n + 48)]
                else dec_nat (n div 10) @ [char_of (n mod 10 + 48)])"

declare dec_nat.simps [simp del]

definition dec_int :: "int \<Rightarrow> string" where
  "dec_int i = (if i < 0 then CHR ''-'' # dec_nat (nat (- i)) else dec_nat (nat i))"

section \<open>Errors\<close>

text \<open>
  An error value carries the sentinel errors found by \<open>errors.Is\<close> along its chain of wrapped
  errors, and its text. A panic is an error with the mark \<open>Panic\<close>: it is not a returned value, but
  unwinds the calls in progress, and a caller that looks at a returned error has to let it pass.
\<close>

datatype sentinel =
    ErrDuplicateMessage | ErrUnexpectedMessage | ErrInvalidState | ErrInvalidPeer
  | ErrInvalidPayload | ErrTradeExecutionFailed
  | ErrBadMagic | ErrUnsupportedVersion | ErrFrameTooLarge | ErrTruncatedFrame
  | ErrEmptyFrame | ErrInvalidFrame
  | ErrInvalidRuntime | ErrInvalidServer | ErrInvalidClient | ErrPeerKeyRequired
  | ErrConnectionMissing
  | ErrExist | ErrNotExist
  | EOF
  | Panic

datatype err = Err (err_kinds: "sentinel list") (err_text: string)

definition errorf :: "string \<Rightarrow> err" where
  "errorf t = Err [] t"

text \<open>\<open>fmt.Errorf\<close> with a format that has verbs: the texts and the formatted values in order.\<close>

definition errorfs :: "string list \<Rightarrow> err" where
  "errorfs ts = errorf (concat ts)"

definition err_is :: "err \<Rightarrow> sentinel \<Rightarrow> bool" where
  "err_is e s \<longleftrightarrow> s \<in> set (err_kinds e)"

definition panic :: "err \<Rightarrow> err" where
  "panic e = Err (Panic # err_kinds e) (err_text e)"

definition panics :: "err \<Rightarrow> bool" where
  "panics e \<longleftrightarrow> err_is e Panic"

lemma panics_simps [simp]: "panics (panic e)" "\<not> panics (errorf t)"
  by (simp_all add: panics_def panic_def errorf_def err_is_def)

text \<open>\<open>fmt.Errorf("pre: %w", e)\<close>.\<close>

definition wrap_err :: "string \<Rightarrow> err \<Rightarrow> err" where
  "wrap_err pre e = Err (err_kinds e) (pre @ '': '' @ err_text e)"

text \<open>The text of \<open>fmt.Errorf("pre %d: %w", i, e)\<close> before the colon.\<close>

definition at_index :: "string \<Rightarrow> nat \<Rightarrow> string" where
  "at_index pre i = pre @ dec_nat i"

definition guard :: "bool \<Rightarrow> err \<Rightarrow> err + 'a \<Rightarrow> err + 'a" where
  "guard bad e k = (if bad then Inl e else k)"

definition attempt :: "err + 'a \<Rightarrow> ('a \<Rightarrow> err + 'b) \<Rightarrow> err + 'b" where
  "attempt m f = (case m of Inl e \<Rightarrow> Inl e | Inr x \<Rightarrow> f x)"

definition map_err :: "(err \<Rightarrow> err) \<Rightarrow> err + 'a \<Rightarrow> err + 'a" where
  "map_err g m = (case m of Inl e \<Rightarrow> Inl (g e) | Inr x \<Rightarrow> Inr x)"

lemma guard_Inr [simp, go_errs]: "guard b e k = Inr y \<longleftrightarrow> \<not> b \<and> k = Inr y"
  by (simp add: guard_def)

lemma guard_Inl [go_errs]: "guard b e k = Inl x \<longleftrightarrow> (b \<and> x = e) \<or> (\<not> b \<and> k = Inl x)"
  by (auto simp: guard_def)

lemma guard_True [simp]: "guard True e k = Inl e"
  by (simp add: guard_def)

lemma guard_False [simp]: "guard False e k = k"
  by (simp add: guard_def)

lemma attempt_Inr [simp, go_errs]: "attempt m f = Inr y \<longleftrightarrow> (\<exists>x. m = Inr x \<and> f x = Inr y)"
  by (simp add: attempt_def split: sum.splits)

lemma attempt_Inl [go_errs]:
  "attempt m f = Inl e \<longleftrightarrow> m = Inl e \<or> (\<exists>x. m = Inr x \<and> f x = Inl e)"
  by (auto simp: attempt_def split: sum.splits)

lemma attempt_simps [simp]: "attempt (Inl e) f = Inl e" "attempt (Inr x) f = f x"
  by (simp_all add: attempt_def)

lemma map_err_Inr [simp, go_errs]: "map_err g m = Inr y \<longleftrightarrow> m = Inr y"
  by (simp add: map_err_def split: sum.splits)

lemma map_err_Inl [go_errs]: "map_err g m = Inl e \<longleftrightarrow> (\<exists>e'. m = Inl e' \<and> e = g e')"
  by (auto simp: map_err_def split: sum.splits)

lemma map_err_simps [simp]: "map_err g (Inl e) = Inl (g e)" "map_err g (Inr x) = Inr x"
  by (simp_all add: map_err_def)


text \<open>
  \<open>for i, x := range xs\<close> with an early return: the body sees the position, the element and the
  state threaded through the loop.
\<close>

fun each :: "(nat \<Rightarrow> 'a \<Rightarrow> 's \<Rightarrow> err + 's) \<Rightarrow> nat \<Rightarrow> 'a list \<Rightarrow> 's \<Rightarrow> err + 's" where
  "each f i [] s = Inr s"
| "each f i (x # xs) s = attempt (f i x s) (\<lambda>s'. each f (i + 1) xs s')"

lemma each_append: "each f i (xs @ ys) s = attempt (each f i xs s) (\<lambda>t. each f (i + length xs) ys t)"
proof (induction xs arbitrary: i s)
  case (Cons x xs)
  then show ?case by (cases "f i x s") simp_all
qed simp

lemma each_map_err [simp]:
  "each (\<lambda>_ (u, a) s. map_err g (f u a s)) i xs s = map_err g (each (\<lambda>_ (u, a) s. f u a s) i xs s)"
proof (induction xs arbitrary: i s)
  case (Cons x xs)
  then show ?case by (cases "f (fst x) (snd x) s") (simp_all add: case_prod_unfold)
qed simp

lemma each_invariant:
  assumes "each f i xs s = Inr t" "P s"
    and "\<And>j x s s'. x \<in> set xs \<Longrightarrow> P s \<Longrightarrow> f j x s = Inr s' \<Longrightarrow> P s'"
  shows "P t"
  using assms by (induction xs arbitrary: i s) (auto, metis)

lemma each_check:
  assumes "each (\<lambda>i x s. attempt (c i x) (\<lambda>_. Inr s)) i xs s = Inr t" "x \<in> set xs"
  shows "\<exists>j u. c j x = Inr u"
  using assms by (induction xs arbitrary: i s) auto

section \<open>Machine integers, bytes and strings\<close>

type_synonym byte = "8 word"
type_synonym bytes = "byte list"
type_synonym int64 = "64 word"
type_synonym uint64 = "64 word"
type_synonym uint32 = "32 word"
type_synonym uint16 = "16 word"

abbreviation maxInt64 :: int64 where "maxInt64 \<equiv> 0x7FFFFFFFFFFFFFFF"
abbreviation minInt64 :: int64 where "minInt64 \<equiv> 0x8000000000000000"

text \<open>A Go string is a sequence of bytes.\<close>

definition str_bytes :: "string \<Rightarrow> bytes" where
  "str_bytes s = map of_char s"

lemma unat_byte_less [simp]: "unat (b :: byte) < 256"
  using unsigned_less [of b] by simp

lemma of_char_byte_inj: "(of_char c :: byte) = of_char d \<Longrightarrow> c = d"
proof -
  assume "(of_char c :: byte) = of_char d"
  then have "unat (of_nat (of_char c) :: byte) = unat (of_nat (of_char d) :: byte)"
    by (simp only: of_nat_of_char)
  then have "(of_char c :: nat) mod 256 = of_char d mod 256"
    by (simp only: unat_of_nat) simp
  moreover have "(of_char c :: nat) < 256" "(of_char d :: nat) < 256"
    using nat_of_char_less_256 by blast+
  ultimately have "(of_char c :: nat) = of_char d" by simp
  then show "c = d" by simp
qed

lemma str_bytes_inj [simp]: "str_bytes s = str_bytes t \<longleftrightarrow> s = t"
proof
  assume "str_bytes s = str_bytes t"
  then show "s = t"
    unfolding str_bytes_def
    by (rule inj_map_eq_map [THEN iffD1, rotated]) (rule injI, rule of_char_byte_inj)
qed simp

lemma length_str_bytes [simp]: "length (str_bytes s) = length s"
  by (simp add: str_bytes_def)

text \<open>Big-endian byte strings of a given length.\<close>

fun be_bytes :: "nat \<Rightarrow> nat \<Rightarrow> bytes" where
  "be_bytes 0 v = []"
| "be_bytes (Suc n) v = be_bytes n (v div 256) @ [of_nat v]"

definition be_nat :: "bytes \<Rightarrow> nat" where
  "be_nat bs = foldl (\<lambda>a b. a * 256 + unat b) 0 bs"

lemma length_be_bytes [simp]: "length (be_bytes n v) = n"
  by (induction n arbitrary: v) auto

lemma be_nat_simps [simp]: "be_nat [] = 0" "be_nat (bs @ [b]) = be_nat bs * 256 + unat b"
  by (simp_all add: be_nat_def)

lemma be_nat_be_bytes: "be_nat (be_bytes n v) = v mod 256 ^ n"
proof (induction n arbitrary: v)
  case (Suc n)
  have "v mod 256 ^ Suc n = (v div 256 mod 256 ^ n) * 256 + v mod 256"
    by (metis add.commute mod_mult2_eq mult.commute power_Suc)
  then show ?case by (simp add: Suc unat_of_nat)
qed simp

lemma be_nat_bound: "be_nat bs < 256 ^ length bs"
proof (induction bs rule: rev_induct)
  case (snoc b bs)
  have step: "x * 256 + y < p * 256" if "x < p" "y < 256" for x y p :: nat
    using that by linarith
  show ?case using step [OF snoc unat_byte_less] by (simp add: mult.commute)
qed simp

lemma be_bytes_be_nat: "be_bytes (length bs) (be_nat bs) = bs"
proof (induction bs rule: rev_induct)
  case (snoc b bs)
  have "unat b < 256" by simp
  moreover have "(of_nat (be_nat bs * 256 + unat b) :: byte) = b"
  proof -
    have "(of_nat (be_nat bs * 256 + unat b) :: byte) = of_nat (be_nat bs) * 256 + b"
      by simp
    also have "(256 :: byte) = 0" by simp
    finally show ?thesis by simp
  qed
  ultimately show ?case using snoc by simp
qed simp

lemma be_bytes_inj: "be_bytes n v = be_bytes n w \<Longrightarrow> v < 256 ^ n \<Longrightarrow> w < 256 ^ n \<Longrightarrow> v = w"
  by (metis be_nat_be_bytes mod_less)

text \<open>Hexadecimal text (\<open>%x\<close>, \<open>hex.EncodeToString\<close>).\<close>

definition hex_digit :: "nat \<Rightarrow> char" where
  "hex_digit n = (if n < 10 then char_of (n + 48) else char_of (n + 87))"

definition hex_byte :: "byte \<Rightarrow> string" where
  "hex_byte b = [hex_digit (unat b div 16), hex_digit (unat b mod 16)]"

definition hex_string :: "bytes \<Rightarrow> string" where
  "hex_string bs = concat (map hex_byte bs)"

section \<open>Go maps\<close>

type_synonym ('k, 'v) gomap = "('k \<times> 'v) list"

definition gm_ok :: "('k, 'v) gomap \<Rightarrow> bool" where
  "gm_ok m \<longleftrightarrow> distinct (map fst m)"

definition gm_get :: "'v \<Rightarrow> ('k, 'v) gomap \<Rightarrow> 'k \<Rightarrow> 'v" where
  "gm_get zero m k = (case map_of m k of None \<Rightarrow> zero | Some v \<Rightarrow> v)"

definition gm_has :: "('k, 'v) gomap \<Rightarrow> 'k \<Rightarrow> bool" where
  "gm_has m k \<longleftrightarrow> map_of m k \<noteq> None"

definition gm_put :: "('k, 'v) gomap \<Rightarrow> 'k \<Rightarrow> 'v \<Rightarrow> ('k, 'v) gomap" where
  "gm_put m k v = AList.update k v m"

definition gm_del :: "('k, 'v) gomap \<Rightarrow> 'k \<Rightarrow> ('k, 'v) gomap" where
  "gm_del m k = AList.delete k m"

lemma gm_ok_Nil [simp]: "gm_ok []"
  by (simp add: gm_ok_def)

lemma gm_ok_put [simp, intro]: "gm_ok m \<Longrightarrow> gm_ok (gm_put m k v)"
  by (simp add: gm_ok_def gm_put_def distinct_update)

lemma gm_ok_del [simp, intro]: "gm_ok m \<Longrightarrow> gm_ok (gm_del m k)"
  by (simp add: gm_ok_def gm_del_def distinct_delete)

lemma map_of_gm_put [simp, go_maps]: "map_of (gm_put m k v) = (map_of m)(k \<mapsto> v)"
  by (simp add: gm_put_def update_conv')

lemma map_of_gm_del [simp, go_maps]: "map_of (gm_del m k) = (map_of m)(k := None)"
  by (simp add: gm_del_def delete_conv')

lemma gm_get_Nil [simp]: "gm_get z [] k = z"
  by (simp add: gm_get_def)

lemma gm_get_put [simp, go_maps]:
  "gm_get z (gm_put m k v) k' = (if k' = k then v else gm_get z m k')"
  by (simp add: gm_get_def)

lemma gm_has_put [simp, go_maps]: "gm_has (gm_put m k v) k' \<longleftrightarrow> k' = k \<or> gm_has m k'"
  by (simp add: gm_has_def)

lemma gm_has_del [simp, go_maps]: "gm_has (gm_del m k) k' \<longleftrightarrow> k' \<noteq> k \<and> gm_has m k'"
  by (simp add: gm_has_def)

lemma gm_has_Nil [simp]: "\<not> gm_has [] k"
  by (simp add: gm_has_def)

lemma gm_has_iff: "gm_has m k \<longleftrightarrow> k \<in> fst ` set m"
  by (auto simp: gm_has_def map_of_eq_None_iff)

lemma gm_get_has: "gm_has m k \<Longrightarrow> map_of m k = Some (gm_get z m k)"
  by (auto simp: gm_has_def gm_get_def)

lemma gm_in_set_get: "gm_ok m \<Longrightarrow> (k, v) \<in> set m \<Longrightarrow> gm_get z m k = v"
  by (simp add: gm_get_def gm_ok_def)

lemma gm_get_absent: "\<not> gm_has m k \<Longrightarrow> gm_get z m k = z"
  by (simp add: gm_get_def gm_has_def split: option.splits)

end
