(* ===== verification/Float64.thy ===== *)
theory Float64
  imports Prelude "HOL-Library.Log_Nat" Complex_Main
begin

text \<open>
  Go's \<open>float64\<close>, an IEEE 754 binary64 number: exact rational arithmetic followed by one
  rounding to nearest, ties to even, with the infinities, the not-a-number and the two zeros.
  Every operation of the source is rounded on its own (no fused multiply-add).

  Proved here: the rounding is monotone, exact on the representable numbers, and its error is at
  most half a unit in the last place; these are the facts the price theories use.
\<close>

section \<open>Powers of two and the binary exponent\<close>

definition pow2 :: "int \<Rightarrow> rat" where
  "pow2 k = (if 0 \<le> k then 2 ^ nat k else 1 / 2 ^ nat (- k))"

lemma pow2_powi: "pow2 k = 2 powi k"
  by (simp add: pow2_def power_int_def power_one_over inverse_eq_divide)

lemma pow2_pos [simp]: "0 < pow2 k"
  by (simp add: pow2_def)

lemma pow2_nonneg [simp]: "0 \<le> pow2 k" and pow2_neq_0 [simp]: "pow2 k \<noteq> 0"
  using pow2_pos [of k] by linarith+

lemma pow2_add: "pow2 (a + b) = pow2 a * pow2 b"
  by (simp add: pow2_powi power_int_add)

lemma pow2_diff: "pow2 (a - b) = pow2 a / pow2 b"
  by (simp add: pow2_powi power_int_diff)

lemma pow2_0 [simp]: "pow2 0 = 1" and pow2_1 [simp]: "pow2 1 = 2"
  by (simp_all add: pow2_def)

lemma pow2_ge_1: "0 \<le> k \<Longrightarrow> 1 \<le> pow2 k" and pow2_gr_1: "0 < k \<Longrightarrow> 1 < pow2 k"
  by (simp_all add: pow2_def)

lemma pow2_le_iff [simp]: "pow2 a \<le> pow2 b \<longleftrightarrow> a \<le> b"
  and pow2_less_iff [simp]: "pow2 a < pow2 b \<longleftrightarrow> a < b"
proof -
  have le: "pow2 c \<le> pow2 d" if "c \<le> d" for c d
  proof -
    have "pow2 c * 1 \<le> pow2 c * pow2 (d - c)" using that by (intro mult_left_mono pow2_ge_1) simp_all
    then show ?thesis by (simp add: pow2_add [symmetric])
  qed
  have lt: "pow2 c < pow2 d" if "c < d" for c d
  proof -
    have "pow2 c * 1 < pow2 c * pow2 (d - c)"
      using that by (intro mult_strict_left_mono pow2_gr_1) simp_all
    then show ?thesis by (simp add: pow2_add [symmetric])
  qed
  show "pow2 a \<le> pow2 b \<longleftrightarrow> a \<le> b" using le [of a b] lt [of b a] by fastforce
  show "pow2 a < pow2 b \<longleftrightarrow> a < b" using le [of b a] lt [of a b] by fastforce
qed

lemma pow2_div_of_int: "b \<le> a \<Longrightarrow> pow2 a / pow2 b = of_int (2 ^ nat (a - b))"
  by (simp only: pow2_diff [symmetric]) (simp add: pow2_def)

lemma pow2_nat: "pow2 (int n) = 2 ^ n"
  by (simp add: pow2_def)

definition ilog2 :: "rat \<Rightarrow> int" where
  "ilog2 v = (case quotient_of v of (n, d) \<Rightarrow>
     let k = bitlen n - bitlen d
     in if pow2 k \<le> v then k else k - 1)"

lemma floorlog_pow2_bounds:
  assumes "0 < n"
  shows "pow2 (int (floorlog 2 n) - 1) \<le> of_nat n" and "of_nat n < pow2 (int (floorlog 2 n))"
proof -
  have pos: "0 < floorlog 2 n" using assms by (simp add: floorlog_def)
  have b: "2 ^ (floorlog 2 n - 1) \<le> n" "n < 2 ^ floorlog 2 n"
    using floorlog_bounds [of n 2] assms by simp_all
  have e: "int (floorlog 2 n) - 1 = int (floorlog 2 n - 1)" using pos by simp
  have "(of_nat (2 ^ (floorlog 2 n - 1)) :: rat) \<le> of_nat n" using b(1) of_nat_le_iff by blast
  then show "pow2 (int (floorlog 2 n) - 1) \<le> of_nat n" unfolding e pow2_nat by simp
  have "(of_nat n :: rat) < of_nat (2 ^ floorlog 2 n)" using b(2) of_nat_less_iff by blast
  then show "of_nat n < pow2 (int (floorlog 2 n))" unfolding pow2_nat by simp
qed

lemma ilog2_bounds:
  assumes "0 < v"
  shows "pow2 (ilog2 v) \<le> v" and "v < pow2 (ilog2 v + 1)"
proof -
  obtain n d where q: "quotient_of v = (n, d)" by force
  have d: "0 < d" using quotient_of_denom_pos [OF q] .
  have v: "v = of_int n / of_int d" using quotient_of_div [OF q] .
  have n: "0 < n" using assms d unfolding v by (simp add: zero_less_divide_iff)
  let ?a = "floorlog 2 (nat n)" and ?b = "floorlog 2 (nat d)"
  let ?k = "int ?a - int ?b"
  have ne: "(of_int n :: rat) = of_nat (nat n)" "(of_int d :: rat) = of_nat (nat d)"
    using n d by simp_all
  have nb: "pow2 (int ?a - 1) \<le> of_int n" "(of_int n :: rat) < pow2 (int ?a)"
    using floorlog_pow2_bounds [of "nat n"] n unfolding ne by simp_all
  have db: "pow2 (int ?b - 1) \<le> of_int d" "(of_int d :: rat) < pow2 (int ?b)"
    using floorlog_pow2_bounds [of "nat d"] d unfolding ne by simp_all
  have dp: "(0 :: rat) < of_int d" using d by simp
  have up: "v < pow2 (?k + 1)"
  proof -
    have "v < pow2 (int ?a) / of_int d" unfolding v using nb(2) dp by (simp add: divide_strict_right_mono)
    also have "\<dots> \<le> pow2 (int ?a) / pow2 (int ?b - 1)"
      using db(1) dp by (intro divide_left_mono) simp_all
    also have "\<dots> = pow2 (?k + 1)" by (simp add: pow2_diff [symmetric] algebra_simps)
    finally show ?thesis .
  qed
  have lo: "pow2 (?k - 1) < v"
  proof -
    have "pow2 (?k - 1) = pow2 (int ?a - 1) / pow2 (int ?b)"
      by (simp add: pow2_diff [symmetric] algebra_simps)
    also have "\<dots> < pow2 (int ?a - 1) / of_int d"
      using db(2) dp by (intro divide_strict_left_mono) simp_all
    also have "\<dots> \<le> v" unfolding v using nb(1) dp by (intro divide_right_mono) simp_all
    finally show ?thesis .
  qed
  have i: "ilog2 v = (if pow2 ?k \<le> v then ?k else ?k - 1)"
    by (simp add: ilog2_def q Let_def bitlen_def)
  show "pow2 (ilog2 v) \<le> v" using lo unfolding i by simp
  show "v < pow2 (ilog2 v + 1)" using up unfolding i by (simp split: if_splits)
qed

lemma ilog2_unique:
  assumes "pow2 k \<le> v" "v < pow2 (k + 1)"
  shows "ilog2 v = k"
proof -
  have v: "0 < v" using assms(1) pow2_pos [of k] by linarith
  have "k < ilog2 v + 1" using order.strict_trans1 [OF assms(1) ilog2_bounds(2) [OF v]] by simp
  moreover have "ilog2 v < k + 1" using order.strict_trans1 [OF ilog2_bounds(1) [OF v] assms(2)] by simp
  ultimately show ?thesis by linarith
qed

lemma ilog2_mono:
  assumes "0 < v" "v \<le> w"
  shows "ilog2 v \<le> ilog2 w"
proof -
  have "pow2 (ilog2 v) < pow2 (ilog2 w + 1)"
    using ilog2_bounds [of v] ilog2_bounds [of w] assms by linarith
  then show ?thesis by simp
qed

section \<open>Rounding to nearest, ties to even\<close>

definition round_half_even :: "rat \<Rightarrow> int" where
  "round_half_even x =
     (let f = \<lfloor>x\<rfloor>; r = x - of_int f
      in if r < 1/2 then f else if 1/2 < r then f + 1 else if even f then f else f + 1)"

lemma round_half_even_of_int [simp]: "round_half_even (of_int i) = i"
  by (simp add: round_half_even_def)

lemma round_half_even_0 [simp]: "round_half_even 0 = 0"
  and round_half_even_1 [simp]: "round_half_even 1 = 1"
  using round_half_even_of_int [of 0] round_half_even_of_int [of 1] by simp_all

lemma round_half_even_error: "\<bar>of_int (round_half_even x) - x\<bar> \<le> 1/2"
proof -
  have "of_int \<lfloor>x\<rfloor> \<le> x" "x < of_int \<lfloor>x\<rfloor> + 1" by linarith+
  moreover have "round_half_even x = \<lfloor>x\<rfloor> \<and> x - of_int \<lfloor>x\<rfloor> \<le> 1/2
      \<or> round_half_even x = \<lfloor>x\<rfloor> + 1 \<and> 1/2 \<le> x - of_int \<lfloor>x\<rfloor>"
    by (auto simp: round_half_even_def Let_def)
  ultimately show ?thesis by (elim disjE conjE) simp_all
qed

lemma round_half_even_mono:
  assumes "x \<le> y"
  shows "round_half_even x \<le> round_half_even y"
proof (cases "\<lfloor>x\<rfloor> = \<lfloor>y\<rfloor>")
  case True
  then show ?thesis using assms by (auto simp: round_half_even_def Let_def)
next
  case False
  with assms have "\<lfloor>x\<rfloor> + 1 \<le> \<lfloor>y\<rfloor>" using floor_mono [OF assms] by linarith
  moreover have "round_half_even x \<le> \<lfloor>x\<rfloor> + 1" by (simp add: round_half_even_def Let_def)
  moreover have "\<lfloor>y\<rfloor> \<le> round_half_even y" by (simp add: round_half_even_def Let_def)
  ultimately show ?thesis by linarith
qed

lemma round_half_even_le_int: "x \<le> of_int i \<Longrightarrow> round_half_even x \<le> i"
  and round_half_even_ge_int: "of_int i \<le> x \<Longrightarrow> i \<le> round_half_even x"
  using round_half_even_mono [of x "of_int i"] round_half_even_mono [of "of_int i" x] by simp_all

text \<open>The exponent of the last place of \<open>v\<close>, bounded below by the subnormal range.\<close>

definition ulp_exp :: "rat \<Rightarrow> int" where
  "ulp_exp v = max (ilog2 v - 52) (- 1074)"

definition rne :: "rat \<Rightarrow> rat" where
  "rne v = (if v \<le> 0 then 0
            else of_int (round_half_even (v / pow2 (ulp_exp v))) * pow2 (ulp_exp v))"

lemma rne_0 [simp]: "rne 0 = 0"
  by (simp add: rne_def)

lemma ulp_exp_mono: "0 < v \<Longrightarrow> v \<le> w \<Longrightarrow> ulp_exp v \<le> ulp_exp w"
  using ilog2_mono [of v w] by (auto simp: ulp_exp_def)

text \<open>A number on the grid of an exponent that is not finer than its own last place.\<close>

lemma rne_grid:
  assumes "v = of_int m * pow2 e" "ulp_exp v \<le> e" "0 \<le> v"
  shows "rne v = v"
proof (cases "v = 0")
  case False
  with assms(3) have v: "0 < v" by simp
  have "pow2 e / pow2 (ulp_exp v) = of_int (2 ^ nat (e - ulp_exp v))"
    using assms(2) by (rule pow2_div_of_int)
  then have "v / pow2 (ulp_exp v) = of_int (m * 2 ^ nat (e - ulp_exp v))"
    by (subst assms(1)) (simp add: times_divide_eq_right [symmetric] del: times_divide_eq_right)
  then have "rne v = v / pow2 (ulp_exp v) * pow2 (ulp_exp v)"
    using v unfolding rne_def by (simp del: of_int_mult)
  then show ?thesis by simp
qed simp

lemma rne_pow2:
  assumes "- 1074 \<le> k"
  shows "rne (pow2 k) = pow2 k"
proof (rule rne_grid [of _ 1 k])
  have "ilog2 (pow2 k) = k" by (rule ilog2_unique) (simp_all add: pow2_add)
  then show "ulp_exp (pow2 k) \<le> k" using assms by (simp add: ulp_exp_def)
qed simp_all

lemma rne_le_pow2_Suc:
  assumes "0 < v" "- 1074 \<le> ilog2 v"
  shows "rne v \<le> pow2 (ilog2 v + 1)"
proof -
  let ?e = "ulp_exp v"
  have e: "?e \<le> ilog2 v + 1" using assms(2) by (auto simp: ulp_exp_def)
  have q: "pow2 (ilog2 v + 1) / pow2 ?e = of_int (2 ^ nat (ilog2 v + 1 - ?e))"
    using e by (rule pow2_div_of_int)
  have "v / pow2 ?e \<le> pow2 (ilog2 v + 1) / pow2 ?e"
    using ilog2_bounds [OF assms(1)] by (intro divide_right_mono) simp_all
  then have "round_half_even (v / pow2 ?e) \<le> 2 ^ nat (ilog2 v + 1 - ?e)"
    unfolding q by (rule round_half_even_le_int)
  then have "of_int (round_half_even (v / pow2 ?e)) \<le> pow2 (ilog2 v + 1) / pow2 ?e"
    unfolding q by (simp only: of_int_le_iff)
  then show ?thesis using assms(1) by (simp add: rne_def pos_le_divide_eq)
qed

lemma pow2_le_rne:
  assumes "pow2 k \<le> v" "ulp_exp v \<le> k"
  shows "pow2 k \<le> rne v"
proof -
  let ?e = "ulp_exp v"
  have v: "0 < v" using assms(1) pow2_pos [of k] by linarith
  have q: "pow2 k / pow2 ?e = of_int (2 ^ nat (k - ?e))"
    using assms(2) by (rule pow2_div_of_int)
  have "pow2 k / pow2 ?e \<le> v / pow2 ?e" using assms(1) by (intro divide_right_mono) simp_all
  then have "2 ^ nat (k - ?e) \<le> round_half_even (v / pow2 ?e)"
    unfolding q by (rule round_half_even_ge_int)
  then have "pow2 k / pow2 ?e \<le> of_int (round_half_even (v / pow2 ?e))"
    unfolding q by (simp only: of_int_le_iff)
  then show ?thesis using v by (simp add: rne_def pos_divide_le_eq)
qed

lemma rne_nonneg [simp]: "0 \<le> rne v"
proof (cases "v \<le> 0")
  case False
  then have "0 \<le> v / pow2 (ulp_exp v)" by simp
  then have "0 \<le> round_half_even (v / pow2 (ulp_exp v))"
    using round_half_even_mono [of 0 "v / pow2 (ulp_exp v)"] by simp
  with False show ?thesis by (simp add: rne_def)
qed (simp add: rne_def)

theorem rne_mono:
  assumes "v \<le> w"
  shows "rne v \<le> rne w"
proof (cases "0 < v")
  case True
  have w: "0 < w" using True assms by simp
  consider "ulp_exp v = ulp_exp w" | "ulp_exp v < ulp_exp w"
    using ulp_exp_mono [OF True assms] by linarith
  then show ?thesis
  proof cases
    case 1
    have "round_half_even (v / pow2 (ulp_exp w)) \<le> round_half_even (w / pow2 (ulp_exp w))"
      using assms by (intro round_half_even_mono divide_right_mono) simp_all
    then have "(of_int (round_half_even (v / pow2 (ulp_exp w))) :: rat)
        \<le> of_int (round_half_even (w / pow2 (ulp_exp w)))"
      by (simp only: of_int_le_iff)
    then show ?thesis using True w 1 by (simp add: rne_def)
  next
    case 2
    then have lt: "ilog2 v < ilog2 w" and ge: "- 1022 < ilog2 w" by (auto simp: ulp_exp_def)
    let ?k = "max (ilog2 v + 1) (- 1022)"
    have kw: "?k \<le> ilog2 w" using lt ge by simp
    have uw: "ulp_exp w \<le> ?k" if "?k = ilog2 w" using that by (auto simp: ulp_exp_def)
    have "rne v \<le> pow2 (ilog2 w)"
    proof (cases "- 1074 \<le> ilog2 v")
      case True
      have "rne v \<le> pow2 (ilog2 v + 1)" using rne_le_pow2_Suc [OF \<open>0 < v\<close> True] .
      also have "\<dots> \<le> pow2 (ilog2 w)" using lt by simp
      finally show ?thesis .
    next
      case False
      then have ev: "ulp_exp v = - 1074" by (simp add: ulp_exp_def)
      have "v < pow2 (- 1074)"
        using ilog2_bounds(2) [OF \<open>0 < v\<close>] False pow2_le_iff [of "ilog2 v + 1" "- 1074"] by linarith
      then have "v / pow2 (- 1074) \<le> 1" by simp
      then have "round_half_even (v / pow2 (- 1074)) \<le> 1"
        using round_half_even_mono [of _ 1] by fastforce
      then have "(of_int (round_half_even (v / pow2 (- 1074))) :: rat) \<le> 1" by simp
      then have "rne v \<le> pow2 (- 1074)" using \<open>0 < v\<close> by (simp add: rne_def ev)
      also have "\<dots> \<le> pow2 (ilog2 w)" using ge by simp
      finally show ?thesis .
    qed
    also have "pow2 (ilog2 w) \<le> rne w"
    proof (rule pow2_le_rne)
      show "pow2 (ilog2 w) \<le> w" using ilog2_bounds(1) [OF w] .
      show "ulp_exp w \<le> ilog2 w" using ge by (simp add: ulp_exp_def)
    qed
    finally show ?thesis .
  qed
next
  case False
  then have "rne v = 0" by (simp add: rne_def)
  then show ?thesis by simp
qed

text \<open>The representable magnitudes below the overflow threshold.\<close>

lemma rne_representable:
  assumes "v = of_int m * pow2 e" "0 \<le> m" "m \<le> 2 ^ 53" "- 1074 \<le> e"
  shows "rne v = v"
proof (cases "m = 2 ^ 53")
  case True
  have "v = pow2 (53 + e)" by (simp only: assms(1) True pow2_add) (simp add: pow2_def)
  then show ?thesis using assms(4) by (simp add: rne_pow2)
next
  case False
  show ?thesis
  proof (cases "m = 0")
    case nz: False
    have v: "0 < v" using assms(1,2) nz by simp
    have "v < pow2 (e + 53)"
    proof -
      have "m < 2 ^ 53" using assms(3) False by simp
      then have "(of_int m :: rat) < of_int (2 ^ 53)" by (simp only: of_int_less_iff)
      then have "of_int m * pow2 e < of_int (2 ^ 53) * pow2 e" by (intro mult_strict_right_mono) simp_all
      then show ?thesis unfolding assms(1) pow2_add by (simp add: pow2_def)
    qed
    then have "pow2 (ilog2 v) < pow2 (e + 53)" using ilog2_bounds(1) [OF v] by linarith
    then have "ulp_exp v \<le> e" using assms(4) by (auto simp: ulp_exp_def)
    then show ?thesis using assms(1) v by (intro rne_grid) simp_all
  qed (simp add: assms(1) rne_def)
qed

lemma rne_of_nat: "n \<le> 2 ^ 53 \<Longrightarrow> rne (of_nat n) = of_nat n"
  using rne_representable [of "of_nat n" "int n" 0] by simp

lemma rne_1 [simp]: "rne 1 = 1"
  using rne_of_nat [of 1] by simp

lemma rne_error:
  assumes "0 < v"
  shows "\<bar>rne v - v\<bar> \<le> pow2 (ulp_exp v) / 2"
proof -
  let ?p = "pow2 (ulp_exp v)"
  have "rne v - v = (of_int (round_half_even (v / ?p)) - v / ?p) * ?p"
    using assms by (simp add: rne_def left_diff_distrib)
  then have "\<bar>rne v - v\<bar> = \<bar>of_int (round_half_even (v / ?p)) - v / ?p\<bar> * ?p"
    by (simp add: abs_mult)
  also have "\<dots> \<le> 1/2 * ?p" by (intro mult_right_mono round_half_even_error) simp
  finally show ?thesis by simp
qed

lemma rne_rel_error:
  assumes "pow2 (- 1022) \<le> v"
  shows "\<bar>rne v - v\<bar> \<le> v / 2 ^ 53"
proof -
  have v: "0 < v" using assms pow2_pos [of "- 1022"] by linarith
  have "- 1022 \<le> ilog2 v"
    using order.strict_trans1 [OF assms ilog2_bounds(2) [OF v]] by simp
  then have "pow2 (ulp_exp v) / 2 = pow2 (ilog2 v - 53)"
    by (simp add: ulp_exp_def pow2_diff) (simp add: pow2_def)
  also have "\<dots> = pow2 (ilog2 v) / 2 ^ 53" by (simp add: pow2_diff) (simp add: pow2_def)
  also have "\<dots> \<le> v / 2 ^ 53" using ilog2_bounds(1) [OF v] by (intro divide_right_mono) simp_all
  finally show ?thesis using rne_error [OF v] by linarith
qed

section \<open>Floating-point values\<close>

text \<open>\<open>Inf True\<close> is the negative infinity; \<open>Fin 0\<close> is the positive zero.\<close>

datatype float64 = NaN | Inf bool | NegZero | Fin rat

fun fneg :: "float64 \<Rightarrow> float64" where
  "fneg NaN = NaN"
| "fneg (Inf s) = Inf (\<not> s)"
| "fneg NegZero = Fin 0"
| "fneg (Fin r) = (if r = 0 then NegZero else Fin (- r))"

text \<open>The value of a finite number, and the sign bit of a number.\<close>

fun fval :: "float64 \<Rightarrow> rat" where
  "fval (Fin r) = r"
| "fval _ = 0"

fun fsign :: "float64 \<Rightarrow> bool" where
  "fsign NaN = False"
| "fsign (Inf s) = s"
| "fsign NegZero = True"
| "fsign (Fin r) = (r < 0)"

fun is_fin :: "float64 \<Rightarrow> bool" where
  "is_fin (Fin r) = True"
| "is_fin NegZero = True"
| "is_fin _ = False"

text \<open>\<open>math.IsNaN\<close> and \<open>math.IsInf(f, 0)\<close>.\<close>

fun fisnan :: "float64 \<Rightarrow> bool" where
  "fisnan NaN = True"
| "fisnan _ = False"

fun fisinf :: "float64 \<Rightarrow> bool" where
  "fisinf (Inf s) = True"
| "fisinf _ = False"

definition rnd_pos :: "rat \<Rightarrow> float64" where
  "rnd_pos v = (let m = rne v in if 0 < m \<and> 1024 \<le> ilog2 m then Inf False else Fin m)"

definition rnd :: "rat \<Rightarrow> float64" where
  "rnd v = (if v < 0 then fneg (rnd_pos (- v)) else rnd_pos v)"

definition fzero :: "bool \<Rightarrow> float64" where
  "fzero s = (if s then NegZero else Fin 0)"

text \<open>The overflow test compares the rounded magnitude with \<open>2 ^ 1024\<close>.\<close>

lemma ilog2_ge_iff: "0 < m \<Longrightarrow> k \<le> ilog2 m \<longleftrightarrow> pow2 k \<le> m"
proof
  assume m: "0 < m"
  show "k \<le> ilog2 m \<Longrightarrow> pow2 k \<le> m"
    using ilog2_bounds(1) [OF m] pow2_le_iff [of k "ilog2 m"] by linarith
  assume "pow2 k \<le> m"
  then have "pow2 k < pow2 (ilog2 m + 1)" using ilog2_bounds(2) [OF m] by linarith
  then show "k \<le> ilog2 m" by simp
qed

lemma rnd_pos_alt: "rnd_pos v = (if 2 ^ 1024 \<le> rne v then Inf False else Fin (rne v))"
proof -
  have p: "(2 ^ 1024 :: rat) = pow2 1024" by (simp only: pow2_def) simp
  have "0 < rne v \<and> 1024 \<le> ilog2 (rne v) \<longleftrightarrow> 2 ^ 1024 \<le> rne v"
    unfolding p using ilog2_ge_iff [of "rne v" 1024] pow2_pos [of 1024] order.strict_trans2
    by blast
  then show ?thesis by (simp only: rnd_pos_def Let_def)
qed

section \<open>Arithmetic\<close>

fun fadd :: "float64 \<Rightarrow> float64 \<Rightarrow> float64" where
  "fadd NaN y = NaN"
| "fadd x NaN = NaN"
| "fadd (Inf s) (Inf t) = (if s = t then Inf s else NaN)"
| "fadd (Inf s) y = Inf s"
| "fadd x (Inf t) = Inf t"
| "fadd NegZero NegZero = NegZero"
| "fadd x y = rnd (fval x + fval y)"

definition fsub :: "float64 \<Rightarrow> float64 \<Rightarrow> float64" where
  "fsub x y = fadd x (fneg y)"

fun fmul :: "float64 \<Rightarrow> float64 \<Rightarrow> float64" where
  "fmul NaN y = NaN"
| "fmul x NaN = NaN"
| "fmul (Inf s) (Inf t) = Inf (s \<noteq> t)"
| "fmul (Inf s) y = (if fval y = 0 then NaN else Inf (s \<noteq> fsign y))"
| "fmul x (Inf t) = (if fval x = 0 then NaN else Inf (fsign x \<noteq> t))"
| "fmul x y = (let v = fval x * fval y
     in if v = 0 then fzero (fsign x \<noteq> fsign y) else rnd v)"

fun fdiv :: "float64 \<Rightarrow> float64 \<Rightarrow> float64" where
  "fdiv NaN y = NaN"
| "fdiv x NaN = NaN"
| "fdiv (Inf s) (Inf t) = NaN"
| "fdiv (Inf s) y = Inf (s \<noteq> fsign y)"
| "fdiv x (Inf t) = fzero (fsign x \<noteq> t)"
| "fdiv x y =
     (if fval y = 0 then (if fval x = 0 then NaN else Inf (fsign x \<noteq> fsign y))
      else let v = fval x / fval y
           in if v = 0 then fzero (fsign x \<noteq> fsign y) else rnd v)"

fun flt :: "float64 \<Rightarrow> float64 \<Rightarrow> bool" where
  "flt NaN y = False"
| "flt x NaN = False"
| "flt (Inf s) (Inf t) = (s \<and> \<not> t)"
| "flt (Inf s) y = s"
| "flt x (Inf t) = (\<not> t)"
| "flt x y = (fval x < fval y)"

fun feq :: "float64 \<Rightarrow> float64 \<Rightarrow> bool" where
  "feq NaN y = False"
| "feq x NaN = False"
| "feq (Inf s) (Inf t) = (s = t)"
| "feq (Inf s) y = False"
| "feq x (Inf t) = False"
| "feq x y = (fval x = fval y)"

definition fle :: "float64 \<Rightarrow> float64 \<Rightarrow> bool" where
  "fle x y \<longleftrightarrow> flt x y \<or> feq x y"

text \<open>\<open>math.MaxFloat64\<close>; \<open>float64(n)\<close> of an \<open>int64\<close>; \<open>math.Round\<close>.\<close>

definition MaxFloat64 :: float64 where
  "MaxFloat64 = Fin ((2 ^ 53 - 1) * 2 ^ 971)"

definition of_int64 :: "int64 \<Rightarrow> float64" where
  "of_int64 n = rnd (of_int (sint n))"

definition of_count :: "nat \<Rightarrow> float64" where
  "of_count n = rnd (of_nat n)"

fun fround :: "float64 \<Rightarrow> float64" where
  "fround (Fin r) =
     (if r < 0 then fneg (Fin (of_int \<lfloor>- r + 1/2\<rfloor>)) else Fin (of_int \<lfloor>r + 1/2\<rfloor>))"
| "fround x = x"

text \<open>
  The conversion \<open>int64(f)\<close> truncates towards zero; outside the range of \<open>int64\<close> its result
  depends on the machine, which is \<open>None\<close> here.
\<close>

fun cvt_int64 :: "float64 \<Rightarrow> int64 option" where
  "cvt_int64 (Fin r) =
     (let t = (if r < 0 then - \<lfloor>- r\<rfloor> else \<lfloor>r\<rfloor>)
      in if - (2 ^ 63) \<le> t \<and> t < 2 ^ 63 then Some (of_int t) else None)"
| "cvt_int64 NegZero = Some 0"
| "cvt_int64 _ = None"

section \<open>Facts about the arithmetic\<close>

lemma rnd_0 [simp]: "rnd 0 = Fin 0"
  by (simp add: rnd_def rnd_pos_alt)

lemma rnd_1 [simp]: "rnd 1 = Fin 1"
  by (simp add: rnd_def rnd_pos_alt)

lemma rnd_nonneg_cases: "0 \<le> v \<Longrightarrow> rnd v = Inf False \<or> (\<exists>r \<ge> 0. rnd v = Fin r \<and> r = rne v)"
  by (simp add: rnd_def rnd_pos_alt)

lemma rnd_representable:
  assumes "v = of_int m * pow2 e" "0 \<le> m" "m \<le> 2 ^ 53" "- 1074 \<le> e" "v < 2 ^ 1024"
  shows "rnd v = Fin v"
proof -
  have "0 \<le> v" using assms(1,2) by simp
  then show ?thesis using rne_representable [OF assms(1-4)] assms(5)
    by (simp add: rnd_def rnd_pos_alt)
qed

lemma rnd_of_nat: "n \<le> 2 ^ 53 \<Longrightarrow> rnd (of_nat n) = Fin (of_nat n)"
proof -
  assume n: "n \<le> 2 ^ 53"
  then have "(of_nat n :: rat) \<le> of_nat (2 ^ 53)" by (simp only: of_nat_le_iff)
  also have "\<dots> < 2 ^ 1024" by simp
  finally show ?thesis using n rnd_representable [of "of_nat n" "int n" 0] by simp
qed

text \<open>A float is nonnegative: neither a not-a-number nor below zero.\<close>

definition fnonneg :: "float64 \<Rightarrow> bool" where
  "fnonneg x \<longleftrightarrow> \<not> fisnan x \<and> \<not> flt x (Fin 0)"

lemma fnonneg_simps [simp]:
  "\<not> fnonneg NaN" "fnonneg (Inf s) \<longleftrightarrow> \<not> s" "fnonneg NegZero" "fnonneg (Fin r) \<longleftrightarrow> 0 \<le> r"
  by (auto simp: fnonneg_def)

lemma fnonneg_rnd [simp]: "0 \<le> v \<Longrightarrow> fnonneg (rnd v)"
  using rnd_nonneg_cases [of v] by auto

lemma fnonneg_fadd [intro]: "fnonneg x \<Longrightarrow> fnonneg y \<Longrightarrow> fnonneg (fadd x y)"
  by (cases "(x, y)" rule: fadd.cases) auto

lemma fnonneg_fzero [simp]: "fnonneg (fzero s)"
  by (simp add: fzero_def)

lemma fnonneg_fmul [intro]:
  "fnonneg x \<Longrightarrow> fnonneg y \<Longrightarrow> is_fin x \<Longrightarrow> is_fin y \<Longrightarrow> fnonneg (fmul x y)"
  by (cases "(x, y)" rule: fmul.cases) (auto simp: Let_def)

lemma flt_irrefl [simp]: "\<not> flt x x"
  by (cases x) auto

lemma fle_refl_iff: "fle x x \<longleftrightarrow> \<not> fisnan x"
  by (cases x) (auto simp: fle_def)

lemma fle_Fin [simp]: "fle (Fin r) (Fin t) \<longleftrightarrow> r \<le> t"
  by (auto simp: fle_def)

lemma not_flt_fle: "\<not> fisnan x \<Longrightarrow> \<not> fisnan y \<Longrightarrow> \<not> flt x y \<longleftrightarrow> fle y x"
  by (cases "(x, y)" rule: flt.cases) (auto simp: fle_def)

lemma rnd_le_mono:
  assumes "0 \<le> v" "v \<le> w"
  shows "fle (rnd v) (rnd w)"
proof -
  have "rne v \<le> rne w" using rne_mono [OF assms(2)] .
  then show ?thesis using assms by (auto simp: rnd_def rnd_pos_alt fle_def)
qed

lemma rnd_finite:
  assumes "0 \<le> v" "v \<le> (2 ^ 53 - 1) * 2 ^ 971"
  shows "rnd v = Fin (rne v)"
proof -
  have "rne v \<le> rne ((2 ^ 53 - 1) * 2 ^ 971)" using rne_mono [OF assms(2)] .
  also have "\<dots> = (2 ^ 53 - 1) * 2 ^ 971"
    by (rule rne_representable [of _ "2 ^ 53 - 1" 971]) (simp_all add: pow2_def)
  also have "\<dots> < 2 ^ 1024" by simp
  finally show ?thesis using assms(1) by (simp add: rnd_def rnd_pos_alt)
qed

section \<open>Rounded numbers\<close>

lemma rne_form: "\<exists>m e. rne v = of_int m * pow2 e \<and> 0 \<le> m \<and> m \<le> 2 ^ 53 \<and> - 1074 \<le> e"
proof (cases "v \<le> 0")
  case True
  then show ?thesis by (intro exI [of _ 0]) (auto simp: rne_def)
next
  case False
  let ?e = "ulp_exp v" and ?m = "round_half_even (v / pow2 (ulp_exp v))"
  have v: "0 < v" using False by simp
  have "rne v = of_int ?m * pow2 ?e" using v by (simp add: rne_def)
  moreover have "0 \<le> ?m"
    using v round_half_even_mono [of 0 "v / pow2 ?e"] by simp
  moreover have "?m \<le> 2 ^ 53"
  proof (rule round_half_even_le_int)
    have "v < pow2 (ilog2 v + 1)" by (rule ilog2_bounds(2) [OF v])
    also have "\<dots> \<le> pow2 (?e + 53)" by (simp add: ulp_exp_def)
    also have "\<dots> = 2 ^ 53 * pow2 ?e" by (simp add: pow2_add) (simp add: pow2_def)
    finally have "v / pow2 ?e \<le> 2 ^ 53" by (simp add: pos_divide_le_eq)
    then show "v / pow2 ?e \<le> of_int (2 ^ 53)" by simp
  qed
  moreover have "- 1074 \<le> ?e" by (simp add: ulp_exp_def)
  ultimately show ?thesis by blast
qed

lemma rne_idem [simp]: "rne (rne v) = rne v"
  using rne_form [of v] rne_representable by metis

lemma rne_double: "rne v = v \<Longrightarrow> rne (2 * v) = 2 * v"
proof -
  assume r: "rne v = v"
  obtain m e where f: "rne v = of_int m * pow2 e" "0 \<le> m" "m \<le> 2 ^ 53" "- 1074 \<le> e"
    using rne_form by blast
  then have "2 * v = of_int m * pow2 (e + 1)" using r by (simp add: pow2_add)
  then show ?thesis using f by (intro rne_representable [of _ m "e + 1"]) simp_all
qed

lemma rnd_idem: "rnd v = Fin r \<Longrightarrow> 0 \<le> v \<Longrightarrow> rnd r = Fin r \<and> rne r = r \<and> r = rne v"
proof -
  assume a: "rnd v = Fin r" "0 \<le> v"
  then have "r = rne v" "rne v < 2 ^ 1024" by (auto simp: rnd_def rnd_pos_alt split: if_splits)
  then show ?thesis using rne_nonneg [of v] by (simp add: rnd_def rnd_pos_alt not_le del: rne_nonneg)
qed

end
