(* ===== verification/Amount.thy ===== *)
theory Amount
  imports Float64
begin

text \<open>
  \<open>core/model/amount.go\<close>: amounts are 64-bit signed integers counting millionths of a unit. The
  checked operations return an error instead of wrapping; \<open>Add\<close>, \<open>Mul\<close> and \<open>FromFloat\<close> panic,
  which is \<open>Inl\<close> of an error with the mark of a panic.
\<close>

type_synonym amount = int64

definition AmountScale :: int64 where
  "AmountScale = 1000000"

text \<open>
  The conversion \<open>Amount(f)\<close> of a float. Out of range, the result is machine dependent; here it is
  the one of amd64, the integer indefinite value.
\<close>

definition amount_of_float :: "float64 \<Rightarrow> amount" where
  "amount_of_float f = (case cvt_int64 f of Some a \<Rightarrow> a | None \<Rightarrow> minInt64)"

text \<open>\<open>math.Nextafter(float64(math.MaxInt64), 0)\<close>: the double below \<open>2 ^ 63\<close>.\<close>

definition maxInt64Float :: float64 where
  "maxInt64Float = Fin (2 ^ 63 - 2 ^ 10)"

definition FromFloatChecked :: "float64 \<Rightarrow> err + amount" where
  "FromFloatChecked f =
     guard (fisnan f \<or> fisinf f) (errorf ''invalid amount'')
     (guard (flt f (Fin 0)) (errorf ''amount must be non-negative'')
     (let scaled = fmul f (of_int64 AmountScale) in
      guard (fisnan scaled \<or> fisinf scaled) (errorf ''amount overflow'')
      (let rounded = fround scaled in
       guard (flt rounded (Fin 0) \<or> flt maxInt64Float rounded) (errorf ''amount overflow'')
       (Inr (amount_of_float rounded)))))"

definition FromFloat :: "float64 \<Rightarrow> err + amount" where
  "FromFloat f = map_err panic (FromFloatChecked f)"

definition ToFloat :: "amount \<Rightarrow> float64" where
  "ToFloat a = fdiv (of_int64 a) (of_int64 AmountScale)"

definition add_overflows :: "amount \<Rightarrow> amount \<Rightarrow> bool" where
  "add_overflows a b \<longleftrightarrow> (0 <s b \<and> maxInt64 - b <s a) \<or> (b <s 0 \<and> a <s minInt64 - b)"

definition Add :: "amount \<Rightarrow> amount \<Rightarrow> err + amount" where
  "Add a b = guard (add_overflows a b) (panic (errorf ''amount overflow'')) (Inr (a + b))"

definition CheckedAdd :: "amount \<Rightarrow> amount \<Rightarrow> err + amount" where
  "CheckedAdd a b = guard (add_overflows a b) (errorf ''amount overflow'') (Inr (a + b))"

definition Sub :: "amount \<Rightarrow> amount \<Rightarrow> err + amount" where
  "Sub a b =
     guard (b <s 0) (errorf ''amount must be non-negative'')
     (guard (a <s b) (errorf ''insufficient amount'')
     (Inr (a - b)))"

definition Mul :: "amount \<Rightarrow> float64 \<Rightarrow> err + amount" where
  "Mul a ratio =
     guard (fisnan ratio \<or> fisinf ratio \<or> flt ratio (Fin 0)) (panic (errorf ''invalid amount ratio''))
     (let scaled = fmul (of_int64 a) ratio in
      guard (flt (Fin (2 ^ 63)) scaled) (panic (errorf ''amount overflow''))
      (Inr (amount_of_float (fround scaled))))"

definition validAmount :: "amount \<Rightarrow> bool" where
  "validAmount a \<longleftrightarrow> 0 <s a"

definition validFlowAmount :: "amount \<Rightarrow> bool" where
  "validFlowAmount a \<longleftrightarrow> 0 <s a"

section \<open>Signed arithmetic without wrap-around\<close>

lemma sint_range64: "- (2 ^ 63) \<le> sint (a :: int64)" "sint (a :: int64) < 2 ^ 63"
  using sint_greater_eq [of a] sint_less [of a] by simp_all

lemma sint_add64:
  "- (2 ^ 63) \<le> sint a + sint b \<Longrightarrow> sint a + sint b < 2 ^ 63 \<Longrightarrow> sint (a + b :: int64) = sint a + sint b"
  by (simp add: sint_word_add signed_take_bit_int_eq_self)

lemma sint_sub64:
  "- (2 ^ 63) \<le> sint a - sint b \<Longrightarrow> sint a - sint b < 2 ^ 63 \<Longrightarrow> sint (a - b :: int64) = sint a - sint b"
  by (simp add: sint_word_diff signed_take_bit_int_eq_self)

lemma validAmount_iff [simp]: "validAmount a \<longleftrightarrow> 0 < sint a"
  by (simp add: validAmount_def word_sless_alt)

lemma validFlowAmount_iff [simp]: "validFlowAmount a \<longleftrightarrow> 0 < sint a"
  by (simp add: validFlowAmount_def word_sless_alt)

lemma add_overflows_iff:
  "add_overflows a b \<longleftrightarrow> \<not> (- (2 ^ 63) \<le> sint a + sint b \<and> sint a + sint b < 2 ^ 63)"
proof -
  have ra: "- (2 ^ 63) \<le> sint a" "sint a < 2 ^ 63" and rb: "- (2 ^ 63) \<le> sint b" "sint b < 2 ^ 63"
    by (rule sint_range64)+
  have mx: "sint maxInt64 = 2 ^ 63 - 1" and mn: "sint minInt64 = - (2 ^ 63)" by simp_all
  have hi: "0 < sint b \<Longrightarrow> sint (maxInt64 - b) = 2 ^ 63 - 1 - sint b"
    using rb sint_sub64 [of maxInt64 b] unfolding mx by linarith
  have lo: "sint b < 0 \<Longrightarrow> sint (minInt64 - b) = - (2 ^ 63) - sint b"
    using rb sint_sub64 [of minInt64 b] unfolding mn by linarith
  consider "0 < sint b" | "sint b = 0" | "sint b < 0" by linarith
  then show ?thesis
  proof cases
    case 1
    then show ?thesis using ra rb hi by (simp add: add_overflows_def word_sless_alt) linarith
  next
    case 2
    then show ?thesis using ra by (simp add: add_overflows_def word_sless_alt)
  next
    case 3
    then show ?thesis using ra rb lo by (simp add: add_overflows_def word_sless_alt) linarith
  qed
qed

lemma CheckedAdd_Inr:
  "CheckedAdd a b = Inr c \<longleftrightarrow> sint c = sint a + sint b"
proof
  assume "CheckedAdd a b = Inr c"
  then show "sint c = sint a + sint b"
    by (auto simp: CheckedAdd_def add_overflows_iff sint_add64)
next
  assume c: "sint c = sint a + sint b"
  then have "- (2 ^ 63) \<le> sint a + sint b" "sint a + sint b < 2 ^ 63"
    using sint_range64 [of c] by simp_all
  then have "\<not> add_overflows a b" "sint (a + b) = sint c"
    using c by (simp_all add: add_overflows_iff sint_add64)
  then show "CheckedAdd a b = Inr c" by (simp add: CheckedAdd_def signed_word_eqI)
qed

lemma CheckedAdd_Inl:
  "CheckedAdd a b = Inl e \<longleftrightarrow> e = errorf ''amount overflow''
     \<and> \<not> (- (2 ^ 63) \<le> sint a + sint b \<and> sint a + sint b < 2 ^ 63)"
  by (auto simp: CheckedAdd_def add_overflows_iff guard_Inl)

lemma Sub_Inr:
  "Sub a b = Inr c \<longleftrightarrow> 0 \<le> sint b \<and> sint b \<le> sint a \<and> sint c = sint a - sint b"
proof -
  have "sint (a - b) = sint a - sint b" if "0 \<le> sint b" "sint b \<le> sint a"
    using that sint_range64 [of a] sint_range64 [of b] by (intro sint_sub64) linarith+
  moreover have "a - b = c \<longleftrightarrow> sint (a - b) = sint c"
    by (auto intro: signed_word_eqI)
  ultimately show ?thesis
    by (auto simp: Sub_def word_sless_alt not_less)
qed

lemma Sub_Inl: "(\<exists>e. Sub a b = Inl e) \<longleftrightarrow> sint b < 0 \<or> sint a < sint b"
  by (auto simp: Sub_def word_sless_alt guard_def)

section \<open>Amounts and floats\<close>

lemma of_int64_exact: "0 \<le> sint a \<Longrightarrow> sint a \<le> 2 ^ 53 \<Longrightarrow> of_int64 a = Fin (of_int (sint a))"
proof -
  assume a: "0 \<le> sint a" "sint a \<le> 2 ^ 53"
  then have "nat (sint a) \<le> 2 ^ 53" by simp
  from rnd_of_nat [OF this] show ?thesis using a(1) by (simp add: of_int64_def)
qed

lemma scale_exact: "of_int64 AmountScale = Fin 1000000"
  using of_int64_exact [of AmountScale] by (simp add: AmountScale_def)

lemma fisnan_fround [simp]: "fisnan (fround x) = fisnan x"
  and fisinf_fround [simp]: "fisinf (fround x) = fisinf x"
  by (cases x; simp)+

lemma FromFloatChecked_Inr:
  assumes "FromFloatChecked f = Inr a"
  shows "is_fin f \<and> fnonneg f \<and> 0 \<le> sint a \<and> sint a \<le> 2 ^ 63 - 2 ^ 10"
proof -
  let ?r = "fround (fmul f (of_int64 AmountScale))"
  have f: "\<not> fisnan f" "\<not> fisinf f" "\<not> flt f (Fin 0)"
    and s: "\<not> fisnan (fmul f (of_int64 AmountScale))" "\<not> fisinf (fmul f (of_int64 AmountScale))"
    and r: "\<not> flt ?r (Fin 0)" "\<not> flt maxInt64Float ?r" and a: "a = amount_of_float ?r"
    using assms by (auto simp: FromFloatChecked_def Let_def)
  have "0 \<le> sint a \<and> sint a \<le> 2 ^ 63 - 2 ^ 10"
  proof (cases ?r)
    case (Fin q)
    then have q: "0 \<le> q" "q \<le> 2 ^ 63 - 2 ^ 10" using r by (simp_all add: maxInt64Float_def)
    have "\<lfloor>q\<rfloor> \<le> \<lfloor>2 ^ 63 - 2 ^ 10 :: rat\<rfloor>" by (rule floor_mono) (rule q(2))
    also have "\<lfloor>2 ^ 63 - 2 ^ 10 :: rat\<rfloor> = 2 ^ 63 - 2 ^ 10" by (simp add: floor_eq_iff)
    finally have t: "0 \<le> \<lfloor>q\<rfloor>" "\<lfloor>q\<rfloor> \<le> 2 ^ 63 - 2 ^ 10" using q(1) by simp_all
    then have "a = of_int \<lfloor>q\<rfloor>" using Fin q by (simp add: a amount_of_float_def Let_def)
    then have "sint a = \<lfloor>q\<rfloor>" using t by (simp add: signed_of_int signed_take_bit_int_eq_self)
    then show ?thesis using t by simp
  next
    case NegZero
    then show ?thesis by (simp add: a amount_of_float_def)
  next
    case NaN
    then show ?thesis using s fisnan_fround [of "fmul f (of_int64 AmountScale)"] by simp
  next
    case (Inf b)
    then show ?thesis using s fisinf_fround [of "fmul f (of_int64 AmountScale)"] by simp
  qed
  moreover have "is_fin f" using f by (cases f) auto
  moreover have "fnonneg f" using f by (simp add: fnonneg_def)
  ultimately show ?thesis by blast
qed

lemma cvt_int64_of_int: "0 \<le> n \<Longrightarrow> n < 2 ^ 63 \<Longrightarrow> cvt_int64 (Fin (of_int n)) = Some (of_int n)"
  by (simp add: Let_def)

text \<open>Amounts up to \<open>2 ^ 50\<close> millionths survive the conversion to a float and back.\<close>

lemma scaled_roundtrip:
  fixes n :: int
  assumes n: "0 < n" "n \<le> 2 ^ 50"
  shows "\<lfloor>rne (rne (of_int n / 1000000) * 1000000) + 1/2\<rfloor> = n"
    and "rne (of_int n / 1000000) * 1000000 \<le> 2 ^ 51"
proof -
  let ?v = "of_int n / 1000000 :: rat"
  let ?w = "rne ?v * 1000000"
  let ?d = "1 / 2 ^ 53 :: rat"
  have np: "(1 :: rat) \<le> of_int n" "(of_int n :: rat) \<le> 2 ^ 50"
    using n(1) apply simp
    using n(2) by (metis of_int_le_iff of_int_numeral of_int_power)
  have small: "pow2 (- 1022) \<le> 1 / 2000000" "pow2 (- 1022) \<le> 1 / 2"
  proof -
    have "pow2 (- 1022) \<le> pow2 (- 21)" by simp
    also have "\<dots> \<le> 1 / 2000000" by (simp add: pow2_def)
    finally show "pow2 (- 1022) \<le> 1 / 2000000" .
    then show "pow2 (- 1022) \<le> 1 / 2" by simp
  qed
  have e1: "\<bar>rne ?v - ?v\<bar> \<le> ?v * ?d" using rne_rel_error [of ?v] small np by simp
  then have w: "\<bar>?w - of_int n\<bar> \<le> of_int n * ?d" using np(1) by (simp add: abs_le_iff field_simps)
  have ws: "?w - of_int n \<le> of_int n * ?d" "of_int n - ?w \<le> of_int n * ?d"
    using w unfolding abs_le_iff by linarith+
  have wl: "1 / 2 \<le> ?w" "?w \<le> 2 ^ 51" using ws np by (simp_all del: rne_nonneg)
  have e2: "\<bar>rne ?w - ?w\<bar> \<le> ?w * ?d" using rne_rel_error [of ?w] small wl by simp
  have es: "rne ?w - ?w \<le> ?w * ?d" "?w - rne ?w \<le> ?w * ?d"
    using e2 unfolding abs_le_iff by linarith+
  have "rne ?w - of_int n < 1/2" "of_int n - rne ?w < 1/2"
    using es ws np wl by (simp_all del: rne_nonneg)
  then show "\<lfloor>rne ?w + 1/2\<rfloor> = n" by (simp add: floor_eq_iff)
  show "?w \<le> 2 ^ 51" by (rule wl)
qed

lemma FromFloat_ToFloat:
  assumes "0 \<le> sint a" "sint a \<le> 2 ^ 50"
  shows "FromFloatChecked (ToFloat a) = Inr a"
proof (cases "sint a = 0")
  case True
  then have "a = 0" using signed_word_eqI [of a 0] by simp
  moreover have "\<lfloor>1 / 2 :: rat\<rfloor> = 0" by (simp add: floor_eq_iff)
  ultimately show ?thesis
    by (simp add: FromFloatChecked_def ToFloat_def of_int64_exact scale_exact fzero_def
        amount_of_float_def maxInt64Float_def Let_def)
next
  case False
  obtain n where sn: "sint a = n" by blast
  let ?x = "rne (of_int n / 1000000)"
  let ?y = "rne (?x * 1000000)"
  have n: "0 < n" "n \<le> 2 ^ 50" using assms False by (simp_all add: sn)
  note rt = scaled_roundtrip [OF n]
  have np: "(0 :: rat) < of_int n" using n(1) by (simp only: of_int_0_less_iff)
  have "(of_int n :: rat) \<le> of_int (2 ^ 50)" using n(2) by (simp only: of_int_le_iff)
  then have np2: "(of_int n :: rat) \<le> 2 ^ 50" by simp
  have big: "(2 :: rat) ^ 51 \<le> (2 ^ 53 - 1) * 2 ^ 971" by simp
  have fa: "of_int64 a = Fin (of_int n)" using of_int64_exact [of a] n unfolding sn by simp
  have tf: "ToFloat a = Fin ?x"
    using np np2 rnd_finite [of "of_int n / 1000000"] big by (simp add: ToFloat_def scale_exact fa)
  have xpos: "?x \<noteq> 0"
  proof
    assume "?x = 0"
    then have "\<lfloor>(1/2 :: rat)\<rfloor> = n" using rt(1) by simp
    moreover have "\<lfloor>(1/2 :: rat)\<rfloor> = 0" by (simp add: floor_eq_iff)
    ultimately show False using n(1) by linarith
  qed
  have x0: "0 \<le> ?x" by simp
  have yr: "rnd (?x * 1000000) = Fin ?y"
    using rt(2) big x0 by (intro rnd_finite) simp_all
  have y0: "\<not> ?y < 0" using rne_nonneg [of "?x * 1000000"] by linarith
  have "(of_int n :: int64) = a" by (simp add: sn [symmetric])
  then have c: "cvt_int64 (Fin (of_int n)) = Some a"
    using cvt_int64_of_int [of n] n by (simp del: cvt_int64.simps)
  have fr: "fround (Fin ?y) = Fin (of_int n)" using y0 rt(1) by simp
  have m: "\<not> flt maxInt64Float (Fin (of_int n))" "\<not> flt (Fin (of_int n)) (Fin 0)"
    using np2 np by (simp_all add: maxInt64Float_def)
  have sc: "fmul (ToFloat a) (of_int64 AmountScale) = Fin ?y"
    using yr xpos by (simp add: tf scale_exact)
  have t: "\<not> flt (ToFloat a) (Fin 0)" "\<not> fisnan (ToFloat a)" "\<not> fisinf (ToFloat a)"
    using rne_nonneg by (simp_all add: tf not_less)
  then show ?thesis
    by (simp add: FromFloatChecked_def sc fr m c t amount_of_float_def Let_def
        del: fround.simps cvt_int64.simps flt.simps)
qed

text \<open>The panic guard of \<open>Mul\<close> misses the boundary: the largest amount times one wraps.\<close>

lemma of_int64_max: "of_int64 maxInt64 = Fin (2 ^ 63)"
proof -
  have p: "(9223372036854775808 :: rat) = pow2 63" by (simp only: pow2_def) simp
  have i: "ilog2 9223372036854775807 = 62"
    by (rule ilog2_unique) (simp_all add: pow2_def)
  have f: "\<lfloor>9223372036854775807 / 1024 :: rat\<rfloor> = 9007199254740991" by (simp add: floor_eq_iff)
  have "rne (9223372036854775807 :: rat) = 9223372036854775808"
    by (simp add: f rne_def ulp_exp_def i pow2_def round_half_even_def Let_def)
  moreover have "rnd (9223372036854775807 :: rat) = Fin (rne 9223372036854775807)"
    by (rule rnd_finite) simp_all
  ultimately show ?thesis by (simp add: of_int64_def)
qed

lemma Mul_max_wraps: "Mul maxInt64 (Fin 1) = Inr minInt64"
proof -
  have "rnd (9223372036854775808 :: rat) = Fin (9223372036854775808)"
    using rnd_representable [of 9223372036854775808 1 63] by (simp add: pow2_def)
  then show ?thesis by (simp add: Mul_def of_int64_max amount_of_float_def Let_def)
qed

end
