(* ===== verification/Canonical.thy ===== *)
theory Canonical
  imports Prelude "HOL-Library.Multiset"
begin

unbundle bit_operations_syntax

text \<open>
  \<open>core/canonical/encode.go\<close>: the deterministic encoding under every identifier and signature.
  A value of the Go type \<open>any\<close> is a \<open>cval\<close>: its constructors are the kinds that
  \<open>encodeValue\<close> distinguishes (a named integer type such as \<open>Amount\<close> has the kind of its
  underlying type, a named byte slice is a slice of unsigned integers). A Go map is the list of its
  entries in enumeration order.

  The locale \<open>prefix_code\<close> states what every encoder of the file promises: no encoding is a
  proper prefix of another, so that concatenated encodings can be told apart. The encoders of
  lengths, strings, integers and values are interpretations of it.
\<close>

section \<open>Prefix codes\<close>

locale prefix_code =
  fixes enc :: "'a \<Rightarrow> bytes" and ok :: "'a \<Rightarrow> bool"
  assumes prefix_free: "ok x \<Longrightarrow> ok y \<Longrightarrow> enc x @ r = enc y @ s \<Longrightarrow> x = y \<and> r = s"
begin

lemma enc_inj: "ok x \<Longrightarrow> ok y \<Longrightarrow> enc x = enc y \<Longrightarrow> x = y"
  using prefix_free [of x y "[]" "[]"] by simp

lemma concat_inj:
  "length xs = length ys \<Longrightarrow> list_all ok xs \<Longrightarrow> list_all ok ys
    \<Longrightarrow> concat (map enc xs) @ r = concat (map enc ys) @ s \<Longrightarrow> xs = ys \<and> r = s"
proof (induction xs ys rule: list_induct2)
  case (Cons x xs y ys)
  have "x = y \<and> concat (map enc xs) @ r = concat (map enc ys) @ s"
    using Cons.prems by (intro prefix_free) simp_all
  then show ?case using Cons by simp
qed simp

end

section \<open>The encoders\<close>

definition tagFields :: byte where "tagFields = 0x66"
definition tagString :: byte where "tagString = 0x73"
definition tagBytes :: byte where "tagBytes = 0x62"
definition tagInt :: byte where "tagInt = 0x69"
definition tagUint :: byte where "tagUint = 0x75"
definition tagList :: byte where "tagList = 0x6C"
definition tagMap :: byte where "tagMap = 0x6D"

lemmas tag_defs = tagFields_def tagString_def tagBytes_def tagInt_def tagUint_def tagList_def
  tagMap_def

datatype cval =
    VNil
  | VString string
  | VBytes bytes
  | VInt int64
  | VUint uint64
  | VList "cval list"
  | VMap "(string \<times> cval) list"
  | VMapBadKey string
  | VOther string

type_synonym field = "string \<times> cval"

lemma drop_bit_7_less: "\<not> (x :: uint64) < 0x80 \<Longrightarrow> unat (drop_bit 7 x) < unat x"
proof -
  assume "\<not> x < 0x80"
  then have "0 < unat x" by (simp add: word_less_nat_alt)
  then show ?thesis by (simp add: drop_bit_eq_div unat_div)
qed

function writeUvarint :: "uint64 \<Rightarrow> bytes" where
  "writeUvarint x =
     (if x < 0x80 then [ucast x] else (ucast x OR 0x80) # writeUvarint (drop_bit 7 x))"
  by pat_completeness auto
termination by (relation "measure unat") (simp_all add: drop_bit_7_less)

declare writeUvarint.simps [simp del]

definition encodeString :: "string \<Rightarrow> bytes" where
  "encodeString s = tagString # writeUvarint (of_nat (length s)) @ str_bytes s"

definition encodeBytes :: "bytes \<Rightarrow> bytes" where
  "encodeBytes b = tagBytes # writeUvarint (of_nat (length b)) @ b"

definition zigzag :: "int64 \<Rightarrow> uint64" where
  "zigzag n = push_bit 1 n XOR signed_drop_bit 63 n"

definition encodeInt :: "int64 \<Rightarrow> bytes" where
  "encodeInt n = tagInt # writeUvarint (zigzag n)"

definition encodeUint :: "uint64 \<Rightarrow> bytes" where
  "encodeUint n = tagUint # writeUvarint n"

text \<open>
  The verb \<open>%q\<close>. It appears in error texts only; bytes above \<open>0x7F\<close> are escaped here,
  as \<open>strconv.Quote\<close> escapes a byte that is not part of a UTF-8 sequence.
\<close>

definition quote_char :: "char \<Rightarrow> string" where
  "quote_char c = (let n = (of_char c :: nat) in
     if c = CHR 0x22 then [CHR 0x5C, CHR 0x22] else if c = CHR 0x5C then [CHR 0x5C, CHR 0x5C]
     else if n = 7 then [CHR 0x5C, CHR ''a''] else if n = 8 then [CHR 0x5C, CHR ''b'']
     else if n = 9 then [CHR 0x5C, CHR ''t''] else if n = 10 then [CHR 0x5C, CHR ''n'']
     else if n = 11 then [CHR 0x5C, CHR ''v''] else if n = 12 then [CHR 0x5C, CHR ''f'']
     else if n = 13 then [CHR 0x5C, CHR ''r'']
     else if 32 \<le> n \<and> n < 127 then [c]
     else [CHR 0x5C, CHR ''x''] @ hex_byte (of_nat n))"

definition go_quote :: "string \<Rightarrow> string" where
  "go_quote s = [CHR 0x22] @ concat (map quote_char s) @ [CHR 0x22]"

fun encodeElems :: "nat \<Rightarrow> (err + bytes) list \<Rightarrow> err + bytes" where
  "encodeElems i [] = Inr []"
| "encodeElems i (r # rs) =
     attempt (map_err (wrap_err (at_index ''index '' i)) r) (\<lambda>b.
     attempt (encodeElems (i + 1) rs) (\<lambda>bs. Inr (b @ bs)))"

fun encodeEntries :: "string \<Rightarrow> (string \<times> (err + bytes)) list \<Rightarrow> err + bytes" where
  "encodeEntries what [] = Inr []"
| "encodeEntries what ((k, r) # rs) =
     attempt (map_err (wrap_err (what @ go_quote k)) r) (\<lambda>b.
     attempt (encodeEntries what rs) (\<lambda>bs. Inr (encodeString k @ b @ bs)))"

fun encodeValue :: "cval \<Rightarrow> err + bytes" where
  "encodeValue VNil = Inl (errorf ''unsupported type <nil>'')"
| "encodeValue (VString s) = Inr (encodeString s)"
| "encodeValue (VBytes b) = Inr (encodeBytes b)"
| "encodeValue (VInt n) = Inr (encodeInt n)"
| "encodeValue (VUint n) = Inr (encodeUint n)"
| "encodeValue (VList vs) =
     attempt (encodeElems 0 (map encodeValue vs)) (\<lambda>bs.
     Inr (tagList # writeUvarint (of_nat (length vs)) @ bs))"
| "encodeValue (VMap m) =
     attempt (encodeEntries ''map key '' (sort_key fst (map (\<lambda>p. (fst p, encodeValue (snd p))) m))) (\<lambda>bs.
     Inr (tagMap # writeUvarint (of_nat (length m)) @ bs))"
| "encodeValue (VMapBadKey t) = Inl (errorfs [''unsupported map key type '', t])"
| "encodeValue (VOther t) = Inl (errorfs [''unsupported type '', t])"

definition EncodeFields :: "field list \<Rightarrow> err + bytes" where
  "EncodeFields fields =
     attempt (encodeEntries ''field '' (map (\<lambda>p. (fst p, encodeValue (snd p))) fields)) (\<lambda>bs.
     Inr (tagFields # writeUvarint (of_nat (length fields)) @ bs))"

section \<open>Lengths and integers\<close>

lemma uvarint_ne [simp]: "writeUvarint x \<noteq> []"
  by (subst writeUvarint.simps) simp

lemma bit_128: "bit (0x80 :: byte) n \<longleftrightarrow> n = 7"
  using bit_exp_iff [where 'a = byte, of 7 n] by auto

lemma low_bits_determine:
  assumes "(ucast x :: byte) OR 0x80 = ucast y OR 0x80" and "drop_bit 7 x = drop_bit 7 (y :: uint64)"
  shows "x = y"
proof (rule bit_word_eqI)
  fix n assume n: "n < LENGTH(64)"
  show "bit x n = bit y n"
  proof (cases "n < 7")
    case True
    have "bit ((ucast x :: byte) OR 0x80) n = bit ((ucast y :: byte) OR 0x80) n"
      using assms(1) by simp
    then show ?thesis using True unfolding bit_or_iff bit_128 by (simp add: bit_ucast_iff)
  next
    case False
    have "bit (drop_bit 7 x) (n - 7) = bit (drop_bit 7 y) (n - 7)" using assms(2) by simp
    then show ?thesis using False by (simp add: bit_simps)
  qed
qed

lemma top_bit_small: "(x :: uint64) < 0x80 \<Longrightarrow> \<not> bit (ucast x :: byte) 7"
proof
  assume x: "x < 0x80" and "bit (ucast x :: byte) 7"
  then have "bit (unat x) 7" by (simp add: bit_simps)
  then have "odd (unat x div 128)" by (simp add: bit_iff_odd)
  moreover have "unat x < 128" using x by (simp add: word_less_nat_alt)
  ultimately show False by simp
qed

lemma small_ucast_inj: "(x :: uint64) < 0x80 \<Longrightarrow> y < 0x80 \<Longrightarrow> (ucast x :: byte) = ucast y \<Longrightarrow> x = y"
proof -
  assume x: "x < 0x80" "y < 0x80" and e: "(ucast x :: byte) = ucast y"
  from x have "unat (ucast x :: byte) = unat x" "unat (ucast y :: byte) = unat y"
    by (simp_all add: unsigned_ucast_eq take_bit_nat_eq_self word_less_nat_alt)
  with e have "unat x = unat y" by metis
  then show "x = y" by (rule word_unat_eq_iff [THEN iffD2])
qed

lemma top_bit_set [simp]: "bit ((ucast (x :: uint64) :: byte) OR 0x80) 7"
  unfolding bit_or_iff bit_128 by simp

lemma writeUvarint_prefix:
  "writeUvarint x @ r = writeUvarint y @ s \<Longrightarrow> x = y \<and> r = s"
proof (induction x arbitrary: y rule: writeUvarint.induct)
  case (1 x)
  note eq = 1 (2)
  show ?case
  proof (cases "x < 0x80")
    case True
    have "y < 0x80"
    proof (rule ccontr)
      assume "\<not> y < 0x80"
      then have "(ucast x :: byte) = ucast y OR 0x80"
        using eq True by (simp add: writeUvarint.simps [of x] writeUvarint.simps [of y])
      then show False using top_bit_small [OF True] top_bit_set [of y] by metis
    qed
    then show ?thesis
      using eq True by (simp add: writeUvarint.simps [of x] writeUvarint.simps [of y] small_ucast_inj)
  next
    case False
    have y: "\<not> y < 0x80"
    proof
      assume y: "y < 0x80"
      then have "(ucast y :: byte) = ucast x OR 0x80"
        using eq False by (simp add: writeUvarint.simps [of x] writeUvarint.simps [of y])
      then show False using top_bit_small [OF y] top_bit_set [of x] by metis
    qed
    have "(ucast x :: byte) OR 0x80 = ucast y OR 0x80"
      and t: "writeUvarint (drop_bit 7 x) @ r = writeUvarint (drop_bit 7 y) @ s"
      using eq False y by (simp_all add: writeUvarint.simps [of x] writeUvarint.simps [of y])
    moreover have "drop_bit 7 x = drop_bit 7 y \<and> r = s" using 1 (1) [OF False t] .
    ultimately show ?thesis using low_bits_determine by blast
  qed
qed

interpretation uvarint: prefix_code writeUvarint "\<lambda>_. True"
  by unfold_locales (rule writeUvarint_prefix)

lemma writeUvarint_length_aux:
  "unat x < 2 ^ (7 * n) \<Longrightarrow> 0 < n \<Longrightarrow> length (writeUvarint x) \<le> n"
proof (induction n arbitrary: x)
  case (Suc n)
  show ?case
  proof (cases "x < 0x80")
    case True
    then show ?thesis by (simp add: writeUvarint.simps [of x])
  next
    case False
    have "0 < n"
    proof (rule ccontr)
      assume "\<not> 0 < n"
      then show False using Suc.prems(1) False by (simp add: word_less_nat_alt)
    qed
    moreover have "unat (drop_bit 7 x) < 2 ^ (7 * n)"
    proof -
      have "unat x < 128 * 2 ^ (7 * n)" using Suc.prems(1) by (simp add: power_add)
      then have "unat x div 128 < 2 ^ (7 * n)" by (simp add: less_mult_imp_div_less mult.commute)
      then show ?thesis by (simp add: drop_bit_eq_div unat_div)
    qed
    ultimately show ?thesis using Suc.IH False by (simp add: writeUvarint.simps [of x])
  qed
qed simp

text \<open>The encoder stays within the ten bytes of \<open>binary.MaxVarintLen64\<close>.\<close>

lemma writeUvarint_length: "length (writeUvarint x) \<le> 10"
proof -
  have "unat x < 2 ^ 64" using unsigned_less [of x] by simp
  then have "unat x < 2 ^ (7 * 10)" by simp
  from writeUvarint_length_aux [OF this] show ?thesis by simp
qed

lemma zigzag_bit:
  "n < 64 \<Longrightarrow> bit (zigzag x) n \<longleftrightarrow> (if n = 0 then bit x 63 else bit x (n - 1) \<noteq> bit x 63)"
  by (cases n) (auto simp: zigzag_def bit_xor_iff bit_push_bit_iff bit_signed_drop_bit_iff min_def simp del: push_bit_of_1 push_bit_Suc)

lemma zigzag_inj: "zigzag x = zigzag y \<longleftrightarrow> x = y"
proof
  assume e: "zigzag x = zigzag y"
  have t: "bit x 63 = bit y 63" using zigzag_bit [of 0 x] zigzag_bit [of 0 y] e by simp
  show "x = y"
  proof (rule bit_word_eqI)
    fix n assume n: "n < LENGTH(64)"
    show "bit x n = bit y n"
    proof (cases "n = 63")
      case False
      then show ?thesis
        using zigzag_bit [of "Suc n" x] zigzag_bit [of "Suc n" y] e t n by auto
    qed (use t in simp)
  qed
qed simp

section \<open>Values\<close>

text \<open>
  A value fits when every length in it is a Go length (below \<open>2 ^ 64\<close>). Two values that differ
  only in the enumeration order of a map have the same normal form.
\<close>

fun cv_fits :: "cval \<Rightarrow> bool" where
  "cv_fits (VString s) \<longleftrightarrow> length s < 2 ^ 64"
| "cv_fits (VBytes b) \<longleftrightarrow> length b < 2 ^ 64"
| "cv_fits (VList vs) \<longleftrightarrow> length vs < 2 ^ 64 \<and> (\<forall>v \<in> set vs. cv_fits v)"
| "cv_fits (VMap m) \<longleftrightarrow> length m < 2 ^ 64
     \<and> (\<forall>p \<in> set m. length (fst p) < 2 ^ 64 \<and> cv_fits (snd p))"
| "cv_fits _ \<longleftrightarrow> True"

fun cv_norm :: "cval \<Rightarrow> cval" where
  "cv_norm (VList vs) = VList (map cv_norm vs)"
| "cv_norm (VMap m) = VMap (sort_key fst (map (\<lambda>p. (fst p, cv_norm (snd p))) m))"
| "cv_norm v = v"

lemma of_nat_length_inj:
  "m < 2 ^ 64 \<Longrightarrow> n < 2 ^ 64 \<Longrightarrow> (of_nat m :: uint64) = of_nat n \<Longrightarrow> m = n"
proof -
  assume a: "m < 2 ^ 64" "n < 2 ^ 64" and "(of_nat m :: uint64) = of_nat n"
  then have "unat (of_nat m :: uint64) = unat (of_nat n :: uint64)" by simp
  then show "m = n" using a by (simp add: unat_of_nat)
qed

lemma encodeBytes_prefix:
  assumes "length a < 2 ^ 64" "length b < 2 ^ 64" "encodeBytes a @ r = encodeBytes b @ s"
  shows "a = b \<and> r = s"
proof -
  have "writeUvarint (of_nat (length a)) @ (a @ r) = writeUvarint (of_nat (length b)) @ (b @ s)"
    using assms(3) by (simp add: encodeBytes_def)
  then have "length a = length b" "a @ r = b @ s"
    using writeUvarint_prefix of_nat_length_inj [OF assms(1,2)] by blast+
  then show ?thesis by simp
qed

lemma encodeString_prefix:
  assumes "length a < 2 ^ 64" "length b < 2 ^ 64" "encodeString a @ r = encodeString b @ s"
  shows "a = b \<and> r = s"
proof -
  have "encodeBytes (str_bytes a) @ r = encodeBytes (str_bytes b) @ s"
    using assms(3) by (simp add: encodeBytes_def encodeString_def)
  from encodeBytes_prefix [OF _ _ this] assms(1,2) show ?thesis by simp
qed

lemma encodeInt_prefix: "encodeInt a @ r = encodeInt b @ s \<Longrightarrow> a = b \<and> r = s"
  using writeUvarint_prefix [of "zigzag a" r "zigzag b" s] by (simp add: encodeInt_def zigzag_inj)

lemma encodeUint_prefix: "encodeUint a @ r = encodeUint b @ s \<Longrightarrow> a = b \<and> r = s"
  using writeUvarint_prefix [of a r b s] by (simp add: encodeUint_def)

interpretation string_code: prefix_code encodeString "\<lambda>s. length s < 2 ^ 64"
  by unfold_locales (rule encodeString_prefix)

interpretation bytes_code: prefix_code encodeBytes "\<lambda>b. length b < 2 ^ 64"
  by unfold_locales (rule encodeBytes_prefix)

interpretation int_code: prefix_code encodeInt "\<lambda>_. True"
  by unfold_locales (rule encodeInt_prefix)

interpretation uint_code: prefix_code encodeUint "\<lambda>_. True"
  by unfold_locales (rule encodeUint_prefix)

definition told_apart :: "cval \<Rightarrow> bool" where
  "told_apart v \<longleftrightarrow> (\<forall>w b c r s. cv_fits w \<longrightarrow> encodeValue v = Inr b \<longrightarrow> encodeValue w = Inr c
      \<longrightarrow> b @ r = c @ s \<longrightarrow> cv_norm v = cv_norm w \<and> r = s)"

lemma told_apartD:
  "told_apart v \<Longrightarrow> cv_fits w \<Longrightarrow> encodeValue v = Inr b \<Longrightarrow> encodeValue w = Inr c
     \<Longrightarrow> b @ r = c @ s \<Longrightarrow> cv_norm v = cv_norm w \<and> r = s"
  unfolding told_apart_def by blast

lemma encodeElems_prefix:
  assumes "\<forall>v \<in> set vs. told_apart v"
    and "length vs = length ws" "\<forall>w \<in> set ws. cv_fits w"
    and "encodeElems i (map encodeValue vs) = Inr b" "encodeElems j (map encodeValue ws) = Inr c"
    and "b @ r = c @ s"
  shows "map cv_norm vs = map cv_norm ws \<and> r = s"
  using assms(2, 1, 3-)
proof (induction vs ws arbitrary: i j b c rule: list_induct2)
  case (Cons v vs w ws)
  from Cons.prems obtain b1 b2 c1 c2 where
    e: "encodeValue v = Inr b1" "encodeElems (i + 1) (map encodeValue vs) = Inr b2" "b = b1 @ b2"
       "encodeValue w = Inr c1" "encodeElems (j + 1) (map encodeValue ws) = Inr c2" "c = c1 @ c2"
    by auto
  have "cv_norm v = cv_norm w \<and> b2 @ r = c2 @ s"
    using told_apartD [of v w b1 c1 "b2 @ r" "c2 @ s"] Cons.prems(1,2,5) e by simp
  moreover from this have "map cv_norm vs = map cv_norm ws \<and> r = s"
    using Cons.IH [of "i + 1" b2 "j + 1" c2] Cons.prems e by auto
  ultimately show ?case by simp
qed simp

lemma encodeEntries_prefix:
  assumes "\<forall>v \<in> set vs. told_apart (snd v)"
    and "length vs = length ws"
    and "\<forall>w \<in> set ws. cv_fits (snd w) \<and> length (fst w) < 2 ^ 64" "\<forall>v \<in> set vs. length (fst v) < 2 ^ 64"
    and "encodeEntries t (map (\<lambda>p. (fst p, encodeValue (snd p))) vs) = Inr b"
        "encodeEntries u (map (\<lambda>p. (fst p, encodeValue (snd p))) ws) = Inr c"
    and "b @ r = c @ s"
  shows "map (\<lambda>p. (fst p, cv_norm (snd p))) vs = map (\<lambda>p. (fst p, cv_norm (snd p))) ws \<and> r = s"
  using assms(2, 1, 3-)
proof (induction vs ws arbitrary: b c rule: list_induct2)
  case (Cons v vs w ws)
  from Cons.prems obtain b1 b2 c1 c2 where
    e: "encodeValue (snd v) = Inr b1" "encodeEntries t (map (\<lambda>p. (fst p, encodeValue (snd p))) vs) = Inr b2"
       "b = encodeString (fst v) @ b1 @ b2"
       "encodeValue (snd w) = Inr c1" "encodeEntries u (map (\<lambda>p. (fst p, encodeValue (snd p))) ws) = Inr c2"
       "c = encodeString (fst w) @ c1 @ c2"
    by auto
  have k: "fst v = fst w \<and> b1 @ b2 @ r = c1 @ c2 @ s"
    using Cons.prems e by (intro encodeString_prefix) auto
  then have "cv_norm (snd v) = cv_norm (snd w) \<and> b2 @ r = c2 @ s"
    using told_apartD [of "snd v" "snd w" b1 c1 "b2 @ r" "c2 @ s"] Cons.prems(1,2) e by simp
  moreover from this have "map (\<lambda>p. (fst p, cv_norm (snd p))) vs = map (\<lambda>p. (fst p, cv_norm (snd p))) ws \<and> r = s"
    using Cons.IH [of b2 c2] Cons.prems e by auto
  ultimately show ?case using k by simp
qed simp

lemma insort_key_map: "insort_key fst (fst p, f (snd p)) (map (\<lambda>p. (fst p, f (snd p))) xs)
    = map (\<lambda>p. (fst p, f (snd p))) (insort_key fst p xs)"
  by (induction xs) auto

lemma sort_key_map: "sort_key fst (map (\<lambda>p. (fst p, f (snd p))) xs)
    = map (\<lambda>p. (fst p, f (snd p))) (sort_key fst xs)"
  by (induction xs) (simp_all add: insort_key_map)

lemma encodeValue_head:
  assumes "encodeValue v = Inr b"
  shows "b \<noteq> [] \<and> hd b = (case v of VString _ \<Rightarrow> tagString | VBytes _ \<Rightarrow> tagBytes | VInt _ \<Rightarrow> tagInt
     | VUint _ \<Rightarrow> tagUint | VList _ \<Rightarrow> tagList | VMap _ \<Rightarrow> tagMap | _ \<Rightarrow> 0)"
  using assms by (cases v) (auto simp: encodeString_def encodeBytes_def encodeInt_def encodeUint_def)

text \<open>The encoding of a value is self-delimiting and determines the value up to the order of maps.\<close>

lemma told_apartI:
  assumes "\<And>w b c r s. cv_fits w \<Longrightarrow> encodeValue v = Inr b \<Longrightarrow> encodeValue w = Inr c
      \<Longrightarrow> b @ r = c @ s \<Longrightarrow> hd b = hd c \<Longrightarrow> cv_norm v = cv_norm w \<and> r = s"
  shows "told_apart v"
  unfolding told_apart_def
proof (intro allI impI)
  fix w b c r s
  assume a: "cv_fits w" "encodeValue v = Inr b" "encodeValue w = Inr c" "b @ r = c @ s"
  have "b \<noteq> []" "c \<noteq> []" using encodeValue_head a by blast+
  then have "hd b = hd c" using a(4) by (metis hd_append2)
  then show "cv_norm v = cv_norm w \<and> r = s" using assms a by blast
qed

lemma list_header_prefix:
  assumes "m < 2 ^ 64" "n < 2 ^ 64"
    and "writeUvarint (of_nat m) @ b @ r = writeUvarint (of_nat n) @ c @ s"
  shows "m = n \<and> b @ r = c @ s"
  using writeUvarint_prefix [OF assms(3)] of_nat_length_inj [OF assms(1,2)] by blast

lemma encodeValue_told_apart: "cv_fits v \<Longrightarrow> told_apart v"
proof (induction v)
  case (VString x)
  show ?case
  proof (rule told_apartI)
    fix w b c r s
    assume a: "cv_fits w" "encodeValue (VString x) = Inr b" "encodeValue w = Inr c" "b @ r = c @ s" "hd b = hd c"
    then obtain y where "w = VString y"
      using encodeValue_head [OF a(2)] encodeValue_head [OF a(3)] by (cases w) (auto simp: tag_defs)
    then show "cv_norm (VString x) = cv_norm w \<and> r = s"
      using a VString.prems encodeString_prefix [of x y r s] by simp
  qed
next
  case (VBytes x)
  show ?case
  proof (rule told_apartI)
    fix w b c r s
    assume a: "cv_fits w" "encodeValue (VBytes x) = Inr b" "encodeValue w = Inr c" "b @ r = c @ s" "hd b = hd c"
    then obtain y where "w = VBytes y"
      using encodeValue_head [OF a(2)] encodeValue_head [OF a(3)] by (cases w) (auto simp: tag_defs)
    then show "cv_norm (VBytes x) = cv_norm w \<and> r = s"
      using a VBytes.prems encodeBytes_prefix [of x y r s] by simp
  qed
next
  case (VInt x)
  show ?case
  proof (rule told_apartI)
    fix w b c r s
    assume a: "cv_fits w" "encodeValue (VInt x) = Inr b" "encodeValue w = Inr c" "b @ r = c @ s" "hd b = hd c"
    then obtain y where "w = VInt y"
      using encodeValue_head [OF a(2)] encodeValue_head [OF a(3)] by (cases w) (auto simp: tag_defs)
    then show "cv_norm (VInt x) = cv_norm w \<and> r = s"
      using a encodeInt_prefix [of x r y s] by simp
  qed
next
  case (VUint x)
  show ?case
  proof (rule told_apartI)
    fix w b c r s
    assume a: "cv_fits w" "encodeValue (VUint x) = Inr b" "encodeValue w = Inr c" "b @ r = c @ s" "hd b = hd c"
    then obtain y where "w = VUint y"
      using encodeValue_head [OF a(2)] encodeValue_head [OF a(3)] by (cases w) (auto simp: tag_defs)
    then show "cv_norm (VUint x) = cv_norm w \<and> r = s"
      using a encodeUint_prefix [of x r y s] by simp
  qed
next
  case (VList vs)
  show ?case
  proof (rule told_apartI)
    fix w b c r s
    assume a: "cv_fits w" "encodeValue (VList vs) = Inr b" "encodeValue w = Inr c" "b @ r = c @ s" "hd b = hd c"
    then obtain ws where w: "w = VList ws"
      using encodeValue_head [OF a(2)] encodeValue_head [OF a(3)] by (cases w) (auto simp: tag_defs)
    from a w obtain b' c' where e: "encodeElems 0 (map encodeValue vs) = Inr b'"
      "b = tagList # writeUvarint (of_nat (length vs)) @ b'"
      "encodeElems 0 (map encodeValue ws) = Inr c'" "c = tagList # writeUvarint (of_nat (length ws)) @ c'"
      by auto
    have l: "length vs = length ws" "b' @ r = c' @ s"
      using a w e VList.prems list_header_prefix [of "length vs" "length ws" b' r c' s] by simp_all
    have "map cv_norm vs = map cv_norm ws \<and> r = s"
      using VList a(1) w e l by (intro encodeElems_prefix) simp_all
    then show "cv_norm (VList vs) = cv_norm w \<and> r = s" using w by simp
  qed
next
  case (VMap m)
  show ?case
  proof (rule told_apartI)
    fix w b c r s
    assume a: "cv_fits w" "encodeValue (VMap m) = Inr b" "encodeValue w = Inr c" "b @ r = c @ s" "hd b = hd c"
    then obtain m' where w: "w = VMap m'"
      using encodeValue_head [OF a(2)] encodeValue_head [OF a(3)] by (cases w) (auto simp: tag_defs)
    let ?e = "\<lambda>m. map (\<lambda>p. (fst p, encodeValue (snd p))) (sort_key fst m)"
    from a w obtain b' c' where e: "encodeEntries ''map key '' (?e m) = Inr b'"
      "b = tagMap # writeUvarint (of_nat (length m)) @ b'"
      "encodeEntries ''map key '' (?e m') = Inr c'" "c = tagMap # writeUvarint (of_nat (length m')) @ c'"
      by (auto simp: sort_key_map)
    have l: "length m = length m'" "b' @ r = c' @ s"
      using a w e VMap.prems list_header_prefix [of "length m" "length m'" b' r c' s] by simp_all
    have t: "\<forall>v \<in> set (sort_key fst m). told_apart (snd v)"
      using VMap by (auto simp: snds.simps)
    have "map (\<lambda>p. (fst p, cv_norm (snd p))) (sort_key fst m)
        = map (\<lambda>p. (fst p, cv_norm (snd p))) (sort_key fst m') \<and> r = s"
      using t l a(1) w e VMap.prems by (intro encodeEntries_prefix [where t = "''map key ''" and u = "''map key ''"]) simp_all
    then show "cv_norm (VMap m) = cv_norm w \<and> r = s" using w by (simp add: sort_key_map)
  qed
qed (auto simp: told_apart_def)

definition valueCode :: "cval \<Rightarrow> bytes" where
  "valueCode v = projr (encodeValue v)"

definition cv_plain :: "cval \<Rightarrow> bool" where
  "cv_plain v \<longleftrightarrow> cv_fits v \<and> cv_norm v = v \<and> \<not> isl (encodeValue v)"

interpretation value_code: prefix_code valueCode cv_plain
proof
  fix x y r s
  assume "cv_plain x" "cv_plain y" and e: "valueCode x @ r = valueCode y @ s"
  then obtain b c where "encodeValue x = Inr b" "encodeValue y = Inr c"
    and p: "cv_fits x" "cv_fits y" "cv_norm x = x" "cv_norm y = y"
    by (auto simp: cv_plain_def isl_def) (metis sum.exhaust)
  then show "x = y \<and> r = s"
    using e told_apartD [OF encodeValue_told_apart [OF p(1)] p(2), of b c r s] by (simp add: valueCode_def)
qed

section \<open>Fields\<close>

definition fields_fit :: "field list \<Rightarrow> bool" where
  "fields_fit fs \<longleftrightarrow> length fs < 2 ^ 64 \<and> (\<forall>f \<in> set fs. length (fst f) < 2 ^ 64 \<and> cv_fits (snd f))"

definition fields_norm :: "field list \<Rightarrow> field list" where
  "fields_norm fs = map (\<lambda>f. (fst f, cv_norm (snd f))) fs"

lemma EncodeFields_inj:
  assumes "EncodeFields fs = Inr b" "EncodeFields gs = Inr b" "fields_fit fs" "fields_fit gs"
  shows "fields_norm fs = fields_norm gs"
proof -
  let ?e = "map (\<lambda>p. (fst p, encodeValue (snd p)))"
  from assms(1,2) obtain b' c' where e: "encodeEntries ''field '' (?e fs) = Inr b'"
    "b = tagFields # writeUvarint (of_nat (length fs)) @ b'"
    "encodeEntries ''field '' (?e gs) = Inr c'" "b = tagFields # writeUvarint (of_nat (length gs)) @ c'"
    by (auto simp: EncodeFields_def)
  have l: "length fs = length gs" "b' @ [] = c' @ []"
    using e assms(3,4) list_header_prefix [of "length fs" "length gs" b' "[]" c' "[]"]
    by (simp_all add: fields_fit_def)
  have t: "\<forall>f \<in> set fs. told_apart (snd f)"
    using assms(3) encodeValue_told_apart by (auto simp: fields_fit_def)
  have "map (\<lambda>p. (fst p, cv_norm (snd p))) fs = map (\<lambda>p. (fst p, cv_norm (snd p))) gs \<and> [] = ([] :: bytes)"
    using t l e assms(3,4)
    by (intro encodeEntries_prefix [where t = "''field ''" and u = "''field ''"]) (simp_all add: fields_fit_def)
  then show ?thesis by (simp add: fields_norm_def)
qed

text \<open>A map is encoded the same way whatever the order in which the runtime enumerates it.\<close>

lemma sort_key_perm:
  assumes "mset m = mset m'" "distinct (map fst m)"
  shows "sort_key fst m = sort_key fst m'"
proof (rule properties_for_sort_key)
  show "mset (sort_key fst m') = mset m" using assms by simp
  fix x assume "x \<in> set (sort_key fst m')"
  then have "x \<in> set m" using assms(1) by (metis set_mset_mset set_sort)
  then have "filter (\<lambda>y. fst x = fst y) m = [x]"
    using assms(2) by (induction m) (auto simp: filter_empty_conv image_iff)
  moreover have "filter (\<lambda>y. fst x = fst y) m' = [x]"
  proof -
    have "mset (filter (\<lambda>y. fst x = fst y) m') = {#x#}"
      using assms(1) calculation by (metis mset_filter mset_single_iff)
    then show ?thesis by (simp only: mset_single_iff)
  qed
  ultimately show "filter (\<lambda>y. fst x = fst y) (sort_key fst m') = filter (\<lambda>y. fst x = fst y) m"
    by (simp add: filter_sort)
qed simp

lemma encodeValue_map_order:
  assumes "mset m = mset m'" "distinct (map fst m)"
  shows "encodeValue (VMap m) = encodeValue (VMap m')"
proof -
  have "length m = length m'" using assms(1) by (metis size_mset)
  then show ?thesis using sort_key_perm [OF assms] by (simp add: sort_key_map)
qed

section \<open>Properties\<close>

text \<open>the varint that ends every length and integer takes at most the ten bytes that the encoder
  reserves for it, and is never empty.\<close>

lemma writeUvarint_at_most_ten: "1 \<le> length (writeUvarint x) \<and> length (writeUvarint x) \<le> 10"
  using writeUvarint_length [of x] uvarint_ne [of x] by (cases "writeUvarint x") auto

end
