(* ===== verification/Crypto.thy ===== *)
theory Crypto
  imports Float64
begin

text \<open>
  \<open>core/crypto\<close>: hashes, signatures and authenticated encryption. BLAKE3, Ed25519 and
  XChaCha20-Poly1305 are outside the repository; they are fields of the record \<open>env\<close>, an argument
  of every definition that uses them, together with the exponential function. The wrappers of the package (length checks, hexadecimal
  text) are modelled here.

  Ed25519 private keys are the 64 bytes \<open>seed || public key\<close>, so \<open>Public()\<close> is the second half.
\<close>

type_synonym hash = "256 word"

record env =
  blake3_Sum256 :: "bytes \<Rightarrow> hash"
  ed25519_Sign :: "bytes \<Rightarrow> bytes \<Rightarrow> bytes"
  ed25519_Verify :: "bytes \<Rightarrow> bytes \<Rightarrow> bytes \<Rightarrow> bool"
  xchacha_Seal :: "bytes \<Rightarrow> bytes \<Rightarrow> bytes \<Rightarrow> bytes \<Rightarrow> bytes"
  xchacha_Open :: "bytes \<Rightarrow> bytes \<Rightarrow> bytes \<Rightarrow> bytes \<Rightarrow> err + bytes"
  math_Exp :: "float64 \<Rightarrow> float64"

type_synonym PublicKey = bytes
type_synonym PrivateKey = bytes
type_synonym Signature = bytes

section \<open>Hashes\<close>

text \<open>The 32 bytes of a hash, and a hash from its bytes.\<close>

definition hashBytes :: "hash \<Rightarrow> bytes" where
  "hashBytes h = be_bytes 32 (unat h)"

definition hashOf :: "bytes \<Rightarrow> hash" where
  "hashOf bs = of_nat (be_nat bs)"

definition sameHash :: "hash \<Rightarrow> hash \<Rightarrow> bool" where
  "sameHash a b \<longleftrightarrow> hashBytes a = hashBytes b"

definition HashBytes :: "'x env_scheme \<Rightarrow> bytes \<Rightarrow> hash" where
  "HashBytes E data = blake3_Sum256 E data"

definition HashHex :: "hash \<Rightarrow> string" where
  "HashHex h = hex_string (hashBytes h)"

definition hex_value :: "char \<Rightarrow> nat option" where
  "hex_value c = (let n = of_char c :: nat in
     if 48 \<le> n \<and> n \<le> 57 then Some (n - 48)
     else if 97 \<le> n \<and> n \<le> 102 then Some (n - 87)
     else if 65 \<le> n \<and> n \<le> 70 then Some (n - 55)
     else None)"

text \<open>\<open>hex.InvalidByteError\<close>, whose verb \<open>%#U\<close> shows the character when it is printable.\<close>

definition upper_hex_digit :: "nat \<Rightarrow> char" where
  "upper_hex_digit n = (if n < 10 then char_of (n + 48) else char_of (n + 55))"

definition InvalidByteError :: "char \<Rightarrow> err" where
  "InvalidByteError c = (let n = of_char c :: nat in
     errorfs [''encoding/hex: invalid byte: U+00'', [upper_hex_digit (n div 16), upper_hex_digit (n mod 16)],
       (if 32 \<le> n \<and> n < 127 then [CHR 0x20, CHR 0x27, c, CHR 0x27]
        else if 161 \<le> n \<and> n \<noteq> 173
          then [CHR 0x20, CHR 0x27, char_of (192 + n div 64), char_of (128 + n mod 64), CHR 0x27]
        else [])])"

fun hex_Decode :: "string \<Rightarrow> err + bytes" where
  "hex_Decode [] = Inr []"
| "hex_Decode [a] = (case hex_value a of
     None \<Rightarrow> Inl (InvalidByteError a) | Some _ \<Rightarrow> Inl (errorf ''encoding/hex: odd length hex string''))"
| "hex_Decode (a # b # cs) = (case hex_value a of
     None \<Rightarrow> Inl (InvalidByteError a)
   | Some x \<Rightarrow> (case hex_value b of
       None \<Rightarrow> Inl (InvalidByteError b)
     | Some y \<Rightarrow> attempt (hex_Decode cs) (\<lambda>bs. Inr (of_nat (x * 16 + y) # bs))))"

definition ParseHashHex :: "string \<Rightarrow> err + hash" where
  "ParseHashHex s =
     guard (length s \<noteq> 64)
       (errorfs [''invalid hash hex length: got '', dec_nat (length s), '', want 64''])
     (attempt (hex_Decode s) (\<lambda>bs. Inr (hashOf bs)))"

section \<open>Signatures\<close>

definition ed25519_Public :: "PrivateKey \<Rightarrow> PublicKey" where
  "ed25519_Public priv = drop 32 priv"

text \<open>The argument is the outcome of \<open>ed25519.GenerateKey\<close> on the system's random source.\<close>

definition GenerateKeypair :: "err + bytes \<times> bytes \<Rightarrow> err + PublicKey \<times> PrivateKey" where
  "GenerateKeypair generated = attempt generated (\<lambda>(pub, priv). Inr (pub, priv))"

definition Sign :: "'x env_scheme \<Rightarrow> PrivateKey \<Rightarrow> bytes \<Rightarrow> err + Signature" where
  "Sign E priv msg =
     guard (length priv \<noteq> 64)
       (errorfs [''invalid private key length: got '', dec_nat (length priv), '', want 64''])
     (Inr (ed25519_Sign E priv msg))"

definition Verify :: "'x env_scheme \<Rightarrow> PublicKey \<Rightarrow> bytes \<Rightarrow> Signature \<Rightarrow> bool" where
  "Verify E pub msg sig =
     (if length pub \<noteq> 32 \<or> length sig \<noteq> 64 then False else ed25519_Verify E pub msg sig)"

text \<open>
  The documented correctness of Ed25519 for one key pair: a signature has 64 bytes and verifies
  under the public half of the key that made it.
\<close>

definition signs_verify :: "'x env_scheme \<Rightarrow> PrivateKey \<Rightarrow> bool" where
  "signs_verify E priv \<longleftrightarrow> (\<forall>m. length (ed25519_Sign E priv m) = 64
     \<and> ed25519_Verify E (ed25519_Public priv) m (ed25519_Sign E priv m))"

section \<open>Encryption\<close>

definition validateXChaCha20Inputs :: "bytes \<Rightarrow> bytes \<Rightarrow> err + unit" where
  "validateXChaCha20Inputs key nonce =
     guard (length key \<noteq> 32)
       (errorfs [''invalid XChaCha20 key length: got '', dec_nat (length key), '', want 32''])
     (guard (length nonce \<noteq> 24)
       (errorfs [''invalid XChaCha20 nonce length: got '', dec_nat (length nonce), '', want 24''])
     (Inr ()))"

definition EncryptXChaCha20 ::
    "'x env_scheme \<Rightarrow> bytes \<Rightarrow> bytes \<Rightarrow> bytes \<Rightarrow> bytes \<Rightarrow> err + bytes" where
  "EncryptXChaCha20 E key nonce plaintext aad =
     attempt (validateXChaCha20Inputs key nonce) (\<lambda>_.
     Inr (xchacha_Seal E key nonce plaintext aad))"

definition DecryptXChaCha20 ::
    "'x env_scheme \<Rightarrow> bytes \<Rightarrow> bytes \<Rightarrow> bytes \<Rightarrow> bytes \<Rightarrow> err + bytes" where
  "DecryptXChaCha20 E key nonce ciphertext aad =
     attempt (validateXChaCha20Inputs key nonce) (\<lambda>_.
     xchacha_Open E key nonce ciphertext aad)"

text \<open>The argument \<open>readFull\<close> is the outcome of \<open>io.ReadFull\<close> on the system's random source.\<close>

definition RandomBytes :: "int \<Rightarrow> (nat \<Rightarrow> err + bytes) \<Rightarrow> err + bytes" where
  "RandomBytes n readFull =
     guard (n < 0) (errorfs [''invalid random byte count: '', dec_int n])
     (readFull (nat n))"

section \<open>Facts\<close>

lemma length_hashBytes [simp]: "length (hashBytes h) = 32"
  by (simp add: hashBytes_def)

lemma hashOf_hashBytes [simp]: "hashOf (hashBytes h) = h"
proof -
  have "unat h < 256 ^ 32" using unsigned_less [of h] by simp
  then show ?thesis by (simp add: hashOf_def hashBytes_def be_nat_be_bytes)
qed

lemma hashBytes_hashOf: "length bs = 32 \<Longrightarrow> hashBytes (hashOf bs) = bs"
proof -
  assume l: "length bs = 32"
  have "be_nat bs < 2 ^ 256" using be_nat_bound [of bs] l by simp
  then have "unat (of_nat (be_nat bs) :: hash) = be_nat bs" by (simp add: unat_of_nat)
  then show ?thesis using be_bytes_be_nat [of bs] l by (simp add: hashBytes_def hashOf_def)
qed

lemma hashBytes_inj [simp]: "hashBytes a = hashBytes b \<longleftrightarrow> a = b"
  by (metis hashOf_hashBytes)

lemma sameHash_iff [simp]: "sameHash a b \<longleftrightarrow> a = b"
  by (simp add: sameHash_def)

lemma hex_value_digit: "n < 16 \<Longrightarrow> hex_value (hex_digit n) = Some n"
  by (auto simp: hex_value_def hex_digit_def Let_def)

lemma hex_Decode_hex_string: "hex_Decode (hex_string bs) = Inr bs"
proof (induction bs)
  case (Cons b bs)
  have "unat b div 16 < 16" by (rule less_mult_imp_div_less) simp
  moreover have "(of_nat (unat b div 16 * 16 + unat b mod 16) :: byte) = b" by (simp only: div_mult_mod_eq) simp
  ultimately show ?case using Cons
    by (simp add: hex_string_def hex_byte_def hex_value_digit del: of_nat_add of_nat_mult)
qed (simp add: hex_string_def)

lemma length_hex_string [simp]: "length (hex_string bs) = 2 * length bs"
  by (induction bs) (simp_all add: hex_string_def hex_byte_def)

lemma hex_string_inj [simp]: "hex_string a = hex_string b \<longleftrightarrow> a = b"
  using hex_Decode_hex_string by (metis sum.inject(2))

lemma ParseHashHex_HashHex: "ParseHashHex (HashHex h) = Inr h"
  by (simp add: ParseHashHex_def HashHex_def hex_Decode_hex_string)

lemma hex_Decode_length: "hex_Decode s = Inr bs \<Longrightarrow> length s = 2 * length bs"
  by (induction s arbitrary: bs rule: hex_Decode.induct) (auto split: option.splits)

lemma Verify_Sign:
  assumes "Sign E priv m = Inr sig" "signs_verify E priv"
  shows "Verify E (ed25519_Public priv) m sig"
  using assms by (auto simp: Sign_def Verify_def signs_verify_def ed25519_Public_def)

lemma DecryptXChaCha20_Encrypt:
  assumes "EncryptXChaCha20 E key nonce p aad = Inr c"
    and "xchacha_Open E key nonce (xchacha_Seal E key nonce p aad) aad = Inr p"
  shows "DecryptXChaCha20 E key nonce c aad = Inr p"
  using assms by (auto simp: EncryptXChaCha20_def DecryptXChaCha20_def)

end
