(* ===== verification/Ids.thy ===== *)
theory Ids
  imports Amount Canonical Crypto
begin

text \<open>
  \<open>core/model/types.go\<close> and \<open>core/model/ids.go\<close>: the data of the ledger and its identifiers,
  the BLAKE3 digests of canonical preimages. Shown here: a preimage always exists, and equal
  preimages mean equal contents (everything but the identifier and the signature), so that a
  transaction identifier commits to the transaction; and preimages of different kinds differ.
\<close>

section \<open>Types\<close>

datatype UnitID = UnitID (unit_hash: hash)
datatype ValueID = ValueID (value_hash: hash)
datatype TxID = TxID (tx_hash: hash)
datatype NodeID = NodeID (node_hash: hash)

record Value =
  v_ID :: ValueID
  v_Unit :: UnitID
  v_Amount :: amount
  v_Owner :: NodeID
  v_CreatedAt :: int64
  v_Issuer :: NodeID
  v_ExpiryUnix :: int64
  v_Depth :: uint32

record IssueTx =
  i_ID :: TxID
  i_Unit :: UnitID
  i_Outputs :: "Value list"
  i_Issuer :: NodeID
  i_Timestamp :: int64
  i_UnitName :: string
  i_Amount :: amount
  i_Owner :: NodeID
  i_ExpiryUnix :: int64
  i_Signature :: Signature

record TradeTx =
  t_ID :: TxID
  t_InputsA :: "Value list"
  t_InputsB :: "Value list"
  t_OutputsA :: "Value list"
  t_OutputsB :: "Value list"
  t_PartyA :: NodeID
  t_PartyB :: NodeID
  t_Timestamp :: int64

record TransferTx =
  x_ID :: TxID
  x_Inputs :: "ValueID list"
  x_Outputs :: "Value list"
  x_Author :: NodeID
  x_Signature :: Signature

text \<open>Units are ordered as \<open>bytes.Compare\<close> orders their big-endian bytes.\<close>

instantiation UnitID :: linorder
begin

definition less_eq_UnitID :: "UnitID \<Rightarrow> UnitID \<Rightarrow> bool" where
  "less_eq_UnitID a b \<longleftrightarrow> unit_hash a \<le> unit_hash b"

definition less_UnitID :: "UnitID \<Rightarrow> UnitID \<Rightarrow> bool" where
  "less_UnitID a b \<longleftrightarrow> unit_hash a < unit_hash b"

instance
  by standard (auto simp: less_eq_UnitID_def less_UnitID_def UnitID.expand)

end

section \<open>Node identifiers\<close>

definition NodeIDFromPublicKey :: "PublicKey \<Rightarrow> err + NodeID" where
  "NodeIDFromPublicKey pub =
     guard (length pub \<noteq> 32)
       (errorfs [''invalid public key length: got '', dec_nat (length pub), '', want 32''])
     (Inr (NodeID (hashOf pub)))"

definition MustNodeIDFromPublicKey :: "PublicKey \<Rightarrow> err + NodeID" where
  "MustNodeIDFromPublicKey pub = map_err panic (NodeIDFromPublicKey pub)"

definition NodeID_Bytes :: "NodeID \<Rightarrow> bytes" where
  "NodeID_Bytes nid = hashBytes (node_hash nid)"

definition NodeID_PublicKey :: "NodeID \<Rightarrow> PublicKey" where
  "NodeID_PublicKey nid = NodeID_Bytes nid"

definition isZeroNodeID :: "NodeID \<Rightarrow> bool" where
  "isZeroNodeID nid \<longleftrightarrow> nid = NodeID 0"

definition publicKeyFromPrivate :: "PrivateKey \<Rightarrow> err + PublicKey" where
  "publicKeyFromPrivate priv =
     guard (length priv \<noteq> 64)
       (errorfs [''invalid private key length: got '', dec_nat (length priv), '', want 64''])
     (let pub = ed25519_Public priv in
      guard (length pub \<noteq> 32) (errorf ''invalid private key public component'')
      (Inr pub))"

section \<open>Preimages\<close>

definition valuePreimage :: "Value \<Rightarrow> err + bytes" where
  "valuePreimage v = EncodeFields
     [(''kind'', VString ''value''),
      (''amount'', VInt (v_Amount v)),
      (''unit'', VBytes (hashBytes (unit_hash (v_Unit v)))),
      (''owner'', VBytes (NodeID_Bytes (v_Owner v))),
      (''created_at'', VInt (v_CreatedAt v)),
      (''issuer'', VBytes (NodeID_Bytes (v_Issuer v))),
      (''expiry_unix'', VInt (v_ExpiryUnix v)),
      (''depth'', VUint (ucast (v_Depth v)))]"

text \<open>The loops that collect the preimages of a list, with the position in the error.\<close>

fun preimagesFrom :: "string \<Rightarrow> nat \<Rightarrow> Value list \<Rightarrow> err + bytes list" where
  "preimagesFrom what i [] = Inr []"
| "preimagesFrom what i (v # vs) =
     attempt (map_err (wrap_err (at_index what i)) (valuePreimage v)) (\<lambda>p.
     attempt (preimagesFrom what (i + 1) vs) (\<lambda>ps. Inr (p # ps)))"

definition valuePreimages :: "Value list \<Rightarrow> err + bytes list" where
  "valuePreimages vs = preimagesFrom ''value '' 0 vs"

definition issuePreimage :: "IssueTx \<Rightarrow> err + bytes" where
  "issuePreimage tx =
     attempt (preimagesFrom ''output '' 0 (i_Outputs tx)) (\<lambda>outputs.
     EncodeFields
     [(''kind'', VString ''issue_tx''),
      (''unit_name'', VString (i_UnitName tx)),
      (''unit'', VBytes (hashBytes (unit_hash (i_Unit tx)))),
      (''amount'', VInt (i_Amount tx)),
      (''outputs'', VList (map VBytes outputs)),
      (''issuer'', VBytes (NodeID_Bytes (i_Issuer tx))),
      (''owner'', VBytes (NodeID_Bytes (i_Owner tx))),
      (''expiry_unix'', VInt (i_ExpiryUnix tx)),
      (''timestamp'', VInt (i_Timestamp tx))])"

definition transferPreimage :: "TransferTx \<Rightarrow> err + bytes" where
  "transferPreimage tx =
     (let inputs = map (\<lambda>i. hashBytes (value_hash i)) (x_Inputs tx) in
     attempt (preimagesFrom ''output '' 0 (x_Outputs tx)) (\<lambda>outputs.
     EncodeFields
     [(''kind'', VString ''transfer_tx''),
      (''inputs'', VList (map VBytes inputs)),
      (''outputs'', VList (map VBytes outputs)),
      (''author'', VBytes (NodeID_Bytes (x_Author tx)))]))"

definition tradePreimage :: "TradeTx \<Rightarrow> err + bytes" where
  "tradePreimage tx =
     attempt (map_err (wrap_err ''inputs_a'') (valuePreimages (t_InputsA tx))) (\<lambda>inputsA.
     attempt (map_err (wrap_err ''inputs_b'') (valuePreimages (t_InputsB tx))) (\<lambda>inputsB.
     attempt (map_err (wrap_err ''outputs_a'') (valuePreimages (t_OutputsA tx))) (\<lambda>outputsA.
     attempt (map_err (wrap_err ''outputs_b'') (valuePreimages (t_OutputsB tx))) (\<lambda>outputsB.
     EncodeFields
     [(''kind'', VString ''trade_tx''),
      (''inputs_a'', VList (map VBytes inputsA)),
      (''inputs_b'', VList (map VBytes inputsB)),
      (''outputs_a'', VList (map VBytes outputsA)),
      (''outputs_b'', VList (map VBytes outputsB)),
      (''party_a'', VBytes (NodeID_Bytes (t_PartyA tx))),
      (''party_b'', VBytes (NodeID_Bytes (t_PartyB tx))),
      (''timestamp'', VInt (t_Timestamp tx))]))))"

section \<open>Identifiers\<close>

definition unitPreimage :: "PublicKey \<Rightarrow> string \<Rightarrow> err + bytes" where
  "unitPreimage issuer unitName = EncodeFields
     [(''kind'', VString ''unit''), (''issuer'', VBytes issuer), (''unit_name'', VString unitName)]"

definition NewUnitID :: "'x env_scheme \<Rightarrow> PublicKey \<Rightarrow> string \<Rightarrow> err + UnitID" where
  "NewUnitID E issuer unitName =
     attempt (unitPreimage issuer unitName) (\<lambda>p. Inr (UnitID (HashBytes E p)))"

definition NewUnitIDFromMetadata :: "'x env_scheme \<Rightarrow> NodeID \<Rightarrow> bytes \<Rightarrow> err + UnitID" where
  "NewUnitIDFromMetadata E issuer metadata =
     attempt (EncodeFields
       [(''kind'', VString ''unit''), (''issuer'', VBytes (NodeID_Bytes issuer)),
        (''metadata'', VBytes metadata)]) (\<lambda>p. Inr (UnitID (HashBytes E p)))"

definition IssueTxID :: "'x env_scheme \<Rightarrow> IssueTx \<Rightarrow> err + TxID" where
  "IssueTxID E tx = attempt (issuePreimage tx) (\<lambda>p. Inr (TxID (HashBytes E p)))"

definition ValueIDFor :: "'x env_scheme \<Rightarrow> Value \<Rightarrow> err + ValueID" where
  "ValueIDFor E v = attempt (valuePreimage v) (\<lambda>p. Inr (ValueID (HashBytes E p)))"

definition TransferTxID :: "'x env_scheme \<Rightarrow> TransferTx \<Rightarrow> err + TxID" where
  "TransferTxID E tx = attempt (transferPreimage tx) (\<lambda>p. Inr (TxID (HashBytes E p)))"

definition TradeTxID :: "'x env_scheme \<Rightarrow> TradeTx \<Rightarrow> err + TxID" where
  "TradeTxID E tx = attempt (tradePreimage tx) (\<lambda>p. Inr (TxID (HashBytes E p)))"

section \<open>Node identifiers and keys\<close>

lemma isZeroNodeID_iff [simp]: "isZeroNodeID nid \<longleftrightarrow> nid = NodeID 0"
  by (simp add: isZeroNodeID_def)

lemma length_NodeID_Bytes [simp]: "length (NodeID_Bytes nid) = 32"
  by (simp add: NodeID_Bytes_def)

lemma hash_inj [simp]:
  "node_hash a = node_hash b \<longleftrightarrow> a = b" "unit_hash c = unit_hash d \<longleftrightarrow> c = d"
  "value_hash x = value_hash y \<longleftrightarrow> x = y" "tx_hash t = tx_hash u \<longleftrightarrow> t = u"
  by (metis NodeID.expand, metis UnitID.expand, metis ValueID.expand, metis TxID.expand)

lemma NodeID_Bytes_inj [simp]: "NodeID_Bytes a = NodeID_Bytes b \<longleftrightarrow> a = b"
  by (simp add: NodeID_Bytes_def)

lemma NodeIDFromPublicKey_Inr:
  "NodeIDFromPublicKey pub = Inr nid \<longleftrightarrow> length pub = 32 \<and> NodeID_PublicKey nid = pub"
  by (cases nid) (auto simp: NodeIDFromPublicKey_def NodeID_PublicKey_def NodeID_Bytes_def hashBytes_hashOf)

lemma publicKeyFromPrivate_Inr:
  "publicKeyFromPrivate priv = Inr pub \<longleftrightarrow> length priv = 64 \<and> pub = ed25519_Public priv"
  by (auto simp: publicKeyFromPrivate_def ed25519_Public_def Let_def)

section \<open>Preimages always exist and are injective\<close>

lemma encodeElems_total: "\<forall>r \<in> set rs. \<not> isl r \<Longrightarrow> \<exists>b. encodeElems i rs = Inr b"
proof (induction rs arbitrary: i)
  case (Cons r rs)
  then obtain b where "r = Inr b" by (cases r) auto
  moreover from Cons obtain c where "encodeElems (i + 1) rs = Inr c" by auto
  ultimately show ?case by simp
qed simp

lemma encodeElems_bytes: "\<exists>b. encodeElems i (map (encodeValue \<circ> VBytes) bs) = Inr b"
  by (rule encodeElems_total) auto

lemma encode_byte_list: obtains b where "encodeElems 0 (map (encodeValue \<circ> VBytes) bs) = Inr b"
  using encodeElems_bytes by blast

lemma valuePreimage_total: "\<exists>p. valuePreimage v = Inr p"
  by (simp add: valuePreimage_def EncodeFields_def)

lemma preimagesFrom_total: "\<exists>ps. preimagesFrom what i vs = Inr ps"
proof (induction vs arbitrary: i)
  case (Cons v vs)
  then obtain ps where "preimagesFrom what (i + 1) vs = Inr ps" by blast
  moreover obtain p where "valuePreimage v = Inr p" using valuePreimage_total by blast
  ultimately show ?case by simp
qed simp

lemma preimagesFrom_Inr:
  "preimagesFrom what i vs = Inr ps \<longleftrightarrow> list_all2 (\<lambda>v p. valuePreimage v = Inr p) vs ps"
  by (induction vs arbitrary: i ps) (auto simp: list_all2_Cons1)

lemma valuePreimages_total: "\<exists>ps. valuePreimages vs = Inr ps"
  by (simp add: valuePreimages_def preimagesFrom_total)

lemma issuePreimage_total: "\<exists>p. issuePreimage tx = Inr p"
proof -
  obtain ps where ps: "preimagesFrom ''output '' 0 (i_Outputs tx) = Inr ps" using preimagesFrom_total by blast
  obtain b where "encodeElems 0 (map (encodeValue \<circ> VBytes) ps) = Inr b" by (rule encode_byte_list)
  then show ?thesis using ps by (simp add: issuePreimage_def EncodeFields_def)
qed

lemma transferPreimage_total: "\<exists>p. transferPreimage tx = Inr p"
proof -
  obtain ps where ps: "preimagesFrom ''output '' 0 (x_Outputs tx) = Inr ps" using preimagesFrom_total by blast
  obtain b where "encodeElems 0 (map (encodeValue \<circ> VBytes) ps) = Inr b" by (rule encode_byte_list)
  moreover obtain c where "encodeElems 0 (map (encodeValue \<circ> VBytes)
     (map (\<lambda>i. hashBytes (value_hash i)) (x_Inputs tx))) = Inr c" by (rule encode_byte_list)
  ultimately show ?thesis using ps by (simp add: transferPreimage_def EncodeFields_def Let_def comp_def)
qed

lemma tradePreimage_total: "\<exists>p. tradePreimage tx = Inr p"
proof -
  obtain a b c d where ps: "valuePreimages (t_InputsA tx) = Inr a" "valuePreimages (t_InputsB tx) = Inr b"
    "valuePreimages (t_OutputsA tx) = Inr c" "valuePreimages (t_OutputsB tx) = Inr d"
    using valuePreimages_total by metis
  have e: "\<exists>x. encodeElems 0 (map (encodeValue \<circ> VBytes) bs) = Inr x" for bs by (rule encodeElems_bytes)
  obtain a' b' c' d' where "encodeElems 0 (map (encodeValue \<circ> VBytes) a) = Inr a'"
    "encodeElems 0 (map (encodeValue \<circ> VBytes) b) = Inr b'"
    "encodeElems 0 (map (encodeValue \<circ> VBytes) c) = Inr c'"
    "encodeElems 0 (map (encodeValue \<circ> VBytes) d) = Inr d'" using e by metis
  then show ?thesis using ps by (simp add: tradePreimage_def EncodeFields_def)
qed

text \<open>
  A preimage determines the contents. \<open>stripID\<close> forgets the identifier of a value, the one
  field its preimage leaves out; the lengths are those of Go (below \<open>2 ^ 64\<close>).
\<close>

definition stripID :: "Value \<Rightarrow> Value" where
  "stripID v = v\<lparr>v_ID := ValueID 0\<rparr>"

definition issueContent :: "IssueTx \<Rightarrow> IssueTx" where
  "issueContent tx = tx\<lparr>i_ID := TxID 0, i_Signature := [], i_Outputs := map stripID (i_Outputs tx)\<rparr>"

definition transferContent :: "TransferTx \<Rightarrow> TransferTx" where
  "transferContent tx = tx\<lparr>x_ID := TxID 0, x_Signature := [], x_Outputs := map stripID (x_Outputs tx)\<rparr>"

definition tradeContent :: "TradeTx \<Rightarrow> TradeTx" where
  "tradeContent tx = tx\<lparr>t_ID := TxID 0,
     t_InputsA := map stripID (t_InputsA tx), t_InputsB := map stripID (t_InputsB tx),
     t_OutputsA := map stripID (t_OutputsA tx), t_OutputsB := map stripID (t_OutputsB tx)\<rparr>"

definition issueFits :: "IssueTx \<Rightarrow> bool" where
  "issueFits tx \<longleftrightarrow> length (i_UnitName tx) < 2 ^ 64 \<and> length (i_Outputs tx) < 2 ^ 64"

definition transferFits :: "TransferTx \<Rightarrow> bool" where
  "transferFits tx \<longleftrightarrow> length (x_Inputs tx) < 2 ^ 64 \<and> length (x_Outputs tx) < 2 ^ 64"

definition tradeFits :: "TradeTx \<Rightarrow> bool" where
  "tradeFits tx \<longleftrightarrow> length (t_InputsA tx) < 2 ^ 64 \<and> length (t_InputsB tx) < 2 ^ 64
     \<and> length (t_OutputsA tx) < 2 ^ 64 \<and> length (t_OutputsB tx) < 2 ^ 64"

lemma ucast_32_64_inj [simp]: "(ucast (a :: uint32) :: uint64) = ucast b \<longleftrightarrow> a = b"
proof
  assume e: "(ucast a :: uint64) = ucast b"
  show "a = b"
  proof (rule bit_word_eqI)
    fix n assume "n < LENGTH(32)"
    moreover have "bit (ucast a :: uint64) n = bit (ucast b :: uint64) n" using e by simp
    ultimately show "bit a n = bit b n" by (simp add: bit_ucast_iff)
  qed
qed simp

lemma encodeEntries_length:
  "encodeEntries t (map (\<lambda>p. (fst p, encodeValue (snd p))) fs) = Inr b
    \<Longrightarrow> \<forall>f \<in> set fs. length (fst f) \<le> K \<and> (\<forall>c. encodeValue (snd f) = Inr c \<longrightarrow> length c \<le> K)
    \<Longrightarrow> length b \<le> length fs * (11 + K + K)"
proof (induction fs arbitrary: b)
  case (Cons f fs)
  then obtain c d where cd: "encodeValue (snd f) = Inr c"
    "encodeEntries t (map (\<lambda>p. (fst p, encodeValue (snd p))) fs) = Inr d"
    "b = encodeString (fst f) @ c @ d" by auto
  then have "length d \<le> length fs * (11 + K + K)" "length c \<le> K" "length (fst f) \<le> K"
    using Cons by auto
  moreover have "length (encodeString (fst f)) \<le> 11 + length (fst f)"
    using writeUvarint_length [of "of_nat (length (fst f))"] by (simp add: encodeString_def)
  ultimately show ?case using cd(3) by simp
qed simp

lemma encode_lengths:
  "length (encodeString s) \<le> 11 + length s" "length (encodeBytes b) \<le> 11 + length b"
  "length (encodeInt n) \<le> 11" "length (encodeUint m) \<le> 11"
  using writeUvarint_length [of "of_nat (length s)"] writeUvarint_length [of "of_nat (length b)"]
    writeUvarint_length [of "zigzag n"] writeUvarint_length [of m]
  by (simp_all add: encodeString_def encodeBytes_def encodeInt_def encodeUint_def)

lemma valuePreimage_length: "valuePreimage v = Inr p \<Longrightarrow> length p < 2 ^ 64"
proof -
  let ?fs = "[(''kind'', VString ''value''), (''amount'', VInt (v_Amount v)),
      (''unit'', VBytes (hashBytes (unit_hash (v_Unit v)))),
      (''owner'', VBytes (NodeID_Bytes (v_Owner v))), (''created_at'', VInt (v_CreatedAt v)),
      (''issuer'', VBytes (NodeID_Bytes (v_Issuer v))), (''expiry_unix'', VInt (v_ExpiryUnix v)),
      (''depth'', VUint (ucast (v_Depth v)))]"
  assume "valuePreimage v = Inr p"
  then obtain b where b: "encodeEntries ''field '' (map (\<lambda>p. (fst p, encodeValue (snd p))) ?fs) = Inr b"
    "p = tagFields # writeUvarint (of_nat (length ?fs)) @ b"
    unfolding valuePreimage_def EncodeFields_def attempt_Inr by blast
  have "length b \<le> length ?fs * (11 + 50 + 50)"
    using b(1)
  proof (rule encodeEntries_length)
    show "\<forall>f \<in> set ?fs. length (fst f) \<le> 50 \<and> (\<forall>c. encodeValue (snd f) = Inr c \<longrightarrow> length c \<le> 50)"
      using encode_lengths(1) [of "''value''"] encode_lengths(2) [of "hashBytes (unit_hash (v_Unit v))"]
        encode_lengths(2) [of "NodeID_Bytes (v_Owner v)"] encode_lengths(2) [of "NodeID_Bytes (v_Issuer v)"]
        encode_lengths(3) [of "v_Amount v"] encode_lengths(3) [of "v_CreatedAt v"]
        encode_lengths(3) [of "v_ExpiryUnix v"] encode_lengths(4) [of "ucast (v_Depth v)"]
      by simp
  qed
  then show ?thesis using b(2) writeUvarint_length [of "of_nat (length ?fs)"] by simp
qed

lemma valuePreimage_inj:
  assumes "valuePreimage v = Inr p" "valuePreimage w = Inr p"
  shows "stripID v = stripID w"
proof -
  from EncodeFields_inj [OF assms [unfolded valuePreimage_def]]
  show ?thesis by (simp add: fields_fit_def fields_norm_def stripID_def)
qed

lemma preimagesFrom_inj:
  assumes "preimagesFrom t i vs = Inr ps" "preimagesFrom u j ws = Inr ps"
  shows "map stripID vs = map stripID ws"
proof (rule nth_equalityI)
  have l: "length vs = length ps" "length ws = length ps"
    using assms unfolding preimagesFrom_Inr by (simp_all add: list_all2_lengthD)
  then show "length (map stripID vs) = length (map stripID ws)" by simp
  fix n assume "n < length (map stripID vs)"
  then have "n < length vs" "n < length ws" using l by simp_all
  then have e: "valuePreimage (vs ! n) = Inr (ps ! n)" "valuePreimage (ws ! n) = Inr (ps ! n)"
    using list_all2_nthD [OF assms(1) [unfolded preimagesFrom_Inr]]
      list_all2_nthD [OF assms(2) [unfolded preimagesFrom_Inr]] by simp_all
  then show "map stripID vs ! n = map stripID ws ! n"
    using \<open>n < length vs\<close> \<open>n < length ws\<close> valuePreimage_inj [OF e] by simp
qed

lemma preimagesFrom_fit:
  assumes "preimagesFrom t i vs = Inr ps" "length vs < 2 ^ 64"
  shows "length ps < 2 ^ 64 \<and> (\<forall>p \<in> set ps. length p < 2 ^ 64)"
proof -
  have "\<forall>p \<in> set ps. length p < 2 ^ 64"
  proof
    fix p assume "p \<in> set ps"
    then obtain n where n: "n < length ps" "p = ps ! n" by (auto simp: in_set_conv_nth)
    then have "valuePreimage (vs ! n) = Inr p"
      using list_all2_nthD2 [OF assms(1) [unfolded preimagesFrom_Inr]] by simp
    then show "length p < 2 ^ 64" by (rule valuePreimage_length)
  qed
  moreover have "length ps = length vs"
    using assms(1) unfolding preimagesFrom_Inr by (simp add: list_all2_lengthD)
  ultimately show ?thesis using assms(2) by simp
qed

lemma map_VBytes_inj [simp]: "map VBytes xs = map VBytes ys \<longleftrightarrow> xs = ys"
  by (rule inj_map_eq_map) (simp add: inj_def)

lemma cv_norm_VBytes [simp]: "map (cv_norm \<circ> VBytes) xs = map VBytes xs"
  by simp

lemma cv_norm_VBytes_list: "map cv_norm (map VBytes xs) = map VBytes xs"
  by simp

lemma issuePreimage_inj:
  assumes "issuePreimage a = Inr p" "issuePreimage b = Inr p" "issueFits a" "issueFits b"
  shows "issueContent a = issueContent b"
proof -
  from assms(1,2) obtain ps qs where
    o: "preimagesFrom ''output '' 0 (i_Outputs a) = Inr ps" "preimagesFrom ''output '' 0 (i_Outputs b) = Inr qs"
    by (auto simp: issuePreimage_def)
  note f = preimagesFrom_fit [OF o(1)] preimagesFrom_fit [OF o(2)]
  note e = assms(1,2) [unfolded issuePreimage_def o attempt_simps]
  have "ps = qs" and c: "i_UnitName a = i_UnitName b \<and> i_Unit a = i_Unit b \<and> i_Amount a = i_Amount b
     \<and> i_Issuer a = i_Issuer b \<and> i_Owner a = i_Owner b \<and> i_ExpiryUnix a = i_ExpiryUnix b
     \<and> i_Timestamp a = i_Timestamp b"
    using EncodeFields_inj [OF e] f assms(3,4) by (simp_all add: fields_fit_def fields_norm_def issueFits_def)
  then have "map stripID (i_Outputs a) = map stripID (i_Outputs b)"
    using o preimagesFrom_inj by blast
  then show ?thesis using c by (simp add: issueContent_def)
qed

lemma transferPreimage_inj:
  assumes "transferPreimage a = Inr p" "transferPreimage b = Inr p" "transferFits a" "transferFits b"
  shows "transferContent a = transferContent b"
proof -
  from assms(1,2) obtain ps qs where
    o: "preimagesFrom ''output '' 0 (x_Outputs a) = Inr ps" "preimagesFrom ''output '' 0 (x_Outputs b) = Inr qs"
    by (auto simp: transferPreimage_def Let_def)
  note f = preimagesFrom_fit [OF o(1)] preimagesFrom_fit [OF o(2)]
  note e = assms(1,2) [unfolded transferPreimage_def Let_def o attempt_simps]
  have n: "fields_norm [(''kind'', VString ''transfer_tx''),
      (''inputs'', VList (map VBytes (map (\<lambda>i. hashBytes (value_hash i)) (x_Inputs a)))),
      (''outputs'', VList (map VBytes ps)), (''author'', VBytes (NodeID_Bytes (x_Author a)))]
    = fields_norm [(''kind'', VString ''transfer_tx''),
      (''inputs'', VList (map VBytes (map (\<lambda>i. hashBytes (value_hash i)) (x_Inputs b)))),
      (''outputs'', VList (map VBytes qs)), (''author'', VBytes (NodeID_Bytes (x_Author b)))]"
    using e f assms(3,4) by (intro EncodeFields_inj) (simp_all add: fields_fit_def transferFits_def)
  then have "ps = qs" "x_Author a = x_Author b"
    and "map (\<lambda>i. hashBytes (value_hash i)) (x_Inputs a) = map (\<lambda>i. hashBytes (value_hash i)) (x_Inputs b)"
    by (simp_all add: fields_norm_def cv_norm_VBytes_list del: map_map)
  moreover from this(3) have "x_Inputs a = x_Inputs b"
    by (rule inj_map_eq_map [THEN iffD1, rotated]) (simp add: inj_def)
  moreover have "map stripID (x_Outputs a) = map stripID (x_Outputs b)"
    using o \<open>ps = qs\<close> preimagesFrom_inj by blast
  ultimately show ?thesis by (simp add: transferContent_def)
qed

lemma tradePreimage_inj:
  assumes "tradePreimage a = Inr p" "tradePreimage b = Inr p" "tradeFits a" "tradeFits b"
  shows "tradeContent a = tradeContent b"
proof -
  from assms(1) obtain a1 a2 a3 a4 where
    a: "valuePreimages (t_InputsA a) = Inr a1" "valuePreimages (t_InputsB a) = Inr a2"
       "valuePreimages (t_OutputsA a) = Inr a3" "valuePreimages (t_OutputsB a) = Inr a4"
    by (auto simp: tradePreimage_def)
  from assms(2) obtain b1 b2 b3 b4 where
    b: "valuePreimages (t_InputsA b) = Inr b1" "valuePreimages (t_InputsB b) = Inr b2"
       "valuePreimages (t_OutputsA b) = Inr b3" "valuePreimages (t_OutputsB b) = Inr b4"
    by (auto simp: tradePreimage_def)
  note f = a [unfolded valuePreimages_def, THEN preimagesFrom_fit]
    b [unfolded valuePreimages_def, THEN preimagesFrom_fit]
  note e = assms(1) [unfolded tradePreimage_def a map_err_simps attempt_simps]
    assms(2) [unfolded tradePreimage_def b map_err_simps attempt_simps]
  have eq: "a1 = b1" "a2 = b2" "a3 = b3" "a4 = b4" "t_PartyA a = t_PartyA b" "t_PartyB a = t_PartyB b"
    "t_Timestamp a = t_Timestamp b"
    using EncodeFields_inj [OF e] f assms(3,4) by (simp_all add: fields_fit_def fields_norm_def tradeFits_def)
  have "map stripID (t_InputsA a) = map stripID (t_InputsA b)"
    "map stripID (t_InputsB a) = map stripID (t_InputsB b)"
    "map stripID (t_OutputsA a) = map stripID (t_OutputsA b)"
    "map stripID (t_OutputsB a) = map stripID (t_OutputsB b)"
    using a b eq preimagesFrom_inj unfolding valuePreimages_def by blast+
  then show ?thesis using eq by (simp add: tradeContent_def)
qed

text \<open>Preimages of different kinds of objects are different.\<close>

lemma kind_separation:
  assumes "EncodeFields ((''kind'', VString k) # fs) = Inr p" "EncodeFields ((''kind'', VString l) # gs) = Inr p"
    and "fields_fit ((''kind'', VString k) # fs)" "fields_fit ((''kind'', VString l) # gs)"
  shows "k = l"
  using EncodeFields_inj [OF assms] by (simp add: fields_norm_def)

lemma issue_value_preimages_differ:
  assumes "issuePreimage tx = Inr p" "issueFits tx"
  shows "valuePreimage v \<noteq> Inr p"
proof
  assume v: "valuePreimage v = Inr p"
  from assms(1) obtain ps where o: "preimagesFrom ''output '' 0 (i_Outputs tx) = Inr ps"
    by (auto simp: issuePreimage_def)
  note f = preimagesFrom_fit [OF o]
  have "''issue_tx'' = ''value''"
    using assms(1) [unfolded issuePreimage_def o attempt_simps] v [unfolded valuePreimage_def]
  proof (rule kind_separation)
  qed (use f assms(2) in \<open>simp_all add: fields_fit_def issueFits_def\<close>)
  then show False by simp
qed

end
