(* ===== verification/Inventory.thy ===== *)
theory Inventory
  imports Ids
begin

text \<open>
  \<open>core/model/protocol.go\<close>, first part: the inventory (who holds how much of which unit), flow
  records, and the small records of acceptance, quotes and preferences.

  The two levels of Go maps are association lists. No operation stores a nil inner map, so
  \<open>Holdings[node] == nil\<close> is the absence of the key. An operation with a pointer receiver returns
  its error together with the new state, because \<open>AddChecked\<close> creates the inner map even when it
  then reports an overflow.

  The locale \<open>ledger\<close> is the contract that the transactions rely on: a credit and a debit change
  one balance by the amount, without wrap-around, or fail.
\<close>

section \<open>State and operations\<close>

record InventoryState =
  Holdings :: "(NodeID, (UnitID, amount) gomap) gomap"

record AcceptanceRecord =
  ar_Node :: NodeID
  ar_TargetID :: bytes
  ar_Score :: float64
  ar_Timestamp :: int64

record PriceQuote =
  pq_Node :: NodeID
  pq_Unit :: UnitID
  pq_Price :: float64
  pq_Timestamp :: int64

record FlowRecord =
  fr_Unit :: UnitID
  fr_TradeVolume :: amount
  fr_PaymentVolume :: amount
  fr_Consumption :: amount
  fr_DemandFulfilled :: amount

record TradeQuote =
  tq_Seller :: NodeID
  tq_Buyer :: NodeID
  tq_SellUnit :: UnitID
  tq_BuyUnit :: UnitID
  tq_SellAmount :: amount
  tq_BuyAmount :: amount
  tq_Executable :: bool

record Preference =
  pf_Node :: NodeID
  pf_Utility :: "(UnitID, float64) gomap"

definition NewInventoryState :: InventoryState where
  "NewInventoryState = \<lparr>Holdings = []\<rparr>"

definition Inventory_Get :: "InventoryState \<Rightarrow> NodeID \<Rightarrow> UnitID \<Rightarrow> amount" where
  "Inventory_Get s node unit =
     (if \<not> gm_has (Holdings s) node then 0 else gm_get 0 (gm_get [] (Holdings s) node) unit)"

definition Inventory_AddChecked ::
    "InventoryState \<Rightarrow> NodeID \<Rightarrow> UnitID \<Rightarrow> amount \<Rightarrow> (err + unit) \<times> InventoryState" where
  "Inventory_AddChecked s node unit a =
     (if \<not> validAmount a then (Inl (errorf ''amount must be greater than zero''), s)
      else
        let s1 = (if gm_has (Holdings s) node then s
                  else s\<lparr>Holdings := gm_put (Holdings s) node []\<rparr>);
            units = gm_get [] (Holdings s1) node
        in case CheckedAdd (gm_get 0 units unit) a of
             Inl e \<Rightarrow> (Inl e, s1)
           | Inr next \<Rightarrow>
               (Inr (), s1\<lparr>Holdings := gm_put (Holdings s1) node (gm_put units unit next)\<rparr>))"

text \<open>\<open>Add\<close> panics where \<open>AddChecked\<close> fails.\<close>

definition Inventory_Add ::
    "InventoryState \<Rightarrow> NodeID \<Rightarrow> UnitID \<Rightarrow> amount \<Rightarrow> err + InventoryState" where
  "Inventory_Add s node unit a =
     (case Inventory_AddChecked s node unit a of (Inl e, _) \<Rightarrow> Inl (panic e) | (Inr _, s') \<Rightarrow> Inr s')"

definition Inventory_Sub ::
    "InventoryState \<Rightarrow> NodeID \<Rightarrow> UnitID \<Rightarrow> amount \<Rightarrow> err + InventoryState" where
  "Inventory_Sub s node unit a =
     guard (\<not> validAmount a) (errorf ''amount must be greater than zero'')
     (let current = Inventory_Get s node unit in
      guard (\<not> gm_has (Holdings s) node) (errorf ''insufficient inventory'')
      (attempt (map_err (\<lambda>_. errorf ''insufficient inventory'') (Sub current a)) (\<lambda>next.
       Inr (s\<lparr>Holdings := gm_put (Holdings s) node
                (gm_put (gm_get [] (Holdings s) node) unit next)\<rparr>))))"

definition Inventory_Copy :: "InventoryState \<Rightarrow> InventoryState" where
  "Inventory_Copy s =
     foldl (\<lambda>out (node, units).
       out\<lparr>Holdings := gm_put (Holdings out) node (foldl (\<lambda>m (u, a). gm_put m u a) [] units)\<rparr>)
     NewInventoryState (Holdings s)"

text \<open>The callers that give the state up when \<open>AddChecked\<close> fails see it as a function into a sum.\<close>

definition inv_credit ::
    "InventoryState \<Rightarrow> NodeID \<Rightarrow> UnitID \<Rightarrow> amount \<Rightarrow> err + InventoryState" where
  "inv_credit s node unit a =
     (case Inventory_AddChecked s node unit a of (r, s') \<Rightarrow> attempt r (\<lambda>_. Inr s'))"

section \<open>Flow records\<close>

definition AddTradeChecked :: "FlowRecord \<Rightarrow> amount \<Rightarrow> err + FlowRecord" where
  "AddTradeChecked f a =
     (if \<not> validFlowAmount a then Inr f
      else attempt (CheckedAdd (fr_TradeVolume f) a) (\<lambda>next. Inr (f\<lparr>fr_TradeVolume := next\<rparr>)))"

definition AddPaymentChecked :: "FlowRecord \<Rightarrow> amount \<Rightarrow> err + FlowRecord" where
  "AddPaymentChecked f a =
     (if \<not> validFlowAmount a then Inr f
      else attempt (CheckedAdd (fr_PaymentVolume f) a) (\<lambda>next. Inr (f\<lparr>fr_PaymentVolume := next\<rparr>)))"

definition AddConsumptionChecked :: "FlowRecord \<Rightarrow> amount \<Rightarrow> err + FlowRecord" where
  "AddConsumptionChecked f a =
     (if \<not> validFlowAmount a then Inr f
      else attempt (CheckedAdd (fr_Consumption f) a) (\<lambda>next. Inr (f\<lparr>fr_Consumption := next\<rparr>)))"

definition AddDemandFulfilledChecked :: "FlowRecord \<Rightarrow> amount \<Rightarrow> err + FlowRecord" where
  "AddDemandFulfilledChecked f a =
     (if \<not> validFlowAmount a then Inr f
      else attempt (CheckedAdd (fr_DemandFulfilled f) a)
             (\<lambda>next. Inr (f\<lparr>fr_DemandFulfilled := next\<rparr>)))"

text \<open>The unchecked variants drop the error; the record is then unchanged.\<close>

definition ignoreFlowError :: "FlowRecord \<Rightarrow> err + FlowRecord \<Rightarrow> FlowRecord" where
  "ignoreFlowError f r = (case r of Inl _ \<Rightarrow> f | Inr g \<Rightarrow> g)"

definition AddTrade :: "FlowRecord \<Rightarrow> amount \<Rightarrow> FlowRecord" where
  "AddTrade f a = ignoreFlowError f (AddTradeChecked f a)"

definition AddPayment :: "FlowRecord \<Rightarrow> amount \<Rightarrow> FlowRecord" where
  "AddPayment f a = ignoreFlowError f (AddPaymentChecked f a)"

definition AddConsumption :: "FlowRecord \<Rightarrow> amount \<Rightarrow> FlowRecord" where
  "AddConsumption f a = ignoreFlowError f (AddConsumptionChecked f a)"

definition AddDemandFulfilled :: "FlowRecord \<Rightarrow> amount \<Rightarrow> FlowRecord" where
  "AddDemandFulfilled f a = ignoreFlowError f (AddDemandFulfilledChecked f a)"

section \<open>Acceptance, quotes and preferences\<close>

definition ValidateAcceptanceRecord :: "AcceptanceRecord \<Rightarrow> err + unit" where
  "ValidateAcceptanceRecord r =
     guard (isZeroNodeID (ar_Node r)) (errorf ''node is required'')
     (guard (ar_TargetID r = []) (errorf ''target id is required'')
     (guard (flt (ar_Score r) (Fin 0) \<or> flt (Fin 1) (ar_Score r) \<or> fisnan (ar_Score r))
        (errorf ''acceptance score must be in [0,1]'')
     (Inr ())))"

definition PriceFromAcceptance :: "float64 \<Rightarrow> float64" where
  "PriceFromAcceptance score =
     (if flt score (Fin 0) \<or> fisnan score then Fin 0
      else if flt (Fin 1) score then Fin 1 else score)"

definition PriceQuoteFromAcceptance :: "AcceptanceRecord \<Rightarrow> UnitID \<Rightarrow> PriceQuote" where
  "PriceQuoteFromAcceptance r unit =
     \<lparr>pq_Node = ar_Node r, pq_Unit = unit, pq_Price = PriceFromAcceptance (ar_Score r),
      pq_Timestamp = ar_Timestamp r\<rparr>"

definition QuoteTrade ::
    "NodeID \<Rightarrow> NodeID \<Rightarrow> UnitID \<Rightarrow> UnitID \<Rightarrow> amount \<Rightarrow> amount \<Rightarrow> TradeQuote" where
  "QuoteTrade seller buyer sellUnit buyUnit sellAmount buyAmount =
     \<lparr>tq_Seller = seller, tq_Buyer = buyer, tq_SellUnit = sellUnit, tq_BuyUnit = buyUnit,
      tq_SellAmount = sellAmount, tq_BuyAmount = buyAmount,
      tq_Executable = (\<not> isZeroNodeID seller \<and> \<not> isZeroNodeID buyer \<and> seller \<noteq> buyer
        \<and> validAmount sellAmount \<and> validAmount buyAmount)\<rparr>"

definition EffectiveValue :: "float64 \<Rightarrow> Preference \<Rightarrow> UnitID \<Rightarrow> float64" where
  "EffectiveValue price pref unit =
     (if fle price (Fin 0) \<or> fisnan price \<or> fisinf price then Fin 0
      else
        let utility = (if gm_has (pf_Utility pref) unit
                       then gm_get (Fin 0) (pf_Utility pref) unit else Fin 1)
        in if fle utility (Fin 0) \<or> fisnan utility \<or> fisinf utility then Fin 0
           else fmul price utility)"

section \<open>The ledger contract\<close>

text \<open>
  What a list of values is worth to a node in a unit, when the node of each value is given by
  \<open>own\<close>; and the amount of a unit in the list.
\<close>

definition valued :: "(Value \<Rightarrow> NodeID) \<Rightarrow> NodeID \<Rightarrow> UnitID \<Rightarrow> Value list \<Rightarrow> int" where
  "valued own n u vs = (\<Sum>v\<leftarrow>vs. if own v = n \<and> v_Unit v = u then sint (v_Amount v) else 0)"

definition unit_sum :: "UnitID \<Rightarrow> Value list \<Rightarrow> int" where
  "unit_sum u vs = (\<Sum>v\<leftarrow>vs. if v_Unit v = u then sint (v_Amount v) else 0)"

lemma valued_simps [simp]:
  "valued own n u [] = 0"
  "valued own n u (v # vs) = (if own v = n \<and> v_Unit v = u then sint (v_Amount v) else 0) + valued own n u vs"
  "valued own n u (vs @ ws) = valued own n u vs + valued own n u ws"
  by (simp_all add: valued_def)

lemma unit_sum_simps [simp]:
  "unit_sum u [] = 0"
  "unit_sum u (v # vs) = (if v_Unit v = u then sint (v_Amount v) else 0) + unit_sum u vs"
  "unit_sum u (vs @ ws) = unit_sum u vs + unit_sum u ws"
  by (simp_all add: unit_sum_def)

lemma sum_valued:
  "finite N \<Longrightarrow> own ` set vs \<subseteq> N \<Longrightarrow> (\<Sum>n\<in>N. valued own n u vs) = unit_sum u vs"
proof (induction vs)
  case (Cons v vs)
  have "(\<Sum>n\<in>N. if own v = n \<and> v_Unit v = u then sint (v_Amount v) else 0)
      = (\<Sum>n\<in>N. if own v = n then (if v_Unit v = u then sint (v_Amount v) else 0) else 0)"
    by (intro sum.cong) simp_all
  also have "\<dots> = (if v_Unit v = u then sint (v_Amount v) else 0)"
    using Cons.prems by (subst sum.delta') simp_all
  finally show ?case using Cons by (simp add: sum.distrib)
qed simp

lemma valued_const: "valued (\<lambda>_. m) n u vs = (if m = n then unit_sum u vs else 0)"
  by (induction vs) simp_all

lemma valued_nonneg: "\<forall>v \<in> set vs. 0 < sint (v_Amount v) \<Longrightarrow> 0 \<le> valued own n u vs"
  by (induction vs) auto

lemma unit_sum_nonneg: "\<forall>v \<in> set vs. 0 < sint (v_Amount v) \<Longrightarrow> 0 \<le> unit_sum u vs"
  by (induction vs) auto

lemma unit_sum_pos:
  "\<forall>v \<in> set vs. 0 < sint (v_Amount v) \<Longrightarrow> 0 < unit_sum u vs \<longleftrightarrow> u \<in> v_Unit ` set vs"
  using unit_sum_nonneg by (induction vs) (auto simp: add_pos_nonneg)

locale ledger =
  fixes get :: "'s \<Rightarrow> NodeID \<Rightarrow> UnitID \<Rightarrow> amount"
    and credit :: "'s \<Rightarrow> NodeID \<Rightarrow> UnitID \<Rightarrow> amount \<Rightarrow> err + 's"
    and debit :: "'s \<Rightarrow> NodeID \<Rightarrow> UnitID \<Rightarrow> amount \<Rightarrow> err + 's"
  assumes credit_Inr: "credit s n u a = Inr t \<Longrightarrow> 0 < sint a \<and> sint (get t n u) = sint (get s n u) + sint a"
    and credit_other: "credit s n u a = Inr t \<Longrightarrow> (n', u') \<noteq> (n, u) \<Longrightarrow> get t n' u' = get s n' u'"
    and debit_Inr: "debit s n u a = Inr t \<Longrightarrow> 0 < sint a \<and> sint a \<le> sint (get s n u)
        \<and> sint (get t n u) = sint (get s n u) - sint a"
    and debit_other: "debit s n u a = Inr t \<Longrightarrow> (n', u') \<noteq> (n, u) \<Longrightarrow> get t n' u' = get s n' u'"
    and credit_succeeds: "0 < sint a \<Longrightarrow> sint (get s n u) + sint a < 2 ^ 63 \<Longrightarrow> \<exists>t. credit s n u a = Inr t"
    and debit_succeeds: "0 < sint a \<Longrightarrow> sint a \<le> sint (get s n u) \<Longrightarrow> \<exists>t. debit s n u a = Inr t"
begin

lemma credits:
  "each (\<lambda>i v s. map_err g (credit s (own v) (v_Unit v) (v_Amount v))) i vs s = Inr t
    \<Longrightarrow> sint (get t n u) = sint (get s n u) + valued own n u vs"
proof (induction vs arbitrary: i s)
  case (Cons v vs)
  then obtain s' where s': "credit s (own v) (v_Unit v) (v_Amount v) = Inr s'"
    and "each (\<lambda>i v s. map_err g (credit s (own v) (v_Unit v) (v_Amount v))) (i + 1) vs s' = Inr t"
    by auto
  then have "sint (get t n u) = sint (get s' n u) + valued own n u vs" using Cons.IH by blast
  moreover have "sint (get s' n u)
      = sint (get s n u) + (if own v = n \<and> v_Unit v = u then sint (v_Amount v) else 0)"
    using credit_Inr [OF s'] credit_other [OF s', of n u] by auto
  ultimately show ?case by (simp add: valued_def)
qed (simp add: valued_def)

lemma debits:
  "each (\<lambda>i v s. debit s (own v) (v_Unit v) (v_Amount v)) i vs s = Inr t
    \<Longrightarrow> sint (get t n u) = sint (get s n u) - valued own n u vs"
proof (induction vs arbitrary: i s)
  case (Cons v vs)
  then obtain s' where s': "debit s (own v) (v_Unit v) (v_Amount v) = Inr s'"
    and "each (\<lambda>i v s. debit s (own v) (v_Unit v) (v_Amount v)) (i + 1) vs s' = Inr t"
    by auto
  then have "sint (get t n u) = sint (get s' n u) - valued own n u vs" using Cons.IH by blast
  moreover have "sint (get s' n u)
      = sint (get s n u) - (if own v = n \<and> v_Unit v = u then sint (v_Amount v) else 0)"
    using debit_Inr [OF s'] debit_other [OF s', of n u] by auto
  ultimately show ?case by (simp add: valued_def)
qed (simp add: valued_def)

lemma credits_succeed:
  assumes "\<forall>v \<in> set vs. 0 < sint (v_Amount v)" "\<forall>n u. sint (get s n u) + valued own n u vs < 2 ^ 63"
  shows "\<exists>t. each (\<lambda>i v s. map_err g (credit s (own v) (v_Unit v) (v_Amount v))) i vs s = Inr t"
  using assms
proof (induction vs arbitrary: i s)
  case (Cons v vs)
  let ?n = "own v" and ?u = "v_Unit v"
  have pos: "0 < sint (v_Amount v)" using Cons.prems(1) by simp
  have "0 \<le> valued own ?n ?u vs" using Cons.prems(1) by (simp add: valued_nonneg)
  then obtain s' where s': "credit s ?n ?u (v_Amount v) = Inr s'"
    using credit_succeeds [of "v_Amount v" s ?n ?u] pos Cons.prems(2) [rule_format, of ?n ?u] by auto
  have "sint (get s' n u) + valued own n u vs < 2 ^ 63" for n u
  proof (cases "?n = n \<and> ?u = u")
    case True
    then show ?thesis using credit_Inr [OF s'] Cons.prems(2) [rule_format, of n u] by auto
  next
    case False
    then show ?thesis using credit_other [OF s', of n u] Cons.prems(2) [rule_format, of n u] by auto
  qed
  then show ?case using Cons.IH [of s' "i + 1"] Cons.prems(1) s' by auto
qed simp

lemma debits_succeed:
  assumes "\<forall>v \<in> set vs. 0 < sint (v_Amount v)"
    and "\<forall>n u. valued own n u vs \<le> sint (get s n u) \<or> valued own n u vs = 0"
  shows "\<exists>t. each (\<lambda>i v s. debit s (own v) (v_Unit v) (v_Amount v)) i vs s = Inr t"
  using assms
proof (induction vs arbitrary: i s)
  case (Cons v vs)
  let ?n = "own v" and ?u = "v_Unit v"
  have nn: "0 \<le> valued own n u vs" for n u
    using Cons.prems(1) by (simp add: valued_nonneg)
  have pos: "0 < sint (v_Amount v)" using Cons.prems(1) by simp
  have all: "valued own n u (v # vs)
      = (if ?n = n \<and> ?u = u then sint (v_Amount v) else 0) + valued own n u vs" for n u
    by (simp add: valued_def)
  have "sint (v_Amount v) + valued own ?n ?u vs \<le> sint (get s ?n ?u)"
    using Cons.prems(2) [rule_format, of ?n ?u] all [of ?n ?u] nn [of ?n ?u] pos by simp
  then obtain s' where s': "debit s ?n ?u (v_Amount v) = Inr s'"
    using debit_succeeds [of "v_Amount v" s ?n ?u] pos nn [of ?n ?u] by auto
  have "valued own n u vs \<le> sint (get s' n u) \<or> valued own n u vs = 0" for n u
  proof (cases "?n = n \<and> ?u = u")
    case True
    then show ?thesis
      using debit_Inr [OF s'] \<open>sint (v_Amount v) + valued own ?n ?u vs \<le> sint (get s ?n ?u)\<close> by auto
  next
    case False
    then show ?thesis
      using debit_other [OF s', of n u] Cons.prems(2) [rule_format, of n u] all [of n u] by auto
  qed
  then show ?case using Cons.IH [of s' "i + 1"] Cons.prems(1) s' by auto
qed simp

end

section \<open>The inventory keeps the contract\<close>

lemma Add_eq_credit: "Inventory_Add s n u a = map_err panic (inv_credit s n u a)"
  by (simp add: inv_credit_def Inventory_Add_def split: prod.splits sum.splits)

lemma inv_credit_Inr:
  "inv_credit s n u a = Inr t \<Longrightarrow> 0 < sint a \<and> sint (Inventory_Get t n u) = sint (Inventory_Get s n u) + sint a"
  by (auto simp: inv_credit_def Inventory_AddChecked_def Inventory_Get_def Let_def CheckedAdd_Inr
      split: if_splits sum.splits)

lemma inv_credit_other:
  "inv_credit s n u a = Inr t \<Longrightarrow> (n', u') \<noteq> (n, u) \<Longrightarrow> Inventory_Get t n' u' = Inventory_Get s n' u'"
  by (auto simp: inv_credit_def Inventory_AddChecked_def Inventory_Get_def Let_def gm_get_def gm_has_def
      split: if_splits sum.splits option.splits)

lemma inv_debit_Inr:
  "Inventory_Sub s n u a = Inr t \<Longrightarrow> 0 < sint a \<and> sint a \<le> sint (Inventory_Get s n u)
     \<and> sint (Inventory_Get t n u) = sint (Inventory_Get s n u) - sint a"
  by (auto simp: Inventory_Sub_def Inventory_Get_def Let_def Sub_Inr)

lemma inv_debit_other:
  "Inventory_Sub s n u a = Inr t \<Longrightarrow> (n', u') \<noteq> (n, u) \<Longrightarrow> Inventory_Get t n' u' = Inventory_Get s n' u'"
  by (auto simp: Inventory_Sub_def Inventory_Get_def Let_def)

lemma inv_debit_succeeds:
  assumes "0 < sint a" "sint a \<le> sint (Inventory_Get s n u)"
  shows "\<exists>t. Inventory_Sub s n u a = Inr t"
proof -
  have h: "gm_has (Holdings s) n" using assms by (auto simp: Inventory_Get_def split: if_splits)
  have "Sub (Inventory_Get s n u) a = Inr (Inventory_Get s n u - a)"
    using assms by (simp add: Sub_def word_sless_alt)
  then show ?thesis using assms h by (simp add: Inventory_Sub_def Let_def)
qed

text \<open>The outcome of the two operations, on every branch.\<close>

lemma Inventory_AddChecked_error:
  "(\<exists>e. fst (Inventory_AddChecked s n u a) = Inl e)
     \<longleftrightarrow> sint a \<le> 0 \<or> 2 ^ 63 \<le> sint (Inventory_Get s n u) + sint a"
proof -
  have g: "gm_get 0 (gm_get [] (Holdings (if gm_has (Holdings s) n then s
      else s\<lparr>Holdings := gm_put (Holdings s) n []\<rparr>)) n) u = Inventory_Get s n u"
    by (simp add: Inventory_Get_def)
  have "\<exists>c. CheckedAdd (Inventory_Get s n u) a = Inr c"
    if "0 < sint a" "sint (Inventory_Get s n u) + sint a < 2 ^ 63"
    using that sint_range64 [of "Inventory_Get s n u"]
    by (intro exI [of _ "Inventory_Get s n u + a"]) (simp add: CheckedAdd_Inr sint_add64)
  moreover have "\<not> CheckedAdd (Inventory_Get s n u) a = Inr c"
    if "2 ^ 63 \<le> sint (Inventory_Get s n u) + sint a" for c
    using that sint_range64 [of c] by (auto simp: CheckedAdd_Inr)
  ultimately have "(\<exists>c. CheckedAdd (Inventory_Get s n u) a = Inr c) \<longleftrightarrow>
      sint (Inventory_Get s n u) + sint a < 2 ^ 63" if "0 < sint a"
    using that by (meson not_less)
  then show ?thesis
    unfolding Inventory_AddChecked_def Let_def g
    by (cases "CheckedAdd (Inventory_Get s n u) a") (auto simp: not_less)
qed

lemma inv_credit_succeeds:
  assumes "0 < sint a" "sint (Inventory_Get s n u) + sint a < 2 ^ 63"
  shows "\<exists>t. inv_credit s n u a = Inr t"
  using assms Inventory_AddChecked_error [of s n u a]
  by (cases "Inventory_AddChecked s n u a"; cases "fst (Inventory_AddChecked s n u a)") (auto simp: inv_credit_def)

interpretation inv: ledger Inventory_Get inv_credit Inventory_Sub
  by unfold_locales
    (fact inv_credit_Inr inv_credit_other inv_debit_Inr inv_debit_other inv_credit_succeeds inv_debit_succeeds)+

lemma Inventory_AddChecked_keeps:
  "fst (Inventory_AddChecked s n u a) = Inl e
     \<Longrightarrow> Inventory_Get (snd (Inventory_AddChecked s n u a)) n' u' = Inventory_Get s n' u'"
  by (auto simp: Inventory_AddChecked_def Inventory_Get_def Let_def gm_get_def gm_has_def
      split: if_splits sum.splits option.splits)

lemma Inventory_Sub_error:
  "(\<exists>e. Inventory_Sub s n u a = Inl e) \<longleftrightarrow> sint a \<le> 0 \<or> sint (Inventory_Get s n u) < sint a"
proof -
  have "\<exists>e. Inventory_Sub s n u a = Inl e" if "sint a \<le> 0 \<or> sint (Inventory_Get s n u) < sint a"
  proof (cases "Inventory_Sub s n u a")
    case (Inr t)
    then show ?thesis using inv_debit_Inr [OF Inr] that by linarith
  qed blast
  moreover have "\<not> (\<exists>e. Inventory_Sub s n u a = Inl e)"
    if "0 < sint a" "sint a \<le> sint (Inventory_Get s n u)"
    using inv_debit_succeeds [OF that] by auto
  ultimately show ?thesis by (metis not_le)
qed

section \<open>Well-formed inventories and totals\<close>

text \<open>
  The representation invariant: keys are distinct at both levels. Balances are nonnegative.
\<close>

definition inv_ok :: "InventoryState \<Rightarrow> bool" where
  "inv_ok s \<longleftrightarrow> gm_ok (Holdings s) \<and> (\<forall>p \<in> set (Holdings s). gm_ok (snd p))"

definition inv_nonneg :: "InventoryState \<Rightarrow> bool" where
  "inv_nonneg s \<longleftrightarrow> (\<forall>n u. 0 \<le> sint (Inventory_Get s n u))"

definition inv_total :: "InventoryState \<Rightarrow> UnitID \<Rightarrow> int" where
  "inv_total s u = (\<Sum>p\<leftarrow>Holdings s. sint (gm_get 0 (snd p) u))"

lemma inv_ok_New [simp]: "inv_ok NewInventoryState"
  by (simp add: inv_ok_def NewInventoryState_def)

lemma set_gm_put: "p \<in> set (gm_put m k v) \<Longrightarrow> p = (k, v) \<or> p \<in> set m"
  unfolding gm_put_def by (induction m) (auto split: if_splits)

lemma inv_ok_inner: "inv_ok s \<Longrightarrow> gm_ok (gm_get [] (Holdings s) n)"
  by (auto simp: inv_ok_def gm_get_def split: option.splits dest!: map_of_SomeD)

lemma inv_ok_put: "inv_ok s \<Longrightarrow> gm_ok m \<Longrightarrow> inv_ok (s\<lparr>Holdings := gm_put (Holdings s) n m\<rparr>)"
  by (auto simp: inv_ok_def dest: set_gm_put)

lemma inv_ok_AddChecked: "inv_ok s \<Longrightarrow> inv_ok (snd (Inventory_AddChecked s n u a))"
  using inv_ok_inner [of s n] inv_ok_put [of s "[]" n] inv_ok_put [of s]
    inv_ok_put [of "s\<lparr>Holdings := gm_put (Holdings s) n []\<rparr>"]
  by (auto simp: Inventory_AddChecked_def Let_def split: sum.splits)

lemma inv_ok_credit: "inv_ok s \<Longrightarrow> inv_credit s n u a = Inr t \<Longrightarrow> inv_ok t"
  using inv_ok_AddChecked [of s n u a] by (auto simp: inv_credit_def split: prod.splits)

lemma inv_ok_Sub: "inv_ok s \<Longrightarrow> Inventory_Sub s n u a = Inr t \<Longrightarrow> inv_ok t"
  using inv_ok_inner [of s n] by (auto simp: Inventory_Sub_def Let_def intro!: inv_ok_put)

lemma inv_nonneg_credit: "inv_nonneg s \<Longrightarrow> inv_credit s n u a = Inr t \<Longrightarrow> inv_nonneg t"
  unfolding inv_nonneg_def
proof (intro allI)
  fix n' u'
  assume "\<forall>n u. 0 \<le> sint (Inventory_Get s n u)" and c: "inv_credit s n u a = Inr t"
  then show "0 \<le> sint (Inventory_Get t n' u')"
    using inv_credit_Inr [OF c] inv_credit_other [OF c, of n' u'] by (cases "(n', u') = (n, u)") fastforce+
qed

lemma inv_nonneg_Sub: "inv_nonneg s \<Longrightarrow> Inventory_Sub s n u a = Inr t \<Longrightarrow> inv_nonneg t"
  unfolding inv_nonneg_def
proof (intro allI)
  fix n' u'
  assume "\<forall>n u. 0 \<le> sint (Inventory_Get s n u)" and c: "Inventory_Sub s n u a = Inr t"
  then show "0 \<le> sint (Inventory_Get t n' u')"
    using inv_debit_Inr [OF c] inv_debit_other [OF c, of n' u'] by (cases "(n', u') = (n, u)") fastforce+
qed

text \<open>The total of a unit, as the sum of the balances of any nodes that include all holders.\<close>

lemma inv_total_sum:
  assumes "inv_ok s" "finite N" "fst ` set (Holdings s) \<subseteq> N"
  shows "inv_total s u = (\<Sum>n\<in>N. sint (Inventory_Get s n u))"
proof -
  have d: "distinct (map fst (Holdings s))" using assms(1) by (simp add: inv_ok_def gm_ok_def)
  have "inv_total s u = (\<Sum>p\<leftarrow>Holdings s. sint (Inventory_Get s (fst p) u))"
    unfolding inv_total_def using assms(1) gm_in_set_get [of "Holdings s"]
    by (intro arg_cong [of _ _ sum_list] map_cong)
      (auto simp: Inventory_Get_def inv_ok_def gm_has_iff intro: rev_image_eqI)
  also have "\<dots> = sum_list (map (\<lambda>n. sint (Inventory_Get s n u)) (map fst (Holdings s)))" by (simp add: comp_def)
  also have "\<dots> = (\<Sum>n\<in>fst ` set (Holdings s). sint (Inventory_Get s n u))"
    using d by (subst sum_list_distinct_conv_sum_set) auto
  also have "\<dots> = (\<Sum>n\<in>N. sint (Inventory_Get s n u))"
    using assms(2,3) by (intro sum.mono_neutral_left) (auto simp: Inventory_Get_def gm_has_iff)
  finally show ?thesis .
qed

lemma foldl_put_distinct:
  "distinct (map fst (acc @ xs)) \<Longrightarrow> foldl (\<lambda>m (k, v). gm_put m k v) acc xs = acc @ xs"
proof (induction xs arbitrary: acc)
  case (Cons x xs)
  obtain k v where x: "x = (k, v)" by force
  have "gm_put acc k v = acc @ [(k, v)]"
  proof -
    have "k \<notin> fst ` set acc" using Cons.prems x by auto
    then show ?thesis unfolding gm_put_def by (induction acc) auto
  qed
  then show ?case using Cons.IH [of "acc @ [(k, v)]"] Cons.prems x by simp
qed simp

lemma Inventory_Copy_eq: "inv_ok s \<Longrightarrow> Inventory_Copy s = s"
proof -
  assume ok: "inv_ok s"
  have in_: "foldl (\<lambda>m (u, a). gm_put m u a) [] units = units" if "(n, units) \<in> set (Holdings s)" for n units
    using foldl_put_distinct [of "[]" units] that ok by (auto simp: inv_ok_def gm_ok_def)
  have "foldl (\<lambda>out (node, units). out\<lparr>Holdings := gm_put (Holdings out) node
          (foldl (\<lambda>m (u, a). gm_put m u a) [] units)\<rparr>) \<lparr>Holdings = acc\<rparr> xs = \<lparr>Holdings = acc @ xs\<rparr>"
    if "set xs \<subseteq> set (Holdings s)" "distinct (map fst (acc @ xs))" for acc xs
  proof -
    have "foldl (\<lambda>out (node, units). out\<lparr>Holdings := gm_put (Holdings out) node
          (foldl (\<lambda>m (u, a). gm_put m u a) [] units)\<rparr>) \<lparr>Holdings = acc\<rparr> xs
        = \<lparr>Holdings = foldl (\<lambda>m (k, v). gm_put m k v) acc xs\<rparr>"
      using that(1) by (induction xs arbitrary: acc) (auto simp: in_)
    then show ?thesis using foldl_put_distinct [OF that(2)] by simp
  qed
  from this [of "Holdings s" "[]"] show ?thesis
    using ok by (simp add: Inventory_Copy_def NewInventoryState_def inv_ok_def gm_ok_def)
qed

text \<open>Crediting the entries of a map one by one loads the map, if every amount in it is positive.\<close>

lemma load_holdings:
  assumes "each (\<lambda>_ (unit, amt) out. inv_credit out p unit amt) i m s = Inr t" "gm_ok m"
  shows "(\<forall>(u, a) \<in> set m. 0 < sint a)"
    and "sint (Inventory_Get t p u) = sint (Inventory_Get s p u) + sint (gm_get 0 m u)"
    and "n \<noteq> p \<Longrightarrow> Inventory_Get t n u = Inventory_Get s n u"
  using assms
proof (induction m arbitrary: i s)
  case (Cons x m)
  obtain k a where x: "x = (k, a)" by force
  case 1
  then show ?case using Cons(1) x inv_credit_Inr by (fastforce simp: gm_ok_def)
  case 2
  then obtain s' where s': "inv_credit s p k a = Inr s'"
    and r: "each (\<lambda>_ (unit, amt) out. inv_credit out p unit amt) (i + 1) m s' = Inr t" and ok: "gm_ok m"
    and k: "k \<notin> fst ` set m" by (auto simp: x gm_ok_def)
  have "map_of m k = None" using k by (simp add: map_of_eq_None_iff)
  then have "gm_get 0 m k = 0" by (simp add: gm_get_def)
  then show ?case using Cons(2) [OF r ok] inv_credit_Inr [OF s'] inv_credit_other [OF s', of p u]
    by (auto simp: x gm_get_def)
  case 3
  then show ?case using Cons(3) x inv_credit_other by (fastforce simp: gm_ok_def)
qed (simp_all)

lemma holdings_load:
  assumes "gm_ok m" "\<forall>(u, a) \<in> set m. 0 < sint a" "\<forall>u \<in> fst ` set m. Inventory_Get s p u = 0"
  shows "\<exists>t. each (\<lambda>_ (unit, amt) out. inv_credit out p unit amt) i m s = Inr t"
  using assms
proof (induction m arbitrary: i s)
  case (Cons x m)
  obtain k a where x: "x = (k, a)" by force
  have "0 < sint a" "Inventory_Get s p k = 0" using Cons.prems x by auto
  then obtain s' where s': "inv_credit s p k a = Inr s'" using inv_credit_succeeds [of a s p k] sint_range64 [of a] by auto
  have "Inventory_Get s' p u = 0" if "u \<in> fst ` set m" for u
  proof -
    have "u \<noteq> k" using that Cons.prems(1) x by (auto simp: gm_ok_def)
    then show ?thesis using inv_credit_other [OF s', of p u] Cons.prems(3) that by auto
  qed
  then show ?case using Cons.IH [of s'] Cons.prems s' by (auto simp: x gm_ok_def)
qed simp

section \<open>Flow records and prices\<close>

text \<open>A flow counter never wraps: it grows by the amount, or an overflow is reported.\<close>

lemma AddTradeChecked_Inr:
  "AddTradeChecked f a = Inr g \<Longrightarrow>
     sint (fr_TradeVolume g) = sint (fr_TradeVolume f) + max 0 (sint a)
     \<and> g\<lparr>fr_TradeVolume := fr_TradeVolume f\<rparr> = f"
  by (auto simp: AddTradeChecked_def CheckedAdd_Inr split: if_splits)

lemma AddPaymentChecked_Inr:
  "AddPaymentChecked f a = Inr g \<Longrightarrow>
     sint (fr_PaymentVolume g) = sint (fr_PaymentVolume f) + max 0 (sint a)
     \<and> g\<lparr>fr_PaymentVolume := fr_PaymentVolume f\<rparr> = f"
  by (auto simp: AddPaymentChecked_def CheckedAdd_Inr split: if_splits)

lemma AddTrade_mono: "sint (fr_TradeVolume f) \<le> sint (fr_TradeVolume (AddTrade f a))"
  using AddTradeChecked_Inr [of f a] by (fastforce simp: AddTrade_def ignoreFlowError_def split: sum.splits)

lemma AddPayment_mono: "sint (fr_PaymentVolume f) \<le> sint (fr_PaymentVolume (AddPayment f a))"
  using AddPaymentChecked_Inr [of f a] by (fastforce simp: AddPayment_def ignoreFlowError_def split: sum.splits)

lemma PriceFromAcceptance_range:
  "fnonneg (PriceFromAcceptance x) \<and> \<not> flt (Fin 1) (PriceFromAcceptance x)"
  by (cases x) (auto simp: PriceFromAcceptance_def)

lemma PriceFromAcceptance_valid:
  "ValidateAcceptanceRecord r = Inr () \<Longrightarrow> PriceFromAcceptance (ar_Score r) = ar_Score r"
  by (auto simp: ValidateAcceptanceRecord_def PriceFromAcceptance_def)

lemma fnonneg_fmul_pos:
  assumes "\<not> fisnan x" "\<not> fisinf x" "\<not> flt x (Fin 0)" "\<not> fisnan y" "\<not> fisinf y" "\<not> flt y (Fin 0)"
  shows "fnonneg (fmul x y)"
  using assms by (intro fnonneg_fmul) (auto simp: fnonneg_def elim: fisnan.elims fisinf.elims is_fin.elims)

lemma EffectiveValue_nonneg: "fnonneg (EffectiveValue p pref u)"
  by (auto simp: EffectiveValue_def Let_def fle_def intro!: fnonneg_fmul_pos)

end
