(* ===== verification/Price.thy ===== *)
theory Price
  imports Amount Crypto
begin

text \<open>
  \<open>core/price\<close>: the local price of a unit. A seed price from the features of the asset is blended
  with the volume-weighted average of the observed trades, the more so the more volume has settled,
  and decays with the time since the last trade.

  Shown here, for every input, not-a-numbers and infinities included: scores and blend factors lie
  in the unit interval, prices are never negative nor a not-a-number, without trades the price is
  the seed and beyond the volume threshold it is the market price, and decay never raises a price.
\<close>

section \<open>Definitions\<close>

record AssetFeatures =
  af_Cost :: float64
  af_Age :: float64
  af_Stability :: float64

record FeatureWeights =
  fw_Cost :: float64
  fw_Age :: float64
  fw_Stability :: float64

record PriceConfig =
  pc_BasePrice :: float64
  pc_Weights :: FeatureWeights
  pc_VolumeThreshold :: amount
  pc_DecayK :: float64

record PriceResult =
  pr_FeatureScore :: float64
  pr_SeedPrice :: float64
  pr_MarketPrice :: float64
  pr_HasMarketPrice :: bool
  pr_Lambda :: float64
  pr_FinalPrice :: float64

record TradeObservation =
  ob_Price :: float64
  ob_Volume :: amount
  ob_Weight :: float64
  ob_TimeUnix :: int64

definition clamp01 :: "float64 \<Rightarrow> float64" where
  "clamp01 v = (if fisnan v \<or> flt v (Fin 0) then Fin 0 else if flt (Fin 1) v then Fin 1 else v)"

definition nonNegative :: "float64 \<Rightarrow> float64" where
  "nonNegative v =
     (if fisnan v \<or> flt v (Fin 0) then Fin 0 else if v = Inf False then MaxFloat64 else v)"

definition oneThird :: float64 where
  "oneThird = fdiv (Fin 1) (Fin 3)"

definition Normalize :: "FeatureWeights \<Rightarrow> FeatureWeights" where
  "Normalize w0 =
     (let w = w0\<lparr>fw_Cost := nonNegative (fw_Cost w0), fw_Age := nonNegative (fw_Age w0),
                 fw_Stability := nonNegative (fw_Stability w0)\<rparr>;
          total = fadd (fadd (fw_Cost w) (fw_Age w)) (fw_Stability w)
      in if feq total (Fin 0)
         then \<lparr>fw_Cost = oneThird, fw_Age = oneThird, fw_Stability = oneThird\<rparr>
         else \<lparr>fw_Cost = fdiv (fw_Cost w) total, fw_Age = fdiv (fw_Age w) total,
               fw_Stability = fdiv (fw_Stability w) total\<rparr>)"

definition FeatureScore :: "AssetFeatures \<Rightarrow> FeatureWeights \<Rightarrow> float64" where
  "FeatureScore features weights =
     (let w = Normalize weights;
          score = fadd (fadd (fmul (clamp01 (af_Cost features)) (fw_Cost w))
                             (fmul (clamp01 (af_Age features)) (fw_Age w)))
                       (fmul (clamp01 (af_Stability features)) (fw_Stability w))
      in clamp01 score)"

definition SeedPrice :: "float64 \<Rightarrow> float64 \<Rightarrow> float64" where
  "SeedPrice basePrice score = fmul (nonNegative basePrice) (clamp01 score)"

definition BlendPrice :: "float64 \<Rightarrow> float64 \<Rightarrow> float64 \<Rightarrow> float64" where
  "BlendPrice seedPrice marketPrice lambda =
     (let seed = nonNegative seedPrice;
          market = nonNegative marketPrice;
          l = clamp01 lambda
      in fadd (fmul (fsub (Fin 1) l) seed) (fmul l market))"

definition ApplyDecay :: "'x env_scheme \<Rightarrow> float64 \<Rightarrow> float64 \<Rightarrow> float64 \<Rightarrow> float64" where
  "ApplyDecay E price k deltaSeconds =
     (let p = nonNegative price;
          rate = nonNegative k;
          delta = nonNegative deltaSeconds
      in if feq p (Fin 0) \<or> feq rate (Fin 0) \<or> feq delta (Fin 0) then p
         else fmul p (math_Exp E (fmul (fneg rate) delta)))"

definition validTradeObservation :: "TradeObservation \<Rightarrow> bool" where
  "validTradeObservation trade \<longleftrightarrow>
     fle (Fin 0) (ob_Price trade) \<and> 0 <s ob_Volume trade \<and> flt (Fin 0) (ob_Weight trade)"

definition vwapStep :: "float64 \<times> float64 \<Rightarrow> TradeObservation \<Rightarrow> float64 \<times> float64" where
  "vwapStep acc trade = (case acc of (numerator, denominator) \<Rightarrow>
     if \<not> validTradeObservation trade then (numerator, denominator)
     else let weightedVolume = fmul (ToFloat (ob_Volume trade)) (ob_Weight trade)
          in (fadd numerator (fmul (nonNegative (ob_Price trade)) weightedVolume),
              fadd denominator weightedVolume))"

definition WeightedVWAP :: "TradeObservation list \<Rightarrow> float64 \<times> bool" where
  "WeightedVWAP trades =
     (let (numerator, denominator) = foldl vwapStep (Fin 0, Fin 0) trades
      in if feq denominator (Fin 0) then (Fin 0, False) else (fdiv numerator denominator, True))"

definition VolumeLambda :: "amount \<Rightarrow> amount \<Rightarrow> float64" where
  "VolumeLambda settledVolume threshold =
     (if settledVolume \<le>s 0 \<or> threshold \<le>s 0 then Fin 0
      else if threshold \<le>s settledVolume then Fin 1
      else fdiv (of_int64 settledVolume) (of_int64 threshold))"

definition ComputePrice ::
    "'x env_scheme \<Rightarrow> AssetFeatures \<Rightarrow> TradeObservation list \<Rightarrow> amount \<Rightarrow> int64 \<Rightarrow> int64 \<Rightarrow> PriceConfig \<Rightarrow> PriceResult"
  where
  "ComputePrice E features trades settledVolume lastTradeUnix nowUnix cfg =
     (let score = FeatureScore features (pc_Weights cfg);
          seed = SeedPrice (pc_BasePrice cfg) score;
          (market, hasMarket) = WeightedVWAP trades;
          lambda = (if hasMarket then VolumeLambda settledVolume (pc_VolumeThreshold cfg) else Fin 0);
          price = (if hasMarket then BlendPrice seed market lambda else seed);
          price = (if lastTradeUnix <s nowUnix
                   then ApplyDecay E price (pc_DecayK cfg) (of_int64 (nowUnix - lastTradeUnix))
                   else price)
      in \<lparr>pr_FeatureScore = score, pr_SeedPrice = seed, pr_MarketPrice = market,
          pr_HasMarketPrice = hasMarket, pr_Lambda = lambda, pr_FinalPrice = price\<rparr>)"

section \<open>Ranges\<close>

text \<open>Finite and nonnegative; and in the unit interval.\<close>

definition fposfin :: "float64 \<Rightarrow> bool" where
  "fposfin x \<longleftrightarrow> is_fin x \<and> fnonneg x"

definition funit :: "float64 \<Rightarrow> bool" where
  "funit x \<longleftrightarrow> fposfin x \<and> \<not> flt (Fin 1) x"

lemma funit_posfin [simp]: "funit x \<Longrightarrow> fposfin x"
  by (simp add: funit_def)

lemma fposfin_nonneg [simp]: "fposfin x \<Longrightarrow> fnonneg x"
  by (simp add: fposfin_def)

lemma fposfin_simps [simp]:
  "\<not> fposfin NaN" "\<not> fposfin (Inf s)" "fposfin NegZero" "fposfin (Fin r) \<longleftrightarrow> 0 \<le> r"
  by (simp_all add: fposfin_def)

lemma fposfin_cases: "fposfin x \<Longrightarrow> x = NegZero \<or> (\<exists>r \<ge> 0. x = Fin r)"
  by (cases x) auto

lemma funit_cases: "funit x \<Longrightarrow> x = NegZero \<or> (\<exists>r. x = Fin r \<and> 0 \<le> r \<and> r \<le> 1)"
  by (cases x) (auto simp: funit_def)

lemma funit_clamp01 [simp]: "funit (clamp01 v)"
  by (cases v) (auto simp: clamp01_def funit_def)

lemma fposfin_nonNegative [simp]: "fposfin (nonNegative v)"
  by (cases v) (auto simp: nonNegative_def MaxFloat64_def)

lemma nonNegative_id: "fposfin v \<Longrightarrow> nonNegative v = v"
  by (cases v) (auto simp: nonNegative_def)

lemma clamp01_id: "funit v \<Longrightarrow> clamp01 v = v"
  by (cases v) (auto simp: clamp01_def funit_def)

lemma fnonneg_mul_posfin: "fposfin x \<Longrightarrow> fposfin y \<Longrightarrow> fnonneg (fmul x y)"
  by (intro fnonneg_fmul) (simp_all add: fposfin_def)

text \<open>A float is well formed when it is a double: rounding leaves it alone.\<close>

definition wf64 :: "float64 \<Rightarrow> bool" where
  "wf64 x \<longleftrightarrow> (case x of Fin r \<Rightarrow> rnd r = Fin r | _ \<Rightarrow> True)"

lemma wf64_simps [simp]: "wf64 NaN" "wf64 (Inf s)" "wf64 NegZero" "wf64 (Fin r) \<longleftrightarrow> rnd r = Fin r"
  by (simp_all add: wf64_def)

lemma rnd_Fin_iff: "0 \<le> r \<Longrightarrow> rnd r = Fin r \<longleftrightarrow> rne r = r \<and> r < 2 ^ 1024"
  by (auto simp: rnd_def rnd_pos_alt)

lemma wf64_nonNegative: "wf64 v \<Longrightarrow> wf64 (nonNegative v)"
proof -
  have "rnd ((2 ^ 53 - 1) * 2 ^ 971) = Fin ((2 ^ 53 - 1) * 2 ^ 971)"
    by (rule rnd_representable [of _ "2 ^ 53 - 1" 971]) (simp_all add: pow2_def)
  then show "wf64 v \<Longrightarrow> wf64 (nonNegative v)"
    by (auto simp: nonNegative_def MaxFloat64_def)
qed

lemma rnd_le_wf:
  assumes "0 \<le> v" "v \<le> r" "rnd r = Fin r"
  shows "\<exists>q. rnd v = Fin q \<and> 0 \<le> q \<and> q \<le> r"
proof -
  have r: "rne r = r" "r < 2 ^ 1024" using assms rnd_Fin_iff [of r] by auto
  have "rne v \<le> r" using rne_mono [OF assms(2)] r(1) by simp
  then show ?thesis using r(2) assms(1) by (auto simp: rnd_def rnd_pos_alt)
qed

text \<open>A factor in the unit interval does not raise a nonnegative double.\<close>

lemma fmul_unit_le:
  assumes "fposfin x" "wf64 x" "funit l"
  shows "fposfin (fmul x l) \<and> fle (fmul x l) x"
proof -
  consider "x = NegZero \<or> x = Fin 0 \<or> l = NegZero \<or> l = Fin 0"
    | r q where "x = Fin r" "l = Fin q" "0 < r" "0 < q" "q \<le> 1" "rnd r = Fin r"
    using fposfin_cases [OF assms(1)] funit_cases [OF assms(3)] assms(2) by force
  then show ?thesis
  proof cases
    case 1
    then show ?thesis using fposfin_cases [OF assms(1)] funit_cases [OF assms(3)]
      by (auto simp: fle_def fzero_def)
  next
    case 2
    have "r * q \<le> r * 1" using 2 by (intro mult_left_mono) simp_all
    then obtain p where "rnd (r * q) = Fin p" "0 \<le> p" "p \<le> r" using rnd_le_wf [of "r * q" r] 2 by auto
    then show ?thesis using 2 by simp
  qed
qed

lemma ApplyDecay_le:
  assumes "wf64 price" "\<forall>x. fnonneg (fneg x) \<longrightarrow> funit (math_Exp E x)"
  shows "fposfin (ApplyDecay E price k d) \<and> fle (ApplyDecay E price k d) (nonNegative price)"
proof -
  let ?p = "nonNegative price" and ?x = "fmul (fneg (nonNegative k)) (nonNegative d)"
  have r: "fle ?p ?p" using fposfin_nonNegative [of price] by (cases ?p) (auto simp: fle_def)
  have "fnonneg (fneg ?x)"
    using fposfin_cases [OF fposfin_nonNegative [of k]] fposfin_cases [OF fposfin_nonNegative [of d]]
    by (auto simp: fzero_def rnd_def rnd_pos_alt mult_less_0_iff zero_less_mult_iff)
  then have "funit (math_Exp E ?x)" using assms(2) by blast
  then have "fposfin (fmul ?p (math_Exp E ?x)) \<and> fle (fmul ?p (math_Exp E ?x)) ?p"
    using fmul_unit_le wf64_nonNegative [OF assms(1)] by simp
  then show ?thesis using r by (simp add: ApplyDecay_def Let_def)
qed

lemma fsub_1_unit: "funit l \<Longrightarrow> funit (fsub (Fin 1) l)"
proof -
  have "funit (rnd v)" if v: "0 \<le> v" "v \<le> 1" for v
  proof -
    obtain q where "rnd v = Fin q" "0 \<le> q" "q \<le> 1" using rnd_le_wf [of v 1] v by auto
    then show ?thesis by (simp add: funit_def)
  qed
  moreover have "funit (Fin 1)" by (simp add: funit_def)
  moreover assume "funit l"
  ultimately show ?thesis using funit_cases [of l] by (auto simp: fsub_def)
qed

lemma BlendPrice_nonneg: "fnonneg (BlendPrice s m l)"
  unfolding BlendPrice_def Let_def
  by (intro fnonneg_fadd fnonneg_mul_posfin) (simp_all add: fsub_1_unit)

lemma BlendPrice_0: "wf64 s \<Longrightarrow> feq (BlendPrice s m (Fin 0)) (nonNegative s)"
  using fposfin_cases [OF fposfin_nonNegative [of s]] fposfin_cases [OF fposfin_nonNegative [of m]]
    wf64_nonNegative [of s]
  by (auto simp: BlendPrice_def Let_def clamp01_def fsub_def fzero_def)

lemma BlendPrice_1: "wf64 m \<Longrightarrow> feq (BlendPrice s m (Fin 1)) (nonNegative m)"
  using fposfin_cases [OF fposfin_nonNegative [of s]] fposfin_cases [OF fposfin_nonNegative [of m]]
    wf64_nonNegative [of m]
  by (auto simp: BlendPrice_def Let_def clamp01_def fsub_def fzero_def)

lemma VolumeLambda_unit: "funit (VolumeLambda settled threshold)"
proof (cases "settled \<le>s 0 \<or> threshold \<le>s 0 \<or> threshold \<le>s settled")
  case True
  then show ?thesis by (auto simp: VolumeLambda_def funit_def)
next
  case False
  then have p: "0 < sint settled" "sint settled < sint threshold"
    by (simp_all add: word_sle_eq not_le)
  let ?s = "rne (of_int (sint settled))" and ?t = "rne (of_int (sint threshold))"
  have "(of_int (sint threshold) :: rat) \<le> of_int (2 ^ 63)"
    using sint_range64 [of threshold] by (simp only: of_int_le_iff)
  also have "(of_int (2 ^ 63) :: rat) \<le> (2 ^ 53 - 1) * 2 ^ 971" by simp
  finally have big: "(of_int (sint threshold) :: rat) \<le> (2 ^ 53 - 1) * 2 ^ 971" .
  then have t: "rnd (of_int (sint threshold)) = Fin ?t"
    using p by (intro rnd_finite) (simp_all del: of_int_sint)
  have le: "(of_int (sint settled) :: rat) \<le> of_int (sint threshold)" using p by (simp only: of_int_le_iff)
  have s: "rnd (of_int (sint settled)) = Fin ?s"
    using p order_trans [OF le big] by (intro rnd_finite) (simp_all del: of_int_sint)
  have "(1 :: rat) \<le> of_int (sint settled)" using p by (metis int_one_le_iff_zero_less of_int_1_le_iff)
  then have "rne 1 \<le> ?s" by (rule rne_mono)
  then have s1: "1 \<le> ?s" by simp
  have st: "?s \<le> ?t" using le by (rule rne_mono)
  have "0 \<le> ?s / ?t" "?s / ?t \<le> 1" "?s / ?t \<noteq> 0" "?t \<noteq> 0" using s1 st by simp_all
  then obtain q where "rnd (?s / ?t) = Fin q" "0 \<le> q" "q \<le> 1" using rnd_le_wf [of "?s / ?t" 1] by auto
  then show ?thesis using False s t \<open>?s / ?t \<noteq> 0\<close> \<open>?t \<noteq> 0\<close>
    by (simp add: VolumeLambda_def of_int64_def funit_def Let_def del: of_int_sint)
qed

text \<open>The result of \<open>ComputePrice\<close>, for all inputs.\<close>

definition price_ok :: "PriceResult \<Rightarrow> bool" where
  "price_ok r \<longleftrightarrow> funit (pr_FeatureScore r) \<and> funit (pr_Lambda r) \<and> fnonneg (pr_SeedPrice r)
     \<and> fnonneg (pr_FinalPrice r)"

lemma ComputePrice_ok:
  assumes "\<forall>x. fnonneg (fneg x) \<longrightarrow> funit (math_Exp E x)"
  shows "price_ok (ComputePrice E f trades settled lastUnix now cfg)"
proof -
  have d: "fnonneg (ApplyDecay E p k t)" for p k t
  proof -
    let ?x = "fmul (fneg (nonNegative k)) (nonNegative t)"
    have "fnonneg (fneg ?x)"
      using fposfin_cases [OF fposfin_nonNegative [of k]] fposfin_cases [OF fposfin_nonNegative [of t]]
      by (auto simp: fzero_def rnd_def rnd_pos_alt mult_less_0_iff zero_less_mult_iff)
    then have "fposfin (math_Exp E ?x)" using assms by simp
    then show ?thesis by (simp add: ApplyDecay_def Let_def fnonneg_mul_posfin)
  qed
  have s: "fnonneg (SeedPrice b c)" for b c by (simp add: SeedPrice_def fnonneg_mul_posfin)
  have "funit (FeatureScore f w)" for w by (simp add: FeatureScore_def Let_def)
  moreover have "funit (Fin 0)" by (simp add: funit_def)
  ultimately show ?thesis
    by (simp add: price_ok_def ComputePrice_def Let_def d s BlendPrice_nonneg VolumeLambda_unit split: prod.splits)
qed

text \<open>The market price is ignored without valid trades, and rules alone beyond the threshold.\<close>

lemma WeightedVWAP_none: "\<forall>t \<in> set ts. \<not> validTradeObservation t \<Longrightarrow> WeightedVWAP ts = (Fin 0, False)"
proof -
  have "foldl vwapStep acc ts = acc" if "\<forall>t \<in> set ts. \<not> validTradeObservation t" for acc
    using that by (induction ts) (auto simp: vwapStep_def split: prod.splits)
  then show "\<forall>t \<in> set ts. \<not> validTradeObservation t \<Longrightarrow> WeightedVWAP ts = (Fin 0, False)"
    by (simp add: WeightedVWAP_def)
qed

lemma VolumeLambda_full: "0 <s threshold \<Longrightarrow> threshold \<le>s settled \<Longrightarrow> VolumeLambda settled threshold = Fin 1"
  by (simp add: VolumeLambda_def word_sle_eq word_sless_alt)

end
