(* ===== verification/NodeCore.thy ===== *)
theory NodeCore
  imports Inventory Price
begin

text \<open>
  \<open>core/node/node.go\<close>, \<open>inventory.go\<close>, \<open>price.go\<close> and \<open>flow.go\<close>: the state of a node and the
  operations on its own inventory, prices and trade flow.

  A nil map reads as an empty one and \<open>init\<close> replaces it before any write, so both are the empty
  list; what remains of \<open>init\<close> is the default of the price configuration. The mutex of a node makes
  each method atomic; the clock is read as one value \<open>n_NowUnix\<close> per method. The store of a node is
  a pointer, \<open>n_Store\<close>; what it points to is the subject of \<open>NodeStore\<close>.
\<close>

section \<open>State\<close>

record Node =
  n_ID :: NodeID
  n_PublicKey :: PublicKey
  n_PrivateKey :: PrivateKey
  n_Inventory :: InventoryState
  n_Preferences :: "(UnitID, float64) gomap"
  n_PriceState :: "(UnitID, PriceResult) gomap"
  n_PriceConfig :: PriceConfig
  n_Features :: "(UnitID, AssetFeatures) gomap"
  n_TradeHistory :: "(UnitID, TradeObservation list) gomap"
  n_SettledVolume :: "(UnitID, amount) gomap"
  n_LastTradeUnix :: "(UnitID, int64) gomap"
  n_Flow :: "(UnitID, FlowRecord) gomap"
  n_Store :: "nat option"
  n_ExecutedTrades :: "(TxID, bool) gomap"
  n_AllowEphemeralReplayUnsafe :: bool
  n_NowUnix :: int64

definition DefaultPriceConfig :: PriceConfig where
  "DefaultPriceConfig =
     \<lparr>pc_BasePrice = Fin 1,
      pc_Weights = \<lparr>fw_Cost = Fin 1, fw_Age = Fin (1/4), fw_Stability = Fin (1/4)\<rparr>,
      pc_VolumeThreshold = projr (FromFloat (Fin 10)), pc_DecayK = Fin 0\<rparr>"

text \<open>\<open>New\<close>, with the reading of the system clock.\<close>

definition NewBare :: "int64 \<Rightarrow> NodeID \<Rightarrow> Node" where
  "NewBare now nid =
     \<lparr>n_ID = nid, n_PublicKey = [], n_PrivateKey = [], n_Inventory = NewInventoryState,
      n_Preferences = [], n_PriceState = [], n_PriceConfig = DefaultPriceConfig, n_Features = [],
      n_TradeHistory = [], n_SettledVolume = [], n_LastTradeUnix = [], n_Flow = [],
      n_Store = None, n_ExecutedTrades = [], n_AllowEphemeralReplayUnsafe = False, n_NowUnix = now\<rparr>"

definition isZeroPriceConfig :: "PriceConfig \<Rightarrow> bool" where
  "isZeroPriceConfig cfg \<longleftrightarrow> feq (pc_BasePrice cfg) (Fin 0)
     \<and> feq (fw_Cost (pc_Weights cfg)) (Fin 0) \<and> feq (fw_Age (pc_Weights cfg)) (Fin 0)
     \<and> feq (fw_Stability (pc_Weights cfg)) (Fin 0)
     \<and> pc_VolumeThreshold cfg = 0 \<and> feq (pc_DecayK cfg) (Fin 0)"

definition NewNode :: "int64 \<Rightarrow> PrivateKey \<Rightarrow> PriceConfig \<Rightarrow> err + Node" where
  "NewNode now priv cfg =
     guard (length priv \<noteq> 64)
       (errorfs [''invalid private key length: got '', dec_nat (length priv), '', want 64''])
     (let pub = ed25519_Public priv in
      guard (length pub \<noteq> 32) (errorf ''invalid private key public component'')
      (attempt (NodeIDFromPublicKey pub) (\<lambda>nid.
       let n = (NewBare now nid)\<lparr>n_PublicKey := pub, n_PrivateKey := priv\<rparr> in
       Inr (if \<not> isZeroPriceConfig cfg then n\<lparr>n_PriceConfig := cfg\<rparr> else n))))"

definition node_init :: "Node \<Rightarrow> Node" where
  "node_init n =
     (if feq (pc_BasePrice (n_PriceConfig n)) (Fin 0) \<and> pc_VolumeThreshold (n_PriceConfig n) = 0
         \<and> feq (pc_DecayK (n_PriceConfig n)) (Fin 0)
      then n\<lparr>n_PriceConfig := DefaultPriceConfig\<rparr> else n)"

section \<open>Inventory\<close>

definition balanceLocked :: "Node \<Rightarrow> UnitID \<Rightarrow> amount" where
  "balanceLocked n unit = Inventory_Get (n_Inventory n) (n_ID n) unit"

definition Balance :: "Node \<Rightarrow> UnitID \<Rightarrow> amount" where
  "Balance n unit = balanceLocked n unit"

definition AddInventory :: "Node \<Rightarrow> UnitID \<Rightarrow> amount \<Rightarrow> err + Node" where
  "AddInventory n0 unit a =
     (let n = node_init n0 in
      attempt (Inventory_Add (n_Inventory n) (n_ID n) unit a) (\<lambda>i. Inr (n\<lparr>n_Inventory := i\<rparr>)))"

definition SubInventory :: "Node \<Rightarrow> UnitID \<Rightarrow> amount \<Rightarrow> err + Node" where
  "SubInventory n0 unit a =
     (let n = node_init n0 in
      attempt (Inventory_Sub (n_Inventory n) (n_ID n) unit a) (\<lambda>i. Inr (n\<lparr>n_Inventory := i\<rparr>)))"

section \<open>Prices\<close>

definition zeroFeatures :: AssetFeatures where
  "zeroFeatures = \<lparr>af_Cost = Fin 0, af_Age = Fin 0, af_Stability = Fin 0\<rparr>"

definition computePriceLocked :: "'x env_scheme \<Rightarrow> Node \<Rightarrow> UnitID \<Rightarrow> PriceResult \<times> Node" where
  "computePriceLocked E n unit =
     (let result = ComputePrice E (gm_get zeroFeatures (n_Features n) unit)
            (gm_get [] (n_TradeHistory n) unit) (gm_get 0 (n_SettledVolume n) unit)
            (gm_get 0 (n_LastTradeUnix n) unit) (n_NowUnix n) (n_PriceConfig n)
      in (result, n\<lparr>n_PriceState := gm_put (n_PriceState n) unit result\<rparr>))"

definition Node_ComputePrice :: "'x env_scheme \<Rightarrow> Node \<Rightarrow> UnitID \<Rightarrow> PriceResult \<times> Node" where
  "Node_ComputePrice E n unit = computePriceLocked E (node_init n) unit"

text \<open>
  \<open>Price\<close> looks twice, the second time under the write lock; with no other writer in between both
  look-ups agree.
\<close>

definition Node_Price :: "'x env_scheme \<Rightarrow> Node \<Rightarrow> UnitID \<Rightarrow> float64 \<times> Node" where
  "Node_Price E n unit = (case map_of (n_PriceState n) unit of
     Some result \<Rightarrow> (pr_FinalPrice result, n)
   | None \<Rightarrow>
       let n1 = node_init n in
       (case map_of (n_PriceState n1) unit of
          Some result \<Rightarrow> (pr_FinalPrice result, n1)
        | None \<Rightarrow> let (result, n2) = computePriceLocked E n1 unit in (pr_FinalPrice result, n2)))"

definition unitsLocked :: "Node \<Rightarrow> UnitID list" where
  "unitsLocked n =
     sort (remdups (map fst (gm_get [] (Holdings (n_Inventory n)) (n_ID n))
       @ map fst (n_Features n) @ map fst (n_TradeHistory n) @ map fst (n_PriceState n)))"

definition RefreshPrices :: "'x env_scheme \<Rightarrow> Node \<Rightarrow> Node" where
  "RefreshPrices E n0 =
     (let n = node_init n0 in foldl (\<lambda>m unit. snd (computePriceLocked E m unit)) n (unitsLocked n))"

definition effectivePriceLocked :: "'x env_scheme \<Rightarrow> Node \<Rightarrow> UnitID \<Rightarrow> float64 \<times> Node" where
  "effectivePriceLocked E n unit =
     (let (finalPrice, n1) = (case map_of (n_PriceState n) unit of
             Some result \<Rightarrow> (pr_FinalPrice result, n)
           | None \<Rightarrow> let (result, n2) = computePriceLocked E n unit in (pr_FinalPrice result, n2));
          utility = gm_get (Fin 1) (n_Preferences n1) unit
      in if fle utility (Fin 0) then (Fin 0, n1) else (fmul finalPrice utility, n1))"

definition effectivePrice :: "'x env_scheme \<Rightarrow> Node \<Rightarrow> UnitID \<Rightarrow> float64 \<times> Node" where
  "effectivePrice E n unit = effectivePriceLocked E (node_init n) unit"

section \<open>Flow\<close>

definition zeroFlow :: FlowRecord where
  "zeroFlow = \<lparr>fr_Unit = UnitID 0, fr_TradeVolume = 0, fr_PaymentVolume = 0, fr_Consumption = 0,
     fr_DemandFulfilled = 0\<rparr>"

definition recordTradeFlow :: "Node \<Rightarrow> UnitID \<Rightarrow> amount \<Rightarrow> err + Node" where
  "recordTradeFlow n0 unit a =
     (let n = node_init n0;
          rec = (gm_get zeroFlow (n_Flow n) unit)\<lparr>fr_Unit := unit\<rparr> in
      attempt (AddTradeChecked rec a) (\<lambda>r.
      Inr (n\<lparr>n_Flow := gm_put (n_Flow n) unit r\<rparr>)))"

definition recordPaymentFlow :: "Node \<Rightarrow> UnitID \<Rightarrow> amount \<Rightarrow> err + Node" where
  "recordPaymentFlow n0 unit a =
     (let n = node_init n0;
          rec = (gm_get zeroFlow (n_Flow n) unit)\<lparr>fr_Unit := unit\<rparr> in
      attempt (AddPaymentChecked rec a) (\<lambda>r.
      Inr (n\<lparr>n_Flow := gm_put (n_Flow n) unit r\<rparr>)))"

text \<open>On overflow the observation has already been appended to the history.\<close>

definition recordObservation ::
    "'x env_scheme \<Rightarrow> Node \<Rightarrow> UnitID \<Rightarrow> float64 \<Rightarrow> amount \<Rightarrow> int64 \<Rightarrow> (err + unit) \<times> Node" where
  "recordObservation E n0 unit executedPrice volume now =
     (let n = node_init n0 in
      if flt executedPrice (Fin 0) \<or> volume \<le>s 0 then (Inr (), n)
      else
        let weight = (case map_of (n_PriceState n) unit of
                Some result \<Rightarrow> if flt (Fin 0) (pr_FeatureScore result) then pr_FeatureScore result else Fin 1
              | None \<Rightarrow> Fin 1);
            obs = \<lparr>ob_Price = executedPrice, ob_Volume = volume, ob_Weight = weight, ob_TimeUnix = now\<rparr>;
            n1 = n\<lparr>n_TradeHistory := gm_put (n_TradeHistory n) unit (gm_get [] (n_TradeHistory n) unit @ [obs])\<rparr>
        in case CheckedAdd (gm_get 0 (n_SettledVolume n1) unit) volume of
             Inl e \<Rightarrow> (Inl e, n1)
           | Inr next \<Rightarrow>
               (Inr (), snd (computePriceLocked E
                  (n1\<lparr>n_SettledVolume := gm_put (n_SettledVolume n1) unit next,
                      n_LastTradeUnix := gm_put (n_LastTradeUnix n1) unit now\<rparr>) unit)))"

section \<open>Prices are computed once\<close>

text \<open>
  The price of a unit as a function of the state, and the state with that price cached. Reading an
  effective price is the pair of the two; caching one price does not change any other.
\<close>

definition finalPriceOf :: "'x env_scheme \<Rightarrow> Node \<Rightarrow> UnitID \<Rightarrow> float64" where
  "finalPriceOf E n unit = (case map_of (n_PriceState n) unit of
     Some result \<Rightarrow> pr_FinalPrice result
   | None \<Rightarrow> pr_FinalPrice (fst (computePriceLocked E n unit)))"

definition effectiveOf :: "'x env_scheme \<Rightarrow> Node \<Rightarrow> UnitID \<Rightarrow> float64" where
  "effectiveOf E n unit =
     (let utility = gm_get (Fin 1) (n_Preferences n) unit
      in if fle utility (Fin 0) then Fin 0 else fmul (finalPriceOf E n unit) utility)"

definition cachePrice :: "'x env_scheme \<Rightarrow> Node \<Rightarrow> UnitID \<Rightarrow> Node" where
  "cachePrice E n unit =
     (if gm_has (n_PriceState n) unit then n else snd (computePriceLocked E n unit))"

lemma effectivePriceLocked_eq: "effectivePriceLocked E n u = (effectiveOf E n u, cachePrice E n u)"
  by (auto simp: effectivePriceLocked_def effectiveOf_def cachePrice_def finalPriceOf_def gm_has_def
      computePriceLocked_def Let_def split: option.splits)

lemma cachePrice_fields [simp]:
  "n_ID (cachePrice E n u) = n_ID n" "n_PublicKey (cachePrice E n u) = n_PublicKey n"
  "n_PrivateKey (cachePrice E n u) = n_PrivateKey n" "n_Inventory (cachePrice E n u) = n_Inventory n"
  "n_Preferences (cachePrice E n u) = n_Preferences n" "n_PriceConfig (cachePrice E n u) = n_PriceConfig n"
  "n_Features (cachePrice E n u) = n_Features n" "n_TradeHistory (cachePrice E n u) = n_TradeHistory n"
  "n_SettledVolume (cachePrice E n u) = n_SettledVolume n" "n_LastTradeUnix (cachePrice E n u) = n_LastTradeUnix n"
  "n_Flow (cachePrice E n u) = n_Flow n" "n_Store (cachePrice E n u) = n_Store n"
  "n_ExecutedTrades (cachePrice E n u) = n_ExecutedTrades n" "n_NowUnix (cachePrice E n u) = n_NowUnix n"
  "n_AllowEphemeralReplayUnsafe (cachePrice E n u) = n_AllowEphemeralReplayUnsafe n"
  by (simp_all add: cachePrice_def computePriceLocked_def Let_def)

lemma cachePrice_frame: "\<exists>ps. cachePrice E n u = n\<lparr>n_PriceState := ps\<rparr>"
  by (intro exI [of _ "n_PriceState (cachePrice E n u)"]) (simp add: cachePrice_def computePriceLocked_def Let_def)

lemma cachePrice_has [simp]: "gm_has (n_PriceState (cachePrice E n u)) v \<longleftrightarrow> v = u \<or> gm_has (n_PriceState n) v"
  by (auto simp: cachePrice_def computePriceLocked_def Let_def)

lemma cachePrice_again [simp]:
  "gm_has (n_PriceState n) u \<Longrightarrow> cachePrice E n u = n"
  by (simp add: cachePrice_def)

lemma finalPriceOf_cache [simp]: "finalPriceOf E (cachePrice E n u) v = finalPriceOf E n v"
proof (cases "v = u")
  case True
  then show ?thesis
    by (auto simp: finalPriceOf_def cachePrice_def computePriceLocked_def Let_def gm_has_def split: option.splits)
next
  case False
  then have "map_of (n_PriceState (cachePrice E n u)) v = map_of (n_PriceState n) v"
    by (simp add: cachePrice_def computePriceLocked_def Let_def)
  then show ?thesis
    by (simp add: finalPriceOf_def computePriceLocked_def Let_def split: option.splits)
qed

lemma effectiveOf_cache [simp]: "effectiveOf E (cachePrice E n u) v = effectiveOf E n v"
  by (simp add: effectiveOf_def Let_def)

lemma balanceLocked_cache [simp]: "balanceLocked (cachePrice E n u) v = balanceLocked n v"
  by (simp add: balanceLocked_def)

lemma node_init_idem [simp]: "node_init (node_init n) = node_init n"
  by (simp add: node_init_def DefaultPriceConfig_def)

lemma node_init_cache [simp]: "node_init (cachePrice E (node_init n) u) = cachePrice E (node_init n) u"
  by (simp add: node_init_def DefaultPriceConfig_def)

lemma node_init_cache2 [simp]:
  "node_init (cachePrice E (cachePrice E (node_init n) u) v) = cachePrice E (cachePrice E (node_init n) u) v"
  by (simp add: node_init_def DefaultPriceConfig_def)

lemma node_init_fields [simp]:
  "n_ID (node_init n) = n_ID n" "n_PublicKey (node_init n) = n_PublicKey n"
  "n_PrivateKey (node_init n) = n_PrivateKey n" "n_Inventory (node_init n) = n_Inventory n"
  "n_Preferences (node_init n) = n_Preferences n" "n_PriceState (node_init n) = n_PriceState n"
  "n_Features (node_init n) = n_Features n" "n_TradeHistory (node_init n) = n_TradeHistory n"
  "n_SettledVolume (node_init n) = n_SettledVolume n" "n_LastTradeUnix (node_init n) = n_LastTradeUnix n"
  "n_Flow (node_init n) = n_Flow n" "n_Store (node_init n) = n_Store n"
  "n_ExecutedTrades (node_init n) = n_ExecutedTrades n" "n_NowUnix (node_init n) = n_NowUnix n"
  "n_AllowEphemeralReplayUnsafe (node_init n) = n_AllowEphemeralReplayUnsafe n"
  by (simp_all add: node_init_def)

lemma balanceLocked_init [simp]: "balanceLocked (node_init n) u = balanceLocked n u"
  by (simp add: balanceLocked_def)

section \<open>Cached prices are sound\<close>

definition exp_ok :: "'x env_scheme \<Rightarrow> bool" where
  "exp_ok E \<longleftrightarrow> (\<forall>x. fnonneg (fneg x) \<longrightarrow> funit (math_Exp E x))"

definition prices_ok :: "Node \<Rightarrow> bool" where
  "prices_ok n \<longleftrightarrow> (\<forall>p \<in> set (n_PriceState n). price_ok (snd p))"

lemma prices_ok_compute: "exp_ok E \<Longrightarrow> prices_ok n \<Longrightarrow> prices_ok (snd (computePriceLocked E n u))"
  using ComputePrice_ok [of E]
  by (auto simp: prices_ok_def computePriceLocked_def exp_ok_def Let_def dest!: set_gm_put)

lemma prices_ok_cache: "exp_ok E \<Longrightarrow> prices_ok n \<Longrightarrow> prices_ok (cachePrice E n u)"
  by (simp add: cachePrice_def prices_ok_compute)

lemma finalPriceOf_nonneg: "exp_ok E \<Longrightarrow> prices_ok n \<Longrightarrow> fnonneg (finalPriceOf E n u)"
  using ComputePrice_ok [of E]
  by (fastforce simp: finalPriceOf_def prices_ok_def price_ok_def exp_ok_def computePriceLocked_def Let_def
      split: option.splits dest: map_of_SomeD)

lemma recordObservation_Inr:
  assumes "recordObservation E n u p vol now = (Inr (), m)" "0 < sint vol" "\<not> flt p (Fin 0)"
  shows "sint (gm_get 0 (n_SettledVolume m) u) = sint (gm_get 0 (n_SettledVolume n) u) + sint vol"
    and "\<exists>w. gm_get [] (n_TradeHistory m) u = gm_get [] (n_TradeHistory n) u
           @ [\<lparr>ob_Price = p, ob_Volume = vol, ob_Weight = w, ob_TimeUnix = now\<rparr>]"
    and "gm_get 0 (n_LastTradeUnix m) u = now" and "n_Inventory m = n_Inventory n" and "n_Flow m = n_Flow n"
    and "n_ID m = n_ID n" and "n_ExecutedTrades m = n_ExecutedTrades n" and "n_Store m = n_Store n"
  using assms
  by (auto simp: recordObservation_def Let_def word_sle_eq computePriceLocked_def CheckedAdd_Inr
      split: if_splits sum.splits)

end
