(* ===== verification/Quote.thy ===== *)
theory Quote
  imports NodeCore
begin

text \<open>
  \<open>core/node/quote.go\<close>: a seller quotes a sale to a buyer from both parties' local prices, and each
  party decides whether it (still) accepts a quote.

  A method that locks two nodes takes and returns both (they are distinct nodes; \<open>None\<close> is the nil
  buyer). The conversion of the midpoint to an amount panics on overflow, which is \<open>Inl\<close>; the price
  caches it has filled stay filled.

  Shown here: what an executable quote guarantees, and that both parties accept the quote just
  made, the rounding of all the float operations included.
\<close>

section \<open>Definitions\<close>

record Quote =
  q_Seller :: NodeID
  q_Buyer :: NodeID
  q_SellUnit :: UnitID
  q_BuyUnit :: UnitID
  q_SellAmount :: amount
  q_BuyAmount :: amount
  q_SellerAsk :: float64
  q_BuyerBid :: float64
  q_Executable :: bool
  q_Reason :: string
  q_Timestamp :: int64

definition quoteSellLocked ::
    "'x env_scheme \<Rightarrow> Node \<Rightarrow> Node option \<Rightarrow> UnitID \<Rightarrow> UnitID \<Rightarrow> amount \<Rightarrow> float64
      \<Rightarrow> (err + Quote) \<times> Node \<times> Node option" where
  "quoteSellLocked E n0 b0 sellUnit buyUnit sellAmount spread0 =
     (let n = node_init n0;
          q = \<lparr>q_Seller = n_ID n, q_Buyer = NodeID 0, q_SellUnit = sellUnit, q_BuyUnit = buyUnit,
               q_SellAmount = sellAmount, q_BuyAmount = 0, q_SellerAsk = Fin 0, q_BuyerBid = Fin 0,
               q_Executable = False, q_Reason = '''', q_Timestamp = n_NowUnix n\<rparr>
      in case b0 of
        None \<Rightarrow> (Inr (q\<lparr>q_Reason := ''buyer is required''\<rparr>), n, None)
      | Some b0 \<Rightarrow>
        let b = node_init b0; q = q\<lparr>q_Buyer := n_ID b\<rparr> in
        if n_ID n = n_ID b then (Inr (q\<lparr>q_Reason := ''seller and buyer must differ''\<rparr>), n, Some b)
        else if sellAmount \<le>s 0
        then (Inr (q\<lparr>q_Reason := ''sell amount must be greater than zero''\<rparr>), n, Some b)
        else if balanceLocked n sellUnit <s sellAmount
        then (Inr (q\<lparr>q_Reason := ''seller has insufficient inventory''\<rparr>), n, Some b)
        else
          let (sellerSellPrice, n) = effectivePriceLocked E n sellUnit;
              (sellerBuyPrice, n) = effectivePriceLocked E n buyUnit;
              (buyerSellPrice, b) = effectivePriceLocked E b sellUnit;
              (buyerBuyPrice, b) = effectivePriceLocked E b buyUnit in
          if fle sellerSellPrice (Fin 0) \<or> fle sellerBuyPrice (Fin 0)
          then (Inr (q\<lparr>q_Reason := ''seller has no usable local price''\<rparr>), n, Some b)
          else if fle buyerSellPrice (Fin 0) \<or> fle buyerBuyPrice (Fin 0)
          then (Inr (q\<lparr>q_Reason := ''buyer has no usable local price''\<rparr>), n, Some b)
          else
            let spread = (if flt spread0 (Fin 0) then Fin 0 else spread0);
                sellQty = ToFloat sellAmount;
                ask = fmul (fmul sellQty (fdiv sellerSellPrice sellerBuyPrice)) (fadd (Fin 1) spread);
                bid = fmul sellQty (fdiv buyerSellPrice buyerBuyPrice);
                q = q\<lparr>q_SellerAsk := ask, q_BuyerBid := bid\<rparr> in
            if flt bid ask then (Inr (q\<lparr>q_Reason := ''buyer valuation below seller ask''\<rparr>), n, Some b)
            else (case FromFloat (fdiv (fadd ask bid) (Fin 2)) of
                Inl e \<Rightarrow> (Inl e, n, Some b)
              | Inr buyAmount \<Rightarrow>
                if buyAmount \<le>s 0
                then (Inr (q\<lparr>q_Reason := ''computed buy amount is zero''\<rparr>), n, Some b)
                else
                  let q = q\<lparr>q_BuyAmount := buyAmount\<rparr> in
                  if balanceLocked b buyUnit <s buyAmount
                  then (Inr (q\<lparr>q_Reason := ''buyer has insufficient payment inventory''\<rparr>), n, Some b)
                  else (Inr (q\<lparr>q_Executable := True, q_Reason := ''executable''\<rparr>), n, Some b)))"

definition QuoteSell ::
    "'x env_scheme \<Rightarrow> Node \<Rightarrow> Node option \<Rightarrow> UnitID \<Rightarrow> UnitID \<Rightarrow> amount \<Rightarrow> float64
      \<Rightarrow> (err + Quote) \<times> Node \<times> Node option" where
  "QuoteSell E n buyer sellUnit buyUnit sellAmount spread =
     (case buyer of
        Some b \<Rightarrow> quoteSellLocked E n (Some b) sellUnit buyUnit sellAmount spread
      | None \<Rightarrow> quoteSellLocked E n None sellUnit buyUnit sellAmount spread)"

definition roundingSlack :: float64 where
  "roundingSlack = fdiv (Fin 1) (of_int64 AmountScale)"

definition acceptQuoteLocked :: "'x env_scheme \<Rightarrow> Node \<Rightarrow> Quote \<Rightarrow> bool \<times> Node" where
  "acceptQuoteLocked E n0 q =
     (let n = node_init n0 in
      if \<not> q_Executable q then (False, n)
      else if n_ID n = q_Seller q then
        (if balanceLocked n (q_SellUnit q) <s q_SellAmount q then (False, n)
         else
           let (sellPrice, n) = effectivePriceLocked E n (q_SellUnit q);
               (buyPrice, n) = effectivePriceLocked E n (q_BuyUnit q) in
           if fle sellPrice (Fin 0) \<or> fle buyPrice (Fin 0) then (False, n)
           else (fle (fmul (ToFloat (q_SellAmount q)) (fdiv sellPrice buyPrice))
                     (fadd (ToFloat (q_BuyAmount q)) roundingSlack), n))
      else if n_ID n = q_Buyer q then
        (if balanceLocked n (q_BuyUnit q) <s q_BuyAmount q then (False, n)
         else
           let (sellPrice, n) = effectivePriceLocked E n (q_SellUnit q);
               (buyPrice, n) = effectivePriceLocked E n (q_BuyUnit q) in
           if fle sellPrice (Fin 0) \<or> fle buyPrice (Fin 0) then (False, n)
           else (fle (ToFloat (q_BuyAmount q))
                     (fadd (fmul (ToFloat (q_SellAmount q)) (fdiv sellPrice buyPrice)) roundingSlack), n))
      else (False, n))"

definition AcceptQuote :: "'x env_scheme \<Rightarrow> Node \<Rightarrow> Quote \<Rightarrow> bool \<times> Node" where
  "AcceptQuote E n q = acceptQuoteLocked E n q"

definition quoteExecutionError :: "Quote \<Rightarrow> err" where
  "quoteExecutionError q =
     (if q_Reason q \<noteq> '''' then errorf (q_Reason q)
      else if fisnan (q_SellerAsk q) \<or> fisnan (q_BuyerBid q) then errorf ''quote contains invalid price''
      else errorf ''quote is not executable'')"

section \<open>What a quote guarantees\<close>

text \<open>The prices a quote is made of, read from the nodes before it.\<close>

definition askOf :: "'x env_scheme \<Rightarrow> Node \<Rightarrow> UnitID \<Rightarrow> UnitID \<Rightarrow> amount \<Rightarrow> float64" where
  "askOf E n sellUnit buyUnit sellAmount =
     fmul (ToFloat sellAmount) (fdiv (effectiveOf E n sellUnit) (effectiveOf E n buyUnit))"

lemma quoteSell_executable:
  assumes "QuoteSell E n0 (Some b0) su bu sa spread = (Inr q, n', Some b')" "q_Executable q"
  shows "q_Seller q = n_ID n0" "q_Buyer q = n_ID b0" "n_ID n0 \<noteq> n_ID b0"
    "q_SellUnit q = su" "q_BuyUnit q = bu" "q_SellAmount q = sa" "q_Timestamp q = n_NowUnix n0"
    "0 < sint sa" "sint sa \<le> sint (balanceLocked n0 su)"
    "0 < sint (q_BuyAmount q)" "sint (q_BuyAmount q) \<le> sint (balanceLocked b0 bu)"
    "q_BuyerBid q = askOf E (node_init b0) su bu sa"
    "q_SellerAsk q = fmul (askOf E (node_init n0) su bu sa)
       (fadd (Fin 1) (if flt spread (Fin 0) then Fin 0 else spread))"
    "\<not> flt (q_BuyerBid q) (q_SellerAsk q)"
    "FromFloat (fdiv (fadd (q_SellerAsk q) (q_BuyerBid q)) (Fin 2)) = Inr (q_BuyAmount q)"
    "n' = cachePrice E (cachePrice E (node_init n0) su) bu"
    "b' = cachePrice E (cachePrice E (node_init b0) su) bu"
    "\<not> fle (effectiveOf E (node_init n0) su) (Fin 0)" "\<not> fle (effectiveOf E (node_init n0) bu) (Fin 0)"
    "\<not> fle (effectiveOf E (node_init b0) su) (Fin 0)" "\<not> fle (effectiveOf E (node_init b0) bu) (Fin 0)"
  using assms
  by (auto simp: QuoteSell_def quoteSellLocked_def Let_def effectivePriceLocked_eq askOf_def
      word_sle_eq word_sless_alt not_less not_le split: if_splits sum.splits)

section \<open>Both parties accept the quote just made\<close>

text \<open>The rational numbers behind the float operations: \<open>m\<close> is the midpoint, \<open>B\<close> the amount.\<close>

lemma rne_err: "1 / 2 ^ 40 \<le> v \<Longrightarrow> rne v - v \<le> v / 2 ^ 53 \<and> v - rne v \<le> v / 2 ^ 53"
proof -
  assume "1 / 2 ^ 40 \<le> v"
  moreover have "pow2 (- 1022) \<le> pow2 (- 40)" by simp
  moreover have "pow2 (- 40) = 1 / 2 ^ 40" by (simp add: pow2_def)
  ultimately have "pow2 (- 1022) \<le> v" by linarith
  from rne_rel_error [OF this] show ?thesis unfolding abs_le_iff by linarith
qed

lemma midpoint_numbers:
  fixes ask bid :: rat and B :: int
  assumes ask: "0 \<le> ask" "rne ask = ask" and bid: "ask \<le> bid" "rne bid = bid"
    and m: "m = rne (rne (ask + bid) / 2)" and B: "B = \<lfloor>rne (m * 1000000) + 1/2\<rfloor>" "0 < B" "B \<le> 2 ^ 50"
  shows "ask \<le> m \<and> m \<le> bid \<and> m \<le> rne (of_int B / 1000000) + rne (1 / 1000000)
     \<and> rne (of_int B / 1000000) \<le> bid + rne (1 / 1000000)
     \<and> rne (of_int B / 1000000) \<le> 2 ^ 32 \<and> bid \<le> 2 ^ 33"
proof -
  have "rne (2 * ask) \<le> rne (ask + bid)" "rne (ask + bid) \<le> rne (2 * bid)"
    using bid(1) by (intro rne_mono; simp)+
  then have s: "2 * ask \<le> rne (ask + bid)" "rne (ask + bid) \<le> 2 * bid"
    using rne_double [OF ask(2)] rne_double [OF bid(2)] by simp_all
  have "rne ask \<le> m" "m \<le> rne bid" unfolding m using s by (intro rne_mono; simp)+
  then have am: "ask \<le> m" "m \<le> bid" using ask(2) bid(2) by simp_all
  let ?t = "rne (m * 1000000)"
  have Bt: "of_int B \<le> ?t + 1/2" "?t - 1/2 < of_int B"
    unfolding B(1) by linarith+
  have B1: "(1 :: rat) \<le> of_int B" using B(2) by (metis int_one_le_iff_zero_less of_int_1_le_iff)
  have "(of_int B :: rat) \<le> of_int (2 ^ 50)" using B(3) by (simp only: of_int_le_iff)
  then have B2: "(of_int B :: rat) \<le> 1125899906842624" by simp
  have t1: "1 / 2 \<le> ?t" using Bt B1 by linarith
  have "1 / 4 \<le> m * 1000000"
  proof (rule ccontr)
    assume "\<not> ?thesis"
    then have "?t \<le> rne (1 / 4)" by (intro rne_mono) simp
    also have "rne (1 / 4) = 1 / 4" by (rule rne_representable [of _ 1 "- 2"]) (simp_all add: pow2_def)
    finally show False using t1 by simp
  qed
  then have et: "?t - m * 1000000 \<le> m * 1000000 / 2 ^ 53" "m * 1000000 - ?t \<le> m * 1000000 / 2 ^ 53"
    using rne_err [of "m * 1000000"] by simp_all
  let ?w = "rne (of_int B / 1000000)"
  have ew: "?w - of_int B / 1000000 \<le> of_int B / 1000000 / 2 ^ 53"
     "of_int B / 1000000 - ?w \<le> of_int B / 1000000 / 2 ^ 53"
    using rne_err [of "of_int B / 1000000"] B1 by simp_all
  let ?s = "rne (1 / 1000000)"
  have es: "?s - 1 / 1000000 \<le> 1 / 1000000 / 2 ^ 53" "1 / 1000000 - ?s \<le> 1 / 1000000 / 2 ^ 53"
    using rne_err [of "1 / 1000000"] by simp_all
  have mb: "m \<le> 1125899907" using et Bt B2 by (simp del: rne_nonneg)
  have c1: "m \<le> ?w + ?s" using et ew es Bt mb B1 B2 by (simp del: rne_nonneg)
  have c2: "?w \<le> bid + ?s" using et ew es Bt mb am B1 B2 by (simp del: rne_nonneg)
  have c3: "?w \<le> 2 ^ 32" using ew B2 by (simp del: rne_nonneg)
  have "bid \<le> 2 ^ 33"
  proof (rule ccontr)
    assume "\<not> ?thesis"
    then have b: "2 ^ 33 < bid" by simp
    have "rne (2 ^ 33) \<le> rne (ask + bid)" using b ask(1) by (intro rne_mono) simp
    moreover have r33: "rne (2 ^ 33) = 2 ^ 33" by (rule rne_representable [of _ 1 33]) (simp_all add: pow2_def)
    ultimately have "2 ^ 33 / 2 \<le> rne (ask + bid) / 2" by simp
    then have "rne (2 ^ 33 / 2) \<le> m" unfolding m by (intro rne_mono)
    moreover have "rne (2 ^ 33 / 2) = 2 ^ 33 / 2" by (rule rne_representable [of _ 1 32]) (simp_all add: pow2_def)
    ultimately show False using mb by simp
  qed
  then show ?thesis using am c1 c2 c3 by blast
qed
text \<open>The operations on finite nonnegative floats, as operations on their values.\<close>

lemma fle_fval: "is_fin x \<Longrightarrow> is_fin y \<Longrightarrow> fle x y \<longleftrightarrow> fval x \<le> fval y"
  by (cases x; cases y) (auto simp: fle_def)

lemma flt_fval: "is_fin x \<Longrightarrow> is_fin y \<Longrightarrow> flt x y \<longleftrightarrow> fval x < fval y"
  by (cases x; cases y) auto

lemma rnd_fval: "0 \<le> v \<Longrightarrow> is_fin (rnd v) \<Longrightarrow> fval (rnd v) = rne v \<and> fposfin (rnd v)"
  using rnd_nonneg_cases [of v] by auto

lemma fval_fadd: "fposfin x \<Longrightarrow> fposfin y \<Longrightarrow> is_fin (fadd x y)
    \<Longrightarrow> fval (fadd x y) = rne (fval x + fval y) \<and> fposfin (fadd x y)"
  using rnd_fval [of "fval x + fval y"] by (cases x; cases y) auto

lemma fval_fmul: "fposfin x \<Longrightarrow> fposfin y \<Longrightarrow> is_fin (fmul x y)
    \<Longrightarrow> fval (fmul x y) = rne (fval x * fval y) \<and> fposfin (fmul x y)"
  using rnd_fval [of "fval x * fval y"] by (cases x; cases y) (auto simp: fzero_def Let_def split: if_splits)

lemma fval_fdiv: "fposfin x \<Longrightarrow> fposfin y \<Longrightarrow> fval y \<noteq> 0 \<Longrightarrow> is_fin (fdiv x y)
    \<Longrightarrow> fval (fdiv x y) = rne (fval x / fval y) \<and> fposfin (fdiv x y)"
  using rnd_fval [of "fval x / fval y"] by (cases x; cases y) (auto simp: fzero_def Let_def split: if_splits)

lemma is_fin_rnd: "0 \<le> v \<Longrightarrow> v \<le> 2 ^ 1000 \<Longrightarrow> is_fin (rnd v)"
proof -
  assume v: "0 \<le> v" "v \<le> 2 ^ 1000"
  have "(2 :: rat) ^ 1000 \<le> (2 ^ 53 - 1) * 2 ^ 971" by simp
  then show "is_fin (rnd v)" using rnd_finite [of v] v by simp
qed

lemma is_fin_fadd: "fposfin x \<Longrightarrow> fposfin y \<Longrightarrow> fval x + fval y \<le> 2 ^ 1000 \<Longrightarrow> is_fin (fadd x y)"
  using is_fin_rnd [of "fval x + fval y"] by (cases x; cases y) auto

lemma ToFloat_fval: "0 \<le> sint a \<Longrightarrow> sint a \<le> 2 ^ 50 \<Longrightarrow>
    fposfin (ToFloat a) \<and> fval (ToFloat a) = rne (of_int (sint a) / 1000000)"
proof -
  obtain n where sn: "sint a = n" by blast
  assume "0 \<le> sint a" "sint a \<le> 2 ^ 50"
  then have n: "0 \<le> n" "n \<le> 2 ^ 50" by (simp_all add: sn)
  then have fa: "of_int64 a = Fin (of_int n)" using of_int64_exact [of a] by (simp add: sn)
  have "(of_int n :: rat) \<le> of_int (2 ^ 50)" "(0 :: rat) \<le> of_int n"
    using n by (simp_all only: of_int_le_iff of_int_0_le_iff)
  then have "is_fin (rnd (of_int n / 1000000 :: rat))" by (intro is_fin_rnd) simp_all
  then show ?thesis
    using rnd_fval [of "of_int n / 1000000"] n by (auto simp: ToFloat_def scale_exact fa sn fzero_def)
qed

lemma slack_fval: "fposfin roundingSlack \<and> fval roundingSlack = rne (1 / 1000000)"
  using is_fin_rnd [of "1 / 1000000"] rnd_fval [of "1 / 1000000"]
  by (simp add: roundingSlack_def scale_exact)

text \<open>Positive prices, and what finiteness of a quote says about them.\<close>

lemma fdiv_pos: "\<not> fle p (Fin 0) \<Longrightarrow> \<not> fle q (Fin 0) \<Longrightarrow> fisnan (fdiv p q) \<or> fnonneg (fdiv p q)"
  by (cases p; cases q) (auto simp: fle_def fzero_def Let_def)

lemma fmul_nonneg_nan: "fisnan x \<or> fnonneg x \<Longrightarrow> fisnan y \<or> fnonneg y \<Longrightarrow> fisnan (fmul x y) \<or> fnonneg (fmul x y)"
  by (cases x; cases y) (auto simp: fzero_def Let_def)

lemma ToFloat_nonneg: "0 \<le> sint a \<Longrightarrow> fnonneg (ToFloat a)"
proof -
  assume "0 \<le> sint a"
  then have "(0 :: rat) \<le> of_int (sint a)" by (simp only: of_int_0_le_iff)
  then have "of_int64 a = Inf False \<or> (\<exists>r \<ge> 0. of_int64 a = Fin r)"
    unfolding of_int64_def using rnd_nonneg_cases by blast
  then show ?thesis by (auto simp: ToFloat_def scale_exact fzero_def)
qed

lemma askOf_nonneg:
  assumes "0 \<le> sint a" "\<not> fle (effectiveOf E n su) (Fin 0)" "\<not> fle (effectiveOf E n bu) (Fin 0)"
  shows "fisnan (askOf E n su bu a) \<or> fnonneg (askOf E n su bu a)"
  unfolding askOf_def using fmul_nonneg_nan fdiv_pos [OF assms(2,3)] ToFloat_nonneg [OF assms(1)] by blast

lemma finite_half_sum: "is_fin (fdiv (fadd x y) (Fin 2)) \<Longrightarrow> is_fin x \<and> is_fin y \<and> is_fin (fadd x y)"
  by (cases x; cases y; cases "fadd x y") (auto split: if_splits)

lemma raised_ask:
  assumes "is_fin (fmul a k)" "fisnan a \<or> fnonneg a" "k = fadd (Fin 1) s" "fisnan s \<or> fnonneg s" "wf64 a"
  shows "fposfin a \<and> fposfin (fmul a k) \<and> fval a \<le> fval (fmul a k)"
proof -
  have a: "fposfin a"
    using assms(1,2) by (cases a; cases k) (auto split: if_splits)
  show ?thesis
  proof (cases k)
    case (Fin c)
    have "rne (1 :: rat) \<le> c"
    proof -
      have "fposfin s" using assms(3,4) Fin by (cases s) auto
      moreover from this have "0 \<le> fval s" by (cases s) auto
      moreover have "is_fin (fadd (Fin 1) s)" "fval (fadd (Fin 1) s) = c"
        unfolding assms(3) [symmetric] Fin by simp_all
      ultimately have "c = rne (1 + fval s)" "0 \<le> fval s"
        using fval_fadd [of "Fin 1" s] by simp_all
      then show ?thesis using rne_mono [of 1 "1 + fval s"] by simp
    qed
    then have c: "1 \<le> c" by simp
    then have m: "fval (fmul a k) = rne (fval a * c)" "fposfin (fmul a k)"
      using fval_fmul [OF a, of k] assms(1) Fin by simp_all
    have "0 \<le> fval a" "rne (fval a) = fval a"
      using a assms(5) rnd_Fin_iff by (cases a; auto)+
    then have "fval a \<le> fval a * c" using c mult_left_mono [of 1 c "fval a"] by simp
    then have "rne (fval a) \<le> fval (fmul a k)" unfolding m by (rule rne_mono)
    then show ?thesis using a m \<open>rne (fval a) = fval a\<close> by simp
  next
    case NegZero
    have "fadd (Fin 1) s \<noteq> NegZero"
      using assms(4) rnd_nonneg_cases [of "1 + fval s"] by (cases s) (auto split: if_splits)
    then show ?thesis using assms(3) NegZero by simp
  qed (use a assms(1) in \<open>cases a; auto split: if_splits\<close>)+
qed

lemma rnd_wf: "rnd v = Fin r \<Longrightarrow> 0 \<le> r \<Longrightarrow> rnd r = Fin r"
proof (cases "0 \<le> v")
  case False
  assume "rnd v = Fin r" "0 \<le> r"
  then show ?thesis using False rne_nonneg [of "- v"]
    by (auto simp: rnd_def rnd_pos_alt simp del: rne_nonneg split: if_splits)
qed (simp add: rnd_idem)

lemma fmul_wf: "fposfin (fmul x y) \<Longrightarrow> wf64 (fmul x y)"
  by (cases x; cases y) (auto simp: fzero_def Let_def wf64_def intro: rnd_wf split: float64.splits if_splits)

lemma FromFloatChecked_value:
  assumes "FromFloatChecked f = Inr a"
  shows "sint a = \<lfloor>rne (fval f * 1000000) + 1/2\<rfloor>"
proof -
  have f: "fposfin f" using FromFloatChecked_Inr [OF assms] by (simp add: fposfin_def)
  let ?s = "fmul f (of_int64 AmountScale)"
  have n: "\<not> fisnan ?s" "\<not> fisinf ?s" "\<not> flt maxInt64Float (fround ?s)" "a = amount_of_float (fround ?s)"
    using assms by (auto simp: FromFloatChecked_def Let_def)
  have fin: "is_fin ?s" using n(1,2) by (cases ?s) auto
  have v: "fval ?s = rne (fval f * 1000000)" "fposfin ?s"
    using fval_fmul [OF f, of "of_int64 AmountScale"] fin by (simp_all add: scale_exact)
  show ?thesis
  proof (cases ?s)
    case (Fin t)
    then have t: "0 \<le> t" "t = rne (fval f * 1000000)" using v by simp_all
    let ?k = "\<lfloor>t + 1/2\<rfloor>"
    have fr: "fround ?s = Fin (of_int ?k)" using Fin t(1) by simp
    have "(of_int ?k :: rat) \<le> of_int (2 ^ 63 - 2 ^ 10)" using n(3) unfolding fr by (simp add: maxInt64Float_def)
    then have k: "0 \<le> ?k" "?k \<le> 2 ^ 63 - 2 ^ 10" using t(1) by (simp_all only: of_int_le_iff) linarith
    then have "a = of_int ?k"
      using n(4) cvt_int64_of_int [of ?k] unfolding fr by (simp add: amount_of_float_def del: cvt_int64.simps)
    then have "sint a = signed_take_bit 63 ?k" by (simp add: signed_of_int)
    also have "\<dots> = ?k" using k by (intro signed_take_bit_int_eq_self) simp_all
    finally show ?thesis using t(2) by simp
  next
    case NegZero
    then have "rne (fval f * 1000000) = 0" "a = 0" using v n(4) by (simp_all add: amount_of_float_def)
    then show ?thesis by (simp add: floor_eq_iff)
  qed (use fin in auto)
qed

lemma quote_accepted:
  assumes "QuoteSell E n0 (Some b0) su bu sa spread = (Inr q, n', Some b')" "q_Executable q"
    and small: "sint (q_BuyAmount q) \<le> 2 ^ 50"
  shows "fst (acceptQuoteLocked E n' q)" and "fst (acceptQuoteLocked E b' q)"
proof -
  note g = quoteSell_executable [OF assms(1,2)]
  let ?n = "node_init n0" and ?b = "node_init b0" and ?B = "sint (q_BuyAmount q)"
  let ?a = "askOf E ?n su bu sa" and ?ask = "q_SellerAsk q" and ?bid = "q_BuyerBid q"
  define s where "s = (if flt spread (Fin 0) then Fin 0 else spread)"
  have s: "fisnan s \<or> fnonneg s" by (auto simp: s_def fnonneg_def)
  let ?mid = "fdiv (fadd ?ask ?bid) (Fin 2)"
  have ff: "FromFloatChecked ?mid = Inr (q_BuyAmount q)" using g(15) by (simp add: FromFloat_def)
  then have midf: "fposfin ?mid" using FromFloatChecked_Inr by (simp add: fposfin_def)
  then have mfin: "is_fin ?mid" by (simp only: fposfin_def)
  have fin: "is_fin ?ask" "is_fin ?bid" "is_fin (fadd ?ask ?bid)"
    using finite_half_sum [OF mfin] by blast+
  have sa: "0 \<le> sint sa" using g(8) by simp
  have an: "fisnan ?a \<or> fnonneg ?a" using askOf_nonneg [OF sa g(18,19)] .
  have bn: "fisnan ?bid \<or> fnonneg ?bid" using askOf_nonneg [OF sa g(20,21)] unfolding g(12) .
  have bp: "fposfin ?bid" using bn fin(2) by (cases ?bid) auto
  have askm: "?ask = fmul ?a (fadd (Fin 1) s)" using g(13) by (simp add: s_def)
  have ap0: "fposfin ?a" using an fin(1) unfolding askm by (cases ?a; cases "fadd (Fin 1) s") (auto split: if_splits)
  have awf: "wf64 ?a" using ap0 fmul_wf unfolding askOf_def by blast
  have ra: "fposfin ?a" "fposfin ?ask" "fval ?a \<le> fval ?ask"
    using raised_ask [OF fin(1) [unfolded askm] an refl s awf] unfolding askm by simp_all
  have wf: "rne (fval ?ask) = fval ?ask" "rne (fval ?bid) = fval ?bid" "0 \<le> fval ?ask"
  proof -
    have "wf64 ?ask" using fmul_wf ra(2) unfolding askm by blast
    then show "rne (fval ?ask) = fval ?ask" using ra(2) rnd_Fin_iff by (cases ?ask) auto
    have "wf64 ?bid" using fmul_wf bp unfolding g(12) askOf_def by blast
    then show "rne (fval ?bid) = fval ?bid" using bp rnd_Fin_iff by (cases ?bid) auto
    show "0 \<le> fval ?ask" using ra(2) by (cases ?ask) auto
  qed
  have le: "fval ?ask \<le> fval ?bid" using g(14) flt_fval [OF fin(2,1)] by simp
  have sum: "fval (fadd ?ask ?bid) = rne (fval ?ask + fval ?bid)" "fposfin (fadd ?ask ?bid)"
    using fval_fadd [OF ra(2) bp fin(3)] by simp_all
  have mid: "fval ?mid = rne (rne (fval ?ask + fval ?bid) / 2)"
    using fval_fdiv [OF sum(2), of "Fin 2"] midf sum(1) by (simp add: fposfin_def)
  have B: "?B = \<lfloor>rne (fval ?mid * 1000000) + 1/2\<rfloor>" by (rule FromFloatChecked_value [OF ff])
  note num = midpoint_numbers [OF wf(3) wf(1) le wf(2) mid B g(10) small]
  have B0: "0 \<le> ?B" using g(10) by simp
  note tf = ToFloat_fval [OF B0 small] and sl = slack_fval
  have sl1: "rne (1 / 1000000) \<le> (1 :: rat)" using rne_mono [of "1 / 1000000" 1] by simp
  have f1: "is_fin (fadd (ToFloat (q_BuyAmount q)) roundingSlack)"
    using tf sl num sl1 by (intro is_fin_fadd) (simp_all del: rne_nonneg)
  have f2: "is_fin (fadd ?bid roundingSlack)"
    using bp sl num sl1 by (intro is_fin_fadd) (simp_all del: rne_nonneg)
  have v1: "fval (fadd (ToFloat (q_BuyAmount q)) roundingSlack) = rne (rne (of_int ?B / 1000000) + rne (1 / 1000000))"
    using fval_fadd [of "ToFloat (q_BuyAmount q)" roundingSlack] tf sl f1 by simp
  have v2: "fval (fadd ?bid roundingSlack) = rne (fval ?bid + rne (1 / 1000000))"
    using fval_fadd [of ?bid roundingSlack] bp sl f2 by simp
  have "fval ?a \<le> rne (rne (of_int ?B / 1000000) + rne (1 / 1000000))"
  proof -
    have "fval ?ask \<le> rne (of_int ?B / 1000000) + rne (1 / 1000000)" using num by linarith
    from rne_mono [OF this] show ?thesis using wf(1) ra(3) by linarith
  qed
  then have acc1: "fle ?a (fadd (ToFloat (q_BuyAmount q)) roundingSlack)"
    using ra(1) f1 v1 by (simp add: fle_fval fposfin_def)
  have "rne (of_int ?B / 1000000) \<le> rne (fval ?bid + rne (1 / 1000000))"
    using num rne_mono [of "rne (of_int ?B / 1000000)" "fval ?bid + rne (1 / 1000000)"] by simp
  then have acc2: "fle (ToFloat (q_BuyAmount q)) (fadd (askOf E ?b su bu sa) roundingSlack)"
    using tf f2 v2 g(12) by (simp add: fle_fval fposfin_def)
  show "fst (acceptQuoteLocked E n' q)"
    using g(1-9,18,19) assms(2) acc1
    by (simp add: acceptQuoteLocked_def g(16) effectivePriceLocked_eq askOf_def Let_def word_sless_alt)
  show "fst (acceptQuoteLocked E b' q)"
    using g(1-6,10,11,20,21) assms(2) acc2
    by (simp add: acceptQuoteLocked_def g(17) effectivePriceLocked_eq askOf_def Let_def word_sless_alt)
qed

end
