(* ===== verification/Protocol.thy ===== *)
theory Protocol
  imports Inventory
begin

text \<open>
  \<open>core/model/protocol.go\<close>, second part: validation and application of issuances and of bilateral
  trades. Shown here: what an applied transaction does to every balance, that a trade conserves
  the total of every unit and keeps balances nonnegative, and that a valid trade is applied unless
  an output overflows a balance.

  A nil pointer is \<open>None\<close>. A Go set \<open>map[ValueID]struct{}\<close> is the list of its elements.
\<close>

section \<open>Issuance\<close>

definition checkIssueOutput ::
    "'x env_scheme \<Rightarrow> IssueTx \<Rightarrow> nat \<Rightarrow> Value \<Rightarrow> ValueID list \<Rightarrow> err + ValueID list" where
  "checkIssueOutput E tx i output seen =
     guard (\<not> validAmount (v_Amount output))
       (errorfs [''output '', dec_nat i, '' amount must be greater than zero''])
     (guard (\<not> sameHash (unit_hash (v_Unit output)) (unit_hash (i_Unit tx)))
       (errorfs [''output '', dec_nat i, '' unit mismatch''])
     (guard (isZeroNodeID (v_Owner output))
       (errorfs [''output '', dec_nat i, '' owner is required''])
     (attempt (map_err (wrap_err (at_index ''output '' i)) (ValueIDFor E output)) (\<lambda>expectedID.
     guard (v_ID output \<noteq> expectedID)
       (errorfs [''output '', dec_nat i, '' value id mismatch''])
     (guard (v_ID output \<in> set seen) (errorf ''duplicate output value id'')
     (Inr (v_ID output # seen)))))))"

definition ValidateStructuralIssueTx :: "'x env_scheme \<Rightarrow> IssueTx option \<Rightarrow> err + unit" where
  "ValidateStructuralIssueTx E otx = (case otx of
     None \<Rightarrow> Inl (errorf ''issue tx is nil'')
   | Some tx \<Rightarrow>
       guard (i_Outputs tx = []) (errorf ''issue outputs are required'')
       (attempt (IssueTxID E tx) (\<lambda>expectedTxID.
       guard (i_ID tx \<noteq> expectedTxID) (errorf ''issue tx id mismatch'')
       (attempt (each (checkIssueOutput E tx) 0 (i_Outputs tx) []) (\<lambda>_.
       Inr ())))))"

definition ApplyStructuralIssueTx ::
    "'x env_scheme \<Rightarrow> InventoryState \<Rightarrow> IssueTx \<Rightarrow> err + InventoryState" where
  "ApplyStructuralIssueTx E iv tx =
     attempt (ValidateStructuralIssueTx E (Some tx)) (\<lambda>_.
     each (\<lambda>_ output next. map_err (wrap_err ''issue output overflows inventory'')
             (inv_credit next (v_Owner output) (v_Unit output) (v_Amount output)))
       0 (i_Outputs tx) (Inventory_Copy iv))"

section \<open>Trade validation\<close>

definition checkSetValue ::
    "'x env_scheme \<Rightarrow> NodeID \<Rightarrow> bool \<Rightarrow> nat \<Rightarrow> Value \<Rightarrow> err + unit" where
  "checkSetValue E owner requireOwned i value =
     guard (\<not> validAmount (v_Amount value))
       (errorfs [''value '', dec_nat i, '' amount must be greater than zero''])
     (guard (requireOwned \<and> v_Owner value \<noteq> owner)
       (errorfs [''value '', dec_nat i, '' owner mismatch''])
     (guard (\<not> requireOwned \<and> isZeroNodeID (v_Owner value))
       (errorfs [''value '', dec_nat i, '' owner is required''])
     (attempt (map_err (wrap_err (at_index ''value '' i)) (ValueIDFor E value)) (\<lambda>expectedID.
     guard (v_ID value \<noteq> expectedID) (errorfs [''value '', dec_nat i, '' id mismatch''])
     (Inr ())))))"

definition validateValueSet ::
    "'x env_scheme \<Rightarrow> Value list \<Rightarrow> NodeID \<Rightarrow> bool \<Rightarrow> err + unit" where
  "validateValueSet E values owner requireOwned =
     each (\<lambda>i v s. attempt (checkSetValue E owner requireOwned i v) (\<lambda>_. Inr s)) 0 values ()"

definition checkNoDuplicateValueIDs :: "Value list list \<Rightarrow> err + unit" where
  "checkNoDuplicateValueIDs groups =
     attempt (each (\<lambda>_ group seen.
         each (\<lambda>_ v seen. guard (v_ID v \<in> set seen) (errorf ''duplicate value id'')
                            (Inr (v_ID v # seen))) 0 group seen) 0 groups []) (\<lambda>_.
     Inr ())"

text \<open>The loops that add amounts up by unit; \<open>label\<close> is the text before the position.\<close>

definition tally ::
    "string \<Rightarrow> nat \<Rightarrow> Value \<Rightarrow> (UnitID, amount) gomap \<Rightarrow> err + (UnitID, amount) gomap" where
  "tally label i v m =
     attempt (map_err (\<lambda>_. errorfs [label, dec_nat i, '' amount overflow''])
               (CheckedAdd (gm_get 0 m (v_Unit v)) (v_Amount v))) (\<lambda>next.
     Inr (gm_put m (v_Unit v) next))"

definition checkTradeInventoryCoverage ::
    "InventoryState \<Rightarrow> NodeID \<Rightarrow> Value list \<Rightarrow> string \<Rightarrow> err + unit" where
  "checkTradeInventoryCoverage iv party inputs label =
     attempt (each (tally (label @ '' input '')) 0 inputs []) (\<lambda>required.
     each (\<lambda>_ (unit, a) s. guard (Inventory_Get iv party unit <s a)
             (errorfs [label, '' input does not exist in inventory'']) (Inr s)) 0 required ())"

definition checkTradeConservation :: "TradeTx \<Rightarrow> err + unit" where
  "checkTradeConservation tx =
     attempt (each (tally ''input '') 0 (t_InputsA tx @ t_InputsB tx) []) (\<lambda>inputs.
     attempt (each (tally ''output '') 0 (t_OutputsA tx @ t_OutputsB tx) []) (\<lambda>outputs.
     guard (length inputs \<noteq> length outputs) (errorf ''trade changes unit set'')
     (each (\<lambda>_ (unit, a) s. guard (a \<noteq> gm_get 0 outputs unit)
              (errorfs [''unit '', hex_string (hashBytes (unit_hash unit)), '' is not conserved''])
              (Inr s)) 0 inputs ())))"

definition ValidateTradeTx :: "'x env_scheme \<Rightarrow> TradeTx option \<Rightarrow> InventoryState \<Rightarrow> err + unit" where
  "ValidateTradeTx E otx iv = (case otx of
     None \<Rightarrow> Inl (errorf ''trade tx is nil'')
   | Some tx \<Rightarrow>
       guard (isZeroNodeID (t_PartyA tx) \<or> isZeroNodeID (t_PartyB tx))
         (errorf ''trade parties are required'')
       (guard (t_PartyA tx = t_PartyB tx) (errorf ''trade parties must differ'')
       (guard (length (t_InputsA tx) + length (t_InputsB tx) = 0) (errorf ''trade inputs are required'')
       (guard (length (t_OutputsA tx) + length (t_OutputsB tx) = 0) (errorf ''trade outputs are required'')
       (attempt (map_err (wrap_err ''party A inputs'')
                  (validateValueSet E (t_InputsA tx) (t_PartyA tx) True)) (\<lambda>_.
       attempt (map_err (wrap_err ''party B inputs'')
                  (validateValueSet E (t_InputsB tx) (t_PartyB tx) True)) (\<lambda>_.
       attempt (map_err (wrap_err ''party A outputs'')
                  (validateValueSet E (t_OutputsA tx) (t_PartyA tx) False)) (\<lambda>_.
       attempt (map_err (wrap_err ''party B outputs'')
                  (validateValueSet E (t_OutputsB tx) (t_PartyB tx) False)) (\<lambda>_.
       attempt (checkNoDuplicateValueIDs [t_InputsA tx, t_InputsB tx, t_OutputsA tx, t_OutputsB tx]) (\<lambda>_.
       attempt (checkTradeConservation tx) (\<lambda>_.
       attempt (TradeTxID E tx) (\<lambda>expectedTxID.
       guard (t_ID tx \<noteq> expectedTxID) (errorf ''trade tx id mismatch'')
       (attempt (checkTradeInventoryCoverage iv (t_PartyA tx) (t_InputsA tx) ''party A'') (\<lambda>_.
       attempt (checkTradeInventoryCoverage iv (t_PartyB tx) (t_InputsB tx) ''party B'') (\<lambda>_.
       Inr ())))))))))))))))"

definition ApplyTradeTx :: "'x env_scheme \<Rightarrow> InventoryState \<Rightarrow> TradeTx \<Rightarrow> err + InventoryState" where
  "ApplyTradeTx E iv tx =
     attempt (ValidateTradeTx E (Some tx) iv) (\<lambda>_.
     attempt (each (\<lambda>_ input next. Inventory_Sub next (t_PartyA tx) (v_Unit input) (v_Amount input))
                0 (t_InputsA tx) (Inventory_Copy iv)) (\<lambda>n1.
     attempt (each (\<lambda>_ input next. Inventory_Sub next (t_PartyB tx) (v_Unit input) (v_Amount input))
                0 (t_InputsB tx) n1) (\<lambda>n2.
     attempt (each (\<lambda>_ output next. map_err (wrap_err ''party A output overflows inventory'')
                      (inv_credit next (v_Owner output) (v_Unit output) (v_Amount output)))
                0 (t_OutputsA tx) n2) (\<lambda>n3.
     each (\<lambda>_ output next. map_err (wrap_err ''party B output overflows inventory'')
             (inv_credit next (v_Owner output) (v_Unit output) (v_Amount output)))
       0 (t_OutputsB tx) n3))))"

section \<open>Tallies\<close>

lemma tally_Inr [simp]:
  "tally l i v m = Inr m' \<longleftrightarrow>
     (\<exists>c. sint c = sint (gm_get 0 m (v_Unit v)) + sint (v_Amount v) \<and> m' = gm_put m (v_Unit v) c)"
  by (auto simp: tally_def CheckedAdd_Inr)

lemma tally_sum:
  "each (tally l) i vs m = Inr m' \<Longrightarrow> sint (gm_get 0 m' u) = sint (gm_get 0 m u) + unit_sum u vs"
  by (induction vs arbitrary: i m) fastforce+

lemma tally_keys:
  "each (tally l) i vs m = Inr m' \<Longrightarrow> fst ` set m' = fst ` set m \<union> v_Unit ` set vs"
proof (induction vs arbitrary: i m)
  case (Cons v vs)
  then obtain x where "each (tally l) (i + 1) vs (gm_put m (v_Unit v) x) = Inr m'" by auto
  then have "fst ` set m' = fst ` set (gm_put m (v_Unit v) x) \<union> v_Unit ` set vs" by (rule Cons.IH)
  moreover have "fst ` set (gm_put m (v_Unit v) x) = insert (v_Unit v) (fst ` set m)"
    by (rule set_eqI) (simp flip: gm_has_iff)
  ultimately show ?case by simp
qed simp

lemma tally_ok: "each (tally l) i vs m = Inr m' \<Longrightarrow> gm_ok m \<Longrightarrow> gm_ok m'"
  by (rule each_invariant [where P = gm_ok]) auto

lemma each_pairs_check:
  assumes "each (\<lambda>_ (k, a) s. guard (bad k a) (e k a) (Inr s)) i m s = Inr t" "(k, a) \<in> set m"
  shows "\<not> bad k a"
  using assms by (induction m arbitrary: i s) (auto split: prod.splits)

lemma gm_card: "gm_ok m \<Longrightarrow> card (fst ` set m) = length m"
  using distinct_card [of "map fst m"] by (simp add: gm_ok_def)

lemma checkTradeConservation_sound:
  assumes "checkTradeConservation tx = Inr ()"
    and pos: "\<forall>v \<in> set (t_InputsA tx @ t_InputsB tx @ t_OutputsA tx @ t_OutputsB tx). 0 < sint (v_Amount v)"
  shows "unit_sum u (t_InputsA tx @ t_InputsB tx) = unit_sum u (t_OutputsA tx @ t_OutputsB tx)"
proof -
  let ?ins = "t_InputsA tx @ t_InputsB tx" and ?outs = "t_OutputsA tx @ t_OutputsB tx"
  from assms(1) obtain ins outs where
    i: "each (tally ''input '') 0 ?ins [] = Inr ins" and o: "each (tally ''output '') 0 ?outs [] = Inr outs"
    and l: "length ins = length outs"
    and c: "each (\<lambda>_ (unit, a) s. guard (a \<noteq> gm_get 0 outs unit)
       (errorfs [''unit '', hex_string (hashBytes (unit_hash unit)), '' is not conserved'']) (Inr s)) 0 ins () = Inr ()"
    by (auto simp: checkTradeConservation_def)
  note ki = tally_keys [OF i] and ko = tally_keys [OF o]
    and si = tally_sum [OF i] and so = tally_sum [OF o]
  have oki: "gm_ok ins" and oko: "gm_ok outs" using tally_ok [OF i] tally_ok [OF o] by simp_all
  have same: "sint (gm_get 0 ins k) = sint (gm_get 0 outs k)" if k: "k \<in> fst ` set ins" for k
  proof -
    obtain a where a: "(k, a) \<in> set ins" using k by auto
    then have "a = gm_get 0 outs k" using each_pairs_check [OF c a] by simp
    then show ?thesis using gm_in_set_get [OF oki a] by simp
  qed
  have sub: "v_Unit ` set ?ins \<subseteq> v_Unit ` set ?outs"
  proof
    fix k assume k: "k \<in> v_Unit ` set ?ins"
    then have "unit_sum k ?outs = unit_sum k ?ins" using same [of k] ki si [of k] so [of k] by simp
    moreover have "0 < unit_sum k ?ins" using k pos by (subst unit_sum_pos) auto
    ultimately show "k \<in> v_Unit ` set ?outs" using unit_sum_pos [of ?outs k] pos by auto
  qed
  have "card (v_Unit ` set ?ins) = card (v_Unit ` set ?outs)"
    using gm_card [OF oki] gm_card [OF oko] ki ko l by simp
  then have eq: "v_Unit ` set ?ins = v_Unit ` set ?outs" using sub by (intro card_subset_eq) auto
  show ?thesis
  proof (cases "u \<in> v_Unit ` set ?ins")
    case True
    then show ?thesis using same [of u] ki si [of u] so [of u] by simp
  next
    case False
    then have "unit_sum u ?ins = 0" "unit_sum u ?outs = 0"
      using eq unit_sum_pos [of ?ins u] unit_sum_pos [of ?outs u] unit_sum_nonneg [of ?ins u]
        unit_sum_nonneg [of ?outs u] pos by force+
    then show ?thesis by simp
  qed
qed

lemma checkTradeInventoryCoverage_sound:
  assumes "checkTradeInventoryCoverage iv party ins label = Inr ()"
  shows "unit_sum u ins \<le> sint (Inventory_Get iv party u) \<or> unit_sum u ins = 0"
proof -
  from assms obtain m where m: "each (tally (label @ '' input '')) 0 ins [] = Inr m"
    and c: "each (\<lambda>_ (unit, a) s. guard (Inventory_Get iv party unit <s a)
             (errorfs [label, '' input does not exist in inventory'']) (Inr s)) 0 m () = Inr ()"
    by (auto simp: checkTradeInventoryCoverage_def)
  show ?thesis
  proof (cases "u \<in> fst ` set m")
    case True
    then obtain a where a: "(u, a) \<in> set m" by auto
    have "\<not> Inventory_Get iv party u <s a" using each_pairs_check [OF c a] .
    moreover have "gm_get 0 m u = a" using gm_in_set_get [OF tally_ok [OF m] a] by simp
    ultimately show ?thesis using tally_sum [OF m, of u] by (simp add: word_sless_alt)
  next
    case False
    then have "gm_get 0 m u = 0" by (simp add: gm_get_def gm_has_iff [symmetric] gm_has_def)
    then show ?thesis using tally_sum [OF m, of u] by simp
  qed
qed

section \<open>What validation establishes\<close>

lemma validateValueSet_sound:
  assumes "validateValueSet E vs owner req = Inr ()" "v \<in> set vs"
  shows "0 < sint (v_Amount v) \<and> (req \<longrightarrow> v_Owner v = owner)
    \<and> (\<not> req \<longrightarrow> v_Owner v \<noteq> NodeID 0) \<and> ValueIDFor E v = Inr (v_ID v)"
proof -
  from each_check [OF assms(1) [unfolded validateValueSet_def] assms(2)]
  obtain j where "checkSetValue E owner req j v = Inr ()" by auto
  then show ?thesis by (auto simp: checkSetValue_def)
qed

lemma ValidateTradeTx_sound:
  assumes "ValidateTradeTx E (Some tx) iv = Inr ()"
  shows "t_PartyA tx \<noteq> NodeID 0" "t_PartyB tx \<noteq> NodeID 0" "t_PartyA tx \<noteq> t_PartyB tx"
    and "TradeTxID E tx = Inr (t_ID tx)"
    and "\<forall>v \<in> set (t_InputsA tx @ t_InputsB tx @ t_OutputsA tx @ t_OutputsB tx).
           0 < sint (v_Amount v) \<and> ValueIDFor E v = Inr (v_ID v)"
    and "\<forall>v \<in> set (t_InputsA tx). v_Owner v = t_PartyA tx"
    and "\<forall>v \<in> set (t_InputsB tx). v_Owner v = t_PartyB tx"
    and "\<forall>v \<in> set (t_OutputsA tx @ t_OutputsB tx). v_Owner v \<noteq> NodeID 0"
    and "checkTradeConservation tx = Inr ()"
    and "checkTradeInventoryCoverage iv (t_PartyA tx) (t_InputsA tx) ''party A'' = Inr ()"
    and "checkTradeInventoryCoverage iv (t_PartyB tx) (t_InputsB tx) ''party B'' = Inr ()"
    and "checkNoDuplicateValueIDs [t_InputsA tx, t_InputsB tx, t_OutputsA tx, t_OutputsB tx] = Inr ()"
proof -
  have v: "validateValueSet E (t_InputsA tx) (t_PartyA tx) True = Inr ()"
    "validateValueSet E (t_InputsB tx) (t_PartyB tx) True = Inr ()"
    "validateValueSet E (t_OutputsA tx) (t_PartyA tx) False = Inr ()"
    "validateValueSet E (t_OutputsB tx) (t_PartyB tx) False = Inr ()"
    using assms by (simp_all add: ValidateTradeTx_def)
  note vs = v [THEN validateValueSet_sound]
  show "t_PartyA tx \<noteq> NodeID 0" "t_PartyB tx \<noteq> NodeID 0" "t_PartyA tx \<noteq> t_PartyB tx"
    "TradeTxID E tx = Inr (t_ID tx)" "checkTradeConservation tx = Inr ()"
    "checkTradeInventoryCoverage iv (t_PartyA tx) (t_InputsA tx) ''party A'' = Inr ()"
    "checkTradeInventoryCoverage iv (t_PartyB tx) (t_InputsB tx) ''party B'' = Inr ()"
    "checkNoDuplicateValueIDs [t_InputsA tx, t_InputsB tx, t_OutputsA tx, t_OutputsB tx] = Inr ()"
    using assms by (auto simp: ValidateTradeTx_def)
  show "\<forall>v \<in> set (t_InputsA tx @ t_InputsB tx @ t_OutputsA tx @ t_OutputsB tx).
      0 < sint (v_Amount v) \<and> ValueIDFor E v = Inr (v_ID v)"
    "\<forall>v \<in> set (t_InputsA tx). v_Owner v = t_PartyA tx" "\<forall>v \<in> set (t_InputsB tx). v_Owner v = t_PartyB tx"
    "\<forall>v \<in> set (t_OutputsA tx @ t_OutputsB tx). v_Owner v \<noteq> NodeID 0"
    using vs by auto
qed

section \<open>Applied transactions\<close>

text \<open>The balances after a trade.\<close>

definition trade_balance :: "InventoryState \<Rightarrow> TradeTx \<Rightarrow> NodeID \<Rightarrow> UnitID \<Rightarrow> int" where
  "trade_balance iv tx n u = sint (Inventory_Get iv n u)
     - (if n = t_PartyA tx then unit_sum u (t_InputsA tx) else 0)
     - (if n = t_PartyB tx then unit_sum u (t_InputsB tx) else 0)
     + valued v_Owner n u (t_OutputsA tx @ t_OutputsB tx)"

lemma ApplyTradeTx_steps:
  assumes "ApplyTradeTx E iv tx = Inr n4" "inv_ok iv"
  obtains n1 n2 n3 where
    "each (\<lambda>_ v s. Inventory_Sub s (t_PartyA tx) (v_Unit v) (v_Amount v)) 0 (t_InputsA tx) iv = Inr n1"
    "each (\<lambda>_ v s. Inventory_Sub s (t_PartyB tx) (v_Unit v) (v_Amount v)) 0 (t_InputsB tx) n1 = Inr n2"
    "each (\<lambda>_ v s. map_err (wrap_err ''party A output overflows inventory'')
       (inv_credit s (v_Owner v) (v_Unit v) (v_Amount v))) 0 (t_OutputsA tx) n2 = Inr n3"
    "each (\<lambda>_ v s. map_err (wrap_err ''party B output overflows inventory'')
       (inv_credit s (v_Owner v) (v_Unit v) (v_Amount v))) 0 (t_OutputsB tx) n3 = Inr n4"
  using assms that by (auto simp: ApplyTradeTx_def Inventory_Copy_eq)

lemma ApplyTradeTx_balance:
  assumes "ApplyTradeTx E iv tx = Inr iv'" "inv_ok iv"
  shows "sint (Inventory_Get iv' n u) = trade_balance iv tx n u"
proof -
  from ApplyTradeTx_steps [OF assms] obtain n1 n2 n3 where
    s: "each (\<lambda>_ v s. Inventory_Sub s (t_PartyA tx) (v_Unit v) (v_Amount v)) 0 (t_InputsA tx) iv = Inr n1"
    "each (\<lambda>_ v s. Inventory_Sub s (t_PartyB tx) (v_Unit v) (v_Amount v)) 0 (t_InputsB tx) n1 = Inr n2"
    "each (\<lambda>_ v s. map_err (wrap_err ''party A output overflows inventory'')
       (inv_credit s (v_Owner v) (v_Unit v) (v_Amount v))) 0 (t_OutputsA tx) n2 = Inr n3"
    "each (\<lambda>_ v s. map_err (wrap_err ''party B output overflows inventory'')
       (inv_credit s (v_Owner v) (v_Unit v) (v_Amount v))) 0 (t_OutputsB tx) n3 = Inr iv'" .
  show ?thesis
    using inv.debits [OF s(1), of n u] inv.debits [OF s(2), of n u] inv.credits [OF s(3), of n u]
      inv.credits [OF s(4), of n u]
    by (simp add: trade_balance_def valued_const)
qed

lemma ApplyTradeTx_ok:
  assumes "ApplyTradeTx E iv tx = Inr iv'" "inv_ok iv"
  shows "inv_ok iv'" and "inv_nonneg iv \<Longrightarrow> inv_nonneg iv'"
proof -
  have P: "P iv'" if "P iv" and sub: "\<And>s n u a t. P s \<Longrightarrow> Inventory_Sub s n u a = Inr t \<Longrightarrow> P t"
    and cr: "\<And>s n u a t. P s \<Longrightarrow> inv_credit s n u a = Inr t \<Longrightarrow> P t" for P
    using ApplyTradeTx_steps [OF assms]
  proof cases
    case (1 n1 n2 n3)
    have "P n1" using 1(1) \<open>P iv\<close> by (rule each_invariant) (blast intro: sub)
    with 1(2) have "P n2" by (rule each_invariant) (blast intro: sub)
    with 1(3) have "P n3" by (rule each_invariant) (auto intro: cr)
    with 1(4) show ?thesis by (rule each_invariant) (auto intro: cr)
  qed
  show "inv_ok iv'" using P [of inv_ok] assms(2) inv_ok_Sub inv_ok_credit by blast
  show "inv_nonneg iv \<Longrightarrow> inv_nonneg iv'" using P [of inv_nonneg] inv_nonneg_Sub inv_nonneg_credit by blast
qed

text \<open>A trade conserves the total of every unit.\<close>

lemma trade_balance_total:
  assumes "ValidateTradeTx E (Some tx) iv = Inr ()" "finite N"
    and "t_PartyA tx \<in> N" "t_PartyB tx \<in> N" "v_Owner ` set (t_OutputsA tx @ t_OutputsB tx) \<subseteq> N"
  shows "(\<Sum>n\<in>N. trade_balance iv tx n u) = (\<Sum>n\<in>N. sint (Inventory_Get iv n u))"
proof -
  note v = ValidateTradeTx_sound [OF assms(1)]
  have "unit_sum u (t_InputsA tx @ t_InputsB tx) = unit_sum u (t_OutputsA tx @ t_OutputsB tx)"
    using v(5) by (intro checkTradeConservation_sound v(9)) auto
  moreover have "(\<Sum>n\<in>N. valued v_Owner n u (t_OutputsA tx @ t_OutputsB tx))
      = unit_sum u (t_OutputsA tx @ t_OutputsB tx)"
    using assms(2,5) by (rule sum_valued)
  ultimately show ?thesis
    using assms(2-4) by (simp add: trade_balance_def sum.distrib sum_subtractf sum.delta' sum.delta)
qed

lemma ApplyTradeTx_conserves:
  assumes "ApplyTradeTx E iv tx = Inr iv'" "inv_ok iv"
  shows "inv_total iv' u = inv_total iv u"
proof -
  let ?N = "fst ` set (Holdings iv) \<union> fst ` set (Holdings iv')
    \<union> {t_PartyA tx, t_PartyB tx} \<union> v_Owner ` set (t_OutputsA tx @ t_OutputsB tx)"
  have val: "ValidateTradeTx E (Some tx) iv = Inr ()" using assms(1) by (simp add: ApplyTradeTx_def)
  have "inv_total iv' u = (\<Sum>n\<in>?N. sint (Inventory_Get iv' n u))"
    using ApplyTradeTx_ok(1) [OF assms] by (intro inv_total_sum) auto
  also have "\<dots> = (\<Sum>n\<in>?N. trade_balance iv tx n u)"
    by (simp only: ApplyTradeTx_balance [OF assms])
  also have "\<dots> = (\<Sum>n\<in>?N. sint (Inventory_Get iv n u))"
    by (rule trade_balance_total [OF val]) auto
  also have "\<dots> = inv_total iv u"
    using assms(2) by (intro inv_total_sum [symmetric]) auto
  finally show ?thesis .
qed

text \<open>A valid trade is applied exactly when no balance after it leaves the range of amounts.\<close>

lemma ApplyTradeTx_succeeds:
  assumes val: "ValidateTradeTx E (Some tx) iv = Inr ()" and ok: "inv_ok iv"
  shows "(\<exists>iv'. ApplyTradeTx E iv tx = Inr iv') \<longleftrightarrow> (\<forall>n u. trade_balance iv tx n u < 2 ^ 63)"
proof
  assume "\<exists>iv'. ApplyTradeTx E iv tx = Inr iv'"
  then obtain iv' where "ApplyTradeTx E iv tx = Inr iv'" ..
  from ApplyTradeTx_balance [OF this ok] show "\<forall>n u. trade_balance iv tx n u < 2 ^ 63"
    using sint_range64 by metis
next
  assume fits: "\<forall>n u. trade_balance iv tx n u < 2 ^ 63"
  note v = ValidateTradeTx_sound [OF val]
  note cover = v(10,11) [THEN checkTradeInventoryCoverage_sound]
  let ?sub = "\<lambda>p. \<lambda>_ v s. Inventory_Sub s p (v_Unit v) (v_Amount v)"
  have "\<exists>t. each (?sub (t_PartyA tx)) 0 (t_InputsA tx) iv = Inr t"
    using v(5) cover(1) by (intro inv.debits_succeed) (auto simp: valued_const)
  then obtain n1 where n1: "each (?sub (t_PartyA tx)) 0 (t_InputsA tx) iv = Inr n1" ..
  have g1: "sint (Inventory_Get n1 (t_PartyB tx) u) = sint (Inventory_Get iv (t_PartyB tx) u)" for u
    using inv.debits [OF n1, of "t_PartyB tx" u] v(3) by (simp add: valued_const)
  have "\<exists>t. each (?sub (t_PartyB tx)) 0 (t_InputsB tx) n1 = Inr t"
    using v(5) cover(2) g1 by (intro inv.debits_succeed) (auto simp: valued_const)
  then obtain n2 where n2: "each (?sub (t_PartyB tx)) 0 (t_InputsB tx) n1 = Inr n2" ..
  have g2: "sint (Inventory_Get n2 n u) + valued v_Owner n u (t_OutputsA tx @ t_OutputsB tx)
      = trade_balance iv tx n u" for n u
    using inv.debits [OF n1, of n u] inv.debits [OF n2, of n u] by (simp add: trade_balance_def valued_const)
  have nn: "0 \<le> valued v_Owner n u (t_OutputsB tx)" for n u
    using v(5) by (intro valued_nonneg) auto
  have f2: "sint (Inventory_Get n2 n u) + valued v_Owner n u (t_OutputsA tx) < 2 ^ 63" for n u
    using g2 [of n u] nn [of n u] fits [rule_format, of n u] by simp
  have "\<exists>t. each (\<lambda>_ v s. map_err (wrap_err ''party A output overflows inventory'')
       (inv_credit s (v_Owner v) (v_Unit v) (v_Amount v))) 0 (t_OutputsA tx) n2 = Inr t"
    using v(5) f2 by (intro inv.credits_succeed) auto
  then obtain n3 where n3: "each (\<lambda>_ v s. map_err (wrap_err ''party A output overflows inventory'')
       (inv_credit s (v_Owner v) (v_Unit v) (v_Amount v))) 0 (t_OutputsA tx) n2 = Inr n3" ..
  have f3: "sint (Inventory_Get n3 n u) + valued v_Owner n u (t_OutputsB tx) < 2 ^ 63" for n u
    using g2 [of n u] inv.credits [OF n3, of n u] fits [rule_format, of n u] by simp
  have "\<exists>t. each (\<lambda>_ v s. map_err (wrap_err ''party B output overflows inventory'')
       (inv_credit s (v_Owner v) (v_Unit v) (v_Amount v))) 0 (t_OutputsB tx) n3 = Inr t"
    using v(5) f3 by (intro inv.credits_succeed) auto
  then show "\<exists>iv'. ApplyTradeTx E iv tx = Inr iv'"
    using val n1 n2 n3 by (simp add: ApplyTradeTx_def Inventory_Copy_eq [OF ok])
qed

section \<open>Issuances\<close>

lemma checkIssueOutput_Inr [simp]:
  "checkIssueOutput E tx i v seen = Inr seen' \<longleftrightarrow>
     0 < sint (v_Amount v) \<and> v_Unit v = i_Unit tx \<and> v_Owner v \<noteq> NodeID 0
     \<and> ValueIDFor E v = Inr (v_ID v) \<and> v_ID v \<notin> set seen \<and> seen' = v_ID v # seen"
  by (auto simp: checkIssueOutput_def)

lemma checkIssueOutputs_sound:
  assumes "each (checkIssueOutput E tx) i outs seen = Inr seen'" "v \<in> set outs"
  shows "0 < sint (v_Amount v) \<and> v_Unit v = i_Unit tx \<and> v_Owner v \<noteq> NodeID 0
     \<and> ValueIDFor E v = Inr (v_ID v)"
  using assms by (induction outs arbitrary: i seen) auto

lemma checkIssueOutputs_distinct:
  assumes "each (checkIssueOutput E tx) i outs seen = Inr seen'"
  shows "distinct (map v_ID outs) \<and> v_ID ` set outs \<inter> set seen = {}"
  using assms
proof (induction outs arbitrary: i seen)
  case (Cons v outs)
  then have "v_ID v \<notin> set seen" "each (checkIssueOutput E tx) (i + 1) outs (v_ID v # seen) = Inr seen'"
    by auto
  with Cons.IH [of "i + 1" "v_ID v # seen"] show ?case by auto
qed simp

lemma ValidateStructuralIssueTx_sound:
  assumes "ValidateStructuralIssueTx E (Some tx) = Inr ()"
  shows "i_Outputs tx \<noteq> []" "IssueTxID E tx = Inr (i_ID tx)" "distinct (map v_ID (i_Outputs tx))"
    and "\<forall>v \<in> set (i_Outputs tx). 0 < sint (v_Amount v) \<and> v_Unit v = i_Unit tx
           \<and> v_Owner v \<noteq> NodeID 0 \<and> ValueIDFor E v = Inr (v_ID v)"
proof -
  from assms obtain seen where s: "each (checkIssueOutput E tx) 0 (i_Outputs tx) [] = Inr seen"
    by (auto simp: ValidateStructuralIssueTx_def)
  show "i_Outputs tx \<noteq> []" "IssueTxID E tx = Inr (i_ID tx)"
    using assms by (auto simp: ValidateStructuralIssueTx_def)
  show "distinct (map v_ID (i_Outputs tx))" using checkIssueOutputs_distinct [OF s] by simp
  show "\<forall>v \<in> set (i_Outputs tx). 0 < sint (v_Amount v) \<and> v_Unit v = i_Unit tx
           \<and> v_Owner v \<noteq> NodeID 0 \<and> ValueIDFor E v = Inr (v_ID v)"
    using checkIssueOutputs_sound [OF s] by blast
qed

lemma ApplyStructuralIssueTx_steps:
  assumes "ApplyStructuralIssueTx E iv tx = Inr iv'" "inv_ok iv"
  shows "ValidateStructuralIssueTx E (Some tx) = Inr ()"
    and "each (\<lambda>_ output next. map_err (wrap_err ''issue output overflows inventory'')
             (inv_credit next (v_Owner output) (v_Unit output) (v_Amount output)))
           0 (i_Outputs tx) iv = Inr iv'"
  using assms by (simp_all add: ApplyStructuralIssueTx_def Inventory_Copy_eq)

lemma ApplyStructuralIssueTx_balance:
  assumes "ApplyStructuralIssueTx E iv tx = Inr iv'" "inv_ok iv"
  shows "sint (Inventory_Get iv' n u) = sint (Inventory_Get iv n u) + valued v_Owner n u (i_Outputs tx)"
  using inv.credits [OF ApplyStructuralIssueTx_steps(2) [OF assms]] .

lemma ApplyStructuralIssueTx_ok:
  assumes "ApplyStructuralIssueTx E iv tx = Inr iv'" "inv_ok iv"
  shows "inv_ok iv'" and "inv_nonneg iv \<Longrightarrow> inv_nonneg iv'"
proof -
  note s = ApplyStructuralIssueTx_steps(2) [OF assms]
  show "inv_ok iv'" using s assms(2) by (rule each_invariant) (auto intro: inv_ok_credit)
  show "inv_nonneg iv'" if "inv_nonneg iv"
    using s that by (rule each_invariant) (auto intro: inv_nonneg_credit)
qed

lemma unit_sum_const:
  "\<forall>v \<in> set vs. v_Unit v = w \<Longrightarrow> unit_sum u vs = (if u = w then (\<Sum>v\<leftarrow>vs. sint (v_Amount v)) else 0)"
  by (induction vs) auto

text \<open>An issuance creates the amounts of its outputs in its own unit, and nothing else.\<close>

lemma ApplyStructuralIssueTx_total:
  assumes "ApplyStructuralIssueTx E iv tx = Inr iv'" "inv_ok iv"
  shows "inv_total iv' u = inv_total iv u
    + (if u = i_Unit tx then (\<Sum>v\<leftarrow>i_Outputs tx. sint (v_Amount v)) else 0)"
proof -
  note v = ValidateStructuralIssueTx_sound [OF ApplyStructuralIssueTx_steps(1) [OF assms]]
  let ?N = "fst ` set (Holdings iv) \<union> fst ` set (Holdings iv') \<union> v_Owner ` set (i_Outputs tx)"
  have "inv_total iv' u = (\<Sum>n\<in>?N. sint (Inventory_Get iv' n u))"
    using ApplyStructuralIssueTx_ok(1) [OF assms] by (intro inv_total_sum) auto
  also have "\<dots> = (\<Sum>n\<in>?N. sint (Inventory_Get iv n u)) + unit_sum u (i_Outputs tx)"
    by (simp add: ApplyStructuralIssueTx_balance [OF assms] sum.distrib sum_valued)
  also have "(\<Sum>n\<in>?N. sint (Inventory_Get iv n u)) = inv_total iv u"
    using assms(2) by (intro inv_total_sum [symmetric]) auto
  also have "unit_sum u (i_Outputs tx) = (if u = i_Unit tx then (\<Sum>v\<leftarrow>i_Outputs tx. sint (v_Amount v)) else 0)"
    using v(4) by (intro unit_sum_const) auto
  finally show ?thesis .
qed

end
