(* ===== verification/Transfers.thy ===== *)
theory Transfers
  imports Protocol
begin

text \<open>
  \<open>core/model/issue.go\<close>, \<open>core/model/transfer.go\<close> and \<open>core/model/validate.go\<close>: signed issuances
  and transfers, built by \<open>New...Tx\<close> and checked by \<open>Validate...Tx\<close>.

  Shown here: whatever is built is accepted (under the correctness of the signature scheme for the
  key), and an accepted transfer conserves every unit with its issuer, spends distinct inputs of
  its author, moves the depth on by one without overflow, and never drops or extends an expiry.
\<close>

section \<open>Issuance\<close>

definition NewIssueTx ::
    "'x env_scheme \<Rightarrow> PrivateKey \<Rightarrow> PublicKey \<Rightarrow> string \<Rightarrow> amount \<Rightarrow> int64 \<Rightarrow> err + IssueTx \<times> Value" where
  "NewIssueTx E issuerPriv owner unitName amt expiryUnix =
     guard (unitName = '''') (errorf ''unit name is required'')
     (guard (\<not> validAmount amt) (errorf ''amount must be greater than zero'')
     (attempt (publicKeyFromPrivate issuerPriv) (\<lambda>issuer.
     attempt (NodeIDFromPublicKey issuer) (\<lambda>issuerID.
     attempt (NodeIDFromPublicKey owner) (\<lambda>ownerID.
     guard (isZeroNodeID ownerID) (errorf ''owner is required'')
     (attempt (NewUnitID E issuer unitName) (\<lambda>unit.
     let tx = \<lparr>i_ID = TxID 0, i_Unit = unit, i_Outputs = [], i_Issuer = issuerID, i_Timestamp = 0,
               i_UnitName = unitName, i_Amount = amt, i_Owner = ownerID, i_ExpiryUnix = expiryUnix,
               i_Signature = []\<rparr>;
         output = \<lparr>v_ID = ValueID 0, v_Unit = unit, v_Amount = amt, v_Owner = ownerID,
               v_CreatedAt = 0, v_Issuer = issuerID, v_ExpiryUnix = expiryUnix, v_Depth = 0\<rparr> in
     attempt (ValueIDFor E output) (\<lambda>valueID.
     let output = output\<lparr>v_ID := valueID\<rparr>;
         tx = tx\<lparr>i_Outputs := [output]\<rparr> in
     attempt (IssueTxID E tx) (\<lambda>txID.
     let tx = tx\<lparr>i_ID := txID\<rparr> in
     attempt (issuePreimage tx) (\<lambda>preimage.
     attempt (Sign E issuerPriv preimage) (\<lambda>sig.
     Inr (tx\<lparr>i_Signature := sig\<rparr>, output))))))))))))"

definition ValidateIssueTx :: "'x env_scheme \<Rightarrow> IssueTx option \<Rightarrow> Value \<Rightarrow> err + unit" where
  "ValidateIssueTx E otx output = (case otx of
     None \<Rightarrow> Inl (errorf ''issue tx is nil'')
   | Some tx \<Rightarrow>
       guard (i_UnitName tx = '''') (errorf ''unit name is required'')
       (guard (\<not> validAmount (i_Amount tx)) (errorf ''amount must be greater than zero'')
       (guard (isZeroNodeID (i_Owner tx)) (errorf ''owner is required'')
       (attempt (NewUnitID E (NodeID_PublicKey (i_Issuer tx)) (i_UnitName tx)) (\<lambda>unit.
       guard (\<not> sameHash (unit_hash (i_Unit tx)) (unit_hash unit)) (errorf ''unit id mismatch'')
       (attempt (IssueTxID E tx) (\<lambda>expectedTxID.
       guard (\<not> sameHash (tx_hash (i_ID tx)) (tx_hash expectedTxID)) (errorf ''issue tx id mismatch'')
       (attempt (issuePreimage tx) (\<lambda>preimage.
       guard (\<not> Verify E (NodeID_PublicKey (i_Issuer tx)) preimage (i_Signature tx))
         (errorf ''invalid issue signature'')
       (guard (length (i_Outputs tx) \<noteq> 1) (errorf ''signed issue tx must have one output'')
       (let txOutput = hd (i_Outputs tx) in
       guard (isZeroNodeID (v_Owner txOutput)) (errorf ''signed output owner is required'')
       (attempt (map_err (wrap_err ''signed output'') (ValueIDFor E txOutput)) (\<lambda>expectedTxOutputID.
       guard (\<not> sameHash (value_hash (v_ID txOutput)) (value_hash expectedTxOutputID))
         (errorf ''signed output value id mismatch'')
       (guard (txOutput \<noteq> output) (errorf ''output does not match signed issue output'')
       (guard (v_Amount output \<noteq> i_Amount tx \<or> \<not> sameHash (unit_hash (v_Unit output)) (unit_hash (i_Unit tx))
           \<or> v_Owner output \<noteq> i_Owner tx \<or> v_Issuer output \<noteq> i_Issuer tx
           \<or> v_ExpiryUnix output \<noteq> i_ExpiryUnix tx \<or> v_Depth output \<noteq> 0)
         (errorf ''output does not match issue tx'')
       (guard (isZeroNodeID (v_Owner output)) (errorf ''output owner is required'')
       (attempt (ValueIDFor E output) (\<lambda>expectedValueID.
       guard (\<not> sameHash (value_hash (v_ID output)) (value_hash expectedValueID))
         (errorf ''output value id mismatch'')
       (Inr ())))))))))))))))))))"

section \<open>Inputs of a transfer\<close>

definition indexInput ::
    "'x env_scheme \<Rightarrow> nat \<Rightarrow> Value \<Rightarrow> (ValueID, Value) gomap \<Rightarrow> err + (ValueID, Value) gomap" where
  "indexInput E i input inputsByID =
     attempt (map_err (wrap_err (at_index ''input '' i)) (ValueIDFor E input)) (\<lambda>expectedID.
     guard (v_ID input \<noteq> expectedID) (errorfs [''input '', dec_nat i, '' value id mismatch''])
     (guard (gm_has inputsByID (v_ID input)) (errorf ''duplicate input value id'')
     (Inr (gm_put inputsByID (v_ID input) input))))"

definition selectInput ::
    "(ValueID, Value) gomap \<Rightarrow> nat \<Rightarrow> ValueID \<Rightarrow> ValueID list \<times> Value list \<Rightarrow> err + ValueID list \<times> Value list" where
  "selectInput inputsByID i inputID st = (case st of (seen, inputs) \<Rightarrow>
     guard (inputID \<in> set seen) (errorf ''duplicate tx input id'')
     (case map_of inputsByID inputID of
        None \<Rightarrow> Inl (errorfs [''input '', dec_nat i, '' id mismatch''])
      | Some input \<Rightarrow> Inr (inputID # seen, inputs @ [input])))"

definition canonicalInputsForTransfer ::
    "'x env_scheme \<Rightarrow> ValueID list \<Rightarrow> Value list \<Rightarrow> err + Value list" where
  "canonicalInputsForTransfer E txInputs inputValues =
     attempt (each (indexInput E) 0 inputValues []) (\<lambda>inputsByID.
     attempt (each (selectInput inputsByID) 0 txInputs ([], [])) (\<lambda>(seen, inputs).
     guard (length seen \<noteq> length inputsByID) (errorf ''input set mismatch'')
     (Inr inputs)))"

definition canonicalUniqueInputs :: "'x env_scheme \<Rightarrow> Value list \<Rightarrow> err + Value list" where
  "canonicalUniqueInputs E inputs = canonicalInputsForTransfer E (map v_ID inputs) inputs"

definition nextTransferDepth :: "Value list \<Rightarrow> err + uint32" where
  "nextTransferDepth inputs =
     (let maxDepth = foldl (\<lambda>m input. if m < v_Depth input then v_Depth input else m) 0 inputs in
      guard (maxDepth = 0xFFFFFFFF) (errorf ''input depth overflow'')
      (Inr (maxDepth + 1)))"

section \<open>Conservation\<close>

record unitBalance =
  ub_amount :: amount
  ub_issuer :: NodeID
  ub_set :: bool

definition zeroBalance :: unitBalance where
  "zeroBalance = \<lparr>ub_amount = 0, ub_issuer = NodeID 0, ub_set = False\<rparr>"

definition balanceInput ::
    "nat \<Rightarrow> Value \<Rightarrow> (UnitID, unitBalance) gomap \<Rightarrow> err + (UnitID, unitBalance) gomap" where
  "balanceInput i input balances =
     guard (\<not> validAmount (v_Amount input))
       (errorfs [''input '', dec_nat i, '' amount must be greater than zero''])
     (let balance = gm_get zeroBalance balances (v_Unit input) in
     guard (ub_set balance \<and> ub_issuer balance \<noteq> v_Issuer input)
       (errorfs [''input '', dec_nat i, '' issuer mismatch for unit''])
     (attempt (map_err (\<lambda>_. errorfs [''input '', dec_nat i, '' amount overflow''])
                (CheckedAdd (ub_amount balance) (v_Amount input))) (\<lambda>next.
     Inr (gm_put balances (v_Unit input)
            \<lparr>ub_amount = next, ub_issuer = v_Issuer input, ub_set = True\<rparr>))))"

definition balanceOutput ::
    "nat \<Rightarrow> Value \<Rightarrow> (UnitID, unitBalance) gomap \<Rightarrow> err + (UnitID, unitBalance) gomap" where
  "balanceOutput i output balances =
     guard (\<not> validAmount (v_Amount output))
       (errorfs [''output '', dec_nat i, '' amount must be greater than zero''])
     (case map_of balances (v_Unit output) of
        None \<Rightarrow> Inl (errorfs [''output '', dec_nat i, '' uses unknown unit''])
      | Some balance \<Rightarrow>
          guard (ub_issuer balance \<noteq> v_Issuer output)
            (errorfs [''output '', dec_nat i, '' issuer mismatch for unit''])
          (guard (ub_amount balance <s v_Amount output)
            (errorf ''output amount exceeds inputs for unit'')
          (attempt (map_err (\<lambda>_. errorf ''output amount exceeds inputs for unit'')
                     (Sub (ub_amount balance) (v_Amount output))) (\<lambda>next.
          Inr (gm_put balances (v_Unit output) (balance\<lparr>ub_amount := next\<rparr>))))))"

definition checkConservation :: "Value list \<Rightarrow> Value list \<Rightarrow> err + unit" where
  "checkConservation inputs outputs =
     attempt (each balanceInput 0 inputs []) (\<lambda>b1.
     attempt (each balanceOutput 0 outputs b1) (\<lambda>b2.
     each (\<lambda>_ (unit, balance) s. guard (ub_amount balance \<noteq> 0)
             (errorfs [''unit '', hex_string (hashBytes (unit_hash unit)), '' is not conserved''])
             (Inr s)) 0 b2 ()))"

section \<open>Expiry\<close>

type_synonym unitIssuerKey = "UnitID \<times> NodeID"

definition vkey :: "Value \<Rightarrow> unitIssuerKey" where
  "vkey v = (v_Unit v, v_Issuer v)"

text \<open>The loop that finds the earliest expiry per unit and issuer; zero is no expiry.\<close>

definition minExpiryStep ::
    "(unitIssuerKey, int64) gomap \<Rightarrow> Value \<Rightarrow> (unitIssuerKey, int64) gomap" where
  "minExpiryStep m input =
     (if v_ExpiryUnix input = 0 then m
      else if gm_get 0 m (vkey input) = 0 \<or> v_ExpiryUnix input <s gm_get 0 m (vkey input)
      then gm_put m (vkey input) (v_ExpiryUnix input) else m)"

definition checkExpiryPropagation :: "Value list \<Rightarrow> Value list \<Rightarrow> err + unit" where
  "checkExpiryPropagation inputs outputs =
     (let minExpiry = foldl minExpiryStep [] inputs;
          seen = map vkey inputs in
      each (\<lambda>i output s.
        guard (vkey output \<notin> set seen) (errorfs [''output '', dec_nat i, '' uses unknown unit issuer''])
        (let expiry = gm_get 0 minExpiry (vkey output) in
         if expiry = 0 then Inr s
         else guard (v_ExpiryUnix output = 0) (errorfs [''output '', dec_nat i, '' removes expiry constraint''])
              (guard (expiry <s v_ExpiryUnix output) (errorfs [''output '', dec_nat i, '' extends expiry constraint''])
              (Inr s)))) 0 outputs ())"

definition normalizeTransferOutputExpiries :: "Value list \<Rightarrow> Value list \<Rightarrow> Value list" where
  "normalizeTransferOutputExpiries inputs outputs =
     (let minExpiry = foldl minExpiryStep [] inputs in
      map (\<lambda>output. let expiry = gm_get 0 minExpiry (vkey output) in
             if expiry = 0 then output
             else if v_ExpiryUnix output = 0 \<or> expiry <s v_ExpiryUnix output
             then output\<lparr>v_ExpiryUnix := expiry\<rparr> else output) outputs)"

section \<open>Transfers\<close>

definition checkAuthor :: "NodeID \<Rightarrow> Value list \<Rightarrow> err + unit" where
  "checkAuthor author inputs =
     each (\<lambda>i input s. guard (v_Owner input \<noteq> author)
             (errorfs [''input '', dec_nat i, '' is not owned by author'']) (Inr s)) 0 inputs ()"

definition completeOutput ::
    "'x env_scheme \<Rightarrow> uint32 \<Rightarrow> nat \<Rightarrow> Value \<Rightarrow> Value list \<Rightarrow> err + Value list" where
  "completeOutput E nextDepth i output acc =
     guard (isZeroNodeID (v_Owner output)) (errorfs [''output '', dec_nat i, '' owner is required''])
     (let output = output\<lparr>v_Depth := nextDepth\<rparr> in
     attempt (map_err (wrap_err (at_index ''output '' i)) (ValueIDFor E output)) (\<lambda>vid.
     Inr (acc @ [output\<lparr>v_ID := vid\<rparr>])))"

definition NewTransferTx ::
    "'x env_scheme \<Rightarrow> PrivateKey \<Rightarrow> Value list \<Rightarrow> Value list \<Rightarrow> err + TransferTx" where
  "NewTransferTx E authorPriv inputs outputs =
     guard (inputs = []) (errorf ''inputs are required'')
     (guard (outputs = []) (errorf ''outputs are required'')
     (attempt (publicKeyFromPrivate authorPriv) (\<lambda>author.
     attempt (NodeIDFromPublicKey author) (\<lambda>authorID.
     attempt (canonicalUniqueInputs E inputs) (\<lambda>canonicalInputs.
     attempt (checkAuthor authorID canonicalInputs) (\<lambda>_.
     attempt (nextTransferDepth canonicalInputs) (\<lambda>nextDepth.
     attempt (each (completeOutput E nextDepth) 0
                (normalizeTransferOutputExpiries canonicalInputs outputs) []) (\<lambda>normalizedOutputs.
     attempt (checkConservation canonicalInputs normalizedOutputs) (\<lambda>_.
     let tx = \<lparr>x_ID = TxID 0, x_Inputs = map v_ID canonicalInputs, x_Outputs = normalizedOutputs,
               x_Author = authorID, x_Signature = []\<rparr> in
     attempt (TransferTxID E tx) (\<lambda>txID.
     let tx = tx\<lparr>x_ID := txID\<rparr> in
     attempt (transferPreimage tx) (\<lambda>preimage.
     attempt (Sign E authorPriv preimage) (\<lambda>sig.
     Inr (tx\<lparr>x_Signature := sig\<rparr>)))))))))))))"

definition checkTransferOutput :: "'x env_scheme \<Rightarrow> uint32 \<Rightarrow> nat \<Rightarrow> Value \<Rightarrow> err + unit" where
  "checkTransferOutput E expectedDepth i output =
     guard (\<not> validAmount (v_Amount output))
       (errorfs [''output '', dec_nat i, '' amount must be greater than zero''])
     (guard (isZeroNodeID (v_Owner output)) (errorfs [''output '', dec_nat i, '' owner is required''])
     (guard (v_Depth output \<noteq> expectedDepth) (errorfs [''output '', dec_nat i, '' depth mismatch''])
     (attempt (map_err (wrap_err (at_index ''output '' i)) (ValueIDFor E output)) (\<lambda>expectedValueID.
     guard (\<not> sameHash (value_hash (v_ID output)) (value_hash expectedValueID))
       (errorfs [''output '', dec_nat i, '' value id mismatch''])
     (Inr ())))))"

definition ValidateTransferTx :: "'x env_scheme \<Rightarrow> TransferTx option \<Rightarrow> Value list \<Rightarrow> err + unit" where
  "ValidateTransferTx E otx inputValues = (case otx of
     None \<Rightarrow> Inl (errorf ''transfer tx is nil'')
   | Some tx \<Rightarrow>
       guard (x_Inputs tx = []) (errorf ''inputs are required'')
       (guard (x_Outputs tx = []) (errorf ''outputs are required'')
       (guard (length (x_Inputs tx) \<noteq> length inputValues) (errorf ''input count mismatch'')
       (attempt (canonicalInputsForTransfer E (x_Inputs tx) inputValues) (\<lambda>inputs.
       attempt (checkAuthor (x_Author tx) inputs) (\<lambda>_.
       attempt (nextTransferDepth inputs) (\<lambda>expectedDepth.
       attempt (each (\<lambda>i o' s. attempt (checkTransferOutput E expectedDepth i o') (\<lambda>_. Inr s))
                  0 (x_Outputs tx) ()) (\<lambda>_.
       attempt (checkConservation inputs (x_Outputs tx)) (\<lambda>_.
       attempt (checkExpiryPropagation inputs (x_Outputs tx)) (\<lambda>_.
       attempt (TransferTxID E tx) (\<lambda>expectedTxID.
       guard (\<not> sameHash (tx_hash (x_ID tx)) (tx_hash expectedTxID)) (errorf ''transfer tx id mismatch'')
       (attempt (transferPreimage tx) (\<lambda>preimage.
       guard (\<not> Verify E (NodeID_PublicKey (x_Author tx)) preimage (x_Signature tx))
         (errorf ''invalid transfer signature'')
       (Inr ()))))))))))))))"

section \<open>Identifiers leave out the identifier and the signature\<close>

lemma ValueIDFor_ID [simp]: "ValueIDFor E (v\<lparr>v_ID := x\<rparr>) = ValueIDFor E v"
  by (simp add: ValueIDFor_def valuePreimage_def)

lemma issuePreimage_ID [simp]:
  "issuePreimage (tx\<lparr>i_ID := x\<rparr>) = issuePreimage tx"
  "issuePreimage (tx\<lparr>i_Signature := s\<rparr>) = issuePreimage tx"
  "IssueTxID E (tx\<lparr>i_ID := x\<rparr>) = IssueTxID E tx"
  "IssueTxID E (tx\<lparr>i_Signature := s\<rparr>) = IssueTxID E tx"
  by (simp_all add: issuePreimage_def IssueTxID_def)

lemma transferPreimage_ID [simp]:
  "transferPreimage (tx\<lparr>x_ID := x\<rparr>) = transferPreimage tx"
  "transferPreimage (tx\<lparr>x_Signature := s\<rparr>) = transferPreimage tx"
  "TransferTxID E (tx\<lparr>x_ID := x\<rparr>) = TransferTxID E tx"
  "TransferTxID E (tx\<lparr>x_Signature := s\<rparr>) = TransferTxID E tx"
  by (simp_all add: transferPreimage_def TransferTxID_def)

lemma each_ok: "(\<And>i x. x \<in> set xs \<Longrightarrow> f i x () = Inr ()) \<Longrightarrow> each f i xs () = Inr ()"
  by (induction xs arbitrary: i) auto

lemma each_okD: "each f i xs () = Inr () \<Longrightarrow> x \<in> set xs \<Longrightarrow> \<exists>j. f j x () = Inr ()"
  by (induction xs arbitrary: i) auto

section \<open>Signed issuances\<close>

lemma NewIssueTx_Inr:
  assumes "NewIssueTx E priv owner name amt expiry = Inr (tx, v)"
  shows "\<exists>issuer p. publicKeyFromPrivate priv = Inr issuer \<and> NodeIDFromPublicKey issuer = Inr (i_Issuer tx)
    \<and> NodeIDFromPublicKey owner = Inr (i_Owner tx) \<and> i_Owner tx \<noteq> NodeID 0
    \<and> NewUnitID E issuer name = Inr (i_Unit tx) \<and> name \<noteq> '''' \<and> 0 < sint amt
    \<and> i_UnitName tx = name \<and> i_Amount tx = amt \<and> i_ExpiryUnix tx = expiry \<and> i_Outputs tx = [v]
    \<and> v_Unit v = i_Unit tx \<and> v_Amount v = amt \<and> v_Owner v = i_Owner tx \<and> v_Issuer v = i_Issuer tx
    \<and> v_ExpiryUnix v = expiry \<and> v_Depth v = 0 \<and> ValueIDFor E v = Inr (v_ID v)
    \<and> IssueTxID E tx = Inr (i_ID tx) \<and> issuePreimage tx = Inr p \<and> Sign E priv p = Inr (i_Signature tx)"
proof -
  from assms obtain issuer issuerID ownerID unit valueID txID p sig where
    k: "name \<noteq> ''''" "0 < sint amt" "publicKeyFromPrivate priv = Inr issuer"
      "NodeIDFromPublicKey issuer = Inr issuerID" "NodeIDFromPublicKey owner = Inr ownerID"
      "ownerID \<noteq> NodeID 0" "NewUnitID E issuer name = Inr unit" and
    v: "ValueIDFor E \<lparr>v_ID = ValueID 0, v_Unit = unit, v_Amount = amt, v_Owner = ownerID,
      v_CreatedAt = 0, v_Issuer = issuerID, v_ExpiryUnix = expiry, v_Depth = 0\<rparr> = Inr valueID"
      "v = \<lparr>v_ID = valueID, v_Unit = unit, v_Amount = amt, v_Owner = ownerID,
      v_CreatedAt = 0, v_Issuer = issuerID, v_ExpiryUnix = expiry, v_Depth = 0\<rparr>" and
    t: "IssueTxID E \<lparr>i_ID = TxID 0, i_Unit = unit, i_Outputs = [v], i_Issuer = issuerID, i_Timestamp = 0,
      i_UnitName = name, i_Amount = amt, i_Owner = ownerID, i_ExpiryUnix = expiry, i_Signature = []\<rparr> = Inr txID"
      "issuePreimage \<lparr>i_ID = TxID 0, i_Unit = unit, i_Outputs = [v], i_Issuer = issuerID, i_Timestamp = 0,
      i_UnitName = name, i_Amount = amt, i_Owner = ownerID, i_ExpiryUnix = expiry, i_Signature = []\<rparr> = Inr p"
      "Sign E priv p = Inr sig"
      "tx = \<lparr>i_ID = txID, i_Unit = unit, i_Outputs = [v], i_Issuer = issuerID, i_Timestamp = 0,
      i_UnitName = name, i_Amount = amt, i_Owner = ownerID, i_ExpiryUnix = expiry, i_Signature = sig\<rparr>"
    by (auto simp: NewIssueTx_def Let_def)
  have "ValueIDFor E v = Inr valueID"
    using v(1) unfolding v(2) by (simp add: ValueIDFor_def valuePreimage_def)
  moreover have "IssueTxID E tx = Inr txID" "issuePreimage tx = Inr p"
    using t(1,2) unfolding t(4) by (simp_all add: IssueTxID_def issuePreimage_def)
  ultimately show ?thesis using k v(2) t(3,4) by simp
qed

lemma NewIssueTx_valid:
  assumes "NewIssueTx E priv owner name amt expiry = Inr (tx, v)" "signs_verify E priv"
  shows "ValidateIssueTx E (Some tx) v = Inr ()"
proof -
  from NewIssueTx_Inr [OF assms(1)] obtain issuer p where
    n: "publicKeyFromPrivate priv = Inr issuer" "NodeIDFromPublicKey issuer = Inr (i_Issuer tx)"
      "NodeIDFromPublicKey owner = Inr (i_Owner tx)" "i_Owner tx \<noteq> NodeID 0"
      "NewUnitID E issuer name = Inr (i_Unit tx)" "name \<noteq> ''''" "0 < sint amt"
      "i_UnitName tx = name" "i_Amount tx = amt" "i_ExpiryUnix tx = expiry" "i_Outputs tx = [v]"
      "v_Unit v = i_Unit tx" "v_Amount v = amt" "v_Owner v = i_Owner tx" "v_Issuer v = i_Issuer tx"
      "v_ExpiryUnix v = expiry" "v_Depth v = 0" "ValueIDFor E v = Inr (v_ID v)"
      "IssueTxID E tx = Inr (i_ID tx)" "issuePreimage tx = Inr p" "Sign E priv p = Inr (i_Signature tx)"
    by blast
  have pk: "NodeID_PublicKey (i_Issuer tx) = issuer" using n(2) by (simp add: NodeIDFromPublicKey_Inr)
  moreover have "issuer = ed25519_Public priv" using n(1) by (simp add: publicKeyFromPrivate_Inr)
  ultimately have "Verify E (NodeID_PublicKey (i_Issuer tx)) p (i_Signature tx)"
    using Verify_Sign [OF n(21) assms(2)] by simp
  then show ?thesis using n pk by (simp add: ValidateIssueTx_def Let_def)
qed

lemma ValidateIssueTx_sound:
  assumes "ValidateIssueTx E (Some tx) v = Inr ()"
  shows "i_Outputs tx = [v] \<and> 0 < sint (i_Amount tx) \<and> v_Amount v = i_Amount tx \<and> v_Unit v = i_Unit tx
    \<and> v_Owner v = i_Owner tx \<and> v_Issuer v = i_Issuer tx \<and> v_ExpiryUnix v = i_ExpiryUnix tx \<and> v_Depth v = 0
    \<and> i_Owner tx \<noteq> NodeID 0 \<and> ValueIDFor E v = Inr (v_ID v) \<and> IssueTxID E tx = Inr (i_ID tx)
    \<and> NewUnitID E (NodeID_PublicKey (i_Issuer tx)) (i_UnitName tx) = Inr (i_Unit tx)
    \<and> (\<exists>p. issuePreimage tx = Inr p \<and> Verify E (NodeID_PublicKey (i_Issuer tx)) p (i_Signature tx))"
proof -
  have "length (i_Outputs tx) = 1" "hd (i_Outputs tx) = v"
    using assms by (auto simp: ValidateIssueTx_def Let_def)
  then have "i_Outputs tx = [v]" by (cases "i_Outputs tx") auto
  then show ?thesis using assms by (auto simp: ValidateIssueTx_def Let_def)
qed

section \<open>Inputs\<close>

lemma indexInput_Inr [simp]:
  "indexInput E i v m = Inr m' \<longleftrightarrow>
     ValueIDFor E v = Inr (v_ID v) \<and> \<not> gm_has m (v_ID v) \<and> m' = gm_put m (v_ID v) v"
  by (auto simp: indexInput_def)

lemma length_gm_put: "\<not> gm_has m k \<Longrightarrow> length (gm_put m k v) = Suc (length m)"
  unfolding gm_put_def by (induction m) (auto simp: gm_has_def)

lemma indexInputs:
  assumes "each (indexInput E) i vs m = Inr m'"
  shows "map_of m' = map_of m ++ map_of (map (\<lambda>v. (v_ID v, v)) vs) \<and> distinct (map v_ID vs)
    \<and> (\<forall>v \<in> set vs. ValueIDFor E v = Inr (v_ID v) \<and> \<not> gm_has m (v_ID v))
    \<and> length m' = length m + length vs"
  using assms
proof (induction vs arbitrary: i m)
  case (Cons v vs)
  from Cons.prems have v: "ValueIDFor E v = Inr (v_ID v)" "\<not> gm_has m (v_ID v)"
    and r: "each (indexInput E) (i + 1) vs (gm_put m (v_ID v) v) = Inr m'" by auto
  note IH = Cons.IH [OF r]
  have "v_ID v \<notin> v_ID ` set vs" using IH by auto
  then have "map_of (map (\<lambda>v. (v_ID v, v)) vs) (v_ID v) = None"
    by (auto simp: map_of_eq_None_iff)
  then have "(map_of m)(v_ID v \<mapsto> v) ++ map_of (map (\<lambda>v. (v_ID v, v)) vs)
      = map_of m ++ (map_of (map (\<lambda>v. (v_ID v, v)) vs))(v_ID v \<mapsto> v)"
    by (auto simp: map_add_def fun_eq_iff split: option.splits)
  moreover have "\<forall>w \<in> set vs. \<not> gm_has m (v_ID w)" using IH by auto
  ultimately show ?case using IH v length_gm_put [OF v(2)] by (auto simp: fun_upd_def)
qed simp

lemma selectInput_Inr [simp]:
  "selectInput M i k (seen, acc) = Inr st \<longleftrightarrow>
     k \<notin> set seen \<and> (\<exists>v. map_of M k = Some v \<and> st = (k # seen, acc @ [v]))"
  by (auto simp: selectInput_def split: option.splits)

lemma selectInputs:
  assumes "each (selectInput M) i ks (seen, acc) = Inr (seen', ws)"
  shows "distinct ks \<and> set ks \<inter> set seen = {} \<and> length seen' = length seen + length ks
    \<and> map Some ws = map Some acc @ map (map_of M) ks"
  using assms
proof (induction ks arbitrary: i seen acc)
  case (Cons k ks)
  then obtain v where "k \<notin> set seen" "map_of M k = Some v"
    "each (selectInput M) (i + 1) ks (k # seen, acc @ [v]) = Inr (seen', ws)" by auto
  with Cons.IH [of "i + 1" "k # seen" "acc @ [v]"] show ?case by auto
qed simp

lemma canonicalInputs_sound:
  assumes "canonicalInputsForTransfer E ks vs = Inr ws"
  shows "map v_ID ws = ks \<and> distinct ks \<and> mset ws = mset vs \<and> (\<forall>v \<in> set vs. ValueIDFor E v = Inr (v_ID v))"
proof -
  from assms obtain m seen where
    m: "each (indexInput E) 0 vs [] = Inr m" and s: "each (selectInput m) 0 ks ([], []) = Inr (seen, ws)"
    and l: "length seen = length m"
    by (auto simp: canonicalInputsForTransfer_def)
  note I = indexInputs [OF m] and S = selectInputs [OF s]
  have look: "map_of m k = Some v \<Longrightarrow> v \<in> set vs \<and> v_ID v = k" for k v
    using I by (auto dest!: map_of_SomeD)
  have nth: "v_ID (ws ! i) = ks ! i \<and> ws ! i \<in> set vs" if "i < length ks" for i
  proof -
    have "map Some ws ! i = map (map_of m) ks ! i" using S by simp
    moreover have "length ws = length ks" using S by (metis append_Nil length_map list.map(1))
    ultimately have "map_of m (ks ! i) = Some (ws ! i)" using that by simp
    then show ?thesis using look by blast
  qed
  have len: "length ws = length ks" using S by (metis append_Nil length_map list.map(1))
  then have ids: "map v_ID ws = ks" using nth by (intro nth_equalityI) simp_all
  have dv: "distinct vs" using I by (simp add: distinct_map)
  have dw: "distinct ws" using S ids by (metis distinct_map)
  have sub: "set ws \<subseteq> set vs" using nth len by (auto simp: in_set_conv_nth)
  have "length ws = length vs" using S I l len by simp
  then have "set ws = set vs"
    using sub dv dw by (intro card_subset_eq) (simp_all add: distinct_card)
  then have "mset ws = mset vs" using dv dw by (simp add: set_eq_iff_mset_eq_distinct)
  then show ?thesis using ids S I by simp
qed

lemma canonicalUniqueInputs_eq:
  assumes "canonicalUniqueInputs E vs = Inr ws"
  shows "ws = vs"
proof -
  note c = canonicalInputs_sound [OF assms [unfolded canonicalUniqueInputs_def]]
  have "set ws = set vs" using c by (metis set_mset_mset)
  then have "inj_on v_ID (set ws \<union> set vs)" using c by (simp add: distinct_map)
  then show ?thesis using c by (metis map_inj_on)
qed

section \<open>Conservation\<close>

abbreviation amountOf :: "(UnitID, unitBalance) gomap \<Rightarrow> UnitID \<Rightarrow> int" where
  "amountOf b u \<equiv> sint (ub_amount (gm_get zeroBalance b u))"

lemma balanceInput_Inr [simp]:
  "balanceInput i v b = Inr b' \<longleftrightarrow> 0 < sint (v_Amount v)
     \<and> (ub_set (gm_get zeroBalance b (v_Unit v)) \<longrightarrow> ub_issuer (gm_get zeroBalance b (v_Unit v)) = v_Issuer v)
     \<and> (\<exists>c. sint c = amountOf b (v_Unit v) + sint (v_Amount v)
          \<and> b' = gm_put b (v_Unit v) \<lparr>ub_amount = c, ub_issuer = v_Issuer v, ub_set = True\<rparr>)"
  by (auto simp: balanceInput_def Let_def CheckedAdd_Inr)

lemma balanceInputs:
  assumes "each balanceInput i vs b = Inr b'" "\<forall>u x. map_of b u = Some x \<longrightarrow> ub_set x"
  shows "(\<forall>u. amountOf b' u = amountOf b u + unit_sum u vs) \<and> (\<forall>u x. map_of b' u = Some x \<longrightarrow> ub_set x)
    \<and> (\<forall>v \<in> set vs. 0 < sint (v_Amount v) \<and> (\<exists>x. map_of b' (v_Unit v) = Some x \<and> ub_issuer x = v_Issuer v))
    \<and> (\<forall>u x. map_of b u = Some x \<longrightarrow> (\<exists>y. map_of b' u = Some y \<and> ub_issuer y = ub_issuer x))
    \<and> (\<forall>u. map_of b' u = None \<longleftrightarrow> map_of b u = None \<and> u \<notin> v_Unit ` set vs)"
  using assms
proof (induction vs arbitrary: i b)
  case (Cons v vs)
  let ?bal = "gm_get zeroBalance b (v_Unit v)"
  from Cons.prems obtain c where c: "0 < sint (v_Amount v)" "ub_set ?bal \<longrightarrow> ub_issuer ?bal = v_Issuer v"
    "sint c = sint (ub_amount ?bal) + sint (v_Amount v)"
    and r: "each balanceInput (i + 1) vs (gm_put b (v_Unit v) \<lparr>ub_amount = c, ub_issuer = v_Issuer v, ub_set = True\<rparr>) = Inr b'"
    unfolding each.simps attempt_Inr balanceInput_Inr by blast
  let ?b = "gm_put b (v_Unit v) \<lparr>ub_amount = c, ub_issuer = v_Issuer v, ub_set = True\<rparr>"
  have "\<forall>u x. map_of ?b u = Some x \<longrightarrow> ub_set x" using Cons.prems(2) by auto
  note IH = Cons.IH [OF r this]
  have iss: "ub_issuer x = v_Issuer v" if "map_of b (v_Unit v) = Some x" for x
    using c(2) that Cons.prems(2) by (simp add: gm_get_def)
  have a: "amountOf ?b u = amountOf b u + (if v_Unit v = u then sint (v_Amount v) else 0)" for u
    using c(3) by auto
  have keep: "\<exists>y. map_of b' u = Some y \<and> ub_issuer y = ub_issuer x" if "map_of b u = Some x" for u x
  proof (cases "u = v_Unit v")
    case True
    then show ?thesis using IH iss that by fastforce
  next
    case False
    then show ?thesis using IH that by auto
  qed
  have "map_of ?b (v_Unit v) = Some \<lparr>ub_amount = c, ub_issuer = v_Issuer v, ub_set = True\<rparr>" by simp
  with IH have "\<exists>x. map_of b' (v_Unit v) = Some x \<and> ub_issuer x = v_Issuer v"
    by (metis unitBalance.select_convs(2))
  then show ?case using IH a keep c(1) by (auto simp: algebra_simps)
qed simp

lemma balanceOutput_Inr [simp]:
  "balanceOutput i v b = Inr b' \<longleftrightarrow> 0 < sint (v_Amount v)
     \<and> (\<exists>bal c. map_of b (v_Unit v) = Some bal \<and> ub_issuer bal = v_Issuer v
          \<and> sint (v_Amount v) \<le> sint (ub_amount bal) \<and> sint c = sint (ub_amount bal) - sint (v_Amount v)
          \<and> b' = gm_put b (v_Unit v) (bal\<lparr>ub_amount := c\<rparr>))"
  by (auto simp: balanceOutput_def Sub_Inr word_sless_alt split: option.splits)

lemma balanceOutputs:
  assumes "each balanceOutput i vs b = Inr b'"
  shows "(\<forall>u. amountOf b' u = amountOf b u - unit_sum u vs)
    \<and> (\<forall>v \<in> set vs. 0 < sint (v_Amount v) \<and> (\<exists>x. map_of b (v_Unit v) = Some x \<and> ub_issuer x = v_Issuer v))
    \<and> (\<forall>u. map_option ub_issuer (map_of b' u) = map_option ub_issuer (map_of b u))"
  using assms
proof (induction vs arbitrary: i b)
  case (Cons v vs)
  from Cons.prems obtain bal c where c: "map_of b (v_Unit v) = Some bal" "0 < sint (v_Amount v)"
    "ub_issuer bal = v_Issuer v" "sint c = sint (ub_amount bal) - sint (v_Amount v)"
    and r: "each balanceOutput (i + 1) vs (gm_put b (v_Unit v) (bal\<lparr>ub_amount := c\<rparr>)) = Inr b'"
    unfolding each.simps attempt_Inr balanceOutput_Inr by blast
  let ?b = "gm_put b (v_Unit v) (bal\<lparr>ub_amount := c\<rparr>)"
  note IH = Cons.IH [OF r]
  have a: "amountOf ?b u = amountOf b u - (if v_Unit v = u then sint (v_Amount v) else 0)" for u
    using c(1,4) by (auto simp: gm_get_def)
  have m: "map_option ub_issuer (map_of ?b u) = map_option ub_issuer (map_of b u)" for u
    using c(1) by auto
  have look: "(\<exists>x. map_of ?b u = Some x \<and> ub_issuer x = n) \<longleftrightarrow> (\<exists>x. map_of b u = Some x \<and> ub_issuer x = n)" for u n
    by (simp only: map_option_eq_Some [symmetric] m)
  have 1: "amountOf b' u = amountOf b u - unit_sum u (v # vs)" for u
    using IH [THEN conjunct1, rule_format, of u] a [of u] by simp
  have 2: "0 < sint (v_Amount w) \<and> (\<exists>x. map_of b (v_Unit w) = Some x \<and> ub_issuer x = v_Issuer w)"
    if "w \<in> set (v # vs)" for w
    using that IH [THEN conjunct2, THEN conjunct1] c(1-3) look by (metis set_ConsD)
  have 3: "map_option ub_issuer (map_of b' u) = map_option ub_issuer (map_of b u)" for u
    using IH [THEN conjunct2, THEN conjunct2, rule_format, of u] m [of u] by (rule trans)
  show ?case using 1 2 3 by blast
qed simp

lemma checkConservation_sound:
  assumes "checkConservation ins outs = Inr ()"
  shows "unit_sum u ins = unit_sum u outs"
    and "\<forall>v \<in> set ins \<union> set outs. 0 < sint (v_Amount v)"
    and "\<forall>v \<in> set outs. vkey v \<in> vkey ` set ins"
    and "\<forall>v \<in> set ins. \<forall>w \<in> set ins \<union> set outs. v_Unit v = v_Unit w \<longrightarrow> v_Issuer v = v_Issuer w"
proof -
  from assms obtain b1 b2 where
    1: "each balanceInput 0 ins [] = Inr b1" and 2: "each balanceOutput 0 outs b1 = Inr b2"
    and z: "each (\<lambda>_ (unit, balance) s. guard (ub_amount balance \<noteq> 0)
      (errorfs [''unit '', hex_string (hashBytes (unit_hash unit)), '' is not conserved'']) (Inr s)) 0 b2 () = Inr ()"
    by (auto simp: checkConservation_def)
  have "\<forall>u x. map_of ([] :: (UnitID, unitBalance) gomap) u = Some x \<longrightarrow> ub_set x" by simp
  note I = balanceInputs [OF 1 this] and O = balanceOutputs [OF 2]
  note I1 = I [THEN conjunct1, rule_format] and O1 = O [THEN conjunct1, rule_format]
  note I3 = I [THEN conjunct2, THEN conjunct2, THEN conjunct1] and O2 = O [THEN conjunct2, THEN conjunct1]
  note I5 = I [THEN conjunct2, THEN conjunct2, THEN conjunct2, THEN conjunct2]
  have zero: "amountOf b2 u = 0"
  proof (cases "map_of b2 u")
    case (Some x)
    then have "\<not> ub_amount x \<noteq> 0" by (intro each_pairs_check [OF z]) (rule map_of_SomeD)
    then show ?thesis using Some by (simp add: gm_get_def)
  qed (simp add: gm_get_def zeroBalance_def)
  have "amountOf b2 u = unit_sum u ins - unit_sum u outs" using I1 [of u] O1 [of u] by (simp add: zeroBalance_def)
  then show "unit_sum u ins = unit_sum u outs" using zero by simp
  show "\<forall>v \<in> set ins \<union> set outs. 0 < sint (v_Amount v)" using I3 O2 by blast
  have same: "v_Issuer v = v_Issuer w"
    if vw: "v \<in> set ins" "w \<in> set ins \<union> set outs" "v_Unit v = v_Unit w" for v w
  proof -
    obtain x where "map_of b1 (v_Unit v) = Some x" "ub_issuer x = v_Issuer v" using bspec [OF I3 vw(1)] by blast
    moreover have "\<exists>y. map_of b1 (v_Unit w) = Some y \<and> ub_issuer y = v_Issuer w"
      using vw(2) bspec [OF I3, of w] bspec [OF O2, of w] by auto
    ultimately show ?thesis using vw(3) by auto
  qed
  then show "\<forall>v \<in> set ins. \<forall>w \<in> set ins \<union> set outs. v_Unit v = v_Unit w \<longrightarrow> v_Issuer v = v_Issuer w" by blast
  show "\<forall>v \<in> set outs. vkey v \<in> vkey ` set ins"
  proof
    fix v assume v: "v \<in> set outs"
    then have "map_of b1 (v_Unit v) \<noteq> None" using O2 by blast
    then obtain w where w: "w \<in> set ins" "v_Unit w = v_Unit v" using I5 by auto
    then have "vkey v = vkey w" using same [of w v] v by (simp add: vkey_def)
    then show "vkey v \<in> vkey ` set ins" using w(1) by simp
  qed
qed

section \<open>Expiry\<close>

text \<open>The earliest expiry of a key: none if no value has one, else a lower bound of those that have.\<close>

definition bounds_expiry :: "unitIssuerKey \<Rightarrow> int64 \<Rightarrow> Value list \<Rightarrow> bool" where
  "bounds_expiry k e vs \<longleftrightarrow> (\<forall>v \<in> set vs. vkey v = k \<longrightarrow> v_ExpiryUnix v \<noteq> 0 \<longrightarrow>
     e \<noteq> 0 \<and> sint e \<le> sint (v_ExpiryUnix v))"

lemma minExpiry_bounds:
  "bounds_expiry k (gm_get 0 (foldl minExpiryStep [] vs) k) vs"
proof (induction vs rule: rev_induct)
  case (snoc v vs)
  let ?m = "foldl minExpiryStep [] vs"
  show ?case
  proof (cases "vkey v = k \<and> v_ExpiryUnix v \<noteq> 0")
    case True
    then show ?thesis using snoc
      by (auto simp: minExpiryStep_def bounds_expiry_def word_sless_alt)
  next
    case False
    then have "gm_get 0 (minExpiryStep ?m v) k = gm_get 0 ?m k" by (auto simp: minExpiryStep_def)
    then show ?thesis using snoc False by (auto simp: bounds_expiry_def)
  qed
qed (simp add: bounds_expiry_def)

lemma checkExpiryPropagation_sound:
  assumes "checkExpiryPropagation ins outs = Inr ()" "out \<in> set outs" "v \<in> set ins"
    and "vkey v = vkey out" "v_ExpiryUnix v \<noteq> 0"
  shows "v_ExpiryUnix out \<noteq> 0 \<and> sint (v_ExpiryUnix out) \<le> sint (v_ExpiryUnix v)"
proof -
  let ?e = "gm_get 0 (foldl minExpiryStep [] ins) (vkey out)"
  have b: "?e \<noteq> 0" "sint ?e \<le> sint (v_ExpiryUnix v)"
    using minExpiry_bounds [of "vkey out" ins] assms(3-5) by (auto simp: bounds_expiry_def)
  have "v_ExpiryUnix out \<noteq> 0 \<and> \<not> ?e <s v_ExpiryUnix out"
    using each_okD [OF assms(1) [unfolded checkExpiryPropagation_def Let_def] assms(2)] b(1) by auto
  then show ?thesis using b(2) by (simp add: word_sless_alt)
qed

lemma normalize_passes:
  assumes "\<forall>out \<in> set outs. vkey out \<in> vkey ` set ins"
    and "list_all2 (\<lambda>n out. vkey out = vkey n \<and> v_ExpiryUnix out = v_ExpiryUnix n)
           (normalizeTransferOutputExpiries ins raw) outs"
  shows "checkExpiryPropagation ins outs = Inr ()"
  unfolding checkExpiryPropagation_def Let_def
proof (rule each_ok)
  fix i out assume out: "out \<in> set outs"
  let ?e = "gm_get 0 (foldl minExpiryStep [] ins) (vkey out)"
  from out assms(2) obtain n where n: "n \<in> set (normalizeTransferOutputExpiries ins raw)"
    "vkey out = vkey n" "v_ExpiryUnix out = v_ExpiryUnix n"
  proof -
    obtain i where "i < length outs" "out = outs ! i" using out by (auto simp: in_set_conv_nth)
    moreover note list_all2_lengthD [OF assms(2)] list_all2_nthD2 [OF assms(2), of i]
    ultimately show ?thesis using that nth_mem by metis
  qed
  have "?e \<noteq> 0 \<longrightarrow> v_ExpiryUnix n \<noteq> 0 \<and> \<not> ?e <s v_ExpiryUnix n"
    using n(1) unfolding n(2)
    by (auto simp: normalizeTransferOutputExpiries_def Let_def vkey_def word_sless_alt split: if_splits)
  then show "guard (vkey out \<notin> set (map vkey ins)) (errorfs [''output '', dec_nat i, '' uses unknown unit issuer''])
      (if ?e = 0 then Inr ()
       else guard (v_ExpiryUnix out = 0) (errorfs [''output '', dec_nat i, '' removes expiry constraint''])
            (guard (?e <s v_ExpiryUnix out) (errorfs [''output '', dec_nat i, '' extends expiry constraint'']) (Inr ())))
    = Inr ()"
    using assms(1) out n(3) by auto
qed

section \<open>Depth\<close>

lemma nextTransferDepth_Inr:
  assumes "nextTransferDepth ins = Inr d"
  shows "\<forall>v \<in> set ins. unat (v_Depth v) < unat d"
    and "unat d = Suc (foldl (\<lambda>m v. max m (unat (v_Depth v))) 0 ins)"
proof -
  let ?mx = "\<lambda>a. foldl (\<lambda>m v. if m < v_Depth v then v_Depth v else m) a ins"
  have fold: "unat (?mx a) = foldl (\<lambda>m v. max m (unat (v_Depth v))) (unat a) ins" for a
  proof (induction ins arbitrary: a)
    case (Cons v ins)
    have "unat (if a < v_Depth v then v_Depth v else a) = max (unat a) (unat (v_Depth v))"
      by (simp add: word_less_nat_alt max_def)
    then show ?case using Cons [of "if a < v_Depth v then v_Depth v else a"] by simp
  qed simp
  have ge: "n \<le> foldl (\<lambda>m v. max m (unat (v_Depth v))) n vs" for n vs
    by (induction vs arbitrary: n) (auto intro: order_trans [OF max.cobounded1])
  have le: "unat (v_Depth v) \<le> foldl (\<lambda>m v. max m (unat (v_Depth v))) n vs" if "v \<in> set vs" for v n vs
    using that
  proof (induction vs arbitrary: n)
    case (Cons w vs)
    then show ?case using ge [of "max n (unat (v_Depth v))" vs] by auto
  qed simp
  have d: "?mx 0 \<noteq> 0xFFFFFFFF" "d = ?mx 0 + 1" using assms by (auto simp: nextTransferDepth_def Let_def)
  have "unat (?mx 0) < 2 ^ 32" using unsigned_less [of "?mx 0"] by simp
  moreover have "unat (?mx 0) \<noteq> 2 ^ 32 - 1"
  proof
    assume "unat (?mx 0) = 2 ^ 32 - 1"
    then have "unat (?mx 0) = unat (0xFFFFFFFF :: uint32)" by simp
    then show False using d(1) by (simp only: word_unat_eq_iff)
  qed
  ultimately have "unat (?mx 0) + 1 < 2 ^ 32" by linarith
  then have u: "unat d = Suc (unat (?mx 0))" using d(2) by (simp add: unat_word_ariths)
  then show "unat d = Suc (foldl (\<lambda>m v. max m (unat (v_Depth v))) 0 ins)" using fold [of 0] by simp
  show "\<forall>v \<in> set ins. unat (v_Depth v) < unat d"
    using u fold [of 0] le by (auto simp: less_Suc_eq_le)
qed

section \<open>Signed transfers\<close>

lemma checkAuthor_iff: "checkAuthor a vs = Inr () \<longleftrightarrow> (\<forall>v \<in> set vs. v_Owner v = a)"
  unfolding checkAuthor_def by (auto intro!: each_ok dest: each_okD)

lemma completeOutput_Inr [simp]:
  "completeOutput E d i r acc = Inr acc' \<longleftrightarrow> v_Owner r \<noteq> NodeID 0
     \<and> (\<exists>vid. ValueIDFor E (r\<lparr>v_Depth := d\<rparr>) = Inr vid \<and> acc' = acc @ [r\<lparr>v_Depth := d, v_ID := vid\<rparr>])"
  by (auto simp: completeOutput_def Let_def)

lemma completeOutputs:
  assumes "each (completeOutput E d) i raw acc = Inr outs"
  shows "\<exists>new. outs = acc @ new \<and> list_all2 (\<lambda>n out. vkey out = vkey n \<and> v_ExpiryUnix out = v_ExpiryUnix n) raw new
    \<and> (\<forall>v \<in> set new. v_Owner v \<noteq> NodeID 0 \<and> v_Depth v = d \<and> ValueIDFor E v = Inr (v_ID v))"
  using assms
proof (induction raw arbitrary: i acc)
  case (Cons r raw)
  then obtain vid where v: "v_Owner r \<noteq> NodeID 0" "ValueIDFor E (r\<lparr>v_Depth := d\<rparr>) = Inr vid"
    and rest: "each (completeOutput E d) (i + 1) raw (acc @ [r\<lparr>v_Depth := d, v_ID := vid\<rparr>]) = Inr outs"
    by auto
  let ?w = "r\<lparr>v_Depth := d, v_ID := vid\<rparr>"
  from Cons.IH [OF rest] obtain new where n: "outs = (acc @ [?w]) @ new"
    "list_all2 (\<lambda>n out. vkey out = vkey n \<and> v_ExpiryUnix out = v_ExpiryUnix n) raw new"
    "\<forall>v \<in> set new. v_Owner v \<noteq> NodeID 0 \<and> v_Depth v = d \<and> ValueIDFor E v = Inr (v_ID v)" by blast
  have "ValueIDFor E ?w = Inr (v_ID ?w)" using v(2) by simp
  then have "outs = acc @ (?w # new) \<and> list_all2 (\<lambda>n out. vkey out = vkey n \<and> v_ExpiryUnix out = v_ExpiryUnix n) (r # raw) (?w # new)
    \<and> (\<forall>v \<in> set (?w # new). v_Owner v \<noteq> NodeID 0 \<and> v_Depth v = d \<and> ValueIDFor E v = Inr (v_ID v))"
    using n v(1) by (auto simp: vkey_def)
  then show ?case by blast
qed simp

lemma NewTransferTx_Inr:
  assumes "NewTransferTx E priv ins raw = Inr tx"
  shows "\<exists>author d p. ins \<noteq> [] \<and> raw \<noteq> [] \<and> publicKeyFromPrivate priv = Inr author
    \<and> NodeIDFromPublicKey author = Inr (x_Author tx) \<and> canonicalUniqueInputs E ins = Inr ins
    \<and> checkAuthor (x_Author tx) ins = Inr () \<and> nextTransferDepth ins = Inr d
    \<and> each (completeOutput E d) 0 (normalizeTransferOutputExpiries ins raw) [] = Inr (x_Outputs tx)
    \<and> checkConservation ins (x_Outputs tx) = Inr () \<and> x_Inputs tx = map v_ID ins
    \<and> TransferTxID E tx = Inr (x_ID tx) \<and> transferPreimage tx = Inr p \<and> Sign E priv p = Inr (x_Signature tx)"
proof -
  from assms obtain author authorID cins d outs txID p sig where
    k: "ins \<noteq> []" "raw \<noteq> []" "publicKeyFromPrivate priv = Inr author" "NodeIDFromPublicKey author = Inr authorID"
      "canonicalUniqueInputs E ins = Inr cins" "checkAuthor authorID cins = Inr ()" "nextTransferDepth cins = Inr d"
      "each (completeOutput E d) 0 (normalizeTransferOutputExpiries cins raw) [] = Inr outs"
      "checkConservation cins outs = Inr ()" and
    t: "TransferTxID E \<lparr>x_ID = TxID 0, x_Inputs = map v_ID cins, x_Outputs = outs, x_Author = authorID,
      x_Signature = []\<rparr> = Inr txID"
      "transferPreimage \<lparr>x_ID = TxID 0, x_Inputs = map v_ID cins, x_Outputs = outs, x_Author = authorID,
      x_Signature = []\<rparr> = Inr p"
      "Sign E priv p = Inr sig"
      "tx = \<lparr>x_ID = txID, x_Inputs = map v_ID cins, x_Outputs = outs, x_Author = authorID, x_Signature = sig\<rparr>"
    by (auto simp: NewTransferTx_def Let_def)
  have "TransferTxID E tx = Inr txID" "transferPreimage tx = Inr p"
    using t(1,2) unfolding t(4) by (simp_all add: TransferTxID_def transferPreimage_def)
  then show ?thesis using k t(3,4) canonicalUniqueInputs_eq [OF k(5)] by auto
qed

lemma NewTransferTx_valid:
  assumes "NewTransferTx E priv ins raw = Inr tx" "signs_verify E priv"
  shows "ValidateTransferTx E (Some tx) ins = Inr ()"
proof -
  from NewTransferTx_Inr [OF assms(1)] obtain author d p where
    n: "ins \<noteq> []" "raw \<noteq> []" "publicKeyFromPrivate priv = Inr author"
    "NodeIDFromPublicKey author = Inr (x_Author tx)" "canonicalUniqueInputs E ins = Inr ins"
    "checkAuthor (x_Author tx) ins = Inr ()" "nextTransferDepth ins = Inr d"
    "each (completeOutput E d) 0 (normalizeTransferOutputExpiries ins raw) [] = Inr (x_Outputs tx)"
    "checkConservation ins (x_Outputs tx) = Inr ()" "x_Inputs tx = map v_ID ins"
    "TransferTxID E tx = Inr (x_ID tx)" "transferPreimage tx = Inr p" "Sign E priv p = Inr (x_Signature tx)"
    by blast
  from completeOutputs [OF n(8)]
  have o: "list_all2 (\<lambda>n out. vkey out = vkey n \<and> v_ExpiryUnix out = v_ExpiryUnix n)
      (normalizeTransferOutputExpiries ins raw) (x_Outputs tx)"
    "\<forall>v \<in> set (x_Outputs tx). v_Owner v \<noteq> NodeID 0 \<and> v_Depth v = d \<and> ValueIDFor E v = Inr (v_ID v)"
    by simp_all
  note c = checkConservation_sound [OF n(9)]
  have "length (x_Outputs tx) = length raw"
    using o(1) by (auto dest!: list_all2_lengthD simp: normalizeTransferOutputExpiries_def Let_def)
  then have ne: "x_Outputs tx \<noteq> []" using n(2) by auto
  have outs: "each (\<lambda>i o' s. attempt (checkTransferOutput E d i o') (\<lambda>_. Inr s)) 0 (x_Outputs tx) () = Inr ()"
    using o(2) c(2) by (intro each_ok) (simp add: checkTransferOutput_def)
  have expiry: "checkExpiryPropagation ins (x_Outputs tx) = Inr ()"
    by (rule normalize_passes [OF c(3) o(1)])
  have "NodeID_PublicKey (x_Author tx) = ed25519_Public priv"
    using n(3,4) by (simp add: NodeIDFromPublicKey_Inr publicKeyFromPrivate_Inr)
  then have sig: "Verify E (NodeID_PublicKey (x_Author tx)) p (x_Signature tx)"
    using Verify_Sign [OF n(13) assms(2)] by simp
  have "canonicalInputsForTransfer E (map v_ID ins) ins = Inr ins"
    using n(5) by (simp add: canonicalUniqueInputs_def)
  then show ?thesis
    using n(1,6,7,9-12) ne outs expiry sig by (simp add: ValidateTransferTx_def)
qed

lemma ValidateTransferTx_sound:
  assumes "ValidateTransferTx E (Some tx) vs = Inr ()"
  shows "distinct (x_Inputs tx)" "mset (x_Inputs tx) = mset (map v_ID vs)"
    and "\<forall>v \<in> set vs. v_Owner v = x_Author tx \<and> 0 < sint (v_Amount v) \<and> ValueIDFor E v = Inr (v_ID v)"
    and "\<forall>u. unit_sum u vs = unit_sum u (x_Outputs tx)"
    and "\<forall>w \<in> set (x_Outputs tx). vkey w \<in> vkey ` set vs \<and> 0 < sint (v_Amount w) \<and> v_Owner w \<noteq> NodeID 0
           \<and> ValueIDFor E w = Inr (v_ID w)"
    and "\<forall>w \<in> set (x_Outputs tx). \<forall>v \<in> set vs. unat (v_Depth v) < unat (v_Depth w)"
    and "\<forall>w \<in> set (x_Outputs tx). \<forall>v \<in> set vs. vkey v = vkey w \<longrightarrow> v_ExpiryUnix v \<noteq> 0 \<longrightarrow>
           v_ExpiryUnix w \<noteq> 0 \<and> sint (v_ExpiryUnix w) \<le> sint (v_ExpiryUnix v)"
    and "TransferTxID E tx = Inr (x_ID tx)"
    and "\<exists>p. transferPreimage tx = Inr p \<and> Verify E (NodeID_PublicKey (x_Author tx)) p (x_Signature tx)"
proof -
  from assms obtain ins d where
    i: "canonicalInputsForTransfer E (x_Inputs tx) vs = Inr ins" and a: "checkAuthor (x_Author tx) ins = Inr ()"
    and d: "nextTransferDepth ins = Inr d"
    and o: "each (\<lambda>i o' s. attempt (checkTransferOutput E d i o') (\<lambda>_. Inr s)) 0 (x_Outputs tx) () = Inr ()"
    and c: "checkConservation ins (x_Outputs tx) = Inr ()"
    and e: "checkExpiryPropagation ins (x_Outputs tx) = Inr ()"
    and t: "TransferTxID E tx = Inr (x_ID tx)"
      "\<exists>p. transferPreimage tx = Inr p \<and> Verify E (NodeID_PublicKey (x_Author tx)) p (x_Signature tx)"
    by (auto simp: ValidateTransferTx_def)
  note I = canonicalInputs_sound [OF i] and C = checkConservation_sound [OF c]
  have ms: "mset ins = mset vs" and st: "set ins = set vs" using I by (auto dest: mset_eq_setD)
  show "distinct (x_Inputs tx)" using I by simp
  show "mset (x_Inputs tx) = mset (map v_ID vs)" using I ms by (metis mset_map)
  show "\<forall>v \<in> set vs. v_Owner v = x_Author tx \<and> 0 < sint (v_Amount v) \<and> ValueIDFor E v = Inr (v_ID v)"
    using a C(2) I st by (simp add: checkAuthor_iff)
  have "unit_sum u ins = unit_sum u vs" for u
    unfolding unit_sum_def by (simp only: sum_mset_sum_list [symmetric] mset_map ms)
  then show "\<forall>u. unit_sum u vs = unit_sum u (x_Outputs tx)" using C(1) by simp
  have out: "v_Owner w \<noteq> NodeID 0 \<and> v_Depth w = d \<and> ValueIDFor E w = Inr (v_ID w)" if "w \<in> set (x_Outputs tx)" for w
    using each_okD [OF o that] by (auto simp: checkTransferOutput_def)
  show "\<forall>w \<in> set (x_Outputs tx). vkey w \<in> vkey ` set vs \<and> 0 < sint (v_Amount w) \<and> v_Owner w \<noteq> NodeID 0
      \<and> ValueIDFor E w = Inr (v_ID w)"
    using C(2,3) out st by auto
  show "\<forall>w \<in> set (x_Outputs tx). \<forall>v \<in> set vs. unat (v_Depth v) < unat (v_Depth w)"
    using nextTransferDepth_Inr(1) [OF d] out st by auto
  show "\<forall>w \<in> set (x_Outputs tx). \<forall>v \<in> set vs. vkey v = vkey w \<longrightarrow> v_ExpiryUnix v \<noteq> 0 \<longrightarrow>
      v_ExpiryUnix w \<noteq> 0 \<and> sint (v_ExpiryUnix w) \<le> sint (v_ExpiryUnix v)"
    using checkExpiryPropagation_sound [OF e] st by blast
qed (use assms in \<open>auto simp: ValidateTransferTx_def\<close>)

end
