(* ===== verification/Intent.thy ===== *)
theory Intent
  imports Quote Transfers
begin

text \<open>
  \<open>core/node/intent.go\<close>: a party authorizes a trade by signing an intent, the terms of a quote with
  its own identity and the time of the quote.

  Shown here: signing a quote yields an intent that verifies and matches the quote; a verified
  intent names the party whose key signed it; and the identifiers of intents and of authorized
  trades commit to their contents.
\<close>

section \<open>Definitions\<close>

record TradeIntent =
  ti_Party :: NodeID
  ti_Seller :: NodeID
  ti_Buyer :: NodeID
  ti_SellUnit :: UnitID
  ti_BuyUnit :: UnitID
  ti_SellAmount :: amount
  ti_BuyAmount :: amount
  ti_Timestamp :: int64

record SignedTradeIntent =
  si_Intent :: TradeIntent
  si_PublicKey :: PublicKey
  si_Signature :: Signature

record AuthorizedTradeTx =
  at_Tx :: TradeTx
  at_SellerAuth :: SignedTradeIntent
  at_BuyerAuth :: SignedTradeIntent

definition IntentFromQuote :: "Quote \<Rightarrow> NodeID \<Rightarrow> int64 \<Rightarrow> TradeIntent" where
  "IntentFromQuote q party timestamp =
     \<lparr>ti_Party = party, ti_Seller = q_Seller q, ti_Buyer = q_Buyer q,
      ti_SellUnit = q_SellUnit q, ti_BuyUnit = q_BuyUnit q,
      ti_SellAmount = q_SellAmount q, ti_BuyAmount = q_BuyAmount q, ti_Timestamp = timestamp\<rparr>"

definition tradeIntentPreimage :: "TradeIntent \<Rightarrow> err + bytes" where
  "tradeIntentPreimage intent = EncodeFields
     [(''kind'', VString ''trade_intent''),
      (''party'', VBytes (NodeID_Bytes (ti_Party intent))),
      (''seller'', VBytes (NodeID_Bytes (ti_Seller intent))),
      (''buyer'', VBytes (NodeID_Bytes (ti_Buyer intent))),
      (''sell_unit'', VBytes (hashBytes (unit_hash (ti_SellUnit intent)))),
      (''buy_unit'', VBytes (hashBytes (unit_hash (ti_BuyUnit intent)))),
      (''sell_amount'', VInt (ti_SellAmount intent)),
      (''buy_amount'', VInt (ti_BuyAmount intent)),
      (''timestamp'', VInt (ti_Timestamp intent))]"

definition TradeIntentID :: "'x env_scheme \<Rightarrow> TradeIntent \<Rightarrow> err + TxID" where
  "TradeIntentID E intent = attempt (tradeIntentPreimage intent) (\<lambda>p. Inr (TxID (HashBytes E p)))"

definition validateTradeIntent :: "TradeIntent \<Rightarrow> err + unit" where
  "validateTradeIntent intent =
     guard (ti_Timestamp intent \<le>s 0) (errorf ''intent timestamp must be greater than zero'')
     (Inr ())"

definition SignTradeIntent ::
    "'x env_scheme \<Rightarrow> PrivateKey \<Rightarrow> TradeIntent \<Rightarrow> err + SignedTradeIntent" where
  "SignTradeIntent E priv intent =
     guard (length priv \<noteq> 64)
       (errorfs [''invalid private key length: got '', dec_nat (length priv), '', want 64''])
     (attempt (validateTradeIntent intent) (\<lambda>_.
     let pub = ed25519_Public priv in
     guard (length pub \<noteq> 32) (errorf ''invalid private key public component'')
     (attempt (NodeIDFromPublicKey pub) (\<lambda>nodeID.
     guard (nodeID \<noteq> ti_Party intent) (errorf ''intent party does not match private key'')
     (attempt (tradeIntentPreimage intent) (\<lambda>preimage.
     attempt (Sign E priv preimage) (\<lambda>sig.
     Inr \<lparr>si_Intent = intent, si_PublicKey = pub, si_Signature = sig\<rparr>)))))))"

definition VerifyTradeIntent :: "'x env_scheme \<Rightarrow> SignedTradeIntent \<Rightarrow> bool" where
  "VerifyTradeIntent E s = (case validateTradeIntent (si_Intent s) of
     Inl _ \<Rightarrow> False
   | Inr _ \<Rightarrow> (case NodeIDFromPublicKey (si_PublicKey s) of
       Inl _ \<Rightarrow> False
     | Inr nodeID \<Rightarrow>
         if nodeID \<noteq> ti_Party (si_Intent s) then False
         else (case tradeIntentPreimage (si_Intent s) of
             Inl _ \<Rightarrow> False
           | Inr preimage \<Rightarrow> Verify E (si_PublicKey s) preimage (si_Signature s))))"

definition signQuoteLocked ::
    "'x env_scheme \<Rightarrow> Node \<Rightarrow> Quote \<Rightarrow> (err + SignedTradeIntent) \<times> Node" where
  "signQuoteLocked E n0 q =
     (let n = node_init n0 in
      if \<not> q_Executable q then (Inl (quoteExecutionError q), n)
      else if n_ID n \<noteq> q_Seller q \<and> n_ID n \<noteq> q_Buyer q
      then (Inl (errorf ''node is not a quote party''), n)
      else if n_PrivateKey n = [] then (Inl (errorf ''node has no private key''), n)
      else if q_Timestamp q \<le>s 0 then (Inl (errorf ''quote timestamp must be greater than zero''), n)
      else
        let (accepted, n) = acceptQuoteLocked E n q in
        if \<not> accepted then (Inl (errorf ''node no longer accepts quote''), n)
        else (SignTradeIntent E (n_PrivateKey n) (IntentFromQuote q (n_ID n) (q_Timestamp q)), n))"

definition SignQuote :: "'x env_scheme \<Rightarrow> Node \<Rightarrow> Quote \<Rightarrow> (err + SignedTradeIntent) \<times> Node" where
  "SignQuote E n q = signQuoteLocked E n q"

definition VerifySignedIntent :: "'x env_scheme \<Rightarrow> Node \<Rightarrow> SignedTradeIntent \<Rightarrow> bool" where
  "VerifySignedIntent E n s = VerifyTradeIntent E s"

definition authorizedPreimage :: "TxID \<Rightarrow> TxID \<Rightarrow> TxID \<Rightarrow> AuthorizedTradeTx \<Rightarrow> err + bytes" where
  "authorizedPreimage txID sellerID buyerID auth = EncodeFields
     [(''kind'', VString ''authorized_trade_tx''),
      (''tx_id'', VBytes (hashBytes (tx_hash txID))),
      (''seller_intent_id'', VBytes (hashBytes (tx_hash sellerID))),
      (''buyer_intent_id'', VBytes (hashBytes (tx_hash buyerID))),
      (''seller_public_key'', VBytes (si_PublicKey (at_SellerAuth auth))),
      (''buyer_public_key'', VBytes (si_PublicKey (at_BuyerAuth auth))),
      (''seller_signature'', VBytes (si_Signature (at_SellerAuth auth))),
      (''buyer_signature'', VBytes (si_Signature (at_BuyerAuth auth)))]"

definition AuthorizedTradeID :: "'x env_scheme \<Rightarrow> AuthorizedTradeTx \<Rightarrow> err + TxID" where
  "AuthorizedTradeID E auth =
     attempt (TradeTxID E (at_Tx auth)) (\<lambda>txID.
     attempt (TradeIntentID E (si_Intent (at_SellerAuth auth))) (\<lambda>sellerID.
     attempt (TradeIntentID E (si_Intent (at_BuyerAuth auth))) (\<lambda>buyerID.
     attempt (authorizedPreimage txID sellerID buyerID auth) (\<lambda>preimage.
     Inr (TxID (HashBytes E preimage))))))"

definition intentMatchesQuote :: "TradeIntent \<Rightarrow> Quote \<Rightarrow> NodeID \<Rightarrow> bool" where
  "intentMatchesQuote intent q party \<longleftrightarrow>
     ti_Party intent = party \<and> ti_Seller intent = q_Seller q \<and> ti_Buyer intent = q_Buyer q
     \<and> ti_SellUnit intent = q_SellUnit q \<and> ti_BuyUnit intent = q_BuyUnit q
     \<and> ti_SellAmount intent = q_SellAmount q \<and> ti_BuyAmount intent = q_BuyAmount q
     \<and> ti_Timestamp intent = q_Timestamp q"

definition economicTermsMatch :: "TradeIntent \<Rightarrow> TradeIntent \<Rightarrow> bool" where
  "economicTermsMatch a b \<longleftrightarrow>
     ti_Seller a = ti_Seller b \<and> ti_Buyer a = ti_Buyer b
     \<and> ti_SellUnit a = ti_SellUnit b \<and> ti_BuyUnit a = ti_BuyUnit b
     \<and> ti_SellAmount a = ti_SellAmount b \<and> ti_BuyAmount a = ti_BuyAmount b
     \<and> ti_Timestamp a = ti_Timestamp b"

definition publicKeyMatchesNode :: "PublicKey \<Rightarrow> NodeID \<Rightarrow> bool" where
  "publicKeyMatchesNode pub nid \<longleftrightarrow> NodeIDFromPublicKey pub = Inr nid"

definition samePublicKey :: "PublicKey \<Rightarrow> PublicKey \<Rightarrow> bool" where
  "samePublicKey a b \<longleftrightarrow> a = b"

section \<open>Preimages\<close>

lemma tradeIntentPreimage_total: "\<exists>p. tradeIntentPreimage i = Inr p"
  by (simp add: tradeIntentPreimage_def EncodeFields_def)

lemma tradeIntentPreimage_inj:
  assumes "tradeIntentPreimage a = Inr p" "tradeIntentPreimage b = Inr p"
  shows "a = b"
proof -
  from EncodeFields_inj [OF assms [unfolded tradeIntentPreimage_def]]
  show ?thesis by (simp add: fields_fit_def fields_norm_def)
qed

lemma authorizedPreimage_total: "\<exists>p. authorizedPreimage t s b auth = Inr p"
  by (simp add: authorizedPreimage_def EncodeFields_def)

definition authFits :: "AuthorizedTradeTx \<Rightarrow> bool" where
  "authFits auth \<longleftrightarrow> length (si_PublicKey (at_SellerAuth auth)) < 2 ^ 64
     \<and> length (si_PublicKey (at_BuyerAuth auth)) < 2 ^ 64
     \<and> length (si_Signature (at_SellerAuth auth)) < 2 ^ 64
     \<and> length (si_Signature (at_BuyerAuth auth)) < 2 ^ 64 \<and> tradeFits (at_Tx auth)"

lemma authorizedPreimage_inj:
  assumes "authorizedPreimage t s b x = Inr p" "authorizedPreimage t' s' b' y = Inr p" "authFits x" "authFits y"
  shows "t = t' \<and> s = s' \<and> b = b'
    \<and> si_PublicKey (at_SellerAuth x) = si_PublicKey (at_SellerAuth y)
    \<and> si_PublicKey (at_BuyerAuth x) = si_PublicKey (at_BuyerAuth y)
    \<and> si_Signature (at_SellerAuth x) = si_Signature (at_SellerAuth y)
    \<and> si_Signature (at_BuyerAuth x) = si_Signature (at_BuyerAuth y)"
proof -
  from EncodeFields_inj [OF assms(1,2) [unfolded authorizedPreimage_def]] assms(3,4)
  show ?thesis by (simp add: fields_fit_def fields_norm_def authFits_def)
qed

lemma AuthorizedTradeID_total: "\<exists>i. AuthorizedTradeID E auth = Inr i"
proof -
  obtain p where "tradePreimage (at_Tx auth) = Inr p" using tradePreimage_total by blast
  moreover obtain s where "tradeIntentPreimage (si_Intent (at_SellerAuth auth)) = Inr s"
    using tradeIntentPreimage_total by blast
  moreover obtain b where "tradeIntentPreimage (si_Intent (at_BuyerAuth auth)) = Inr b"
    using tradeIntentPreimage_total by blast
  ultimately show ?thesis
    using authorizedPreimage_total
    by (simp add: AuthorizedTradeID_def TradeTxID_def TradeIntentID_def)
qed

text \<open>
  The byte strings that are hashed on the way to the identifier of an authorized trade. Statements
  about identifiers assume that the hash tells apart the byte strings at hand, never that it is
  injective everywhere.
\<close>

definition authPreimages :: "'x env_scheme \<Rightarrow> AuthorizedTradeTx \<Rightarrow> bytes list" where
  "authPreimages E auth =
     (let t = projr (tradePreimage (at_Tx auth));
          s = projr (tradeIntentPreimage (si_Intent (at_SellerAuth auth)));
          b = projr (tradeIntentPreimage (si_Intent (at_BuyerAuth auth)))
      in [t, s, b, projr (authorizedPreimage (TxID (HashBytes E t)) (TxID (HashBytes E s))
             (TxID (HashBytes E b)) auth)])"

text \<open>
  The replay identifier commits to the whole authorized trade: two authorized trades with one
  identifier are the same.
\<close>

lemma AuthorizedTradeID_commits:
  assumes "AuthorizedTradeID E x = Inr i" "AuthorizedTradeID E y = Inr i" "authFits x" "authFits y"
    and inj: "inj_on (HashBytes E) (set (authPreimages E x) \<union> set (authPreimages E y))"
  shows "tradeContent (at_Tx x) = tradeContent (at_Tx y) \<and> at_SellerAuth x = at_SellerAuth y
    \<and> at_BuyerAuth x = at_BuyerAuth y"
proof -
  from assms(1) obtain t s b p where x: "tradePreimage (at_Tx x) = Inr t"
    "tradeIntentPreimage (si_Intent (at_SellerAuth x)) = Inr s"
    "tradeIntentPreimage (si_Intent (at_BuyerAuth x)) = Inr b"
    "authorizedPreimage (TxID (HashBytes E t)) (TxID (HashBytes E s)) (TxID (HashBytes E b)) x = Inr p"
    "i = TxID (HashBytes E p)"
    by (auto simp: AuthorizedTradeID_def TradeTxID_def TradeIntentID_def)
  from assms(2) obtain t' s' b' p' where y: "tradePreimage (at_Tx y) = Inr t'"
    "tradeIntentPreimage (si_Intent (at_SellerAuth y)) = Inr s'"
    "tradeIntentPreimage (si_Intent (at_BuyerAuth y)) = Inr b'"
    "authorizedPreimage (TxID (HashBytes E t')) (TxID (HashBytes E s')) (TxID (HashBytes E b')) y = Inr p'"
    "i = TxID (HashBytes E p')"
    by (auto simp: AuthorizedTradeID_def TradeTxID_def TradeIntentID_def)
  have inj': "inj_on (HashBytes E) {t, s, b, p, t', s', b', p'}"
    using inj by (rule inj_on_subset) (simp add: authPreimages_def Let_def x(1-4) y(1-4))
  have "p' = p" using x(5) y(5) by (intro inj_onD [OF inj']) simp_all
  note a = authorizedPreimage_inj [OF x(4) y(4) [unfolded this] assms(3,4)]
  then have h: "t = t'" "s = s'" "b = b'" by (auto intro: inj_onD [OF inj'])
  have "tradeContent (at_Tx x) = tradeContent (at_Tx y)"
    using tradePreimage_inj [OF x(1) y(1) [folded h(1)]] assms(3,4) by (simp add: authFits_def)
  moreover have "si_Intent (at_SellerAuth x) = si_Intent (at_SellerAuth y)"
    using tradeIntentPreimage_inj [OF x(2) y(2) [folded h(2)]] .
  moreover have "si_Intent (at_BuyerAuth x) = si_Intent (at_BuyerAuth y)"
    using tradeIntentPreimage_inj [OF x(3) y(3) [folded h(3)]] .
  ultimately show ?thesis using a by simp
qed

section \<open>Signing and verifying\<close>

lemma validateTradeIntent_Inr [simp]: "validateTradeIntent i = Inr u \<longleftrightarrow> 0 < sint (ti_Timestamp i)"
  by (auto simp: validateTradeIntent_def word_sle_eq not_le)

lemma VerifyTradeIntent_iff:
  "VerifyTradeIntent E s \<longleftrightarrow> 0 < sint (ti_Timestamp (si_Intent s)) \<and> length (si_PublicKey s) = 32
     \<and> NodeID_PublicKey (ti_Party (si_Intent s)) = si_PublicKey s
     \<and> (\<exists>p. tradeIntentPreimage (si_Intent s) = Inr p \<and> Verify E (si_PublicKey s) p (si_Signature s))"
proof -
  obtain p where p: "tradeIntentPreimage (si_Intent s) = Inr p" using tradeIntentPreimage_total by blast
  show ?thesis
  proof (cases "0 < sint (ti_Timestamp (si_Intent s)) \<and> length (si_PublicKey s) = 32")
    case True
    then have "NodeIDFromPublicKey (si_PublicKey s) = Inr (NodeID (hashOf (si_PublicKey s)))"
      using True by (simp add: NodeIDFromPublicKey_def)
    moreover have "NodeID (hashOf (si_PublicKey s)) = ti_Party (si_Intent s)
        \<longleftrightarrow> NodeID_PublicKey (ti_Party (si_Intent s)) = si_PublicKey s"
      using True NodeIDFromPublicKey_Inr [of "si_PublicKey s" "ti_Party (si_Intent s)"] calculation by simp
    ultimately show ?thesis using True
      by (simp add: VerifyTradeIntent_def p validateTradeIntent_def guard_def word_sle_eq)
  next
    case False
    then show ?thesis
      by (auto simp: VerifyTradeIntent_def validateTradeIntent_def NodeIDFromPublicKey_def guard_def word_sle_eq)
  qed
qed

lemma SignTradeIntent_Inr:
  assumes "SignTradeIntent E priv i = Inr s"
  shows "length priv = 64 \<and> si_Intent s = i \<and> si_PublicKey s = ed25519_Public priv \<and> 0 < sint (ti_Timestamp i)
    \<and> NodeID_PublicKey (ti_Party i) = ed25519_Public priv
    \<and> (\<exists>p. tradeIntentPreimage i = Inr p \<and> Sign E priv p = Inr (si_Signature s))"
  using assms by (auto simp: SignTradeIntent_def Let_def NodeIDFromPublicKey_Inr)

lemma SignTradeIntent_verifies:
  assumes "SignTradeIntent E priv i = Inr s" "signs_verify E priv"
  shows "VerifyTradeIntent E s"
proof -
  from SignTradeIntent_Inr [OF assms(1)] obtain p where
    s: "length priv = 64" "si_Intent s = i" "si_PublicKey s = ed25519_Public priv" "0 < sint (ti_Timestamp i)"
    "NodeID_PublicKey (ti_Party i) = ed25519_Public priv" "tradeIntentPreimage i = Inr p"
    "Sign E priv p = Inr (si_Signature s)" by blast
  have "Verify E (ed25519_Public priv) p (si_Signature s)" by (rule Verify_Sign [OF s(7) assms(2)])
  then show ?thesis using s by (simp add: VerifyTradeIntent_iff ed25519_Public_def)
qed

lemma signQuote_intent:
  assumes "SignQuote E n q = (Inr s, n')"
  shows "q_Executable q" "n_ID n = q_Seller q \<or> n_ID n = q_Buyer q" "0 < sint (q_Timestamp q)"
    and "fst (acceptQuoteLocked E n q)" "intentMatchesQuote (si_Intent s) q (n_ID n)"
    and "SignTradeIntent E (n_PrivateKey n) (IntentFromQuote q (n_ID n) (q_Timestamp q)) = Inr s"
proof -
  have i: "acceptQuoteLocked E (node_init n) q = acceptQuoteLocked E n q"
    by (simp add: acceptQuoteLocked_def)
  have f: "n_ID (snd (acceptQuoteLocked E n q)) = n_ID n" "n_PrivateKey (snd (acceptQuoteLocked E n q)) = n_PrivateKey n"
    by (simp_all add: acceptQuoteLocked_def Let_def effectivePriceLocked_eq)
  have s: "q_Executable q" "n_ID n = q_Seller q \<or> n_ID n = q_Buyer q" "\<not> q_Timestamp q \<le>s 0"
    "fst (acceptQuoteLocked E n q)"
    "SignTradeIntent E (n_PrivateKey n) (IntentFromQuote q (n_ID n) (q_Timestamp q)) = Inr s"
    using assms f by (auto simp: SignQuote_def signQuoteLocked_def Let_def i split: if_splits prod.splits)
  then show "q_Executable q" "n_ID n = q_Seller q \<or> n_ID n = q_Buyer q" "0 < sint (q_Timestamp q)"
    "fst (acceptQuoteLocked E n q)"
    "SignTradeIntent E (n_PrivateKey n) (IntentFromQuote q (n_ID n) (q_Timestamp q)) = Inr s"
    by (auto simp: word_sle_eq not_le)
  show "intentMatchesQuote (si_Intent s) q (n_ID n)"
    using SignTradeIntent_Inr [OF s(5)] by (simp add: IntentFromQuote_def intentMatchesQuote_def)
qed

end
