(* ===== verification/Message.thy ===== *)
theory Message
  imports Intent
begin

text \<open>
  \<open>core/message\<close>: the messages of the protocol, signed envelopes around payloads.

  The text that \<open>encoding/json\<close> writes for a value, and how it reads one, are functions of the
  environment: \<open>json_Marshal\<close> gives the bytes of a payload, of the frame around a payload or of a
  whole message, and \<open>json_Decode\<close> is one call of \<open>Decoder.Decode\<close> with unknown fields disallowed,
  for a target of the given shape; it returns the value and the bytes that are left. What is relied
  on is stated as \<open>json_reads\<close>, for the values at hand. A payload is one of the Go types; \<open>OtherP\<close>
  stands for a value of any other type. A nil slice and an empty one are the same list here.
\<close>

section \<open>Types\<close>

type_synonym MessageType = string
type_synonym nonce = "192 word"

definition TypeHello :: MessageType where "TypeHello = ''HELLO''"
definition TypeQuoteRequest :: MessageType where "TypeQuoteRequest = ''QUOTE_REQUEST''"
definition TypeQuoteResponse :: MessageType where "TypeQuoteResponse = ''QUOTE_RESPONSE''"
definition TypeSignedIntent :: MessageType where "TypeSignedIntent = ''SIGNED_INTENT''"
definition TypeAuthorizedTrade :: MessageType where "TypeAuthorizedTrade = ''AUTHORIZED_TRADE''"
definition TypeTradeResult :: MessageType where "TypeTradeResult = ''TRADE_RESULT''"
definition TypeReject :: MessageType where "TypeReject = ''REJECT''"
definition TypePing :: MessageType where "TypePing = ''PING''"
definition TypePong :: MessageType where "TypePong = ''PONG''"

lemmas type_defs = TypeHello_def TypeQuoteRequest_def TypeQuoteResponse_def TypeSignedIntent_def
  TypeAuthorizedTrade_def TypeTradeResult_def TypeReject_def TypePing_def TypePong_def

lemma types_differ [simp]:
  "TypeHello \<noteq> TypeQuoteRequest" "TypeHello \<noteq> TypeQuoteResponse" "TypeHello \<noteq> TypeSignedIntent" "TypeHello \<noteq> TypeAuthorizedTrade"
  "TypeHello \<noteq> TypeTradeResult" "TypeHello \<noteq> TypeReject" "TypeHello \<noteq> TypePing" "TypeHello \<noteq> TypePong"
  "TypeQuoteRequest \<noteq> TypeHello" "TypeQuoteRequest \<noteq> TypeQuoteResponse" "TypeQuoteRequest \<noteq> TypeSignedIntent" "TypeQuoteRequest \<noteq> TypeAuthorizedTrade"
  "TypeQuoteRequest \<noteq> TypeTradeResult" "TypeQuoteRequest \<noteq> TypeReject" "TypeQuoteRequest \<noteq> TypePing" "TypeQuoteRequest \<noteq> TypePong"
  "TypeQuoteResponse \<noteq> TypeHello" "TypeQuoteResponse \<noteq> TypeQuoteRequest" "TypeQuoteResponse \<noteq> TypeSignedIntent" "TypeQuoteResponse \<noteq> TypeAuthorizedTrade"
  "TypeQuoteResponse \<noteq> TypeTradeResult" "TypeQuoteResponse \<noteq> TypeReject" "TypeQuoteResponse \<noteq> TypePing" "TypeQuoteResponse \<noteq> TypePong"
  "TypeSignedIntent \<noteq> TypeHello" "TypeSignedIntent \<noteq> TypeQuoteRequest" "TypeSignedIntent \<noteq> TypeQuoteResponse" "TypeSignedIntent \<noteq> TypeAuthorizedTrade"
  "TypeSignedIntent \<noteq> TypeTradeResult" "TypeSignedIntent \<noteq> TypeReject" "TypeSignedIntent \<noteq> TypePing" "TypeSignedIntent \<noteq> TypePong"
  "TypeAuthorizedTrade \<noteq> TypeHello" "TypeAuthorizedTrade \<noteq> TypeQuoteRequest" "TypeAuthorizedTrade \<noteq> TypeQuoteResponse" "TypeAuthorizedTrade \<noteq> TypeSignedIntent"
  "TypeAuthorizedTrade \<noteq> TypeTradeResult" "TypeAuthorizedTrade \<noteq> TypeReject" "TypeAuthorizedTrade \<noteq> TypePing" "TypeAuthorizedTrade \<noteq> TypePong"
  "TypeTradeResult \<noteq> TypeHello" "TypeTradeResult \<noteq> TypeQuoteRequest" "TypeTradeResult \<noteq> TypeQuoteResponse" "TypeTradeResult \<noteq> TypeSignedIntent"
  "TypeTradeResult \<noteq> TypeAuthorizedTrade" "TypeTradeResult \<noteq> TypeReject" "TypeTradeResult \<noteq> TypePing" "TypeTradeResult \<noteq> TypePong"
  "TypeReject \<noteq> TypeHello" "TypeReject \<noteq> TypeQuoteRequest" "TypeReject \<noteq> TypeQuoteResponse" "TypeReject \<noteq> TypeSignedIntent"
  "TypeReject \<noteq> TypeAuthorizedTrade" "TypeReject \<noteq> TypeTradeResult" "TypeReject \<noteq> TypePing" "TypeReject \<noteq> TypePong"
  "TypePing \<noteq> TypeHello" "TypePing \<noteq> TypeQuoteRequest" "TypePing \<noteq> TypeQuoteResponse" "TypePing \<noteq> TypeSignedIntent"
  "TypePing \<noteq> TypeAuthorizedTrade" "TypePing \<noteq> TypeTradeResult" "TypePing \<noteq> TypeReject" "TypePing \<noteq> TypePong"
  "TypePong \<noteq> TypeHello" "TypePong \<noteq> TypeQuoteRequest" "TypePong \<noteq> TypeQuoteResponse" "TypePong \<noteq> TypeSignedIntent"
  "TypePong \<noteq> TypeAuthorizedTrade" "TypePong \<noteq> TypeTradeResult" "TypePong \<noteq> TypeReject" "TypePong \<noteq> TypePing"
  by (simp_all add: type_defs)

definition IsValidMessageType :: "MessageType \<Rightarrow> bool" where
  "IsValidMessageType t \<longleftrightarrow> t \<in> {TypeHello, TypeQuoteRequest, TypeQuoteResponse, TypeSignedIntent,
     TypeAuthorizedTrade, TypeTradeResult, TypeReject, TypePing, TypePong}"

record HelloPayload =
  he_NodeID :: NodeID
  he_PublicKey :: PublicKey
  he_SupportedVersions :: "uint16 list"
  he_Features :: "string list"

record QuoteRequestPayload =
  qr_RequestID :: TxID
  qr_Seller :: NodeID
  qr_Buyer :: NodeID
  qr_SellUnit :: UnitID
  qr_BuyUnit :: UnitID
  qr_SellAmount :: amount
  qr_SpreadLimit :: float64
  qr_ExpiryUnix :: int64

record QuoteResponsePayload =
  qp_RequestID :: TxID
  qp_QuoteID :: TxID
  qp_Seller :: NodeID
  qp_Buyer :: NodeID
  qp_SellUnit :: UnitID
  qp_BuyUnit :: UnitID
  qp_SellAmount :: amount
  qp_BuyAmount :: amount
  qp_SellerAsk :: float64
  qp_BuyerBid :: float64
  qp_Executable :: bool
  qp_Reason :: string
  qp_ExpiryUnix :: int64

record SignedIntentPayload =
  sp_QuoteID :: TxID
  sp_Intent :: SignedTradeIntent

record AuthorizedTradePayload =
  ap_AuthorizedTrade :: AuthorizedTradeTx
  ap_AuthorizedTradeID :: TxID

record TradeResultPayload =
  rp_AuthorizedTradeID :: TxID
  rp_Status :: string
  rp_Reason :: string

record RejectPayload =
  jp_RefMessageID :: TxID
  jp_Code :: string
  jp_Reason :: string

record PingPayload =
  pi_TimeUnix :: int64

record PongPayload =
  po_PingTimeUnix :: int64
  po_TimeUnix :: int64

datatype Payload =
    HelloP HelloPayload
  | QuoteRequestP QuoteRequestPayload
  | QuoteResponseP QuoteResponsePayload
  | SignedIntentP SignedIntentPayload
  | AuthorizedTradeP AuthorizedTradePayload
  | TradeResultP TradeResultPayload
  | RejectP RejectPayload
  | PingP PingPayload
  | PongP PongPayload
  | OtherP

record Envelope =
  e_Version :: uint16
  e_Type :: MessageType
  e_MessageID :: TxID
  e_Sender :: NodeID
  e_Timestamp :: int64
  e_Nonce :: nonce
  e_PayloadHash :: hash
  e_Signature :: Signature

record Message =
  m_Envelope :: Envelope
  m_PayloadBytes :: bytes

section \<open>JSON\<close>

datatype json = PayloadJ Payload | PayloadFrameJ MessageType bytes | MessageFrameJ Envelope bytes

datatype shape = PayloadS MessageType | PayloadFrameS | MessageFrameS

record jenv = env +
  json_Marshal :: "json \<Rightarrow> err + bytes"
  json_Decode :: "shape \<Rightarrow> bytes \<Rightarrow> err + json \<times> bytes"
  json_AtEOF :: "bytes \<Rightarrow> bool"

definition decodeStrict :: "'x jenv_scheme \<Rightarrow> bytes \<Rightarrow> shape \<Rightarrow> err + json" where
  "decodeStrict E data s =
     attempt (json_Decode E s data) (\<lambda>(out, rest).
     guard (\<not> json_AtEOF E rest) (errorf ''unexpected trailing data'')
     (Inr out))"

section \<open>Payloads\<close>

definition MaxMessageBytes :: nat where "MaxMessageBytes = 2 ^ 20"

definition sortedStrings :: "string list \<Rightarrow> string list" where
  "sortedStrings xs = sort xs"

definition normalizePayload :: "MessageType \<Rightarrow> Payload \<Rightarrow> err + Payload" where
  "normalizePayload t payload =
     (if t = TypeHello then (case payload of
        HelloP p \<Rightarrow> Inr (HelloP (p\<lparr>he_Features := sortedStrings (he_Features p)\<rparr>))
      | _ \<Rightarrow> Inl (errorf ''HELLO requires HelloPayload''))
      else if t = TypeQuoteRequest then (case payload of
        QuoteRequestP p \<Rightarrow> Inr payload | _ \<Rightarrow> Inl (errorf ''QUOTE_REQUEST requires QuoteRequestPayload''))
      else if t = TypeQuoteResponse then (case payload of
        QuoteResponseP p \<Rightarrow> Inr payload | _ \<Rightarrow> Inl (errorf ''QUOTE_RESPONSE requires QuoteResponsePayload''))
      else if t = TypeSignedIntent then (case payload of
        SignedIntentP p \<Rightarrow> Inr payload | _ \<Rightarrow> Inl (errorf ''SIGNED_INTENT requires SignedIntentPayload''))
      else if t = TypeAuthorizedTrade then (case payload of
        AuthorizedTradeP p \<Rightarrow> Inr payload | _ \<Rightarrow> Inl (errorf ''AUTHORIZED_TRADE requires AuthorizedTradePayload''))
      else if t = TypeTradeResult then (case payload of
        TradeResultP p \<Rightarrow> Inr payload | _ \<Rightarrow> Inl (errorf ''TRADE_RESULT requires TradeResultPayload''))
      else if t = TypeReject then (case payload of
        RejectP p \<Rightarrow> Inr payload | _ \<Rightarrow> Inl (errorf ''REJECT requires RejectPayload''))
      else if t = TypePing then (case payload of
        PingP p \<Rightarrow> Inr payload | _ \<Rightarrow> Inl (errorf ''PING requires PingPayload''))
      else if t = TypePong then (case payload of
        PongP p \<Rightarrow> Inr payload | _ \<Rightarrow> Inl (errorf ''PONG requires PongPayload''))
      else Inl (errorfs [''invalid message type '', go_quote t]))"

definition EncodePayload :: "'x jenv_scheme \<Rightarrow> MessageType \<Rightarrow> Payload \<Rightarrow> err + bytes" where
  "EncodePayload E t payload =
     guard (\<not> IsValidMessageType t) (errorfs [''invalid message type '', go_quote t])
     (attempt (normalizePayload t payload) (\<lambda>normalized.
     attempt (json_Marshal E (PayloadJ normalized)) (\<lambda>payloadBytes.
     json_Marshal E (PayloadFrameJ t payloadBytes))))"

text \<open>A decoded payload, from the JSON value of the shape asked for; only features are sorted.\<close>

definition payloadOf :: "json \<Rightarrow> Payload" where
  "payloadOf x = (case x of
     PayloadJ (HelloP p) \<Rightarrow> HelloP (p\<lparr>he_Features := sortedStrings (he_Features p)\<rparr>)
   | PayloadJ p \<Rightarrow> p
   | _ \<Rightarrow> OtherP)"

definition DecodePayload :: "'x jenv_scheme \<Rightarrow> MessageType \<Rightarrow> bytes \<Rightarrow> err + Payload" where
  "DecodePayload E t data =
     guard (\<not> IsValidMessageType t) (errorfs [''invalid message type '', go_quote t])
     (guard (data = []) (errorf ''payload bytes are required'')
     (attempt (map_err (wrap_err ''decode payload frame'') (decodeStrict E data PayloadFrameS)) (\<lambda>frame.
     let (frameType, body) = (case frame of PayloadFrameJ ft b \<Rightarrow> (ft, b) | _ \<Rightarrow> ('''', [])) in
     guard (frameType \<noteq> t) (errorfs [''payload type '', go_quote frameType, '' does not match '', go_quote t])
     (guard (body = []) (errorf ''payload body is required'')
     (attempt (decodeStrict E body (PayloadS t)) (\<lambda>x. Inr (payloadOf x)))))))"

definition PayloadHash :: "'x jenv_scheme \<Rightarrow> MessageType \<Rightarrow> Payload \<Rightarrow> err + hash" where
  "PayloadHash E t payload = attempt (EncodePayload E t payload) (\<lambda>encoded. Inr (HashBytes E encoded))"

definition EncodeMessage :: "'x jenv_scheme \<Rightarrow> Message \<Rightarrow> err + bytes" where
  "EncodeMessage E msg =
     guard (MaxMessageBytes < length (m_PayloadBytes msg)) (errorf ''message exceeds max size'')
     (attempt (json_Marshal E (MessageFrameJ (m_Envelope msg) (m_PayloadBytes msg))) (\<lambda>encoded.
     guard (MaxMessageBytes < length encoded) (errorf ''message exceeds max size'')
     (Inr encoded)))"

definition DecodeMessage :: "'x jenv_scheme \<Rightarrow> bytes \<Rightarrow> err + Message" where
  "DecodeMessage E data =
     guard (data = []) (errorf ''message bytes are required'')
     (guard (MaxMessageBytes < length data) (errorf ''message exceeds max size'')
     (attempt (map_err (wrap_err ''decode message'') (decodeStrict E data MessageFrameS)) (\<lambda>frame.
     case frame of
       MessageFrameJ env payload \<Rightarrow>
         guard (payload = []) (errorf ''payload bytes are required'')
         (Inr \<lparr>m_Envelope = env, m_PayloadBytes = payload\<rparr>)
     | _ \<Rightarrow> Inl (errorf ''payload bytes are required''))))"

section \<open>Envelopes\<close>

definition CurrentVersion :: uint16 where "CurrentVersion = 1"

definition nonceBytes :: "nonce \<Rightarrow> bytes" where
  "nonceBytes n = be_bytes 24 (unat n)"

definition isZeroNonce :: "nonce \<Rightarrow> bool" where
  "isZeroNonce n \<longleftrightarrow> n = 0"

definition EnvelopePreimage :: "Envelope \<Rightarrow> err + bytes" where
  "EnvelopePreimage env = EncodeFields
     [(''kind'', VString ''message_envelope''),
      (''version'', VUint (ucast (e_Version env))),
      (''type'', VString (e_Type env)),
      (''message_id'', VBytes (hashBytes (tx_hash (e_MessageID env)))),
      (''sender'', VBytes (NodeID_Bytes (e_Sender env))),
      (''timestamp'', VInt (e_Timestamp env)),
      (''nonce'', VBytes (nonceBytes (e_Nonce env))),
      (''payload_hash'', VBytes (hashBytes (e_PayloadHash env)))]"

definition messageIDPreimage ::
    "uint16 \<Rightarrow> MessageType \<Rightarrow> NodeID \<Rightarrow> int64 \<Rightarrow> nonce \<Rightarrow> hash \<Rightarrow> err + bytes" where
  "messageIDPreimage version msgType sender timestamp nonce payloadHash = EncodeFields
     [(''kind'', VString ''message_id''),
      (''version'', VUint (ucast version)),
      (''type'', VString msgType),
      (''sender'', VBytes (NodeID_Bytes sender)),
      (''timestamp'', VInt timestamp),
      (''nonce'', VBytes (nonceBytes nonce)),
      (''payload_hash'', VBytes (hashBytes payloadHash))]"

definition MessageID ::
    "'x env_scheme \<Rightarrow> uint16 \<Rightarrow> MessageType \<Rightarrow> NodeID \<Rightarrow> int64 \<Rightarrow> nonce \<Rightarrow> hash \<Rightarrow> err + TxID" where
  "MessageID E version msgType sender timestamp nonce payloadHash =
     guard (version = 0) (errorf ''version must be greater than zero'')
     (guard (\<not> IsValidMessageType msgType) (errorfs [''invalid message type '', go_quote msgType])
     (guard (timestamp \<le>s 0) (errorf ''timestamp must be greater than zero'')
     (guard (isZeroNonce nonce) (errorf ''nonce must not be zero'')
     (attempt (messageIDPreimage version msgType sender timestamp nonce payloadHash) (\<lambda>preimage.
     Inr (TxID (HashBytes E preimage)))))))"

definition SignEnvelope ::
    "'x jenv_scheme \<Rightarrow> PrivateKey \<Rightarrow> MessageType \<Rightarrow> Payload \<Rightarrow> int64 \<Rightarrow> nonce \<Rightarrow> err + Envelope \<times> bytes" where
  "SignEnvelope E priv msgType payload timestamp nonce =
     guard (\<not> IsValidMessageType msgType) (errorfs [''invalid message type '', go_quote msgType])
     (guard (timestamp \<le>s 0) (errorf ''timestamp must be greater than zero'')
     (guard (isZeroNonce nonce) (errorf ''nonce must not be zero'')
     (attempt (publicKeyFromPrivate priv) (\<lambda>pub.
     attempt (NodeIDFromPublicKey pub) (\<lambda>sender.
     attempt (EncodePayload E msgType payload) (\<lambda>payloadBytes.
     let payloadHash = HashBytes E payloadBytes in
     attempt (MessageID E CurrentVersion msgType sender timestamp nonce payloadHash) (\<lambda>msgID.
     let env = \<lparr>e_Version = CurrentVersion, e_Type = msgType, e_MessageID = msgID, e_Sender = sender,
                e_Timestamp = timestamp, e_Nonce = nonce, e_PayloadHash = payloadHash, e_Signature = []\<rparr> in
     attempt (EnvelopePreimage env) (\<lambda>preimage.
     attempt (Sign E priv preimage) (\<lambda>sig.
     Inr (env\<lparr>e_Signature := sig\<rparr>, payloadBytes))))))))))"

definition VerifyEnvelope :: "'x jenv_scheme \<Rightarrow> Envelope \<Rightarrow> bytes \<Rightarrow> PublicKey \<Rightarrow> err + unit" where
  "VerifyEnvelope E env payloadBytes pub =
     guard (e_Version env \<noteq> CurrentVersion)
       (errorfs [''unsupported message version '', dec_nat (unat (e_Version env))])
     (guard (\<not> IsValidMessageType (e_Type env)) (errorfs [''invalid message type '', go_quote (e_Type env)])
     (guard (e_Timestamp env \<le>s 0) (errorf ''timestamp must be greater than zero'')
     (guard (isZeroNonce (e_Nonce env)) (errorf ''nonce must not be zero'')
     (attempt (NodeIDFromPublicKey pub) (\<lambda>sender.
     guard (sender \<noteq> e_Sender env) (errorf ''sender does not match public key'')
     (attempt (map_err (wrap_err ''payload decode failed'') (DecodePayload E (e_Type env) payloadBytes)) (\<lambda>payload.
     attempt (map_err (wrap_err ''payload re-encode failed'') (EncodePayload E (e_Type env) payload)) (\<lambda>canonical.
     guard (payloadBytes \<noteq> canonical) (errorf ''payload bytes are not canonical'')
     (let payloadHash = HashBytes E payloadBytes in
     guard (e_PayloadHash env \<noteq> payloadHash) (errorf ''payload hash mismatch'')
     (attempt (MessageID E (e_Version env) (e_Type env) (e_Sender env) (e_Timestamp env) (e_Nonce env) (e_PayloadHash env))
       (\<lambda>expectedID.
     guard (expectedID \<noteq> e_MessageID env) (errorf ''message id mismatch'')
     (attempt (EnvelopePreimage env) (\<lambda>preimage.
     guard (\<not> Verify E pub preimage (e_Signature env)) (errorf ''invalid envelope signature'')
     (Inr ()))))))))))))))"

section \<open>Semantics\<close>

definition invalidPrice :: "float64 \<Rightarrow> bool" where
  "invalidPrice v \<longleftrightarrow> flt v (Fin 0) \<or> fisnan v \<or> fisinf v"

definition ValidatePayloadSemantics :: "'x env_scheme \<Rightarrow> MessageType \<Rightarrow> Payload \<Rightarrow> err + unit" where
  "ValidatePayloadSemantics E t payload =
     guard (\<not> IsValidMessageType t) (errorfs [''invalid message type '', go_quote t])
     (attempt (normalizePayload t payload) (\<lambda>normalized.
     case normalized of
       HelloP p \<Rightarrow>
         attempt (NodeIDFromPublicKey (he_PublicKey p)) (\<lambda>nodeID.
         guard (he_NodeID p \<noteq> nodeID) (errorf ''hello node id does not match public key'')
         (guard (he_SupportedVersions p = []) (errorf ''hello supported versions are required'')
         (guard (0 \<in> set (he_SupportedVersions p)) (errorf ''hello supported version must be greater than zero'')
         (Inr ()))))
     | QuoteRequestP p \<Rightarrow>
         guard (qr_RequestID p = TxID 0) (errorf ''quote request id is required'')
         (guard (qr_Seller p = NodeID 0 \<or> qr_Buyer p = NodeID 0) (errorf ''quote request parties are required'')
         (guard (qr_Seller p = qr_Buyer p) (errorf ''quote request parties must differ'')
         (guard (qr_SellAmount p \<le>s 0) (errorf ''quote request sell amount must be greater than zero'')
         (guard (flt (qr_SpreadLimit p) (Fin 0) \<or> fisnan (qr_SpreadLimit p) \<or> fisinf (qr_SpreadLimit p))
           (errorf ''quote request spread limit must be finite and non-negative'')
         (guard (qr_ExpiryUnix p <s 0) (errorf ''quote request expiry must be non-negative'')
         (Inr ()))))))
     | QuoteResponseP p \<Rightarrow>
         guard (qp_RequestID p = TxID 0) (errorf ''quote response request id is required'')
         (guard (qp_QuoteID p = TxID 0) (errorf ''quote response quote id is required'')
         (guard (qp_Seller p = NodeID 0 \<or> qp_Buyer p = NodeID 0) (errorf ''quote response parties are required'')
         (guard (qp_SellAmount p \<le>s 0) (errorf ''quote response sell amount must be greater than zero'')
         (guard (qp_Executable p \<and> qp_BuyAmount p \<le>s 0)
           (errorf ''executable quote response buy amount must be greater than zero'')
         (guard (invalidPrice (qp_SellerAsk p) \<or> invalidPrice (qp_BuyerBid p))
           (errorf ''quote response prices must be finite and non-negative'')
         (guard (qp_ExpiryUnix p <s 0) (errorf ''quote response expiry must be non-negative'')
         (Inr ())))))))
     | SignedIntentP p \<Rightarrow>
         guard (sp_QuoteID p = TxID 0) (errorf ''signed intent quote id is required'')
         (guard (\<not> VerifyTradeIntent E (sp_Intent p)) (errorf ''signed trade intent is invalid'')
         (Inr ()))
     | AuthorizedTradeP p \<Rightarrow>
         guard (ap_AuthorizedTradeID p = TxID 0) (errorf ''authorized trade id is required'')
         (attempt (AuthorizedTradeID E (ap_AuthorizedTrade p)) (\<lambda>i.
         guard (i \<noteq> ap_AuthorizedTradeID p) (errorf ''authorized trade id mismatch'')
         (Inr ())))
     | TradeResultP p \<Rightarrow>
         guard (rp_AuthorizedTradeID p = TxID 0) (errorf ''trade result authorized trade id is required'')
         (guard (rp_Status p \<notin> {''ACCEPTED'', ''REJECTED'', ''FAILED''})
           (errorfs [''unknown trade result status '', go_quote (rp_Status p)])
         (Inr ()))
     | RejectP p \<Rightarrow>
         guard (jp_RefMessageID p = TxID 0) (errorf ''reject reference message id is required'')
         (guard (jp_Code p = '''') (errorf ''reject code is required'')
         (Inr ()))
     | PingP p \<Rightarrow>
         guard (pi_TimeUnix p \<le>s 0) (errorf ''ping time must be greater than zero'') (Inr ())
     | PongP p \<Rightarrow>
         guard (po_PingTimeUnix p \<le>s 0 \<or> po_TimeUnix p \<le>s 0) (errorf ''pong times must be greater than zero'')
         (Inr ())
     | OtherP \<Rightarrow> Inl (errorf ''unsupported payload type'')))"

section \<open>What is signed is accepted\<close>

text \<open>The type that a payload is sent as, and the shape of the text of a value.\<close>

fun payload_type :: "Payload \<Rightarrow> MessageType" where
  "payload_type (HelloP _) = TypeHello"
| "payload_type (QuoteRequestP _) = TypeQuoteRequest"
| "payload_type (QuoteResponseP _) = TypeQuoteResponse"
| "payload_type (SignedIntentP _) = TypeSignedIntent"
| "payload_type (AuthorizedTradeP _) = TypeAuthorizedTrade"
| "payload_type (TradeResultP _) = TypeTradeResult"
| "payload_type (RejectP _) = TypeReject"
| "payload_type (PingP _) = TypePing"
| "payload_type (PongP _) = TypePong"
| "payload_type OtherP = ''''"

fun shape_of :: "json \<Rightarrow> shape" where
  "shape_of (PayloadJ p) = PayloadS (payload_type p)"
| "shape_of (PayloadFrameJ _ _) = PayloadFrameS"
| "shape_of (MessageFrameJ _ _) = MessageFrameS"

text \<open>JSON reads back what it wrote for one value.\<close>

definition json_reads :: "'x jenv_scheme \<Rightarrow> json \<Rightarrow> bool" where
  "json_reads E x \<longleftrightarrow> (\<forall>b. json_Marshal E x = Inr b \<longrightarrow>
     b \<noteq> [] \<and> json_AtEOF E [] \<and> json_Decode E (shape_of x) b = Inr (x, []))"

lemma json_reads_strict:
  "json_reads E (PayloadFrameJ t body) \<Longrightarrow> json_Marshal E (PayloadFrameJ t body) = Inr b \<Longrightarrow>
     b \<noteq> [] \<and> decodeStrict E b PayloadFrameS = Inr (PayloadFrameJ t body)"
  "json_reads E (MessageFrameJ e body) \<Longrightarrow> json_Marshal E (MessageFrameJ e body) = Inr b \<Longrightarrow>
     b \<noteq> [] \<and> decodeStrict E b MessageFrameS = Inr (MessageFrameJ e body)"
  by (auto simp: json_reads_def decodeStrict_def)

text \<open>A payload of the right type, in the form in which it is sent.\<close>

lemma normalizePayload_Inr:
  "normalizePayload t p = Inr q \<longleftrightarrow> t = payload_type p \<and> p \<noteq> OtherP \<and> q = payloadOf (PayloadJ p)"
proof (cases "t = payload_type p")
  case True
  then show ?thesis by (cases p) (auto simp: normalizePayload_def payloadOf_def type_defs)
next
  case False
  then have "\<nexists>q. normalizePayload t p = Inr q" by (cases p) (simp_all add: normalizePayload_def)
  then show ?thesis using False by simp
qed

lemma payload_type_valid: "p \<noteq> OtherP \<Longrightarrow> IsValidMessageType (payload_type p)"
  by (cases p) (simp_all add: IsValidMessageType_def)

lemma sortedStrings_idem: "sortedStrings (sortedStrings xs) = sortedStrings xs"
  unfolding sortedStrings_def by (rule sort_key_id_if_sorted) simp

lemma payloadOf_idem [simp]:
  "payloadOf (PayloadJ (payloadOf (PayloadJ p))) = payloadOf (PayloadJ p)"
  "payload_type (payloadOf (PayloadJ p)) = payload_type p" "payloadOf (PayloadJ p) = OtherP \<longleftrightarrow> p = OtherP"
  by (cases p; simp add: payloadOf_def sortedStrings_idem)+

lemma normalizePayload_idem: "normalizePayload t p = Inr q \<Longrightarrow> normalizePayload t q = Inr q \<and> payloadOf (PayloadJ q) = q"
  by (simp add: normalizePayload_Inr)

lemma json_reads_payload:
  assumes "normalizePayload t p = Inr q" "json_reads E (PayloadJ q)" "json_Marshal E (PayloadJ q) = Inr b"
  shows "b \<noteq> [] \<and> decodeStrict E b (PayloadS t) = Inr (PayloadJ q)"
  using assms by (simp add: normalizePayload_Inr json_reads_def decodeStrict_def)

definition payload_reads :: "'x jenv_scheme \<Rightarrow> MessageType \<Rightarrow> Payload \<Rightarrow> bool" where
  "payload_reads E t p \<longleftrightarrow> (\<forall>q. normalizePayload t p = Inr q \<longrightarrow> json_reads E (PayloadJ q)
     \<and> (\<forall>b. json_Marshal E (PayloadJ q) = Inr b \<longrightarrow> json_reads E (PayloadFrameJ t b)))"

lemma Decode_EncodePayload:
  assumes "EncodePayload E t p = Inr b" "payload_reads E t p"
  obtains q where "normalizePayload t p = Inr q" "DecodePayload E t b = Inr q" "EncodePayload E t q = Inr b"
proof -
  from assms(1) obtain q c where q: "IsValidMessageType t" "normalizePayload t p = Inr q"
    "json_Marshal E (PayloadJ q) = Inr c" "json_Marshal E (PayloadFrameJ t c) = Inr b"
    by (auto simp: EncodePayload_def)
  then have r: "json_reads E (PayloadJ q)" "json_reads E (PayloadFrameJ t c)"
    using assms(2) by (auto simp: payload_reads_def)
  note d = json_reads_strict(1) [OF r(2) q(4)] json_reads_payload [OF q(2) r(1) q(3)] normalizePayload_idem [OF q(2)]
  have "DecodePayload E t b = Inr q" using d q(1) by (simp add: DecodePayload_def)
  moreover have "EncodePayload E t q = Inr b" using d q by (simp add: EncodePayload_def)
  ultimately show ?thesis using that q(2) by blast
qed

lemma SignEnvelope_Inr:
  assumes "SignEnvelope E priv t p ts nonce = Inr (env, b)"
  shows "0 < sint ts" "nonce \<noteq> 0" "EncodePayload E t p = Inr b" "e_Type env = t" "e_Timestamp env = ts"
    and "e_Nonce env = nonce" "e_PayloadHash env = HashBytes E b" "e_Version env = CurrentVersion"
    and "NodeIDFromPublicKey (ed25519_Public priv) = Inr (e_Sender env)"
    and "MessageID E CurrentVersion t (e_Sender env) ts nonce (HashBytes E b) = Inr (e_MessageID env)"
    and "\<exists>pre. EnvelopePreimage env = Inr pre \<and> Sign E priv pre = Inr (e_Signature env)"
proof -
  from assms obtain pub sender msgID pre sig where
    k: "0 < sint ts" "nonce \<noteq> 0" "publicKeyFromPrivate priv = Inr pub" "NodeIDFromPublicKey pub = Inr sender"
      "EncodePayload E t p = Inr b" "MessageID E CurrentVersion t sender ts nonce (HashBytes E b) = Inr msgID" and
    s: "EnvelopePreimage \<lparr>e_Version = CurrentVersion, e_Type = t, e_MessageID = msgID, e_Sender = sender,
          e_Timestamp = ts, e_Nonce = nonce, e_PayloadHash = HashBytes E b, e_Signature = []\<rparr> = Inr pre"
      "Sign E priv pre = Inr sig" and
    e: "env = \<lparr>e_Version = CurrentVersion, e_Type = t, e_MessageID = msgID, e_Sender = sender,
          e_Timestamp = ts, e_Nonce = nonce, e_PayloadHash = HashBytes E b, e_Signature = sig\<rparr>"
    by (auto simp: SignEnvelope_def Let_def isZeroNonce_def word_sle_eq)
  have "EnvelopePreimage env = Inr pre" using s(1) by (simp add: e EnvelopePreimage_def)
  moreover have "pub = ed25519_Public priv" using k(3) by (auto simp: publicKeyFromPrivate_def Let_def)
  ultimately show "0 < sint ts" "nonce \<noteq> 0" "EncodePayload E t p = Inr b" "e_Type env = t" "e_Timestamp env = ts"
    "e_Nonce env = nonce" "e_PayloadHash env = HashBytes E b" "e_Version env = CurrentVersion"
    "NodeIDFromPublicKey (ed25519_Public priv) = Inr (e_Sender env)"
    "MessageID E CurrentVersion t (e_Sender env) ts nonce (HashBytes E b) = Inr (e_MessageID env)"
    "\<exists>pre. EnvelopePreimage env = Inr pre \<and> Sign E priv pre = Inr (e_Signature env)"
    using k s by (simp_all add: e)
qed

lemma SignEnvelope_verifies:
  assumes "SignEnvelope E priv t p ts nonce = Inr (env, b)" "signs_verify E priv" "payload_reads E t p"
  shows "VerifyEnvelope E env b (ed25519_Public priv) = Inr ()"
    and "\<exists>q. normalizePayload t p = Inr q \<and> DecodePayload E t b = Inr q"
proof -
  note s = SignEnvelope_Inr [OF assms(1)]
  obtain q where q: "normalizePayload t p = Inr q" "DecodePayload E t b = Inr q" "EncodePayload E t q = Inr b"
    by (rule Decode_EncodePayload [OF s(3) assms(3)])
  obtain pre where pre: "EnvelopePreimage env = Inr pre" "Sign E priv pre = Inr (e_Signature env)" using s(11) by blast
  have "Verify E (ed25519_Public priv) pre (e_Signature env)" by (rule Verify_Sign [OF pre(2) assms(2)])
  then show "VerifyEnvelope E env b (ed25519_Public priv) = Inr ()"
    using s q pre payload_type_valid [of p] by (simp add: VerifyEnvelope_def isZeroNonce_def word_sle_eq normalizePayload_Inr)
  show "\<exists>q. normalizePayload t p = Inr q \<and> DecodePayload E t b = Inr q" using q by blast
qed

section \<open>What is accepted was signed\<close>

lemma VerifyEnvelope_Inr:
  "VerifyEnvelope E env b pub = Inr () \<longleftrightarrow>
     e_Version env = CurrentVersion \<and> 0 < sint (e_Timestamp env) \<and> e_Nonce env \<noteq> 0
     \<and> NodeIDFromPublicKey pub = Inr (e_Sender env)
     \<and> (\<exists>p. DecodePayload E (e_Type env) b = Inr p \<and> EncodePayload E (e_Type env) p = Inr b)
     \<and> e_PayloadHash env = HashBytes E b
     \<and> MessageID E CurrentVersion (e_Type env) (e_Sender env) (e_Timestamp env) (e_Nonce env) (e_PayloadHash env)
         = Inr (e_MessageID env)
     \<and> (\<exists>pre. EnvelopePreimage env = Inr pre \<and> Verify E pub pre (e_Signature env))"
  by (auto simp: VerifyEnvelope_def Let_def isZeroNonce_def word_sle_eq DecodePayload_def)

lemma type_length: "IsValidMessageType t \<Longrightarrow> length t < 2 ^ 64"
  by (auto simp: IsValidMessageType_def type_defs)

lemma length_nonceBytes [simp]: "length (nonceBytes n) = 24"
  by (simp add: nonceBytes_def)

lemma nonceBytes_inj [simp]: "nonceBytes a = nonceBytes b \<longleftrightarrow> a = b"
proof
  assume "nonceBytes a = nonceBytes b"
  then have "unat a = unat b"
    unfolding nonceBytes_def by (rule be_bytes_inj) (use unsigned_less [of a] unsigned_less [of b] in simp_all)
  then show "a = b" by (rule unsigned_word_eqI)
qed simp

lemma ucast_16_64_inj [simp]: "(ucast (a :: uint16) :: uint64) = ucast b \<longleftrightarrow> a = b"
proof
  assume e: "(ucast a :: uint64) = ucast b"
  show "a = b"
  proof (rule bit_word_eqI)
    fix n assume "n < LENGTH(16)"
    moreover have "bit (ucast a :: uint64) n = bit (ucast b :: uint64) n" using e by simp
    ultimately show "bit a n = bit b n" by (simp add: bit_ucast_iff)
  qed
qed simp

lemma messageIDPreimage_inj:
  assumes "messageIDPreimage v t s ts n h = Inr p" "messageIDPreimage v' t' s' ts' n' h' = Inr p"
    and "IsValidMessageType t" "IsValidMessageType t'"
  shows "v = v' \<and> t = t' \<and> s = s' \<and> ts = ts' \<and> n = n' \<and> h = h'"
proof -
  from EncodeFields_inj [OF assms(1,2) [unfolded messageIDPreimage_def]] type_length [OF assms(3)] type_length [OF assms(4)]
  show ?thesis by (simp add: fields_fit_def fields_norm_def)
qed

text \<open>An accepted identifier commits to the whole envelope but its signature, and to the payload.\<close>

lemma MessageID_commits:
  assumes "VerifyEnvelope E x b pub = Inr ()" "VerifyEnvelope E y c pub' = Inr ()" "e_MessageID x = e_MessageID y"
    and "inj_on (HashBytes E) {b, c, projr (messageIDPreimage CurrentVersion (e_Type x) (e_Sender x) (e_Timestamp x) (e_Nonce x) (e_PayloadHash x)),
           projr (messageIDPreimage CurrentVersion (e_Type y) (e_Sender y) (e_Timestamp y) (e_Nonce y) (e_PayloadHash y))}"
  shows "x\<lparr>e_Signature := []\<rparr> = y\<lparr>e_Signature := []\<rparr> \<and> b = c"
proof -
  obtain p where p: "messageIDPreimage CurrentVersion (e_Type x) (e_Sender x) (e_Timestamp x) (e_Nonce x) (e_PayloadHash x) = Inr p"
    "IsValidMessageType (e_Type x)" "TxID (HashBytes E p) = e_MessageID x"
    using assms(1) by (auto simp: VerifyEnvelope_Inr MessageID_def)
  obtain q where q: "messageIDPreimage CurrentVersion (e_Type y) (e_Sender y) (e_Timestamp y) (e_Nonce y) (e_PayloadHash y) = Inr q"
    "IsValidMessageType (e_Type y)" "TxID (HashBytes E q) = e_MessageID y"
    using assms(2) by (auto simp: VerifyEnvelope_Inr MessageID_def)
  have h: "HashBytes E p = HashBytes E q" using p(3) q(3) assms(3) by (metis TxID.inject)
  have "p = q" by (rule inj_onD [OF assms(4) h]) (simp_all add: p(1) q(1))
  note i = messageIDPreimage_inj [OF p(1) q(1) [folded this] p(2) q(2)]
  then have "HashBytes E b = HashBytes E c" using assms(1,2) by (simp add: VerifyEnvelope_Inr)
  then have "b = c" by (rule inj_onD [OF assms(4)]) simp_all
  moreover have "e_Version x = e_Version y" using assms(1,2) by (simp add: VerifyEnvelope_Inr)
  ultimately show ?thesis using i assms(3) by simp
qed

section \<open>Whole messages\<close>

lemma Decode_EncodeMessage:
  assumes "EncodeMessage E msg = Inr b" "json_reads E (MessageFrameJ (m_Envelope msg) (m_PayloadBytes msg))"
    and "m_PayloadBytes msg \<noteq> []"
  shows "DecodeMessage E b = Inr msg \<and> b \<noteq> [] \<and> length b \<le> MaxMessageBytes"
proof -
  from assms(1) have m: "json_Marshal E (MessageFrameJ (m_Envelope msg) (m_PayloadBytes msg)) = Inr b" "length b \<le> MaxMessageBytes"
    by (auto simp: EncodeMessage_def)
  then show ?thesis using json_reads_strict(2) [OF assms(2) m(1)] assms(3) by (simp add: DecodeMessage_def)
qed

end
