(* ===== verification/NodeStore.thy ===== *)
theory NodeStore
  imports Intent
begin

text \<open>
  \<open>core/node/store.go\<close>: the interface through which a node makes its state durable, and the guard
  against executing a trade twice.

  The Go interface is the record \<open>store_api\<close> of its operations on a state of type \<open>'st\<close>. Stores are
  shared by pointers: a heap maps each pointer to the state behind it. The operations of the
  interface that no code of the package calls (the \<open>Save\<close> operations, \<open>Close\<close>) have no field; they
  are modelled with the store that implements them.
\<close>

record PersistedNodeState =
  pn_ID :: NodeID
  pn_Inventory :: InventoryState
  pn_Flow :: "(UnitID, FlowRecord) gomap"
  pn_PriceState :: "(UnitID, PriceResult) gomap"

record 'st store_api =
  HasExecutedTrade :: "'st \<Rightarrow> TxID \<Rightarrow> bool"
  MarkExecutedTrade :: "'st \<Rightarrow> TxID \<Rightarrow> (err + unit) \<times> 'st"
  LoadInventory :: "'st \<Rightarrow> NodeID \<Rightarrow> err + InventoryState"
  LoadFlow :: "'st \<Rightarrow> NodeID \<Rightarrow> err + (UnitID, FlowRecord) gomap"
  LoadPriceState :: "'st \<Rightarrow> NodeID \<Rightarrow> err + (UnitID, PriceResult) gomap"
  PersistExecutedTrade ::
    "'st \<Rightarrow> TxID \<Rightarrow> AuthorizedTradeTx \<Rightarrow> PersistedNodeState list \<Rightarrow> (err + unit) \<times> 'st"

type_synonym 'st heap = "nat \<Rightarrow> 'st"

definition RejectReplay ::
    "'st store_api \<Rightarrow> 'st heap \<Rightarrow> nat option \<Rightarrow> TxID \<Rightarrow> (err + unit) \<times> 'st heap" where
  "RejectReplay A h store tid = (case store of
     None \<Rightarrow> (Inr (), h)
   | Some p \<Rightarrow>
       if HasExecutedTrade A (h p) tid then (Inl (errorf ''trade replay rejected''), h)
       else let (r, s) = MarkExecutedTrade A (h p) tid in (r, h(p := s)))"

definition rejectReplayCheck ::
    "'st store_api \<Rightarrow> 'st heap \<Rightarrow> nat option \<Rightarrow> TxID \<Rightarrow> err + unit" where
  "rejectReplayCheck A h store tid = (case store of
     None \<Rightarrow> Inr ()
   | Some p \<Rightarrow> guard (HasExecutedTrade A (h p) tid) (errorf ''trade replay rejected'') (Inr ()))"

text \<open>\<open>NewNodeWithStore\<close> of \<open>node.go\<close>.\<close>

definition NewNodeWithStore ::
    "'st store_api \<Rightarrow> 'st heap \<Rightarrow> int64 \<Rightarrow> PrivateKey \<Rightarrow> PriceConfig \<Rightarrow> nat option \<Rightarrow> err + Node" where
  "NewNodeWithStore A h now priv cfg store =
     attempt (NewNode now priv cfg) (\<lambda>n0.
     let n = n0\<lparr>n_Store := store\<rparr> in
     (case store of
        None \<Rightarrow> Inr n
      | Some p \<Rightarrow>
          attempt (LoadInventory A (h p) (n_ID n)) (\<lambda>iv.
          let n = n\<lparr>n_Inventory := iv\<rparr> in
          attempt (LoadFlow A (h p) (n_ID n)) (\<lambda>flow.
          let n = n\<lparr>n_Flow := flow\<rparr> in
          attempt (LoadPriceState A (h p) (n_ID n)) (\<lambda>prices.
          Inr (node_init (n\<lparr>n_PriceState := prices\<rparr>)))))))"

section \<open>The contract of a store\<close>

text \<open>
  What the execution of trades relies on. \<open>good\<close> is the invariant of the states that a store can be
  in. A trade that was made durable is known, and so is one that was marked; a trade is made durable
  only once; and no attempt to make one durable forgets another.
\<close>

locale trade_store =
  fixes A :: "'st store_api" and good :: "'st \<Rightarrow> bool"
  assumes persist_good: "good s \<Longrightarrow> good (snd (PersistExecutedTrade A s i tx states))"
    and persist_ok: "good s \<Longrightarrow> fst (PersistExecutedTrade A s i tx states) = Inr ()
      \<Longrightarrow> HasExecutedTrade A (snd (PersistExecutedTrade A s i tx states)) i"
    and persist_keeps: "good s \<Longrightarrow> HasExecutedTrade A s j
      \<Longrightarrow> HasExecutedTrade A (snd (PersistExecutedTrade A s i tx states)) j"
    and persist_twice: "good s \<Longrightarrow> HasExecutedTrade A s i
      \<Longrightarrow> \<exists>e. fst (PersistExecutedTrade A s i tx states) = Inl e"
    and mark_ok: "good s \<Longrightarrow> fst (MarkExecutedTrade A s i) = Inr ()
      \<Longrightarrow> HasExecutedTrade A (snd (MarkExecutedTrade A s i)) i"
    and mark_good: "good s \<Longrightarrow> good (snd (MarkExecutedTrade A s i))"

end
