(* ===== verification/Trade.thy ===== *)
theory Trade
  imports NodeStore
begin

text \<open>
  \<open>core/node/trade.go\<close>: the execution of an accepted quote between two nodes, plain or authorized by
  both parties' signed intents.

  The seller and the buyer are two distinct nodes (the same node on both sides never passes the
  check that the parties of the transaction differ). One global lock makes an execution atomic, so
  it is a function from the two nodes and the heap of stores to its outcome and their next values;
  on an error these are the nodes as the error leaves them, filled price caches included. A panic
  is \<open>Inl\<close>.
\<close>

section \<open>Copies\<close>

text \<open>The \<open>copy...\<close> functions rebuild a map entry by entry.\<close>

definition copyMap :: "('k, 'v) gomap \<Rightarrow> ('k, 'v) gomap" where
  "copyMap m = foldl (\<lambda>out (k, v). gm_put out k v) [] m"

definition copyPriceState :: "(UnitID, PriceResult) gomap \<Rightarrow> (UnitID, PriceResult) gomap" where
  "copyPriceState m = copyMap m"

definition copyFlow :: "(UnitID, FlowRecord) gomap \<Rightarrow> (UnitID, FlowRecord) gomap" where
  "copyFlow m = copyMap m"

definition copyTradeHistory ::
    "(UnitID, TradeObservation list) gomap \<Rightarrow> (UnitID, TradeObservation list) gomap" where
  "copyTradeHistory m = copyMap m"

definition copyFloatMap :: "(UnitID, float64) gomap \<Rightarrow> (UnitID, float64) gomap" where
  "copyFloatMap m = copyMap m"

definition copyFeatures :: "(UnitID, AssetFeatures) gomap \<Rightarrow> (UnitID, AssetFeatures) gomap" where
  "copyFeatures m = copyMap m"

definition copyAmountMap :: "(UnitID, amount) gomap \<Rightarrow> (UnitID, amount) gomap" where
  "copyAmountMap m = copyMap m"

definition copyInt64Map :: "(UnitID, int64) gomap \<Rightarrow> (UnitID, int64) gomap" where
  "copyInt64Map m = copyMap m"

definition copyExecutedTrades :: "(TxID, bool) gomap \<Rightarrow> (TxID, bool) gomap" where
  "copyExecutedTrades m = copyMap m"

definition cloneRuntimeState :: "Node \<Rightarrow> Node" where
  "cloneRuntimeState n =
     \<lparr>n_ID = n_ID n, n_PublicKey = n_PublicKey n, n_PrivateKey = n_PrivateKey n,
      n_Inventory = Inventory_Copy (n_Inventory n),
      n_Preferences = copyFloatMap (n_Preferences n),
      n_PriceState = copyPriceState (n_PriceState n), n_PriceConfig = n_PriceConfig n,
      n_Features = copyFeatures (n_Features n), n_TradeHistory = copyTradeHistory (n_TradeHistory n),
      n_SettledVolume = copyAmountMap (n_SettledVolume n),
      n_LastTradeUnix = copyInt64Map (n_LastTradeUnix n), n_Flow = copyFlow (n_Flow n),
      n_Store = n_Store n, n_ExecutedTrades = copyExecutedTrades (n_ExecutedTrades n),
      n_AllowEphemeralReplayUnsafe = n_AllowEphemeralReplayUnsafe n, n_NowUnix = n_NowUnix n\<rparr>"

definition commitPreparedState :: "Node \<Rightarrow> Node \<Rightarrow> Node" where
  "commitPreparedState dst prepared =
     dst\<lparr>n_Inventory := n_Inventory prepared, n_PriceState := n_PriceState prepared,
         n_Flow := n_Flow prepared, n_TradeHistory := n_TradeHistory prepared,
         n_SettledVolume := n_SettledVolume prepared, n_LastTradeUnix := n_LastTradeUnix prepared\<rparr>"

section \<open>The transaction of a trade\<close>

definition maxOf :: "int64 \<Rightarrow> int64 \<Rightarrow> int64" where
  "maxOf a b = (if b <s a then a else b)"

definition MaxSignedIntentAge :: int64 where
  "MaxSignedIntentAge = 24 * 60 * 60"

definition tradeValue ::
    "'x env_scheme \<Rightarrow> UnitID \<Rightarrow> amount \<Rightarrow> NodeID \<Rightarrow> int64 \<Rightarrow> err + Value" where
  "tradeValue E unit a owner createdAt =
     (let value = \<lparr>v_ID = ValueID 0, v_Unit = unit, v_Amount = a, v_Owner = owner,
                   v_CreatedAt = createdAt, v_Issuer = NodeID 0, v_ExpiryUnix = 0, v_Depth = 0\<rparr> in
      attempt (ValueIDFor E value) (\<lambda>vid. Inr (value\<lparr>v_ID := vid\<rparr>)))"

definition buildTradeTx ::
    "'x env_scheme \<Rightarrow> NodeID \<Rightarrow> NodeID \<Rightarrow> Quote \<Rightarrow> int64 \<Rightarrow> err + TradeTx" where
  "buildTradeTx E seller buyer q now =
     attempt (tradeValue E (q_SellUnit q) (q_SellAmount q) seller now) (\<lambda>inputSeller.
     attempt (tradeValue E (q_BuyUnit q) (q_BuyAmount q) buyer (now + 1)) (\<lambda>inputBuyer.
     attempt (tradeValue E (q_BuyUnit q) (q_BuyAmount q) seller (now + 2)) (\<lambda>outputSeller.
     attempt (tradeValue E (q_SellUnit q) (q_SellAmount q) buyer (now + 3)) (\<lambda>outputBuyer.
     let tx = \<lparr>t_ID = TxID 0, t_InputsA = [inputSeller], t_InputsB = [inputBuyer],
               t_OutputsA = [outputSeller], t_OutputsB = [outputBuyer],
               t_PartyA = seller, t_PartyB = buyer, t_Timestamp = now\<rparr> in
     attempt (TradeTxID E tx) (\<lambda>tid. Inr (tx\<lparr>t_ID := tid\<rparr>))))))"

text \<open>An entry that \<open>AddChecked\<close> refuses (a zero holding, for one) makes it panic.\<close>

definition combinedInventory :: "Node \<Rightarrow> Node \<Rightarrow> err + InventoryState" where
  "combinedInventory a b =
     attempt (each (\<lambda>_ (unit, amt) out. map_err panic (inv_credit out (n_ID a) unit amt)) 0
                (gm_get [] (Holdings (n_Inventory a)) (n_ID a)) NewInventoryState) (\<lambda>out.
     each (\<lambda>_ (unit, amt) out. map_err panic (inv_credit out (n_ID b) unit amt)) 0
       (gm_get [] (Holdings (n_Inventory b)) (n_ID b)) out)"

section \<open>The next state of both nodes\<close>

definition observe ::
    "'x env_scheme \<Rightarrow> string \<Rightarrow> Node \<Rightarrow> UnitID \<Rightarrow> float64 \<Rightarrow> amount \<Rightarrow> int64 \<Rightarrow> err + Node" where
  "observe E what n unit p vol now =
     (case recordObservation E n unit p vol now of
        (r, n') \<Rightarrow> attempt (map_err (wrap_err what) r) (\<lambda>_. Inr n'))"

definition recordSuccessfulTrade ::
    "'x env_scheme \<Rightarrow> Node \<Rightarrow> Node \<Rightarrow> Quote \<Rightarrow> int64 \<Rightarrow> err + Node \<times> Node" where
  "recordSuccessfulTrade E s b q now =
     attempt (map_err (wrap_err ''seller trade flow overflow'')
       (recordTradeFlow s (q_SellUnit q) (q_SellAmount q))) (\<lambda>s.
     attempt (map_err (wrap_err ''buyer trade flow overflow'')
       (recordTradeFlow b (q_SellUnit q) (q_SellAmount q))) (\<lambda>b.
     attempt (map_err (wrap_err ''seller buy-unit trade flow overflow'')
       (recordTradeFlow s (q_BuyUnit q) (q_BuyAmount q))) (\<lambda>s.
     attempt (map_err (wrap_err ''buyer buy-unit trade flow overflow'')
       (recordTradeFlow b (q_BuyUnit q) (q_BuyAmount q))) (\<lambda>b.
     attempt (map_err (wrap_err ''seller payment flow overflow'')
       (recordPaymentFlow s (q_BuyUnit q) (q_BuyAmount q))) (\<lambda>s.
     attempt (map_err (wrap_err ''buyer payment flow overflow'')
       (recordPaymentFlow b (q_BuyUnit q) (q_BuyAmount q))) (\<lambda>b.
     let sellUnitPrice = fdiv (ToFloat (q_BuyAmount q)) (ToFloat (q_SellAmount q));
         buyUnitPrice = fdiv (ToFloat (q_SellAmount q)) (ToFloat (q_BuyAmount q)) in
     attempt (observe E ''seller sell-unit observation overflow'' s (q_SellUnit q) sellUnitPrice (q_SellAmount q) now) (\<lambda>s.
     attempt (observe E ''buyer sell-unit observation overflow'' b (q_SellUnit q) sellUnitPrice (q_SellAmount q) now) (\<lambda>b.
     attempt (observe E ''seller buy-unit observation overflow'' s (q_BuyUnit q) buyUnitPrice (q_BuyAmount q) now) (\<lambda>s.
     attempt (observe E ''buyer buy-unit observation overflow'' b (q_BuyUnit q) buyUnitPrice (q_BuyAmount q) now) (\<lambda>b.
     Inr (s, b)))))))))))"

definition preparedTradeState ::
    "'x env_scheme \<Rightarrow> Node \<Rightarrow> Node \<Rightarrow> Quote \<Rightarrow> int64 \<Rightarrow> err + Node \<times> Node" where
  "preparedTradeState E seller buyer q now =
     (let nextSeller = cloneRuntimeState seller; nextBuyer = cloneRuntimeState buyer in
      attempt (Inventory_Sub (n_Inventory nextSeller) (n_ID seller) (q_SellUnit q) (q_SellAmount q)) (\<lambda>i1.
      attempt (map_err (wrap_err ''seller receive inventory overflow'')
        (inv_credit i1 (n_ID seller) (q_BuyUnit q) (q_BuyAmount q))) (\<lambda>i2.
      attempt (Inventory_Sub (n_Inventory nextBuyer) (n_ID buyer) (q_BuyUnit q) (q_BuyAmount q)) (\<lambda>j1.
      attempt (map_err (wrap_err ''buyer receive inventory overflow'')
        (inv_credit j1 (n_ID buyer) (q_SellUnit q) (q_SellAmount q))) (\<lambda>j2.
      recordSuccessfulTrade E (nextSeller\<lparr>n_Inventory := i2\<rparr>) (nextBuyer\<lparr>n_Inventory := j2\<rparr>) q now)))))"

section \<open>Plain execution\<close>

definition ExecuteTrade ::
    "'x env_scheme \<Rightarrow> Node \<Rightarrow> Node \<Rightarrow> Quote \<Rightarrow> (err + TradeTx) \<times> Node \<times> Node" where
  "ExecuteTrade E seller0 buyer0 q =
     (let seller = node_init seller0; buyer = node_init buyer0 in
      if \<not> q_Executable q then (Inl (quoteExecutionError q), seller, buyer)
      else if n_ID seller \<noteq> q_Seller q \<or> n_ID buyer \<noteq> q_Buyer q
      then (Inl (errorf ''quote parties do not match nodes''), seller, buyer)
      else
        let (sellerAccepts, seller) = acceptQuoteLocked E seller q in
        if \<not> sellerAccepts then (Inl (errorf ''seller rejected quote''), seller, buyer)
        else
          let (buyerAccepts, buyer) = acceptQuoteLocked E buyer q in
          if \<not> buyerAccepts then (Inl (errorf ''buyer rejected quote''), seller, buyer)
          else
            let now = maxOf (n_NowUnix seller) (n_NowUnix buyer) in
            (case attempt (buildTradeTx E (n_ID seller) (n_ID buyer) q now) (\<lambda>tx.
                  attempt (combinedInventory seller buyer) (\<lambda>combined.
                  attempt (ValidateTradeTx E (Some tx) combined) (\<lambda>_.
                  attempt (preparedTradeState E seller buyer q now) (\<lambda>(nextSeller, nextBuyer).
                  Inr (tx, nextSeller, nextBuyer))))) of
               Inl e \<Rightarrow> (Inl e, seller, buyer)
             | Inr (tx, nextSeller, nextBuyer) \<Rightarrow>
                 (Inr tx, commitPreparedState seller nextSeller, commitPreparedState buyer nextBuyer)))"

section \<open>Signed execution\<close>

definition validateSignedIntentFreshness ::
    "Node \<Rightarrow> Node \<Rightarrow> SignedTradeIntent \<Rightarrow> SignedTradeIntent \<Rightarrow> err + unit" where
  "validateSignedIntentFreshness seller buyer sellerSig buyerSig =
     guard (ti_Timestamp (si_Intent sellerSig) \<noteq> ti_Timestamp (si_Intent buyerSig))
       (errorf ''authorization timestamps do not match'')
     (let timestamp = ti_Timestamp (si_Intent sellerSig);
          now = maxOf (n_NowUnix seller) (n_NowUnix buyer) in
      guard (now <s timestamp) (errorf ''authorization timestamp is in the future'')
      (guard (MaxSignedIntentAge <s now - timestamp) (errorf ''signed trade authorization expired'')
      (Inr ())))"

definition requireDurableReplayGuard :: "Node \<Rightarrow> Node \<Rightarrow> bool \<Rightarrow> err + unit" where
  "requireDurableReplayGuard seller buyer allowPeerShadow =
     (if n_Store seller \<noteq> None \<and> n_Store buyer \<noteq> None then Inr ()
      else if n_Store seller \<noteq> None \<or> n_Store buyer \<noteq> None then
        (if allowPeerShadow then Inr ()
         else Inl (errorf ''one-sided store signed execution requires explicit peer-shadow execution''))
      else if n_AllowEphemeralReplayUnsafe seller \<and> n_AllowEphemeralReplayUnsafe buyer then Inr ()
      else Inl (errorf ''signed trade execution requires durable replay store''))"

text \<open>The checks before the quote is put to both nodes.\<close>

definition checkAuthorizations ::
    "'x env_scheme \<Rightarrow> Node \<Rightarrow> Node \<Rightarrow> Quote \<Rightarrow> SignedTradeIntent \<Rightarrow> SignedTradeIntent \<Rightarrow> bool \<Rightarrow> err + unit" where
  "checkAuthorizations E seller buyer q sellerSig buyerSig allowPeerShadow =
     guard (\<not> q_Executable q) (quoteExecutionError q)
     (guard (n_ID seller \<noteq> q_Seller q \<or> n_ID buyer \<noteq> q_Buyer q)
       (errorf ''quote parties do not match nodes'')
     (guard (\<not> VerifyTradeIntent E sellerSig) (errorf ''invalid seller authorization'')
     (guard (\<not> VerifyTradeIntent E buyerSig) (errorf ''invalid buyer authorization'')
     (guard (ti_Timestamp (si_Intent sellerSig) \<le>s 0 \<or> ti_Timestamp (si_Intent buyerSig) \<le>s 0)
       (errorf ''authorization timestamp must be greater than zero'')
     (guard (ti_Party (si_Intent sellerSig) \<noteq> n_ID seller \<or> ti_Party (si_Intent buyerSig) \<noteq> n_ID buyer)
       (errorf ''authorization party mismatch'')
     (guard (\<not> publicKeyMatchesNode (si_PublicKey sellerSig) (n_ID seller)
           \<or> \<not> publicKeyMatchesNode (si_PublicKey buyerSig) (n_ID buyer))
       (errorf ''authorization key mismatch'')
     (guard (0 < length (n_PublicKey seller) \<and> \<not> samePublicKey (n_PublicKey seller) (si_PublicKey sellerSig))
       (errorf ''seller public key mismatch'')
     (guard (0 < length (n_PublicKey buyer) \<and> \<not> samePublicKey (n_PublicKey buyer) (si_PublicKey buyerSig))
       (errorf ''buyer public key mismatch'')
     (guard (\<not> intentMatchesQuote (si_Intent sellerSig) q (n_ID seller))
       (errorf ''seller intent does not match quote'')
     (guard (\<not> intentMatchesQuote (si_Intent buyerSig) q (n_ID buyer))
       (errorf ''buyer intent does not match quote'')
     (guard (\<not> economicTermsMatch (si_Intent sellerSig) (si_Intent buyerSig))
       (errorf ''authorizations do not sign the same terms'')
     (attempt (validateSignedIntentFreshness seller buyer sellerSig buyerSig) (\<lambda>_.
     requireDurableReplayGuard seller buyer allowPeerShadow)))))))))))))"

definition rejectInMemoryReplay :: "Node \<Rightarrow> Node \<Rightarrow> TxID \<Rightarrow> err + unit" where
  "rejectInMemoryReplay seller buyer tid =
     guard (gm_get False (n_ExecutedTrades seller) tid) (errorf ''trade replay rejected'')
     (guard (gm_get False (n_ExecutedTrades buyer) tid) (errorf ''trade replay rejected'')
     (Inr ()))"

definition reserve :: "TxID \<Rightarrow> Node \<Rightarrow> Node" where
  "reserve tid n = n\<lparr>n_ExecutedTrades := gm_put (n_ExecutedTrades n) tid True\<rparr>"

definition reserveInMemoryReplay :: "Node \<Rightarrow> Node \<Rightarrow> TxID \<Rightarrow> err + Node \<times> Node" where
  "reserveInMemoryReplay seller buyer tid =
     attempt (rejectInMemoryReplay seller buyer tid) (\<lambda>_.
     Inr (reserve tid seller, reserve tid buyer))"

definition rollbackInMemoryReplay :: "TxID \<Rightarrow> Node \<Rightarrow> Node" where
  "rollbackInMemoryReplay tid n = n\<lparr>n_ExecutedTrades := gm_del (n_ExecutedTrades n) tid\<rparr>"

definition persistedNodeState :: "NodeID \<Rightarrow> Node \<Rightarrow> PersistedNodeState" where
  "persistedNodeState nid next =
     \<lparr>pn_ID = nid, pn_Inventory = n_Inventory next, pn_Flow = n_Flow next, pn_PriceState = n_PriceState next\<rparr>"

definition persistAt ::
    "'st store_api \<Rightarrow> 'st heap \<Rightarrow> nat \<Rightarrow> TxID \<Rightarrow> AuthorizedTradeTx \<Rightarrow> PersistedNodeState list
      \<Rightarrow> (err + unit) \<times> 'st heap" where
  "persistAt A h p tid auth states =
     (let (r, s) = PersistExecutedTrade A (h p) tid auth states in (r, h(p := s)))"

definition persistSignedTrade ::
    "'st store_api \<Rightarrow> 'st heap \<Rightarrow> Node \<Rightarrow> Node \<Rightarrow> TxID \<Rightarrow> AuthorizedTradeTx \<Rightarrow> Node \<Rightarrow> Node
      \<Rightarrow> (err + unit) \<times> 'st heap" where
  "persistSignedTrade A h seller buyer tid auth nextSeller nextBuyer =
     (case n_Store seller of
        Some p \<Rightarrow>
          if n_Store buyer = Some p then
            persistAt A h p tid auth
              [persistedNodeState (n_ID seller) nextSeller, persistedNodeState (n_ID buyer) nextBuyer]
          else
            (case persistAt A h p tid auth [persistedNodeState (n_ID seller) nextSeller] of
               (Inl e, h1) \<Rightarrow> (Inl e, h1)
             | (Inr _, h1) \<Rightarrow>
                 (case n_Store buyer of
                    None \<Rightarrow> (Inr (), h1)
                  | Some p' \<Rightarrow> persistAt A h1 p' tid auth [persistedNodeState (n_ID buyer) nextBuyer]))
      | None \<Rightarrow>
          (case n_Store buyer of
             None \<Rightarrow> (Inr (), h)
           | Some p' \<Rightarrow> persistAt A h p' tid auth [persistedNodeState (n_ID buyer) nextBuyer]))"

text \<open>Everything between the acceptance of the quote and the reservation; it changes no state.\<close>

definition prepareSignedTrade ::
    "'x env_scheme \<Rightarrow> 'st store_api \<Rightarrow> 'st heap \<Rightarrow> Node \<Rightarrow> Node \<Rightarrow> Quote \<Rightarrow> SignedTradeIntent \<Rightarrow> SignedTradeIntent
      \<Rightarrow> err + TradeTx \<times> AuthorizedTradeTx \<times> TxID \<times> Node \<times> Node" where
  "prepareSignedTrade E A h seller buyer q sellerSig buyerSig =
     (let now = ti_Timestamp (si_Intent sellerSig) in
      attempt (buildTradeTx E (n_ID seller) (n_ID buyer) q now) (\<lambda>tx.
      let auth = \<lparr>at_Tx = tx, at_SellerAuth = sellerSig, at_BuyerAuth = buyerSig\<rparr> in
      attempt (AuthorizedTradeID E auth) (\<lambda>authID.
      guard (n_Store seller \<noteq> None \<and> n_Store buyer \<noteq> None \<and> n_Store seller \<noteq> n_Store buyer)
        (errorf ''split-store signed execution is not supported'')
      (attempt (rejectInMemoryReplay seller buyer authID) (\<lambda>_.
      attempt (rejectReplayCheck A h (n_Store seller) authID) (\<lambda>_.
      attempt (if n_Store buyer \<noteq> n_Store seller then rejectReplayCheck A h (n_Store buyer) authID else Inr ()) (\<lambda>_.
      attempt (combinedInventory seller buyer) (\<lambda>combined.
      attempt (ValidateTradeTx E (Some tx) combined) (\<lambda>_.
      attempt (preparedTradeState E seller buyer q now) (\<lambda>(nextSeller, nextBuyer).
      Inr (tx, auth, authID, nextSeller, nextBuyer)))))))))))"

definition executeSignedTrade ::
    "'x env_scheme \<Rightarrow> 'st store_api \<Rightarrow> 'st heap \<Rightarrow> Node \<Rightarrow> Node \<Rightarrow> Quote \<Rightarrow> SignedTradeIntent \<Rightarrow> SignedTradeIntent
      \<Rightarrow> bool \<Rightarrow> (err + TradeTx) \<times> Node \<times> Node \<times> 'st heap" where
  "executeSignedTrade E A h seller0 buyer0 q sellerSig buyerSig allowPeerShadow =
     (let seller = node_init seller0; buyer = node_init buyer0 in
      case checkAuthorizations E seller buyer q sellerSig buyerSig allowPeerShadow of
        Inl e \<Rightarrow> (Inl e, seller, buyer, h)
      | Inr _ \<Rightarrow>
        let (sellerAccepts, seller) = acceptQuoteLocked E seller q in
        if \<not> sellerAccepts then (Inl (errorf ''seller rejected quote''), seller, buyer, h)
        else
          let (buyerAccepts, buyer) = acceptQuoteLocked E buyer q in
          if \<not> buyerAccepts then (Inl (errorf ''buyer rejected quote''), seller, buyer, h)
          else
            (case prepareSignedTrade E A h seller buyer q sellerSig buyerSig of
               Inl e \<Rightarrow> (Inl e, seller, buyer, h)
             | Inr (tx, auth, authID, nextSeller, nextBuyer) \<Rightarrow>
               (case reserveInMemoryReplay seller buyer authID of
                  Inl e \<Rightarrow> (Inl e, seller, buyer, h)
                | Inr (seller, buyer) \<Rightarrow>
                  (case persistSignedTrade A h seller buyer authID auth nextSeller nextBuyer of
                     (Inl e, h') \<Rightarrow>
                       (Inl e, rollbackInMemoryReplay authID seller, rollbackInMemoryReplay authID buyer, h')
                   | (Inr _, h') \<Rightarrow>
                       (Inr tx, commitPreparedState seller nextSeller, commitPreparedState buyer nextBuyer, h')))))"

definition ExecuteSignedTrade where
  "ExecuteSignedTrade E A h seller buyer q sellerSig buyerSig =
     executeSignedTrade E A h seller buyer q sellerSig buyerSig False"

definition ExecuteSignedTradeWithPeerShadow where
  "ExecuteSignedTradeWithPeerShadow E A h seller buyer q sellerSig buyerSig =
     executeSignedTrade E A h seller buyer q sellerSig buyerSig True"

section \<open>The combined inventory\<close>

definition held :: "Node \<Rightarrow> (UnitID, amount) gomap" where
  "held n = gm_get [] (Holdings (n_Inventory n)) (n_ID n)"

lemma held_balance: "gm_get 0 (held n) u = balanceLocked n u"
  by (simp add: held_def balanceLocked_def Inventory_Get_def gm_get_def gm_has_def)

lemma combinedInventory_Inr:
  assumes "combinedInventory a b = Inr c" "n_ID a \<noteq> n_ID b" "inv_ok (n_Inventory a)" "inv_ok (n_Inventory b)"
  shows "Inventory_Get c (n_ID a) u = balanceLocked a u" "Inventory_Get c (n_ID b) u = balanceLocked b u"
    and "\<forall>(u, x) \<in> set (held a). 0 < sint x" "\<forall>(u, x) \<in> set (held b). 0 < sint x"
proof -
  from assms(1) obtain d where
    d: "each (\<lambda>_ (unit, amt) out. inv_credit out (n_ID a) unit amt) 0 (held a) NewInventoryState = Inr d"
    and c: "each (\<lambda>_ (unit, amt) out. inv_credit out (n_ID b) unit amt) 0 (held b) d = Inr c"
    by (auto simp: combinedInventory_def held_def)
  have ok: "gm_ok (held a)" "gm_ok (held b)" using assms(3,4) by (simp_all add: held_def inv_ok_inner)
  note la = load_holdings [OF d ok(1)] and lb = load_holdings [OF c ok(2)]
  have z: "Inventory_Get NewInventoryState m u = 0" for m by (simp add: Inventory_Get_def NewInventoryState_def)
  have "sint (Inventory_Get c (n_ID a) u) = sint (balanceLocked a u)"
    using la(2) lb(3) [of "n_ID a" u] assms(2) z by (simp add: held_balance)
  then show "Inventory_Get c (n_ID a) u = balanceLocked a u" by (rule signed_word_eqI)
  have "sint (Inventory_Get c (n_ID b) u) = sint (balanceLocked b u)"
    using lb(2) la(3) [of "n_ID b" u] assms(2) z by (simp add: held_balance)
  then show "Inventory_Get c (n_ID b) u = balanceLocked b u" by (rule signed_word_eqI)
  show "\<forall>(u, x) \<in> set (held a). 0 < sint x" "\<forall>(u, x) \<in> set (held b). 0 < sint x" by (fact la(1) lb(1))+
qed

lemma combinedInventory_zero:
  assumes "inv_ok (n_Inventory a)" "inv_ok (n_Inventory b)" "n_ID a \<noteq> n_ID b" "gm_has (held a) u" "balanceLocked a u = 0"
  shows "\<exists>e. combinedInventory a b = Inl e \<and> panics e"
proof (cases "combinedInventory a b")
  case (Inl e)
  then show ?thesis by (auto simp: combinedInventory_def attempt_Inl map_err_Inl)
next
  case (Inr c)
  have "(u, 0) \<in> set (held a)" 
    using assms(4,5) gm_get_has [OF assms(4), of 0] by (auto simp: held_balance dest: map_of_SomeD)
  then show ?thesis using combinedInventory_Inr(3) [OF Inr assms(3,1,2)] by auto
qed

section \<open>What a trade changes\<close>

definition keeps :: "Node \<Rightarrow> Node \<Rightarrow> bool" where
  "keeps n m \<longleftrightarrow> n_ID m = n_ID n \<and> n_PublicKey m = n_PublicKey n \<and> n_PrivateKey m = n_PrivateKey n
     \<and> n_Inventory m = n_Inventory n \<and> n_Preferences m = n_Preferences n
     \<and> n_Features m = n_Features n \<and> n_Store m = n_Store n
     \<and> n_ExecutedTrades m = n_ExecutedTrades n"

lemma keeps_trans: "keeps a b \<Longrightarrow> keeps b c \<Longrightarrow> keeps a c"
  by (simp add: keeps_def)

lemma keeps_init: "keeps (node_init n) m \<longleftrightarrow> keeps n m"
  by (simp add: keeps_def)

lemma flow_keeps:
  "recordTradeFlow n u a = Inr m \<Longrightarrow> keeps n m" "recordPaymentFlow n u a = Inr m \<Longrightarrow> keeps n m"
  by (auto simp: recordTradeFlow_def recordPaymentFlow_def keeps_def Let_def)

lemma observe_keeps: "observe E w n u p v now = Inr m \<Longrightarrow> keeps n m"
  by (auto simp: observe_def recordObservation_def keeps_def Let_def computePriceLocked_def
      split: prod.splits if_splits sum.splits)

lemma recordSuccessfulTrade_keeps:
  assumes "recordSuccessfulTrade E s b q now = Inr (s', b')"
  shows "keeps s s' \<and> keeps b b'"
proof -
  from assms obtain s1 b1 s2 b2 s3 b3 s4 b4 p1 p2 w1 w2 w3 w4 where
    "recordTradeFlow s (q_SellUnit q) (q_SellAmount q) = Inr s1" "recordTradeFlow b (q_SellUnit q) (q_SellAmount q) = Inr b1"
    "recordTradeFlow s1 (q_BuyUnit q) (q_BuyAmount q) = Inr s2" "recordTradeFlow b1 (q_BuyUnit q) (q_BuyAmount q) = Inr b2"
    "recordPaymentFlow s2 (q_BuyUnit q) (q_BuyAmount q) = Inr s3" "recordPaymentFlow b2 (q_BuyUnit q) (q_BuyAmount q) = Inr b3"
    "observe E w1 s3 (q_SellUnit q) p1 (q_SellAmount q) now = Inr s4"
    "observe E w2 b3 (q_SellUnit q) p1 (q_SellAmount q) now = Inr b4"
    "observe E w3 s4 (q_BuyUnit q) p2 (q_BuyAmount q) now = Inr s'"
    "observe E w4 b4 (q_BuyUnit q) p2 (q_BuyAmount q) now = Inr b'"
    by (auto simp: recordSuccessfulTrade_def Let_def)
  then show ?thesis using flow_keeps observe_keeps keeps_trans by meson
qed

lemma cloneRuntimeState_keeps:
  "inv_ok (n_Inventory n) \<Longrightarrow> n_Inventory (cloneRuntimeState n) = n_Inventory n"
  "n_ID (cloneRuntimeState n) = n_ID n" "n_Store (cloneRuntimeState n) = n_Store n"
  by (simp_all add: cloneRuntimeState_def Inventory_Copy_eq)

text \<open>The balance of a party after giving one amount and receiving another.\<close>

definition swapped :: "InventoryState \<Rightarrow> NodeID \<Rightarrow> UnitID \<Rightarrow> amount \<Rightarrow> UnitID \<Rightarrow> amount \<Rightarrow> InventoryState \<Rightarrow> bool" where
  "swapped s p out a inc b t \<longleftrightarrow> inv_ok t
     \<and> 0 < sint a \<and> sint a \<le> sint (Inventory_Get s p out) \<and> 0 < sint b
     \<and> (\<forall>n u. sint (Inventory_Get t n u) = sint (Inventory_Get s n u)
          + (if n = p then (if u = inc then sint b else 0) - (if u = out then sint a else 0) else 0))"

lemma swapped_intro:
  assumes "Inventory_Sub s p out a = Inr m" "inv_credit m p inc b = Inr t" "inv_ok s"
  shows "swapped s p out a inc b t"
proof -
  note d = inv_debit_Inr [OF assms(1)] inv_debit_other [OF assms(1)]
  note c = inv_credit_Inr [OF assms(2)] inv_credit_other [OF assms(2)]
  have "inv_ok t" using assms inv_ok_Sub inv_ok_credit by blast
  moreover have "sint (Inventory_Get t n u) = sint (Inventory_Get s n u)
          + (if n = p then (if u = inc then sint b else 0) - (if u = out then sint a else 0) else 0)" for n u
    using d(1) c(1) d(2) [of n u] c(2) [of n u] c(2) [of p out] d(2) [of p inc] by (auto split: if_splits)
  ultimately show ?thesis unfolding swapped_def using d(1) c(1) by auto
qed

lemma preparedTradeState_Inr:
  assumes "preparedTradeState E s b q now = Inr (ns, nb)" "inv_ok (n_Inventory s)" "inv_ok (n_Inventory b)"
  shows "swapped (n_Inventory s) (n_ID s) (q_SellUnit q) (q_SellAmount q) (q_BuyUnit q) (q_BuyAmount q) (n_Inventory ns)"
    and "swapped (n_Inventory b) (n_ID b) (q_BuyUnit q) (q_BuyAmount q) (q_SellUnit q) (q_SellAmount q) (n_Inventory nb)"
proof -
  from assms obtain i1 i2 j1 j2 where
    "Inventory_Sub (n_Inventory s) (n_ID s) (q_SellUnit q) (q_SellAmount q) = Inr i1"
    "inv_credit i1 (n_ID s) (q_BuyUnit q) (q_BuyAmount q) = Inr i2"
    "Inventory_Sub (n_Inventory b) (n_ID b) (q_BuyUnit q) (q_BuyAmount q) = Inr j1"
    "inv_credit j1 (n_ID b) (q_SellUnit q) (q_SellAmount q) = Inr j2"
    "recordSuccessfulTrade E ((cloneRuntimeState s)\<lparr>n_Inventory := i2\<rparr>) ((cloneRuntimeState b)\<lparr>n_Inventory := j2\<rparr>) q now
       = Inr (ns, nb)"
    by (auto simp: preparedTradeState_def Let_def cloneRuntimeState_keeps)
  moreover from this(5) have "n_Inventory ns = i2" "n_Inventory nb = j2"
    using recordSuccessfulTrade_keeps by (fastforce simp: keeps_def)+
  ultimately show "swapped (n_Inventory s) (n_ID s) (q_SellUnit q) (q_SellAmount q) (q_BuyUnit q) (q_BuyAmount q) (n_Inventory ns)"
    "swapped (n_Inventory b) (n_ID b) (q_BuyUnit q) (q_BuyAmount q) (q_SellUnit q) (q_SellAmount q) (n_Inventory nb)"
    using swapped_intro assms(2,3) by simp_all
qed


section \<open>What execution does\<close>

text \<open>A failed execution leaves a node untouched but for what reading prices fills in.\<close>

definition untouched :: "Node \<Rightarrow> Node \<Rightarrow> bool" where
  "untouched n m \<longleftrightarrow> n_ID m = n_ID n \<and> n_PublicKey m = n_PublicKey n \<and> n_PrivateKey m = n_PrivateKey n
     \<and> n_Inventory m = n_Inventory n \<and> n_Preferences m = n_Preferences n \<and> n_Features m = n_Features n
     \<and> n_TradeHistory m = n_TradeHistory n \<and> n_SettledVolume m = n_SettledVolume n
     \<and> n_LastTradeUnix m = n_LastTradeUnix n \<and> n_Flow m = n_Flow n \<and> n_Store m = n_Store n
     \<and> n_AllowEphemeralReplayUnsafe m = n_AllowEphemeralReplayUnsafe n \<and> n_NowUnix m = n_NowUnix n
     \<and> (\<forall>i. gm_get False (n_ExecutedTrades m) i = gm_get False (n_ExecutedTrades n) i)"

lemma untouched_refl [simp]: "untouched n n"
  by (simp add: untouched_def)

lemma untouched_init [simp]: "untouched n (node_init n)"
  by (simp add: untouched_def)

lemma untouched_trans: "untouched a b \<Longrightarrow> untouched b c \<Longrightarrow> untouched a c"
  by (simp add: untouched_def)

lemma untouched_cache [simp]: "untouched n (cachePrice E m u) \<longleftrightarrow> untouched n m"
  by (simp add: untouched_def)

lemma untouched_init_iff [simp]: "untouched n (node_init m) \<longleftrightarrow> untouched n m"
  by (simp add: untouched_def)

lemma untouched_accept [simp]: "untouched n (snd (acceptQuoteLocked E n q))"
  by (simp add: acceptQuoteLocked_def Let_def effectivePriceLocked_eq)

lemma untouched_rollback:
  "\<not> gm_get False (n_ExecutedTrades n) i \<Longrightarrow> untouched n m
    \<Longrightarrow> untouched n (rollbackInMemoryReplay i (reserve i m))"
  by (auto simp: untouched_def rollbackInMemoryReplay_def reserve_def gm_get_def)

text \<open>The state of one party after a trade.\<close>

definition traded :: "Node \<Rightarrow> UnitID \<Rightarrow> amount \<Rightarrow> UnitID \<Rightarrow> amount \<Rightarrow> Node \<Rightarrow> bool" where
  "traded n out a inc b m \<longleftrightarrow> n_ID m = n_ID n \<and> n_Store m = n_Store n \<and> n_NowUnix m = n_NowUnix n
     \<and> swapped (n_Inventory n) (n_ID n) out a inc b (n_Inventory m)"

lemma commit_traded:
  assumes "untouched n m" "swapped (n_Inventory m) (n_ID m) out a inc b (n_Inventory p)"
  shows "traded n out a inc b (commitPreparedState m p)"
  using assms by (simp add: untouched_def traded_def commitPreparedState_def)

lemma ExecuteTrade_error:
  assumes "ExecuteTrade E s b q = (Inl e, s', b')"
  shows "untouched s s' \<and> untouched b b'"
proof -
  obtain x s1 where s1: "acceptQuoteLocked E (node_init s) q = (x, s1)" by force
  obtain y b1 where b1: "acceptQuoteLocked E (node_init b) q = (y, b1)" by force
  have "untouched s s1" using untouched_accept [of "node_init s" E q] untouched_init untouched_trans by (metis s1 snd_conv)
  moreover have "untouched b b1" using untouched_accept [of "node_init b" E q] untouched_init untouched_trans by (metis b1 snd_conv)
  ultimately show ?thesis using assms
    by (auto simp: ExecuteTrade_def Let_def s1 b1 split: if_splits sum.splits)
qed

lemma ExecuteTrade_Inr:
  assumes "ExecuteTrade E s b q = (Inr tx, s', b')"
  obtains s1 b1 c ns nb where "untouched s s1" "untouched b b1" "q_Executable q" "n_ID s = q_Seller q" "n_ID b = q_Buyer q"
    "fst (acceptQuoteLocked E s q)" "fst (acceptQuoteLocked E b q)"
    "buildTradeTx E (n_ID s) (n_ID b) q (maxOf (n_NowUnix s) (n_NowUnix b)) = Inr tx"
    "combinedInventory s1 b1 = Inr c" "ValidateTradeTx E (Some tx) c = Inr ()"
    "preparedTradeState E s1 b1 q (maxOf (n_NowUnix s) (n_NowUnix b)) = Inr (ns, nb)"
    "s' = commitPreparedState s1 ns" "b' = commitPreparedState b1 nb"
proof -
  have i: "acceptQuoteLocked E (node_init n) q = acceptQuoteLocked E n q" for n by (simp add: acceptQuoteLocked_def)
  obtain x s1 where s1: "acceptQuoteLocked E s q = (x, s1)" by force
  obtain y b1 where b1: "acceptQuoteLocked E b q = (y, b1)" by force
  have u: "untouched s s1" "untouched b b1" using untouched_accept by (metis s1 snd_conv, metis b1 snd_conv)
  have f: "n_NowUnix s1 = n_NowUnix s" "n_NowUnix b1 = n_NowUnix b" "n_ID s1 = n_ID s" "n_ID b1 = n_ID b"
    using u by (simp_all add: untouched_def)
  show ?thesis
    using assms u that [of s1 b1]
    by (auto simp: ExecuteTrade_def Let_def i s1 b1 f split: if_splits sum.splits)
qed

lemma buildTradeTx_Inr:
  "buildTradeTx E s b q now = Inr tx \<Longrightarrow> t_PartyA tx = s \<and> t_PartyB tx = b \<and> t_Timestamp tx = now
     \<and> map v_Amount (t_InputsA tx) = [q_SellAmount q] \<and> map v_Unit (t_InputsA tx) = [q_SellUnit q]
     \<and> map v_Owner (t_InputsA tx) = [s]
     \<and> map v_Amount (t_InputsB tx) = [q_BuyAmount q] \<and> map v_Unit (t_InputsB tx) = [q_BuyUnit q]
     \<and> map v_Owner (t_InputsB tx) = [b]
     \<and> map v_Amount (t_OutputsA tx) = [q_BuyAmount q] \<and> map v_Unit (t_OutputsA tx) = [q_BuyUnit q]
     \<and> map v_Owner (t_OutputsA tx) = [s]
     \<and> map v_Amount (t_OutputsB tx) = [q_SellAmount q] \<and> map v_Unit (t_OutputsB tx) = [q_SellUnit q]
     \<and> map v_Owner (t_OutputsB tx) = [b]"
  by (auto simp: buildTradeTx_def tradeValue_def Let_def)

lemma ExecuteTrade_trades:
  assumes "ExecuteTrade E s b q = (Inr tx, s', b')" "inv_ok (n_Inventory s)" "inv_ok (n_Inventory b)"
  shows "traded s (q_SellUnit q) (q_SellAmount q) (q_BuyUnit q) (q_BuyAmount q) s'"
    and "traded b (q_BuyUnit q) (q_BuyAmount q) (q_SellUnit q) (q_SellAmount q) b'"
    and "n_ID s \<noteq> n_ID b"
proof -
  obtain s1 b1 c ns nb where 1: "untouched s s1" "untouched b b1"
    "buildTradeTx E (n_ID s) (n_ID b) q (maxOf (n_NowUnix s) (n_NowUnix b)) = Inr tx"
    "ValidateTradeTx E (Some tx) c = Inr ()"
    "preparedTradeState E s1 b1 q (maxOf (n_NowUnix s) (n_NowUnix b)) = Inr (ns, nb)"
    "s' = commitPreparedState s1 ns" "b' = commitPreparedState b1 nb"
    using ExecuteTrade_Inr [OF assms(1)] by metis
  have ok: "inv_ok (n_Inventory s1)" "inv_ok (n_Inventory b1)" using 1(1,2) assms by (simp_all add: untouched_def)
  note p = preparedTradeState_Inr [OF 1(5) ok]
  show "traded s (q_SellUnit q) (q_SellAmount q) (q_BuyUnit q) (q_BuyAmount q) s'"
    "traded b (q_BuyUnit q) (q_BuyAmount q) (q_SellUnit q) (q_SellAmount q) b'"
    unfolding 1(6,7) using commit_traded p 1(1,2) by blast+
  show "n_ID s \<noteq> n_ID b" using ValidateTradeTx_sound(3) [OF 1(4)] buildTradeTx_Inr [OF 1(3)] by simp
qed

lemma traded_conserves:
  assumes "traded s out a inc b s'" "traded t inc b out a t'"
  shows "sint (balanceLocked s' u) + sint (balanceLocked t' u) = sint (balanceLocked s u) + sint (balanceLocked t u)"
  using assms by (auto simp: traded_def swapped_def balanceLocked_def)


text \<open>The same balances as the transaction applied to the inventory of the two parties together.\<close>

lemma ExecuteTrade_refines:
  assumes "ExecuteTrade E s b q = (Inr tx, s', b')" "inv_ok (n_Inventory s)" "inv_ok (n_Inventory b)"
  shows "\<exists>c. combinedInventory s b = Inr c
    \<and> sint (balanceLocked s' u) = trade_balance c tx (n_ID s) u
    \<and> sint (balanceLocked b' u) = trade_balance c tx (n_ID b) u"
proof -
  obtain s1 b1 c where 1: "untouched s s1" "untouched b b1"
    "buildTradeTx E (n_ID s) (n_ID b) q (maxOf (n_NowUnix s) (n_NowUnix b)) = Inr tx"
    "combinedInventory s1 b1 = Inr c"
    using ExecuteTrade_Inr [OF assms(1)] by metis
  note t = ExecuteTrade_trades [OF assms]
  have "combinedInventory s b = combinedInventory s1 b1"
    using 1(1,2) by (simp add: combinedInventory_def untouched_def)
  with 1(4) have c: "combinedInventory s b = Inr c" by simp
  note g = combinedInventory_Inr(1,2) [OF c t(3) assms(2,3), of u]
  obtain i1 i2 o1 o2 where tx: "t_InputsA tx = [i1]" "t_InputsB tx = [i2]" "t_OutputsA tx = [o1]" "t_OutputsB tx = [o2]"
    "t_PartyA tx = n_ID s" "t_PartyB tx = n_ID b"
    "v_Unit i1 = q_SellUnit q" "v_Unit i2 = q_BuyUnit q" "v_Unit o1 = q_BuyUnit q" "v_Unit o2 = q_SellUnit q"
    "v_Amount i1 = q_SellAmount q" "v_Amount i2 = q_BuyAmount q" "v_Amount o1 = q_BuyAmount q" "v_Amount o2 = q_SellAmount q"
    "v_Owner o1 = n_ID s" "v_Owner o2 = n_ID b"
    using buildTradeTx_Inr [OF 1(3)] by (auto simp: map_eq_Cons_conv)
  have b: "sint (balanceLocked s' u) = trade_balance c tx (n_ID s) u"
    "sint (balanceLocked b' u) = trade_balance c tx (n_ID b) u"
    using t g tx by (auto simp: trade_balance_def traded_def swapped_def balanceLocked_def)
  from c b show ?thesis by blast
qed

text \<open>
  A party that has sold all it held of a unit keeps a holding of zero, and the next trade of the
  same node panics while the inventories are combined.
\<close>

lemma Inventory_Sub_has:
  "Inventory_Sub s p u a = Inr t \<Longrightarrow> gm_has (gm_get [] (Holdings t) p) u"
  by (auto simp: Inventory_Sub_def Let_def)

lemma credit_has:
  "inv_credit s p v a = Inr t \<Longrightarrow> gm_has (gm_get [] (Holdings s) p) u \<Longrightarrow> gm_has (gm_get [] (Holdings t) p) u"
  by (auto simp: inv_credit_def Inventory_AddChecked_def Let_def gm_get_absent split: if_splits sum.splits)

lemma preparedTradeState_held:
  assumes "preparedTradeState E s b q now = Inr (ns, nb)"
  shows "gm_has (gm_get [] (Holdings (n_Inventory ns)) (n_ID s)) (q_SellUnit q)"
proof -
  from assms obtain i0 i1 i2 sc bc where
    "Inventory_Sub i0 (n_ID s) (q_SellUnit q) (q_SellAmount q) = Inr i1"
    "inv_credit i1 (n_ID s) (q_BuyUnit q) (q_BuyAmount q) = Inr i2"
    "recordSuccessfulTrade E (sc\<lparr>n_Inventory := i2\<rparr>) bc q now = Inr (ns, nb)"
    by (auto simp: preparedTradeState_def Let_def)
  moreover from this(3) have "n_Inventory ns = i2"
    using recordSuccessfulTrade_keeps by (fastforce simp: keeps_def)
  ultimately show ?thesis using Inventory_Sub_has credit_has by metis
qed

lemma sold_out_panics:
  assumes t: "ExecuteTrade E s b q = (Inr tx, s', b')" and ok: "inv_ok (n_Inventory s)" "inv_ok (n_Inventory b)"
    and all: "q_SellAmount q = balanceLocked s (q_SellUnit q)" "q_SellUnit q \<noteq> q_BuyUnit q"
    and c: "inv_ok (n_Inventory c)"
  shows "\<exists>e. fst (ExecuteTrade E s' c q2) = Inl e"
    and "n_ID c \<noteq> n_ID s' \<Longrightarrow> \<exists>e. combinedInventory s' c = Inl e \<and> panics e"
proof -
  obtain s1 b1 ns nb where 1: "untouched s s1" 
    "preparedTradeState E s1 b1 q (maxOf (n_NowUnix s) (n_NowUnix b)) = Inr (ns, nb)"
    "s' = commitPreparedState s1 ns"
    using ExecuteTrade_Inr [OF t] by metis
  note tr = ExecuteTrade_trades(1) [OF t ok]
  have h: "gm_has (held s') (q_SellUnit q)"
    using preparedTradeState_held [OF 1(2)] 1(1,3) by (simp add: held_def commitPreparedState_def untouched_def)
  have "sint (balanceLocked s' (q_SellUnit q)) = 0"
    using tr all by (simp add: traded_def swapped_def balanceLocked_def)
  then have z: "balanceLocked s' (q_SellUnit q) = 0" by (intro signed_word_eqI) simp
  have oks: "inv_ok (n_Inventory s')" using tr by (simp add: traded_def swapped_def)
  note z = combinedInventory_zero [OF oks c _ h z]
  show "\<exists>e. combinedInventory s' c = Inl e \<and> panics e" if "n_ID c \<noteq> n_ID s'" using z that by simp
  show "\<exists>e. fst (ExecuteTrade E s' c q2) = Inl e"
  proof (cases "fst (ExecuteTrade E s' c q2)")
    case (Inr tx2)
    then obtain s2 c2 where x: "ExecuteTrade E s' c q2 = (Inr tx2, s2, c2)" by (cases "ExecuteTrade E s' c q2") simp
    obtain s1 b1 d where 2: "untouched s' s1" "untouched c b1" "combinedInventory s1 b1 = Inr d"
      using ExecuteTrade_Inr [OF x] by metis
    have "combinedInventory s' c = Inr d" using 2 by (simp add: combinedInventory_def untouched_def)
    then show ?thesis using z [OF ExecuteTrade_trades(3) [OF x oks c]] by simp
  qed simp
qed


section \<open>Signed execution\<close>

text \<open>The identifier under which a signed trade is recorded: a function of what is signed.\<close>

definition replayID :: "'x env_scheme \<Rightarrow> Quote \<Rightarrow> SignedTradeIntent \<Rightarrow> SignedTradeIntent \<Rightarrow> err + TxID" where
  "replayID E q sellerSig buyerSig =
     attempt (buildTradeTx E (q_Seller q) (q_Buyer q) q (ti_Timestamp (si_Intent sellerSig))) (\<lambda>tx.
     AuthorizedTradeID E \<lparr>at_Tx = tx, at_SellerAuth = sellerSig, at_BuyerAuth = buyerSig\<rparr>)"

lemma checkAuthorizations_Inr:
  assumes "checkAuthorizations E s b q ss bs f = Inr ()"
  shows "q_Executable q" "n_ID s = q_Seller q" "n_ID b = q_Buyer q"
    "VerifyTradeIntent E ss" "VerifyTradeIntent E bs"
    "intentMatchesQuote (si_Intent ss) q (n_ID s)" "intentMatchesQuote (si_Intent bs) q (n_ID b)"
    "ti_Timestamp (si_Intent ss) = ti_Timestamp (si_Intent bs)"
    "sint (ti_Timestamp (si_Intent ss)) \<le> sint (maxOf (n_NowUnix s) (n_NowUnix b))"
    "\<not> MaxSignedIntentAge <s maxOf (n_NowUnix s) (n_NowUnix b) - ti_Timestamp (si_Intent ss)"
    "NodeIDFromPublicKey (si_PublicKey ss) = Inr (n_ID s)" "NodeIDFromPublicKey (si_PublicKey bs) = Inr (n_ID b)"
    "requireDurableReplayGuard s b f = Inr ()" "0 < sint (ti_Timestamp (si_Intent ss))"
  using assms
  by (auto simp: checkAuthorizations_def validateSignedIntentFreshness_def Let_def publicKeyMatchesNode_def
      word_sless_alt word_sle_eq)

lemma checkAuthorizations_init [simp]:
  "checkAuthorizations E (node_init s) (node_init b) q ss bs f = checkAuthorizations E s b q ss bs f"
  by (simp add: checkAuthorizations_def validateSignedIntentFreshness_def requireDurableReplayGuard_def)

lemma persistSignedTrade_cong:
  assumes "n_Store s = n_Store s1" "n_Store b = n_Store b1" "n_ID s = n_ID s1" "n_ID b = n_ID b1"
  shows "persistSignedTrade A h s b i auth ns nb = persistSignedTrade A h s1 b1 i auth ns nb"
  unfolding persistSignedTrade_def assms ..

lemma executeSigned_Inr:
  assumes "executeSignedTrade E A h s b q ss bs f = (Inr tx, s', b', h')"
  obtains s1 b1 i ns nb where "untouched s s1" "untouched b b1" "checkAuthorizations E s b q ss bs f = Inr ()"
    "fst (acceptQuoteLocked E s q)" "fst (acceptQuoteLocked E b q)"
    "prepareSignedTrade E A h s1 b1 q ss bs
       = Inr (tx, \<lparr>at_Tx = tx, at_SellerAuth = ss, at_BuyerAuth = bs\<rparr>, i, ns, nb)"
    "replayID E q ss bs = Inr i"
    "persistSignedTrade A h s b i \<lparr>at_Tx = tx, at_SellerAuth = ss, at_BuyerAuth = bs\<rparr> ns nb = (Inr (), h')"
    "s' = commitPreparedState (reserve i s1) ns" "b' = commitPreparedState (reserve i b1) nb"
proof -
  have ai: "acceptQuoteLocked E (node_init n) q = acceptQuoteLocked E n q" for n by (simp add: acceptQuoteLocked_def)
  obtain x s1 where s1: "acceptQuoteLocked E s q = (x, s1)" by force
  obtain y b1 where b1: "acceptQuoteLocked E b q = (y, b1)" by force
  have u: "untouched s s1" "untouched b b1" using untouched_accept by (metis s1 snd_conv, metis b1 snd_conv)
  have f: "n_NowUnix s1 = n_NowUnix s" "n_NowUnix b1 = n_NowUnix b" "n_ID s1 = n_ID s" "n_ID b1 = n_ID b"
    "n_Store s1 = n_Store s" "n_Store b1 = n_Store b"
    using u by (simp_all add: untouched_def)
  have c: "checkAuthorizations E s b q ss bs f = Inr ()" 
    using assms by (auto simp: executeSignedTrade_def Let_def split: sum.splits)
  note ch = checkAuthorizations_Inr [OF c]
  from assms c obtain auth i ns nb where x: "x" "y" and
    p: "prepareSignedTrade E A h s1 b1 q ss bs = Inr (tx, auth, i, ns, nb)"
    and per: "persistSignedTrade A h (reserve i s1) (reserve i b1) i auth ns nb = (Inr (), h')"
    "s' = commitPreparedState (reserve i s1) ns" "b' = commitPreparedState (reserve i b1) nb"
    by (auto simp: executeSignedTrade_def Let_def ai s1 b1 reserveInMemoryReplay_def split: if_splits sum.splits prod.splits)
  have a: "auth = \<lparr>at_Tx = tx, at_SellerAuth = ss, at_BuyerAuth = bs\<rparr>" and r: "replayID E q ss bs = Inr i"
    using p by (auto simp: prepareSignedTrade_def Let_def replayID_def f ch(2,3))
  have "persistSignedTrade A h (reserve i s1) (reserve i b1) i auth ns nb = persistSignedTrade A h s b i auth ns nb"
    by (rule persistSignedTrade_cong) (simp_all add: reserve_def f)
  then show ?thesis using that [of s1 b1 i ns nb] u c x p per a r s1 b1 by simp
qed


lemma prepareSigned_Inr:
  assumes "prepareSignedTrade E A h s b q ss bs = Inr (tx, auth, i, ns, nb)"
  shows "buildTradeTx E (n_ID s) (n_ID b) q (ti_Timestamp (si_Intent ss)) = Inr tx"
    and "\<exists>c. combinedInventory s b = Inr c \<and> ValidateTradeTx E (Some tx) c = Inr ()"
    and "preparedTradeState E s b q (ti_Timestamp (si_Intent ss)) = Inr (ns, nb)"
    and "\<not> gm_get False (n_ExecutedTrades s) i" "\<not> gm_get False (n_ExecutedTrades b) i"
    and "n_Store s = Some p \<Longrightarrow> \<not> HasExecutedTrade A (h p) i"
    and "n_Store b = Some p \<Longrightarrow> \<not> HasExecutedTrade A (h p) i"
    and "n_Store s \<noteq> None \<Longrightarrow> n_Store b \<noteq> None \<Longrightarrow> n_Store s = n_Store b"
  using assms
  by (auto simp: prepareSignedTrade_def Let_def rejectInMemoryReplay_def rejectReplayCheck_def
      split: if_splits option.splits)

lemma reserve_simps [simp]:
  "n_ID (reserve i n) = n_ID n" "n_Inventory (reserve i n) = n_Inventory n" "n_Store (reserve i n) = n_Store n"
  "n_ExecutedTrades (commitPreparedState n m) = n_ExecutedTrades n"
  "gm_get False (n_ExecutedTrades (reserve i n)) j \<longleftrightarrow> j = i \<or> gm_get False (n_ExecutedTrades n) j"
  by (simp_all add: reserve_def commitPreparedState_def)

lemma commit_reserve_traded:
  assumes "untouched n m" "swapped (n_Inventory m) (n_ID m) out a inc b (n_Inventory p)"
  shows "traded n out a inc b (commitPreparedState (reserve i m) p)"
  using assms by (simp add: untouched_def traded_def commitPreparedState_def reserve_def)

text \<open>An executed signed trade.\<close>

lemma executeSigned_trades:
  assumes x: "executeSignedTrade E A h s b q ss bs f = (Inr tx, s', b', h')"
    and ok: "inv_ok (n_Inventory s)" "inv_ok (n_Inventory b)"
  shows "traded s (q_SellUnit q) (q_SellAmount q) (q_BuyUnit q) (q_BuyAmount q) s'"
    and "traded b (q_BuyUnit q) (q_BuyAmount q) (q_SellUnit q) (q_SellAmount q) b'"
    and "n_ID s \<noteq> n_ID b"
proof -
  from x obtain s1 b1 i ns nb where 1: "untouched s s1" "untouched b b1"
    "prepareSignedTrade E A h s1 b1 q ss bs
       = Inr (tx, \<lparr>at_Tx = tx, at_SellerAuth = ss, at_BuyerAuth = bs\<rparr>, i, ns, nb)"
    "s' = commitPreparedState (reserve i s1) ns" "b' = commitPreparedState (reserve i b1) nb"
    by (rule executeSigned_Inr)
  note p = prepareSigned_Inr [OF 1(3)]
  have ok1: "inv_ok (n_Inventory s1)" "inv_ok (n_Inventory b1)" using 1(1,2) ok by (simp_all add: untouched_def)
  note t = preparedTradeState_Inr [OF p(3) ok1]
  show "traded s (q_SellUnit q) (q_SellAmount q) (q_BuyUnit q) (q_BuyAmount q) s'"
    "traded b (q_BuyUnit q) (q_BuyAmount q) (q_SellUnit q) (q_SellAmount q) b'"
    unfolding 1(4,5) using commit_reserve_traded t 1(1,2) by blast+
  obtain c where c: "ValidateTradeTx E (Some tx) c = Inr ()" using p(2) by blast
  show "n_ID s \<noteq> n_ID b"
    using ValidateTradeTx_sound(3) [OF c] buildTradeTx_Inr [OF p(1)] 1(1,2) by (simp add: untouched_def)
qed

text \<open>Replay: the trade was recorded nowhere before, and both nodes remember it afterwards.\<close>

lemma executeSigned_fresh:
  assumes x: "executeSignedTrade E A h s b q ss bs f = (Inr tx, s', b', h')" and i: "replayID E q ss bs = Inr i"
  shows "\<not> gm_get False (n_ExecutedTrades s) i" "\<not> gm_get False (n_ExecutedTrades b) i"
    and "n_Store s = Some p \<Longrightarrow> \<not> HasExecutedTrade A (h p) i"
    and "n_Store b = Some p \<Longrightarrow> \<not> HasExecutedTrade A (h p) i"
    and "gm_get False (n_ExecutedTrades s') j \<longleftrightarrow> j = i \<or> gm_get False (n_ExecutedTrades s) j"
    and "gm_get False (n_ExecutedTrades b') j \<longleftrightarrow> j = i \<or> gm_get False (n_ExecutedTrades b) j"
proof -
  from x obtain s1 b1 i' ns nb where 1: "untouched s s1" "untouched b b1" "replayID E q ss bs = Inr i'"
    "prepareSignedTrade E A h s1 b1 q ss bs
       = Inr (tx, \<lparr>at_Tx = tx, at_SellerAuth = ss, at_BuyerAuth = bs\<rparr>, i', ns, nb)"
    "s' = commitPreparedState (reserve i' s1) ns" "b' = commitPreparedState (reserve i' b1) nb"
    by (rule executeSigned_Inr)
  have ii: "i' = i" using 1(3) i by simp
  note p = prepareSigned_Inr [OF 1(4) [unfolded ii]]
  show "\<not> gm_get False (n_ExecutedTrades s) i" "\<not> gm_get False (n_ExecutedTrades b) i"
    "n_Store s = Some p \<Longrightarrow> \<not> HasExecutedTrade A (h p) i" "n_Store b = Some p \<Longrightarrow> \<not> HasExecutedTrade A (h p) i"
    using p 1(1,2) by (simp_all add: untouched_def)
  show "gm_get False (n_ExecutedTrades s') j \<longleftrightarrow> j = i \<or> gm_get False (n_ExecutedTrades s) j"
    "gm_get False (n_ExecutedTrades b') j \<longleftrightarrow> j = i \<or> gm_get False (n_ExecutedTrades b) j"
    using 1(1,2) by (simp_all add: 1(5,6) ii untouched_def)
qed

text \<open>A failed signed execution changes no node; the stores change only in a failed write.\<close>

lemma executeSigned_error:
  assumes "executeSignedTrade E A h s b q ss bs f = (Inl e, s', b', h')"
  shows "untouched s s' \<and> untouched b b'"
proof -
  have ai: "acceptQuoteLocked E (node_init n) q = acceptQuoteLocked E n q" for n by (simp add: acceptQuoteLocked_def)
  obtain x s1 where s1: "acceptQuoteLocked E s q = (x, s1)" by force
  obtain y b1 where b1: "acceptQuoteLocked E b q = (y, b1)" by force
  have u: "untouched s s1" "untouched b b1" using untouched_accept by (metis s1 snd_conv, metis b1 snd_conv)
  have r: "untouched n (rollbackInMemoryReplay i (reserve i m))"
    if "untouched n m" "\<not> gm_get False (n_ExecutedTrades m) i" for n m i
    using that untouched_rollback [of n i m] by (simp add: untouched_def)
  show ?thesis using assms u
    by (auto simp: executeSignedTrade_def Let_def ai s1 b1 reserveInMemoryReplay_def rejectInMemoryReplay_def guard_def r
        split: if_splits sum.splits prod.splits)
qed

context trade_store
begin

lemma persistAt_Inr:
  assumes "persistAt A h p i auth states = (Inr (), h')" "\<forall>p. good (h p)"
  shows "HasExecutedTrade A (h' p) i" "\<forall>p. good (h' p)" "HasExecutedTrade A (h r) j \<Longrightarrow> HasExecutedTrade A (h' r) j"
  using assms persist_ok [of "h p" i auth states] persist_good [of "h p" i auth states] persist_keeps [of "h p" j i auth states]
  by (auto simp: persistAt_def split: prod.splits)

text \<open>Once a signed trade is durable, the store of either party knows it.\<close>

lemma persistSigned_known:
  assumes "persistSignedTrade A h s b i auth ns nb = (Inr (), h')" "\<forall>p. good (h p)"
  shows "n_Store s = Some p \<Longrightarrow> HasExecutedTrade A (h' p) i" "n_Store b = Some p \<Longrightarrow> HasExecutedTrade A (h' p) i"
    and "\<forall>p. good (h' p)" "HasExecutedTrade A (h r) j \<Longrightarrow> HasExecutedTrade A (h' r) j"
  using assms persistAt_Inr
  by (auto simp: persistSignedTrade_def split: option.splits if_splits prod.splits sum.splits)

lemma signed_trade_known:
  assumes x: "executeSignedTrade E A h s b q ss bs f = (Inr tx, s', b', h')" and i: "replayID E q ss bs = Inr i"
    and g: "\<forall>p. good (h p)" and p: "n_Store s = Some p \<or> n_Store b = Some p"
  shows "HasExecutedTrade A (h' p) i"
proof -
  from x obtain i' ns nb where 1: "replayID E q ss bs = Inr i'"
    "persistSignedTrade A h s b i' \<lparr>at_Tx = tx, at_SellerAuth = ss, at_BuyerAuth = bs\<rparr> ns nb = (Inr (), h')"
    by (rule executeSigned_Inr)
  then show ?thesis using persistSigned_known(1,2) [OF 1(2) g] i p by auto
qed

text \<open>
  No trade is executed twice on one store, whatever the nodes are: they may be restarted from the
  store, and may be given the other party as a mere shadow.
\<close>

lemma no_replay:
  assumes "executeSignedTrade E A h s b q ss bs f = (Inr tx, s', b', h')" "\<forall>p. good (h p)"
    and "n_Store s = Some p \<or> n_Store b = Some p" "n_Store s2 = Some p \<or> n_Store b2 = Some p"
    and later: "\<forall>j. HasExecutedTrade A (h' p) j \<longrightarrow> HasExecutedTrade A (h2 p) j"
  shows "\<exists>e. fst (executeSignedTrade E A h2 s2 b2 q ss bs f2) = Inl e"
proof (cases "executeSignedTrade E A h2 s2 b2 q ss bs f2")
  case (fields r s3 b3 h3)
  from assms(1) obtain i where i: "replayID E q ss bs = Inr i" by (rule executeSigned_Inr)
  have k: "HasExecutedTrade A (h2 p) i" using signed_trade_known [OF assms(1) i assms(2,3)] later by blast
  show ?thesis
  proof (cases r)
    case (Inr tx2)
    then show ?thesis using executeSigned_fresh(3,4) [of E A h2 s2 b2 q ss bs f2 tx2 s3 b3 h3 i p] fields i k assms(4) by auto
  qed (simp add: fields)
qed

end

end
