(* ===== verification/Sessions.thy ===== *)
theory Sessions
  imports Message Trade
begin

text \<open>
  \<open>core/handler/session.go\<close> and \<open>core/handler/state.go\<close>: what a node remembers of the negotiation with
  one peer, and the checks on quotes and intents. The methods are those of a session that is not
  nil; its maps are empty lists where Go has nil maps.
\<close>

section \<open>Sessions\<close>

definition duplicateMessage :: err where "duplicateMessage = Err [ErrDuplicateMessage] ''duplicate message''"
definition unexpectedMessage :: err where "unexpectedMessage = Err [ErrUnexpectedMessage] ''unexpected message''"
definition invalidState :: err where "invalidState = Err [ErrInvalidState] ''invalid state''"
definition invalidPeer :: err where "invalidPeer = Err [ErrInvalidPeer] ''invalid peer''"
definition invalidPayload :: err where "invalidPayload = Err [ErrInvalidPayload] ''invalid payload''"
definition tradeExecutionFailed :: err where
  "tradeExecutionFailed = Err [ErrTradeExecutionFailed] ''trade execution failed''"

text \<open>\<open>fmt.Errorf("%w: text", sentinel)\<close> and \<open>fmt.Errorf("%w: %v", sentinel, err)\<close>.\<close>

definition because :: "err \<Rightarrow> string \<Rightarrow> err" where
  "because s t = Err (err_kinds s) (err_text s @ '': '' @ t)"

record Session =
  s_LocalID :: NodeID
  s_PeerID :: NodeID
  s_PendingRequests :: "(TxID, QuoteRequestPayload) gomap"
  s_PendingQuotes :: "(TxID, QuoteResponsePayload) gomap"
  s_PendingIntents :: "(TxID, SignedTradeIntent list) gomap"
  s_PendingTrades :: "(TxID, AuthorizedTradeTx) gomap"
  s_SeenMessages :: "(TxID, bool) gomap"
  s_LastSeenUnix :: int64

definition NewSession :: "NodeID \<Rightarrow> NodeID \<Rightarrow> Session" where
  "NewSession localID peerID =
     \<lparr>s_LocalID = localID, s_PeerID = peerID, s_PendingRequests = [], s_PendingQuotes = [],
      s_PendingIntents = [], s_PendingTrades = [], s_SeenMessages = [], s_LastSeenUnix = 0\<rparr>"

definition HasSeen :: "Session \<Rightarrow> TxID \<Rightarrow> bool" where
  "HasSeen s i \<longleftrightarrow> gm_get False (s_SeenMessages s) i"

definition MarkSeen :: "Session \<Rightarrow> TxID \<Rightarrow> err + Session" where
  "MarkSeen s i =
     guard (gm_get False (s_SeenMessages s) i) duplicateMessage
     (Inr (s\<lparr>s_SeenMessages := gm_put (s_SeenMessages s) i True\<rparr>))"

text \<open>The comparison leaves out the party, which differs between the two intents of a quote.\<close>

definition h_intentMatchesQuote :: "TradeIntent \<Rightarrow> QuoteResponsePayload \<Rightarrow> bool" where
  "h_intentMatchesQuote intent quote \<longleftrightarrow>
     ti_Seller intent = qp_Seller quote \<and> ti_Buyer intent = qp_Buyer quote
     \<and> ti_SellUnit intent = qp_SellUnit quote \<and> ti_BuyUnit intent = qp_BuyUnit quote
     \<and> ti_SellAmount intent = qp_SellAmount quote \<and> ti_BuyAmount intent = qp_BuyAmount quote
     \<and> ti_Timestamp intent = qp_ExpiryUnix quote"

definition ClearNegotiation :: "Session \<Rightarrow> TxID \<Rightarrow> QuoteResponsePayload \<Rightarrow> TxID \<Rightarrow> Session" where
  "ClearNegotiation s qid quote authID =
     s\<lparr>s_PendingQuotes := gm_del (s_PendingQuotes s) qid,
       s_PendingIntents := gm_del (s_PendingIntents s) qid,
       s_PendingRequests := gm_del (s_PendingRequests s) (qp_RequestID quote),
       s_PendingTrades :=
         filter (\<lambda>(i, pending). \<not> (h_intentMatchesQuote (si_Intent (at_SellerAuth pending)) quote
                                  \<and> h_intentMatchesQuote (si_Intent (at_BuyerAuth pending)) quote))
           (if authID \<noteq> TxID 0 then gm_del (s_PendingTrades s) authID else s_PendingTrades s)\<rparr>"

text \<open>
  The loops range over a map from which their body deletes no key but the current one, so they visit
  what was there at the start.
\<close>

definition ClearRequest :: "Session \<Rightarrow> TxID \<Rightarrow> Session" where
  "ClearRequest s requestID =
     (let s1 = foldl (\<lambda>s (qid, quote). if qp_RequestID quote = requestID then ClearNegotiation s qid quote (TxID 0) else s)
                 s (s_PendingQuotes s)
      in s1\<lparr>s_PendingRequests := gm_del (s_PendingRequests s1) requestID\<rparr>)"

definition h_isExpired :: "int64 \<Rightarrow> int64 \<Rightarrow> bool" where
  "h_isExpired expiryUnix nowUnix \<longleftrightarrow> 0 <s expiryUnix \<and> expiryUnix <s nowUnix"

definition PruneExpired :: "Session \<Rightarrow> int64 \<Rightarrow> Session" where
  "PruneExpired s nowUnix =
     (let s1 = foldl (\<lambda>s (requestID, req). if h_isExpired (qr_ExpiryUnix req) nowUnix then ClearRequest s requestID else s)
                 s (s_PendingRequests s)
      in foldl (\<lambda>s (qid, quote). if h_isExpired (qp_ExpiryUnix quote) nowUnix then ClearNegotiation s qid quote (TxID 0) else s)
           s1 (s_PendingQuotes s1))"

section \<open>The text of a price\<close>

text \<open>
  The verb \<open>%.17g\<close>: 17 significant digits, ties to even, without trailing zeros; scientific below
  0.0001 and from ten to the 17 on.
\<close>

definition pow10 :: "int \<Rightarrow> rat" where
  "pow10 e = (if 0 \<le> e then 10 ^ nat e else 1 / 10 ^ nat (- e))"

definition exponent10 :: "rat \<Rightarrow> int" where
  "exponent10 r = (case List.find (\<lambda>e. pow10 e \<le> r) (rev [-324..308]) of Some e \<Rightarrow> e | None \<Rightarrow> -324)"

definition sig17 :: "rat \<Rightarrow> string \<times> int" where
  "sig17 r =
     (let e = exponent10 r; n = nat (round_half_even (r / pow10 (e - 16)));
          (n, e) = (if n = 10 ^ 17 then (10 ^ 16, e + 1) else (n, e)) in
      (rev (dropWhile (\<lambda>c. c = CHR ''0'') (rev (dec_nat n))), e))"

definition fmt17_pos :: "rat \<Rightarrow> string" where
  "fmt17_pos r =
     (let (ds, e) = sig17 r in
      if e < -4 \<or> 17 \<le> e
      then take 1 ds @ (if 1 < length ds then CHR ''.'' # drop 1 ds else [])
           @ (if e < 0 then ''e-'' else ''e+'')
           @ (let x = dec_nat (nat \<bar>e\<bar>) in if length x < 2 then CHR ''0'' # x else x)
      else if e < 0 then ''0.'' @ replicate (nat (- e) - 1) (CHR ''0'') @ ds
      else let k = nat e + 1 in
           take k ds @ replicate (k - length ds) (CHR ''0'')
           @ (if k < length ds then CHR ''.'' # drop k ds else []))"

fun fmt17 :: "float64 \<Rightarrow> string" where
  "fmt17 NaN = ''NaN''"
| "fmt17 (Inf s) = (if s then ''-Inf'' else ''+Inf'')"
| "fmt17 NegZero = ''-0''"
| "fmt17 (Fin r) = (if r = 0 then ''0'' else if r < 0 then CHR ''-'' # fmt17_pos (- r) else fmt17_pos r)"

section \<open>Quotes on the wire\<close>

definition boolString :: "bool \<Rightarrow> string" where
  "boolString v = (if v then ''true'' else ''false'')"

definition quoteFromResponse :: "QuoteResponsePayload \<Rightarrow> Quote" where
  "quoteFromResponse p =
     \<lparr>q_Seller = qp_Seller p, q_Buyer = qp_Buyer p, q_SellUnit = qp_SellUnit p, q_BuyUnit = qp_BuyUnit p,
      q_SellAmount = qp_SellAmount p, q_BuyAmount = qp_BuyAmount p, q_SellerAsk = qp_SellerAsk p,
      q_BuyerBid = qp_BuyerBid p, q_Executable = qp_Executable p, q_Reason = qp_Reason p,
      q_Timestamp = qp_ExpiryUnix p\<rparr>"

definition quoteFromIntent :: "TradeIntent \<Rightarrow> Quote" where
  "quoteFromIntent intent =
     \<lparr>q_Seller = ti_Seller intent, q_Buyer = ti_Buyer intent, q_SellUnit = ti_SellUnit intent,
      q_BuyUnit = ti_BuyUnit intent, q_SellAmount = ti_SellAmount intent, q_BuyAmount = ti_BuyAmount intent,
      q_SellerAsk = ToFloat (ti_BuyAmount intent), q_BuyerBid = ToFloat (ti_BuyAmount intent),
      q_Executable = True, q_Reason = ''authorized'', q_Timestamp = ti_Timestamp intent\<rparr>"

definition quoteIDPreimage :: "QuoteResponsePayload \<Rightarrow> err + bytes" where
  "quoteIDPreimage p = EncodeFields
     [(''kind'', VString ''quote_response''),
      (''request_id'', VBytes (hashBytes (tx_hash (qp_RequestID p)))),
      (''seller'', VBytes (NodeID_Bytes (qp_Seller p))),
      (''buyer'', VBytes (NodeID_Bytes (qp_Buyer p))),
      (''sell_unit'', VBytes (hashBytes (unit_hash (qp_SellUnit p)))),
      (''buy_unit'', VBytes (hashBytes (unit_hash (qp_BuyUnit p)))),
      (''sell_amount'', VInt (qp_SellAmount p)),
      (''buy_amount'', VInt (qp_BuyAmount p)),
      (''seller_ask'', VString (fmt17 (qp_SellerAsk p))),
      (''buyer_bid'', VString (fmt17 (qp_BuyerBid p))),
      (''executable'', VString (boolString (qp_Executable p))),
      (''reason'', VString (qp_Reason p)),
      (''expiry_unix'', VInt (qp_ExpiryUnix p))]"

definition quoteID :: "'x env_scheme \<Rightarrow> QuoteResponsePayload \<Rightarrow> err + TxID" where
  "quoteID E p = attempt (quoteIDPreimage p) (\<lambda>preimage. Inr (TxID (HashBytes E preimage)))"

definition quoteResponseFromQuote :: "'x env_scheme \<Rightarrow> TxID \<Rightarrow> Quote \<Rightarrow> err + QuoteResponsePayload" where
  "quoteResponseFromQuote E requestID q =
     (let p = \<lparr>qp_RequestID = requestID, qp_QuoteID = TxID 0, qp_Seller = q_Seller q, qp_Buyer = q_Buyer q,
               qp_SellUnit = q_SellUnit q, qp_BuyUnit = q_BuyUnit q, qp_SellAmount = q_SellAmount q,
               qp_BuyAmount = q_BuyAmount q, qp_SellerAsk = q_SellerAsk q, qp_BuyerBid = q_BuyerBid q,
               qp_Executable = q_Executable q, qp_Reason = q_Reason q, qp_ExpiryUnix = q_Timestamp q\<rparr> in
      attempt (quoteID E p) (\<lambda>i. Inr (p\<lparr>qp_QuoteID := i\<rparr>)))"

section \<open>Transactions\<close>

definition h_tradeValue :: "'x env_scheme \<Rightarrow> UnitID \<Rightarrow> amount \<Rightarrow> NodeID \<Rightarrow> int64 \<Rightarrow> err + Value" where
  "h_tradeValue E unit a owner createdAt =
     (let value = \<lparr>v_ID = ValueID 0, v_Unit = unit, v_Amount = a, v_Owner = owner, v_CreatedAt = createdAt,
                   v_Issuer = NodeID 0, v_ExpiryUnix = 0, v_Depth = 0\<rparr> in
      attempt (ValueIDFor E value) (\<lambda>i. Inr (value\<lparr>v_ID := i\<rparr>)))"

definition h_buildTradeTx :: "'x env_scheme \<Rightarrow> Quote \<Rightarrow> err + TradeTx" where
  "h_buildTradeTx E q =
     attempt (h_tradeValue E (q_SellUnit q) (q_SellAmount q) (q_Seller q) (q_Timestamp q)) (\<lambda>inputSeller.
     attempt (h_tradeValue E (q_BuyUnit q) (q_BuyAmount q) (q_Buyer q) (q_Timestamp q + 1)) (\<lambda>inputBuyer.
     attempt (h_tradeValue E (q_BuyUnit q) (q_BuyAmount q) (q_Seller q) (q_Timestamp q + 2)) (\<lambda>outputSeller.
     attempt (h_tradeValue E (q_SellUnit q) (q_SellAmount q) (q_Buyer q) (q_Timestamp q + 3)) (\<lambda>outputBuyer.
     let tx = \<lparr>t_ID = TxID 0, t_InputsA = [inputSeller], t_InputsB = [inputBuyer], t_OutputsA = [outputSeller],
               t_OutputsB = [outputBuyer], t_PartyA = q_Seller q, t_PartyB = q_Buyer q, t_Timestamp = q_Timestamp q\<rparr> in
     attempt (TradeTxID E tx) (\<lambda>i. Inr (tx\<lparr>t_ID := i\<rparr>))))))"

definition buildAuthorizedTrade ::
    "'x env_scheme \<Rightarrow> Quote \<Rightarrow> SignedTradeIntent \<Rightarrow> SignedTradeIntent \<Rightarrow> err + AuthorizedTradeTx \<times> TxID" where
  "buildAuthorizedTrade E q sellerSig buyerSig =
     attempt (h_buildTradeTx E q) (\<lambda>tx.
     let auth = \<lparr>at_Tx = tx, at_SellerAuth = sellerSig, at_BuyerAuth = buyerSig\<rparr> in
     attempt (AuthorizedTradeID E auth) (\<lambda>i. Inr (auth, i)))"

section \<open>Checks\<close>

definition validateQuoteFreshness :: "QuoteRequestPayload option \<Rightarrow> QuoteResponsePayload \<Rightarrow> int64 \<Rightarrow> err + unit" where
  "validateQuoteFreshness oreq q nowUnix =
     attempt (case oreq of None \<Rightarrow> Inr ()
       | Some req \<Rightarrow>
           guard (h_isExpired (qr_ExpiryUnix req) nowUnix) (errorf ''quote request is expired'')
           (if 0 <s qr_ExpiryUnix req then
              guard (qp_ExpiryUnix q = 0) (errorf ''quote response removes request expiry'')
              (guard (qr_ExpiryUnix req <s qp_ExpiryUnix q) (errorf ''quote response extends request expiry'')
              (Inr ()))
            else Inr ())) (\<lambda>_.
     guard (h_isExpired (qp_ExpiryUnix q) nowUnix) (errorf ''quote response is expired'')
     (Inr ()))"

definition quoteSpreadSlack :: float64 where
  "quoteSpreadSlack = fdiv (Fin 1) (of_int64 AmountScale)"

definition validateQuoteMatchesRequest ::
    "QuoteResponsePayload \<Rightarrow> QuoteRequestPayload \<Rightarrow> int64 \<Rightarrow> err + unit" where
  "validateQuoteMatchesRequest q req nowUnix =
     guard (qp_RequestID q \<noteq> qr_RequestID req \<or> qp_Seller q \<noteq> qr_Seller req \<or> qp_Buyer q \<noteq> qr_Buyer req
         \<or> qp_SellUnit q \<noteq> qr_SellUnit req \<or> qp_BuyUnit q \<noteq> qr_BuyUnit req \<or> qp_SellAmount q \<noteq> qr_SellAmount req)
       (errorf ''quote response does not match request'')
     (attempt (validateQuoteFreshness (Some req) q nowUnix) (\<lambda>_.
     guard (flt (qr_SpreadLimit req) (Fin 0)) (errorf ''quote request spread limit is invalid'')
     (if qp_Executable q then
        guard (fle (qp_SellerAsk q) (Fin 0) \<or> fle (qp_BuyerBid q) (Fin 0))
          (errorf ''executable quote prices must be greater than zero'')
        (guard (flt (qp_BuyerBid q) (qp_SellerAsk q)) (errorf ''quote response bid is below ask'')
        (let spread = fdiv (fsub (qp_BuyerBid q) (qp_SellerAsk q)) (qp_SellerAsk q) in
         guard (flt (fadd (qr_SpreadLimit req) quoteSpreadSlack) spread)
           (errorf ''quote response exceeds request spread limit'')
         (Inr ())))
      else Inr ())))"

text \<open>The loop keeps the last intent of either party; a signature that is still nil is missing.\<close>

definition selectIntents ::
    "SignedTradeIntent list \<Rightarrow> NodeID \<Rightarrow> NodeID \<Rightarrow> (SignedTradeIntent \<times> SignedTradeIntent) option" where
  "selectIntents intents seller buyer =
     (let (sellerSig, buyerSig) = foldl (\<lambda>(ss, bs) intent.
            if ti_Party (si_Intent intent) = seller then (Some intent, bs)
            else if ti_Party (si_Intent intent) = buyer then (ss, Some intent) else (ss, bs)) (None, None) intents in
      case (sellerSig, buyerSig) of
        (Some ss, Some bs) \<Rightarrow> if si_Signature ss \<noteq> [] \<and> si_Signature bs \<noteq> [] then Some (ss, bs) else None
      | _ \<Rightarrow> None)"

definition hasPartyIntent :: "SignedTradeIntent list \<Rightarrow> NodeID \<Rightarrow> bool" where
  "hasPartyIntent intents party \<longleftrightarrow> list_ex (\<lambda>intent. ti_Party (si_Intent intent) = party) intents"

definition signedIntentEqual :: "SignedTradeIntent \<Rightarrow> SignedTradeIntent \<Rightarrow> bool" where
  "signedIntentEqual a b \<longleftrightarrow> si_Intent a = si_Intent b \<and> si_PublicKey a = si_PublicKey b \<and> si_Signature a = si_Signature b"

definition hasSignedIntent :: "SignedTradeIntent list \<Rightarrow> SignedTradeIntent \<Rightarrow> bool" where
  "hasSignedIntent intents target \<longleftrightarrow> list_ex (\<lambda>intent. signedIntentEqual intent target) intents"

definition authorizedTradeEqual :: "'x env_scheme \<Rightarrow> AuthorizedTradeTx \<Rightarrow> AuthorizedTradeTx \<Rightarrow> bool" where
  "authorizedTradeEqual E a b = (case (AuthorizedTradeID E a, AuthorizedTradeID E b) of
     (Inr aID, Inr bID) \<Rightarrow> aID = bID | _ \<Rightarrow> False)"

end
