(* ===== verification/Handler.thy ===== *)
theory Handler
  imports Sessions
begin

text \<open>
  \<open>core/handler/handler.go\<close>: the reaction of a node to one message of its peer.

  A handler has its node and its session; both are never nil here, as \<open>NewHandler\<close> sees to it. An
  operation returns \<open>Inl\<close> when it panics, and otherwise its reply: the message to send, if any, and
  the error, if any (a failed execution has both). The nonce of a response is the argument \<open>rand\<close>, the
  outcome of the one call of \<open>rand.Read\<close> that a reaction makes at most; the clock is read from the
  node. \<open>A\<close> and \<open>hp\<close> are the operations of the stores and their states.
\<close>

section \<open>Handlers\<close>

record Handler =
  h_Node :: Node
  h_Session :: Session

type_synonym reply = "Message option \<times> err option"

definition NewHandler :: "Node option \<Rightarrow> Session option \<Rightarrow> err + Handler" where
  "NewHandler n s = (case n of None \<Rightarrow> Inl (because invalidState ''node is nil'')
     | Some n \<Rightarrow> (case s of None \<Rightarrow> Inl (because invalidState ''session is nil'')
     | Some s \<Rightarrow> guard (s_LocalID s \<noteq> n_ID n) (because invalidState ''session local id mismatch'')
         (Inr \<lparr>h_Node = n, h_Session = s\<rparr>)))"

definition setSession :: "Handler \<Rightarrow> Session \<Rightarrow> Handler" where
  "setSession h s = h\<lparr>h_Session := s\<rparr>"

definition reply_of :: "err + Message \<Rightarrow> reply" where
  "reply_of r = (case r of Inl e \<Rightarrow> (None, Some e) | Inr m \<Rightarrow> (Some m, None))"

definition fails :: "err \<Rightarrow> reply" where
  "fails e = (None, Some e)"

definition silent :: reply where
  "silent = (None, None)"

definition SignResponse ::
    "'x jenv_scheme \<Rightarrow> err + nonce \<Rightarrow> Handler \<Rightarrow> MessageType \<Rightarrow> Payload \<Rightarrow> err + Message" where
  "SignResponse E rand h msgType payload =
     guard (n_PrivateKey (h_Node h) = []) (because invalidState ''node has no private key'')
     (attempt rand (\<lambda>nonce.
     attempt (SignEnvelope E (n_PrivateKey (h_Node h)) msgType payload (n_NowUnix (h_Node h)) nonce) (\<lambda>(env, payloadBytes).
     Inr \<lparr>m_Envelope = env, m_PayloadBytes = payloadBytes\<rparr>)))"

definition h_reject :: "'x jenv_scheme \<Rightarrow> err + nonce \<Rightarrow> Handler \<Rightarrow> TxID \<Rightarrow> string \<Rightarrow> string \<Rightarrow> reply" where
  "h_reject E rand h ref code reason =
     reply_of (SignResponse E rand h TypeReject (RejectP \<lparr>jp_RefMessageID = ref, jp_Code = code, jp_Reason = reason\<rparr>))"

section \<open>The shadow of the peer\<close>

text \<open>
  A stand-in for the other node: it has the same clock, the default prices, and ten times the amount
  it is asked for.
\<close>

definition configureUnit :: "'x env_scheme \<Rightarrow> Node \<Rightarrow> UnitID \<Rightarrow> Node" where
  "configureUnit E n unit =
     snd (Node_ComputePrice E (n\<lparr>n_Features := gm_put (n_Features n) unit \<lparr>af_Cost = Fin 1, af_Age = Fin 0, af_Stability = Fin 0\<rparr>,
                                 n_PriceConfig := DefaultPriceConfig\<rparr>) unit)"

definition peerShadow ::
    "'x env_scheme \<Rightarrow> Handler \<Rightarrow> NodeID \<Rightarrow> UnitID \<Rightarrow> UnitID \<Rightarrow> amount \<Rightarrow> err + Node" where
  "peerShadow E h nid inventoryUnit priceUnit a =
     (let peer = (NewBare (n_NowUnix (h_Node h)) nid)\<lparr>n_PriceConfig := DefaultPriceConfig\<rparr>;
          peer = configureUnit E peer inventoryUnit;
          peer = configureUnit E peer priceUnit;
          inventoryAmount = (if a \<le>s 922337203685477580 then a * 10 else a) in
      AddInventory peer inventoryUnit inventoryAmount)"

definition executionParties ::
    "'x env_scheme \<Rightarrow> Handler \<Rightarrow> Quote \<Rightarrow> AuthorizedTradeTx \<Rightarrow> err + Node \<times> Node" where
  "executionParties E h q auth =
     (if n_ID (h_Node h) = q_Seller q then
        attempt (peerShadow E h (q_Buyer q) (q_BuyUnit q) (q_SellUnit q) (q_BuyAmount q)) (\<lambda>buyer.
        Inr (h_Node h, buyer\<lparr>n_PublicKey := si_PublicKey (at_BuyerAuth auth)\<rparr>))
      else
        attempt (peerShadow E h (q_Seller q) (q_SellUnit q) (q_BuyUnit q) (q_SellAmount q)) (\<lambda>seller.
        Inr (seller\<lparr>n_PublicKey := si_PublicKey (at_SellerAuth auth)\<rparr>, h_Node h)))"

section \<open>Roles\<close>

definition sessionOwnsParties :: "Handler \<Rightarrow> NodeID \<Rightarrow> NodeID \<Rightarrow> bool" where
  "sessionOwnsParties h seller buyer \<longleftrightarrow>
     (seller = s_LocalID (h_Session h) \<and> buyer = s_PeerID (h_Session h))
     \<or> (seller = s_PeerID (h_Session h) \<and> buyer = s_LocalID (h_Session h))"

definition requireSessionCounterparty :: "Handler \<Rightarrow> NodeID \<Rightarrow> NodeID \<Rightarrow> err + unit" where
  "requireSessionCounterparty h seller buyer =
     (if n_ID (h_Node h) = seller then
        guard (s_PeerID (h_Session h) \<noteq> buyer) (because invalidPeer ''session peer is not buyer counterparty'') (Inr ())
      else if n_ID (h_Node h) = buyer then
        guard (s_PeerID (h_Session h) \<noteq> seller) (because invalidPeer ''session peer is not seller counterparty'') (Inr ())
      else Inl (because invalidState ''local node is not trade party''))"

definition validatePendingQuoteFreshness :: "Handler \<Rightarrow> QuoteResponsePayload \<Rightarrow> err + unit" where
  "validatePendingQuoteFreshness h quote =
     validateQuoteFreshness (map_of (s_PendingRequests (h_Session h)) (qp_RequestID quote)) quote (n_NowUnix (h_Node h))"

section \<open>Quotes\<close>

definition handleHello :: "Handler \<Rightarrow> HelloPayload \<Rightarrow> PublicKey \<Rightarrow> reply" where
  "handleHello h payload peerPub = (case NodeIDFromPublicKey peerPub of
     Inl e \<Rightarrow> fails e
   | Inr peerID \<Rightarrow>
       if he_NodeID payload \<noteq> s_PeerID (h_Session h) \<or> he_NodeID payload \<noteq> peerID
       then fails (because invalidPeer ''hello peer mismatch'') else silent)"

definition handleQuoteRequest ::
    "'x jenv_scheme \<Rightarrow> err + nonce \<Rightarrow> Handler \<Rightarrow> TxID \<Rightarrow> QuoteRequestPayload \<Rightarrow> (err + reply) \<times> Handler" where
  "handleQuoteRequest E rand h ref payload =
     (let s = h_Session h in
      if qr_Seller payload \<noteq> n_ID (h_Node h) \<or> qr_Buyer payload \<noteq> s_PeerID s
      then (Inr (h_reject E rand h ref ''INVALID_ROLE'' ''quote request roles do not match session''), h)
      else if h_isExpired (qr_ExpiryUnix payload) (n_NowUnix (h_Node h))
      then let h = setSession h (ClearRequest s (qr_RequestID payload)) in
           (Inr (h_reject E rand h ref ''QUOTE_EXPIRED'' ''quote request is expired''), h)
      else
        let h = setSession h (s\<lparr>s_PendingRequests := gm_put (s_PendingRequests s) (qr_RequestID payload) payload\<rparr>) in
        (case peerShadow E h (qr_Buyer payload) (qr_BuyUnit payload) (qr_SellUnit payload) (qr_SellAmount payload) of
           Inl e \<Rightarrow> (Inl e, h)
         | Inr peer \<Rightarrow>
           (case QuoteSell E (h_Node h) (Some peer) (qr_SellUnit payload) (qr_BuyUnit payload)
                   (qr_SellAmount payload) (qr_SpreadLimit payload) of
              (Inl e, n, _) \<Rightarrow> (Inl e, h\<lparr>h_Node := n\<rparr>)
            | (Inr quote, n, _) \<Rightarrow>
              let h = h\<lparr>h_Node := n\<rparr> in
              (case attempt (quoteResponseFromQuote E (qr_RequestID payload) quote) (\<lambda>response.
                    attempt (ValidatePayloadSemantics E TypeQuoteResponse (QuoteResponseP response)) (\<lambda>_. Inr response)) of
                 Inl e \<Rightarrow> (Inr (fails e), h)
               | Inr response \<Rightarrow>
                 let s = h_Session h;
                     h = setSession h (s\<lparr>s_PendingQuotes := gm_put (s_PendingQuotes s) (qp_QuoteID response) response\<rparr>) in
                 (Inr (reply_of (SignResponse E rand h TypeQuoteResponse (QuoteResponseP response))), h)))))"

definition handleQuoteResponse ::
    "'x jenv_scheme \<Rightarrow> err + nonce \<Rightarrow> Handler \<Rightarrow> TxID \<Rightarrow> QuoteResponsePayload \<Rightarrow> (err + reply) \<times> Handler" where
  "handleQuoteResponse E rand h ref payload =
     (let s = h_Session h; now = n_NowUnix (h_Node h) in
      if \<not> sessionOwnsParties h (qp_Seller payload) (qp_Buyer payload)
      then (Inr (h_reject E rand h ref ''INVALID_ROLE'' ''quote response roles do not match session''), h)
      else case map_of (s_PendingRequests s) (qp_RequestID payload) of
        None \<Rightarrow> (Inr (h_reject E rand h ref ''UNEXPECTED_QUOTE_RESPONSE''
                       ''quote response does not match a pending request''), h)
      | Some request \<Rightarrow>
        (case validateQuoteMatchesRequest payload request now of
           Inl e \<Rightarrow>
             let h = (case validateQuoteFreshness (Some request) payload now of
                        Inl _ \<Rightarrow> setSession h (ClearRequest s (qp_RequestID payload)) | Inr _ \<Rightarrow> h) in
             (Inr (h_reject E rand h ref ''QUOTE_MISMATCH'' (err_text e)), h)
         | Inr _ \<Rightarrow>
           (case quoteID E payload of
              Inl e \<Rightarrow> (Inr (fails e), h)
            | Inr expectedQuoteID \<Rightarrow>
              if expectedQuoteID \<noteq> qp_QuoteID payload
              then (Inr (h_reject E rand h ref ''QUOTE_ID_MISMATCH'' ''quote id does not match quote response''), h)
              else
                let s = s\<lparr>s_PendingQuotes := gm_put (s_PendingQuotes s) (qp_QuoteID payload) payload\<rparr>;
                    h = setSession h s in
                if \<not> qp_Executable payload then (Inr silent, h)
                else if n_ID (h_Node h) \<noteq> qp_Seller payload \<and> n_ID (h_Node h) \<noteq> qp_Buyer payload
                then (Inr (fails (because invalidState ''local node is not quote party'')), h)
                else (case SignQuote E (h_Node h) (quoteFromResponse payload) of
                    (Inl e, n) \<Rightarrow>
                      let h = h\<lparr>h_Node := n\<rparr> in
                      (Inr (h_reject E rand h ref ''SIGN_INTENT_FAILED'' (err_text e)), h)
                  | (Inr intent, n) \<Rightarrow>
                      let intents = gm_get [] (s_PendingIntents s) (qp_QuoteID payload) @ [intent];
                          h = setSession (h\<lparr>h_Node := n\<rparr>)
                                (s\<lparr>s_PendingIntents := gm_put (s_PendingIntents s) (qp_QuoteID payload) intents\<rparr>) in
                      (Inr (reply_of (SignResponse E rand h TypeSignedIntent
                              (SignedIntentP \<lparr>sp_QuoteID = qp_QuoteID payload, sp_Intent = intent\<rparr>))), h)))))"

section \<open>Intents\<close>

definition handleSignedIntent ::
    "'x jenv_scheme \<Rightarrow> err + nonce \<Rightarrow> Handler \<Rightarrow> TxID \<Rightarrow> SignedIntentPayload \<Rightarrow> (err + reply) \<times> Handler" where
  "handleSignedIntent E rand h ref payload =
     (let s = h_Session h; qid = sp_QuoteID payload; theirs = sp_Intent payload in
      case map_of (s_PendingQuotes s) qid of
        None \<Rightarrow> (Inr (h_reject E rand h ref ''UNEXPECTED_SIGNED_INTENT'' ''signed intent does not match a pending quote''), h)
      | Some quote \<Rightarrow>
        (case validatePendingQuoteFreshness h quote of
           Inl e \<Rightarrow>
             let h = setSession h (ClearNegotiation s qid quote (TxID 0)) in
             (Inr (h_reject E rand h ref ''QUOTE_EXPIRED'' (err_text e)), h)
         | Inr _ \<Rightarrow>
           if \<not> sessionOwnsParties h (qp_Seller quote) (qp_Buyer quote)
           then (Inr (h_reject E rand h ref ''INVALID_ROLE'' ''quote roles do not match session''), h)
           else if ti_Party (si_Intent theirs) \<noteq> s_PeerID s
           then (Inr (h_reject E rand h ref ''INVALID_ROLE'' ''signed intent is not from session peer''), h)
           else if \<not> h_intentMatchesQuote (si_Intent theirs) quote
           then (Inr (h_reject E rand h ref ''INTENT_MISMATCH'' ''signed intent does not match quote''), h)
           else if hasPartyIntent (gm_get [] (s_PendingIntents s) qid) (ti_Party (si_Intent theirs))
           then (Inr (h_reject E rand h ref ''DUPLICATE_INTENT'' ''duplicate signed intent for quote party''), h)
           else
             let intents = gm_get [] (s_PendingIntents s) qid @ [theirs];
                 s = s\<lparr>s_PendingIntents := gm_put (s_PendingIntents s) qid intents\<rparr>;
                 h = setSession h s;
                 (failed, intents, h) =
                   (if \<not> hasPartyIntent intents (n_ID (h_Node h))
                        \<and> (n_ID (h_Node h) = qp_Seller quote \<or> n_ID (h_Node h) = qp_Buyer quote)
                    then (case SignQuote E (h_Node h) (quoteFromResponse quote) of
                        (Inl e, n) \<Rightarrow> (Some e, intents, h\<lparr>h_Node := n\<rparr>)
                      | (Inr localIntent, n) \<Rightarrow>
                          let intents = intents @ [localIntent] in
                          (None, intents, setSession (h\<lparr>h_Node := n\<rparr>)
                             (s\<lparr>s_PendingIntents := gm_put (s_PendingIntents s) qid intents\<rparr>)))
                    else (None, intents, h)) in
             (case failed of
                Some e \<Rightarrow> (Inr (h_reject E rand h ref ''SIGN_INTENT_FAILED'' (err_text e)), h)
              | None \<Rightarrow>
                (case selectIntents intents (qp_Seller quote) (qp_Buyer quote) of
                   None \<Rightarrow> (Inr silent, h)
                 | Some (sellerSig, buyerSig) \<Rightarrow>
                   (case buildAuthorizedTrade E (quoteFromResponse quote) sellerSig buyerSig of
                      Inl e \<Rightarrow> (Inr (fails e), h)
                    | Inr (auth, authID) \<Rightarrow>
                      let s = h_Session h;
                          h = setSession h (s\<lparr>s_PendingTrades := gm_put (s_PendingTrades s) authID auth\<rparr>) in
                      (Inr (reply_of (SignResponse E rand h TypeAuthorizedTrade
                              (AuthorizedTradeP \<lparr>ap_AuthorizedTrade = auth, ap_AuthorizedTradeID = authID\<rparr>))), h))))))"

section \<open>Trades\<close>

definition bindAuthorizedIntents :: "Handler \<Rightarrow> TxID \<Rightarrow> AuthorizedTradeTx \<Rightarrow> err + unit" where
  "bindAuthorizedIntents h qid auth =
     (let intents = gm_get [] (s_PendingIntents (h_Session h)) qid;
          isBuyer = (n_ID (h_Node h) = ti_Party (si_Intent (at_BuyerAuth auth)));
          ours = (if isBuyer then at_BuyerAuth auth else at_SellerAuth auth);
          theirs = (if isBuyer then at_SellerAuth auth else at_BuyerAuth auth) in
      guard (ti_Party (si_Intent ours) \<noteq> n_ID (h_Node h)) (because invalidPayload ''missing local authorization'')
      (guard (ti_Party (si_Intent theirs) \<noteq> s_PeerID (h_Session h)) (because invalidPayload ''missing peer authorization'')
      (guard (\<not> hasSignedIntent intents ours)
        (because unexpectedMessage ''local authorization was not negotiated in session'')
      (if \<not> hasSignedIntent intents theirs then
         (if hasPartyIntent intents (ti_Party (si_Intent theirs))
          then Inl (because invalidPayload ''peer authorization differs from negotiated intent'')
          else Inl (because unexpectedMessage ''peer authorization was not negotiated in session''))
       else Inr ()))))"

text \<open>The loop over the pending quotes returns at the first that fits, in the order of the map.\<close>

definition authorizedNegotiation ::
    "'x env_scheme \<Rightarrow> Handler \<Rightarrow> AuthorizedTradePayload \<Rightarrow> (err + TxID \<times> QuoteResponsePayload) \<times> Handler" where
  "authorizedNegotiation E h payload =
     (let s = h_Session h; auth = ap_AuthorizedTrade payload; authID = ap_AuthorizedTradeID payload in
      case List.find (\<lambda>(qid, quote). sessionOwnsParties h (qp_Seller quote) (qp_Buyer quote)
             \<and> h_intentMatchesQuote (si_Intent (at_SellerAuth auth)) quote
             \<and> h_intentMatchesQuote (si_Intent (at_BuyerAuth auth)) quote) (s_PendingQuotes s) of
        None \<Rightarrow> (Inl (because unexpectedMessage ''authorized trade does not match negotiated session state''), h)
      | Some (qid, quote) \<Rightarrow>
        (case validatePendingQuoteFreshness h quote of
           Inl e \<Rightarrow> (Inl (because unexpectedMessage (err_text e)), setSession h (ClearNegotiation s qid quote authID))
         | Inr _ \<Rightarrow>
           (case guard (ti_Party (si_Intent (at_SellerAuth auth)) \<noteq> qp_Seller quote
                        \<or> ti_Party (si_Intent (at_BuyerAuth auth)) \<noteq> qp_Buyer quote)
                   (because invalidPayload ''authorization party mismatch'')
                 (attempt (bindAuthorizedIntents h qid auth) (\<lambda>_.
                  attempt (buildAuthorizedTrade E (quoteFromResponse quote) (at_SellerAuth auth) (at_BuyerAuth auth)) (\<lambda>(rebuilt, rebuiltID).
                  guard (rebuiltID \<noteq> authID) (because invalidPayload ''authorized trade id does not match negotiated state'')
                  (guard (case map_of (s_PendingTrades s) authID of
                            Some pending \<Rightarrow> \<not> authorizedTradeEqual E pending rebuilt | None \<Rightarrow> False)
                    (because invalidPayload ''pending authorized trade mismatch'')
                  (Inr rebuilt))))) of
              Inl e \<Rightarrow> (Inl e, h)
            | Inr rebuilt \<Rightarrow>
                (Inr (qid, quote), setSession h (s\<lparr>s_PendingTrades := gm_put (s_PendingTrades s) authID rebuilt\<rparr>)))))"

definition handleAuthorizedTrade ::
    "'x jenv_scheme \<Rightarrow> 'st store_api \<Rightarrow> 'st heap \<Rightarrow> err + nonce \<Rightarrow> Handler \<Rightarrow> AuthorizedTradePayload
      \<Rightarrow> (err + reply) \<times> Handler \<times> 'st heap" where
  "handleAuthorizedTrade E A hp rand h payload =
     (let auth = ap_AuthorizedTrade payload; authID = ap_AuthorizedTradeID payload;
          i = si_Intent (at_SellerAuth auth) in
      if \<not> VerifyTradeIntent E (at_SellerAuth auth) \<or> \<not> VerifyTradeIntent E (at_BuyerAuth auth)
      then (Inr (fails (because invalidPayload ''invalid trade intent'')), h, hp)
      else if n_ID (h_Node h) \<noteq> ti_Seller i \<and> n_ID (h_Node h) \<noteq> ti_Buyer i
      then (Inr (fails (because invalidState ''local node is not trade party'')), h, hp)
      else case requireSessionCounterparty h (ti_Seller i) (ti_Buyer i) of
        Inl e \<Rightarrow> (Inr (fails e), h, hp)
      | Inr _ \<Rightarrow>
        (case authorizedNegotiation E h payload of
           (Inl e, h) \<Rightarrow> (Inr (fails e), h, hp)
         | (Inr (qid, quotePayload), h) \<Rightarrow>
           let quote = quoteFromResponse quotePayload in
           (case executionParties E h quote auth of
              Inl e \<Rightarrow> (Inl e, h, hp)
            | Inr (seller, buyer) \<Rightarrow>
              (case ExecuteSignedTradeWithPeerShadow E A hp seller buyer quote (at_SellerAuth auth) (at_BuyerAuth auth) of
                 (r, seller, buyer, hp) \<Rightarrow>
                 let h = h\<lparr>h_Node := (if n_ID (h_Node h) = q_Seller quote then seller else buyer)\<rparr> in
                 if (case r of Inl e \<Rightarrow> panics e | Inr _ \<Rightarrow> False) then (Inl (projl r), h, hp)
                 else
                   let (status, reason) = (case r of Inl e \<Rightarrow> (''FAILED'', err_text e) | Inr _ \<Rightarrow> (''ACCEPTED'', ''executed''));
                       s = h_Session h;
                       h = setSession h (s\<lparr>s_PendingTrades := gm_put (s_PendingTrades s) authID auth\<rparr>) in
                   (case SignResponse E rand h TypeTradeResult
                           (TradeResultP \<lparr>rp_AuthorizedTradeID = authID, rp_Status = status, rp_Reason = reason\<rparr>) of
                      Inl signErr \<Rightarrow> (Inr (fails signErr), h, hp)
                    | Inr response \<Rightarrow>
                      (case r of
                         Inl e \<Rightarrow> (Inr (Some response, Some (because tradeExecutionFailed (err_text e))), h, hp)
                       | Inr _ \<Rightarrow>
                         (Inr (Some response, None),
                          setSession h (ClearNegotiation (h_Session h) qid quotePayload authID), hp)))))))"

definition handleTradeResult :: "Handler \<Rightarrow> TradeResultPayload \<Rightarrow> reply" where
  "handleTradeResult h payload =
     (if \<not> gm_has (s_PendingTrades (h_Session h)) (rp_AuthorizedTradeID payload)
      then fails (because unexpectedMessage ''unknown trade result'') else silent)"

definition handleReject :: "Handler \<Rightarrow> RejectPayload \<Rightarrow> reply" where
  "handleReject h payload = silent"

definition handlePing :: "'x jenv_scheme \<Rightarrow> err + nonce \<Rightarrow> Handler \<Rightarrow> PingPayload \<Rightarrow> reply" where
  "handlePing E rand h payload =
     reply_of (SignResponse E rand h TypePong
       (PongP \<lparr>po_PingTimeUnix = pi_TimeUnix payload, po_TimeUnix = n_NowUnix (h_Node h)\<rparr>))"

definition handlePong :: "Handler \<Rightarrow> PongPayload \<Rightarrow> reply \<times> Handler" where
  "handlePong h payload = (silent, setSession h ((h_Session h)\<lparr>s_LastSeenUnix := po_TimeUnix payload\<rparr>))"

section \<open>A message\<close>

text \<open>
  The switch on the type of the envelope, whose type assertions cannot fail: a payload that passed
  \<open>ValidatePayloadSemantics\<close> for a type is of the Go type that belongs to it.
\<close>

definition dispatch ::
    "'x jenv_scheme \<Rightarrow> 'st store_api \<Rightarrow> 'st heap \<Rightarrow> err + nonce \<Rightarrow> Handler \<Rightarrow> Envelope \<Rightarrow> Payload \<Rightarrow> PublicKey
      \<Rightarrow> (err + reply) \<times> Handler \<times> 'st heap" where
  "dispatch E A hp rand h env payload peerPub = (case payload of
     HelloP p \<Rightarrow> (Inr (handleHello h p peerPub), h, hp)
   | QuoteRequestP p \<Rightarrow> (case handleQuoteRequest E rand h (e_MessageID env) p of (r, h) \<Rightarrow> (r, h, hp))
   | QuoteResponseP p \<Rightarrow> (case handleQuoteResponse E rand h (e_MessageID env) p of (r, h) \<Rightarrow> (r, h, hp))
   | SignedIntentP p \<Rightarrow> (case handleSignedIntent E rand h (e_MessageID env) p of (r, h) \<Rightarrow> (r, h, hp))
   | AuthorizedTradeP p \<Rightarrow> handleAuthorizedTrade E A hp rand h p
   | TradeResultP p \<Rightarrow> (Inr (handleTradeResult h p), h, hp)
   | RejectP p \<Rightarrow> (Inr (handleReject h p), h, hp)
   | PingP p \<Rightarrow> (Inr (handlePing E rand h p), h, hp)
   | PongP p \<Rightarrow> (case handlePong h p of (r, h) \<Rightarrow> (Inr r, h, hp))
   | OtherP \<Rightarrow> (Inr (fails (because unexpectedMessage (''unsupported message type '' @ go_quote (e_Type env)))), h, hp))"

definition HandleMessage ::
    "'x jenv_scheme \<Rightarrow> 'st store_api \<Rightarrow> 'st heap \<Rightarrow> err + nonce \<Rightarrow> Handler \<Rightarrow> Message \<Rightarrow> PublicKey
      \<Rightarrow> (err + reply) \<times> Handler \<times> 'st heap" where
  "HandleMessage E A hp rand h msg peerPub =
     (let env = m_Envelope msg in
      case VerifyEnvelope E env (m_PayloadBytes msg) peerPub of
        Inl e \<Rightarrow> (Inr (fails (because invalidPeer (err_text e))), h, hp)
      | Inr _ \<Rightarrow>
        if e_Sender env \<noteq> s_PeerID (h_Session h)
        then (Inr (fails (because invalidPeer ''envelope sender is not session peer'')), h, hp)
        else if HasSeen (h_Session h) (e_MessageID env) then (Inr (fails duplicateMessage), h, hp)
        else case MarkSeen (h_Session h) (e_MessageID env) of
          Inl e \<Rightarrow> (Inr (fails e), h, hp)
        | Inr s \<Rightarrow>
          let h = setSession h s in
          (case attempt (DecodePayload E (e_Type env) (m_PayloadBytes msg)) (\<lambda>payload.
                attempt (ValidatePayloadSemantics E (e_Type env) payload) (\<lambda>_. Inr payload)) of
             Inl e \<Rightarrow> (Inr (fails (because invalidPayload (err_text e))), h, hp)
           | Inr payload \<Rightarrow>
             dispatch E A hp rand (setSession h (s\<lparr>s_LastSeenUnix := e_Timestamp env\<rparr>)) env payload peerPub))"

end
