(* ===== verification/Reaction.thy ===== *)
theory Reaction
  imports Handler
begin

text \<open>
  What one reaction of a handler does: which parts of the node and of the session it leaves alone, how
  the pending requests, quotes and intents may grow, and when it executes a trade.
\<close>

section \<open>The node in a reaction\<close>

lemma quoteSell_frame:
  assumes "QuoteSell E n b su bu sa sp = (r, n', b')"
  shows "untouched n n'"
    and "r = Inr q \<Longrightarrow> q_Seller q = n_ID n \<and> q_Timestamp q = n_NowUnix n \<and> q_SellUnit q = su \<and> q_BuyUnit q = bu
           \<and> q_SellAmount q = sa \<and> (\<forall>b0. b = Some b0 \<longrightarrow> q_Buyer q = n_ID b0)"
  using assms
  by (auto simp: QuoteSell_def quoteSellLocked_def Let_def effectivePriceLocked_eq split: option.splits if_splits sum.splits)

lemma signQuote_frame: "untouched n (snd (SignQuote E n q))"
proof -
  obtain x m where a: "acceptQuoteLocked E (node_init n) q = (x, m)" by force
  have "untouched n m" using untouched_accept [of "node_init n" E q] untouched_init untouched_trans by (metis a snd_conv)
  then show ?thesis by (simp add: SignQuote_def signQuoteLocked_def Let_def a)
qed

lemma SignQuote_cases:
  assumes "SignQuote E n q = (r, m)"
  shows "untouched n m" "r = Inr s \<Longrightarrow> intentMatchesQuote (si_Intent s) q (n_ID n)"
  using signQuote_frame [of n E q] signQuote_intent(5) [of E n q s m] assms by auto

lemma configureUnit_frame [simp]:
  "n_ID (configureUnit E n u) = n_ID n" "n_NowUnix (configureUnit E n u) = n_NowUnix n"
  "n_Inventory (configureUnit E n u) = n_Inventory n" "n_Store (configureUnit E n u) = n_Store n"
  by (simp_all add: configureUnit_def Node_ComputePrice_def computePriceLocked_def Let_def)

lemma Inventory_Add_ok: "Inventory_Add s n u a = Inr t \<Longrightarrow> inv_ok s \<Longrightarrow> inv_ok t"
  using inv_ok_AddChecked [of s n u a] by (auto simp: Inventory_Add_def split: prod.splits sum.splits)

lemma peerShadow_frame:
  assumes "peerShadow E h i u v a = Inr p"
  shows "n_ID p = i" "n_NowUnix p = n_NowUnix (h_Node h)" "n_Store p = None" "inv_ok (n_Inventory p)"
  using assms Inventory_Add_ok [OF _ inv_ok_New]
  by (auto simp: peerShadow_def Let_def AddInventory_def NewBare_def)

section \<open>The session in a reaction\<close>

text \<open>The values of a map, in any order.\<close>

definition vals :: "('k, 'v) gomap \<Rightarrow> 'v set" where
  "vals m = snd ` set m"

lemma vals_put: "x \<in> vals (gm_put m k v) \<Longrightarrow> x = v \<or> x \<in> vals m"
  by (induction m) (auto simp: vals_def gm_put_def split: if_splits)

lemma vals_del: "x \<in> vals (gm_del m k) \<Longrightarrow> x \<in> vals m"
  by (auto simp: vals_def gm_del_def AList.delete_eq)

lemma vals_get: "map_of m k = Some v \<Longrightarrow> v \<in> vals m"
  by (force simp: vals_def dest: map_of_SomeD)

lemma vals_Nil [simp]: "vals [] = {}"
  by (simp add: vals_def)

lemma ClearNegotiation_frame [simp]:
  "s_LocalID (ClearNegotiation s q p i) = s_LocalID s" "s_PeerID (ClearNegotiation s q p i) = s_PeerID s"
  "s_SeenMessages (ClearNegotiation s q p i) = s_SeenMessages s"
  by (simp_all add: ClearNegotiation_def)

text \<open>What may be pending after a reaction: nothing new but the given requests and quotes.\<close>

definition pending :: "QuoteRequestPayload set \<Rightarrow> QuoteResponsePayload set \<Rightarrow> Session \<Rightarrow> Session \<Rightarrow> bool" where
  "pending R Q s s' \<longleftrightarrow> s_LocalID s' = s_LocalID s \<and> s_PeerID s' = s_PeerID s \<and> s_SeenMessages s' = s_SeenMessages s
     \<and> vals (s_PendingRequests s') \<subseteq> R \<union> vals (s_PendingRequests s)
     \<and> vals (s_PendingQuotes s') \<subseteq> Q \<union> vals (s_PendingQuotes s)"

lemma pending_refl [simp]: "pending R Q s s"
  by (simp add: pending_def)

lemma pending_trans: "pending R Q a b \<Longrightarrow> pending R Q b c \<Longrightarrow> pending R Q a c"
  by (auto simp: pending_def)

lemma pending_mono: "pending {} {} a b \<Longrightarrow> pending R Q a b"
  by (auto simp: pending_def)

lemma pending_ClearNegotiation [simp]: "pending R Q s (ClearNegotiation s q p i)"
  by (auto simp: pending_def ClearNegotiation_def dest: vals_del)

lemma pending_Clear: "pending R Q s t \<Longrightarrow> pending R Q s (ClearNegotiation t q p i)"
  by (rule pending_trans [OF _ pending_ClearNegotiation])

lemma pending_foldl:
  assumes "\<And>s x. pending R Q s (f s x)"
  shows "pending R Q s (foldl f s xs)"
proof (induction xs arbitrary: s)
  case (Cons x xs)
  then show ?case using assms [of s x] pending_trans by (metis foldl_Cons)
qed simp

lemma pending_ClearRequest [simp]: "pending R Q s (ClearRequest s i)"
proof -
  let ?f = "\<lambda>s (qid, quote). if qp_RequestID quote = i then ClearNegotiation s qid quote (TxID 0) else s"
  have "pending R Q s (foldl ?f s (s_PendingQuotes s))" by (rule pending_foldl) (simp split: prod.split)
  then show ?thesis by (auto simp: ClearRequest_def Let_def pending_def dest: vals_del)
qed

lemma pending_put [simp]:
  "pending R Q s (s\<lparr>s_PendingRequests := gm_put m k r\<rparr>) \<longleftrightarrow> vals (gm_put m k r) \<subseteq> R \<union> vals (s_PendingRequests s)"
  "pending R Q s (s\<lparr>s_PendingQuotes := gm_put n k q\<rparr>) \<longleftrightarrow> vals (gm_put n k q) \<subseteq> Q \<union> vals (s_PendingQuotes s)"
  "pending R Q s (t\<lparr>s_PendingIntents := is\<rparr>) \<longleftrightarrow> pending R Q s t"
  "pending R Q s (t\<lparr>s_PendingTrades := ts\<rparr>) \<longleftrightarrow> pending R Q s t"
  "pending R Q s (t\<lparr>s_LastSeenUnix := now\<rparr>) \<longleftrightarrow> pending R Q s t"
  by (auto simp: pending_def)

section \<open>Each message\<close>

definition our_requests :: "Handler \<Rightarrow> QuoteRequestPayload set" where
  "our_requests h = {r. qr_Seller r = n_ID (h_Node h) \<and> qr_Buyer r = s_PeerID (h_Session h)}"

definition our_quotes :: "Handler \<Rightarrow> QuoteResponsePayload set" where
  "our_quotes h = {q. qp_Seller q = n_ID (h_Node h) \<and> qp_Buyer q = s_PeerID (h_Session h)}"

definition reacts :: "Handler \<Rightarrow> Handler \<Rightarrow> bool" where
  "reacts h h' \<longleftrightarrow> untouched (h_Node h) (h_Node h')
     \<and> pending (our_requests h) (our_quotes h) (h_Session h) (h_Session h')"

lemma setSession_simps [simp]:
  "h_Node (setSession h s) = h_Node h" "h_Session (setSession h s) = s"
  by (simp_all add: setSession_def)

lemma quoteResponse_of_quote:
  "quoteResponseFromQuote E i q = Inr p \<Longrightarrow> qp_Seller p = q_Seller q \<and> qp_Buyer p = q_Buyer q
     \<and> qp_ExpiryUnix p = q_Timestamp q \<and> qp_RequestID p = i"
  by (auto simp: quoteResponseFromQuote_def Let_def)

lemma handleQuoteRequest_reacts:
  assumes "handleQuoteRequest E rand h ref p = (r, h')"
  shows "reacts h h'"
proof (cases "qr_Seller p \<noteq> n_ID (h_Node h) \<or> qr_Buyer p \<noteq> s_PeerID (h_Session h)
    \<or> h_isExpired (qr_ExpiryUnix p) (n_NowUnix (h_Node h))")
  case True
  then show ?thesis using assms by (auto simp: handleQuoteRequest_def Let_def reacts_def split: if_splits)
next
  case False
  define h1 where "h1 = setSession h ((h_Session h)\<lparr>s_PendingRequests := gm_put (s_PendingRequests (h_Session h)) (qr_RequestID p) p\<rparr>)"
  have p1: "pending (our_requests h) (our_quotes h) (h_Session h) (h_Session h1)"
    using False by (auto simp: h1_def our_requests_def dest: vals_put)
  have n1: "h_Node h1 = h_Node h" by (simp add: h1_def)
  show ?thesis
  proof (cases "peerShadow E h1 (qr_Buyer p) (qr_BuyUnit p) (qr_SellUnit p) (qr_SellAmount p)")
    case (Inl e)
    then show ?thesis using assms False p1 n1 by (simp add: handleQuoteRequest_def Let_def reacts_def flip: h1_def)
  next
    case (Inr peer)
    note pe = peerShadow_frame(1) [OF Inr]
    obtain rq n b where q: "QuoteSell E (h_Node h) (Some peer) (qr_SellUnit p) (qr_BuyUnit p) (qr_SellAmount p) (qr_SpreadLimit p)
      = (rq, n, b)" by (cases "QuoteSell E (h_Node h) (Some peer) (qr_SellUnit p) (qr_BuyUnit p) (qr_SellAmount p) (qr_SpreadLimit p)")
    note qf = quoteSell_frame [OF q]
    have same: "n_ID n = n_ID (h_Node h)" using qf(1) by (simp add: untouched_def)
    show ?thesis
    proof (cases rq)
      case (Inl e)
      then show ?thesis using assms False p1 n1 q qf(1) \<open>peerShadow E h1 _ _ _ _ = _\<close>
        by (auto simp: handleQuoteRequest_def Let_def reacts_def simp flip: h1_def)
    next
      case (Inr quote)
      have b: "pending (our_requests h) (our_quotes h) (h_Session h)
          ((h_Session h1)\<lparr>s_PendingQuotes := gm_put (s_PendingQuotes (h_Session h1)) k rp\<rparr>)"
        if "quoteResponseFromQuote E i quote = Inr rp" for i k rp
        using p1 qf(2) [OF Inr] pe quoteResponse_of_quote [OF that] False
        by (auto simp: pending_def our_quotes_def dest: vals_put)
      show ?thesis using assms False p1 n1 q qf(1) \<open>peerShadow E h1 _ _ _ _ = _\<close> Inr b
        by (auto simp: handleQuoteRequest_def Let_def reacts_def attempt_Inl simp flip: h1_def split: sum.splits)
    qed
  qed
qed

text \<open>A quote that a peer offers is kept only if it matches a pending request, parties included.\<close>

lemma handleQuoteResponse_frame:
  assumes "handleQuoteResponse E rand h ref p = (r, h')"
  shows "untouched (h_Node h) (h_Node h')"
    and "pending {} {q. q = p \<and> (\<exists>req \<in> vals (s_PendingRequests (h_Session h)). qr_Seller req = qp_Seller p \<and> qr_Buyer req = qp_Buyer p)}
           (h_Session h) (h_Session h')"
proof -
  let ?Q = "{q. q = p \<and> (\<exists>req \<in> vals (s_PendingRequests (h_Session h)). qr_Seller req = qp_Seller p \<and> qr_Buyer req = qp_Buyer p)}"
  obtain rs n where sq: "SignQuote E (h_Node h) (quoteFromResponse p) = (rs, n)" by force
  note n = SignQuote_cases(1) [OF sq]
  have put: "pending {} ?Q (h_Session h) ((h_Session h)\<lparr>s_PendingQuotes := gm_put (s_PendingQuotes (h_Session h)) k p\<rparr>)"
    if "map_of (s_PendingRequests (h_Session h)) i = Some req" "validateQuoteMatchesRequest p req now = Inr ()" for k i req now
    using vals_get [OF that(1)] that(2) by (auto simp: validateQuoteMatchesRequest_def dest: vals_put)
  show "untouched (h_Node h) (h_Node h')"
    using assms n by (auto simp: handleQuoteResponse_def Let_def sq split: if_splits option.splits sum.splits)
  show "pending {} ?Q (h_Session h) (h_Session h')"
    using assms put by (auto simp: handleQuoteResponse_def Let_def sq split: if_splits option.splits sum.splits)
qed

lemma handleSignedIntent_frame:
  assumes "handleSignedIntent E rand h ref p = (r, h')"
  shows "untouched (h_Node h) (h_Node h') \<and> pending {} {} (h_Session h) (h_Session h')"
proof (cases "map_of (s_PendingQuotes (h_Session h)) (sp_QuoteID p)")
  case None
  then show ?thesis using assms by (simp add: handleSignedIntent_def Let_def)
next
  case (Some q)
  obtain rs n where sq: "SignQuote E (h_Node h) (quoteFromResponse q) = (rs, n)" by force
  note n = SignQuote_cases(1) [OF sq]
  show ?thesis
    using assms n Some by (auto simp: handleSignedIntent_def Let_def sq split: if_splits option.splits sum.splits)
qed

section \<open>Authorized trades\<close>

text \<open>Both intents were collected in this session, for a pending quote between its two parties.\<close>

definition negotiated :: "Handler \<Rightarrow> TxID \<Rightarrow> QuoteResponsePayload \<Rightarrow> SignedTradeIntent \<Rightarrow> SignedTradeIntent \<Rightarrow> bool" where
  "negotiated h qid quote ss bs \<longleftrightarrow> (qid, quote) \<in> set (s_PendingQuotes (h_Session h))
     \<and> sessionOwnsParties h (qp_Seller quote) (qp_Buyer quote)
     \<and> {ss, bs} \<subseteq> set (gm_get [] (s_PendingIntents (h_Session h)) qid)
     \<and> ti_Party (si_Intent ss) = qp_Seller quote \<and> ti_Party (si_Intent bs) = qp_Buyer quote
     \<and> h_intentMatchesQuote (si_Intent ss) quote \<and> h_intentMatchesQuote (si_Intent bs) quote"

lemma signedIntentEqual_iff [simp]: "signedIntentEqual a b \<longleftrightarrow> a = b"
  by (cases a; cases b) (auto simp: signedIntentEqual_def)

lemma hasSignedIntent_iff [simp]: "hasSignedIntent intents s \<longleftrightarrow> s \<in> set intents"
  by (auto simp: hasSignedIntent_def list_ex_iff)

lemma bindAuthorizedIntents_Inr:
  "bindAuthorizedIntents h qid auth = Inr () \<Longrightarrow>
     {at_SellerAuth auth, at_BuyerAuth auth} \<subseteq> set (gm_get [] (s_PendingIntents (h_Session h)) qid)"
  by (auto simp: bindAuthorizedIntents_def Let_def split: if_splits)

lemma authorizedNegotiation_cases:
  assumes x: "authorizedNegotiation E h p = (r, h')"
  shows "h_Node h' = h_Node h" "pending {} {} (h_Session h) (h_Session h')"
    and "r = Inr (qid, quote) \<Longrightarrow> negotiated h qid quote (at_SellerAuth (ap_AuthorizedTrade p)) (at_BuyerAuth (ap_AuthorizedTrade p))
           \<and> validatePendingQuoteFreshness h quote = Inr ()"
proof -
  define f where "f = List.find (\<lambda>(qid, quote). sessionOwnsParties h (qp_Seller quote) (qp_Buyer quote)
     \<and> h_intentMatchesQuote (si_Intent (at_SellerAuth (ap_AuthorizedTrade p))) quote
     \<and> h_intentMatchesQuote (si_Intent (at_BuyerAuth (ap_AuthorizedTrade p))) quote) (s_PendingQuotes (h_Session h))"
  have in_quotes: "(i, q) \<in> set (s_PendingQuotes (h_Session h)) \<and> sessionOwnsParties h (qp_Seller q) (qp_Buyer q)
     \<and> h_intentMatchesQuote (si_Intent (at_SellerAuth (ap_AuthorizedTrade p))) q
     \<and> h_intentMatchesQuote (si_Intent (at_BuyerAuth (ap_AuthorizedTrade p))) q" if "f = Some (i, q)" for i q
    using that unfolding f_def find_Some_iff by (auto simp del: in_set_conv_nth) (metis nth_mem)
  note d = x [unfolded authorizedNegotiation_def Let_def, folded f_def]
  show "h_Node h' = h_Node h" "pending {} {} (h_Session h) (h_Session h')"
    using d by (auto split: option.splits sum.splits)
  show "negotiated h qid quote (at_SellerAuth (ap_AuthorizedTrade p)) (at_BuyerAuth (ap_AuthorizedTrade p))
           \<and> validatePendingQuoteFreshness h quote = Inr ()" if "r = Inr (qid, quote)"
    using d that in_quotes [of qid quote] bindAuthorizedIntents_Inr [of h qid "ap_AuthorizedTrade p"]
    by (auto simp: negotiated_def split: option.splits sum.splits)
qed

lemma maxOf_same [simp]: "maxOf a a = a"
  by (simp add: maxOf_def)

text \<open>The shadow has the clock of the node, and a pending quote may not be older than the clock.\<close>

lemma signed_at_the_quote:
  assumes "checkAuthorizations E s b (quoteFromResponse q) ss bs f = Inr ()" "n_NowUnix s = now" "n_NowUnix b = now"
    and "validateQuoteFreshness r q now = Inr ()"
  shows "qp_ExpiryUnix q = now"
proof -
  note c = checkAuthorizations_Inr [OF assms(1)]
  have ts: "ti_Timestamp (si_Intent ss) = qp_ExpiryUnix q" using c(6) by (simp add: intentMatchesQuote_def quoteFromResponse_def)
  have "\<not> h_isExpired (qp_ExpiryUnix q) now" using assms(4) by (simp add: validateQuoteFreshness_def)
  then have "sint (qp_ExpiryUnix q) = sint now" using c(9,14) ts assms(2,3) by (simp add: h_isExpired_def word_sless_alt)
  then show ?thesis by (rule signed_word_eqI)
qed

lemma executionParties_Inr:
  assumes "executionParties E h q auth = Inr (seller, buyer)" "inv_ok (n_Inventory (h_Node h))"
  shows "inv_ok (n_Inventory seller)" "inv_ok (n_Inventory buyer)"
    and "n_NowUnix seller = n_NowUnix (h_Node h)" "n_NowUnix buyer = n_NowUnix (h_Node h)"
    and "if n_ID (h_Node h) = q_Seller q then seller = h_Node h \<and> n_ID buyer = q_Buyer q
         else buyer = h_Node h \<and> n_ID seller = q_Seller q"
  using assms peerShadow_frame by (auto simp: executionParties_def split: if_splits)

text \<open>The node gives what it sells, or pays for what it buys.\<close>

definition settled :: "Node \<Rightarrow> QuoteResponsePayload \<Rightarrow> Node \<Rightarrow> bool" where
  "settled n quote n' \<longleftrightarrow>
     (if n_ID n = qp_Seller quote
      then traded n (qp_SellUnit quote) (qp_SellAmount quote) (qp_BuyUnit quote) (qp_BuyAmount quote) n'
      else traded n (qp_BuyUnit quote) (qp_BuyAmount quote) (qp_SellUnit quote) (qp_SellAmount quote) n')"

definition same_party :: "Node \<Rightarrow> Node \<Rightarrow> bool" where
  "same_party n n' \<longleftrightarrow> n_ID n' = n_ID n \<and> n_Store n' = n_Store n \<and> n_NowUnix n' = n_NowUnix n"

lemma settled_same: "settled n q n' \<Longrightarrow> same_party n n'"
  by (auto simp: settled_def traded_def same_party_def split: if_splits)

lemma untouched_same: "untouched n n' \<Longrightarrow> same_party n n'"
  by (simp add: untouched_def same_party_def)

text \<open>Executing with the shadow: the node is left alone, or has traded at the second of the quote.\<close>

lemma shadow_execution:
  assumes x: "ExecuteSignedTradeWithPeerShadow E A hp seller buyer (quoteFromResponse q) ss bs = (r, s', b', hp')"
    and p: "executionParties E h (quoteFromResponse q) auth = Inr (seller, buyer)" and ok: "inv_ok (n_Inventory (h_Node h))"
    and f: "validateQuoteFreshness rq q (n_NowUnix (h_Node h)) = Inr ()"
    and n': "n' = (if n_ID (h_Node h) = qp_Seller q then s' else b')"
  shows "r = Inl e \<Longrightarrow> untouched (h_Node h) n'"
    and "r = Inr tx \<Longrightarrow> settled (h_Node h) q n' \<and> qp_ExpiryUnix q = n_NowUnix (h_Node h)
           \<and> VerifyTradeIntent E ss \<and> VerifyTradeIntent E bs \<and> qp_Executable q"
proof -
  note x = x [unfolded ExecuteSignedTradeWithPeerShadow_def]
  note p = executionParties_Inr [OF p ok]
  have s: "q_Seller (quoteFromResponse q) = qp_Seller q" by (simp add: quoteFromResponse_def)
  show "untouched (h_Node h) n'" if "r = Inl e"
    using executeSigned_error [OF x [unfolded that]] p(5) by (auto simp: n' s split: if_splits)
  show "settled (h_Node h) q n' \<and> qp_ExpiryUnix q = n_NowUnix (h_Node h)
           \<and> VerifyTradeIntent E ss \<and> VerifyTradeIntent E bs \<and> qp_Executable q" if r: "r = Inr tx"
  proof -
    note t = executeSigned_trades [OF x [unfolded r] p(1,2)]
    have c: "checkAuthorizations E seller buyer (quoteFromResponse q) ss bs True = Inr ()"
      using x [unfolded r] by (rule executeSigned_Inr)
    have "settled (h_Node h) q n'"
      using t p(5) by (auto simp: n' settled_def quoteFromResponse_def split: if_splits)
    moreover have "qp_ExpiryUnix q = n_NowUnix (h_Node h)"
      by (rule signed_at_the_quote [OF c p(3,4) f])
    ultimately show ?thesis using checkAuthorizations_Inr [OF c] by (simp add: quoteFromResponse_def)
  qed
qed

lemma handleAuthorizedTrade_cases:
  assumes x: "handleAuthorizedTrade E A hp rand h p = (r, h', hp')" and ok: "inv_ok (n_Inventory (h_Node h))"
  shows "pending {} {} (h_Session h) (h_Session h')"
    and "untouched (h_Node h) (h_Node h')
       \<or> (\<exists>qid quote ss bs. negotiated h qid quote ss bs \<and> settled (h_Node h) quote (h_Node h')
            \<and> qp_ExpiryUnix quote = n_NowUnix (h_Node h) \<and> VerifyTradeIntent E ss \<and> VerifyTradeIntent E bs
            \<and> qp_Executable quote)"
proof -
  obtain rn h1 where n: "authorizedNegotiation E h p = (rn, h1)" by force
  note nc = authorizedNegotiation_cases [OF n]
  let ?R = "pending {} {} (h_Session h) (h_Session h') \<and> (untouched (h_Node h) (h_Node h')
       \<or> (\<exists>qid quote ss bs. negotiated h qid quote ss bs \<and> settled (h_Node h) quote (h_Node h')
            \<and> qp_ExpiryUnix quote = n_NowUnix (h_Node h) \<and> VerifyTradeIntent E ss \<and> VerifyTradeIntent E bs
            \<and> qp_Executable quote))"
  have ?R
  proof (cases rn)
    case (Inl e)
    then show ?thesis using x n nc(1,2) by (auto simp: handleAuthorizedTrade_def Let_def split: if_splits sum.splits)
  next
    case (Inr v)
    then obtain qid quote where rn: "rn = Inr (qid, quote)" by (cases v) simp
    note neg = nc(3) [OF rn]
    obtain rp where rp: "executionParties E h1 (quoteFromResponse quote) (ap_AuthorizedTrade p) = rp" by simp
    show ?thesis
    proof (cases rp)
      case (Inl e)
      then show ?thesis using x n nc(1,2) rn rp by (auto simp: handleAuthorizedTrade_def Let_def split: if_splits sum.splits)
    next
      case (Inr v)
      then obtain seller buyer where sb: "executionParties E h1 (quoteFromResponse quote) (ap_AuthorizedTrade p) = Inr (seller, buyer)"
        using rp by (cases v) simp
      obtain re s' b' hp1 where e: "ExecuteSignedTradeWithPeerShadow E A hp seller buyer (quoteFromResponse quote)
          (at_SellerAuth (ap_AuthorizedTrade p)) (at_BuyerAuth (ap_AuthorizedTrade p)) = (re, s', b', hp1)"
        by (metis surj_pair)
      have f: "validateQuoteFreshness (map_of (s_PendingRequests (h_Session h)) (qp_RequestID quote)) quote (n_NowUnix (h_Node h1)) = Inr ()"
        using neg nc(1) by (simp add: validatePendingQuoteFreshness_def)
      have ok1: "inv_ok (n_Inventory (h_Node h1))" using ok nc(1) by simp
      have qs: "q_Seller (quoteFromResponse quote) = qp_Seller quote" by (simp add: quoteFromResponse_def)
      define n' where "n' = (if n_ID (h_Node h) = qp_Seller quote then s' else b')"
      have "untouched (h_Node h) n' \<or> (settled (h_Node h) quote n' \<and> qp_ExpiryUnix quote = n_NowUnix (h_Node h)
           \<and> VerifyTradeIntent E (at_SellerAuth (ap_AuthorizedTrade p)) \<and> VerifyTradeIntent E (at_BuyerAuth (ap_AuthorizedTrade p))
           \<and> qp_Executable quote)"
        using shadow_execution [OF e sb ok1 f refl] nc(1) by (cases re) (simp_all add: n'_def)
      moreover have "h' = h \<or> h_Node h' = n' \<and> pending {} {} (h_Session h) (h_Session h')"
        using x nc(2)
        by (simp add: handleAuthorizedTrade_def Let_def n rn sb e qs nc(1) flip: n'_def split: if_splits sum.splits)
          (auto simp: pending_Clear split: sum.splits)
      ultimately show ?thesis using neg by auto
    qed
  qed
  then show "pending {} {} (h_Session h) (h_Session h')"
    "untouched (h_Node h) (h_Node h')
       \<or> (\<exists>qid quote ss bs. negotiated h qid quote ss bs \<and> settled (h_Node h) quote (h_Node h')
            \<and> qp_ExpiryUnix quote = n_NowUnix (h_Node h) \<and> VerifyTradeIntent E ss \<and> VerifyTradeIntent E bs
            \<and> qp_Executable quote)" by blast+
qed

section \<open>A message\<close>

text \<open>The session knows only requests and quotes in which the node sells to its peer.\<close>

definition sells_only :: "Handler \<Rightarrow> bool" where
  "sells_only h \<longleftrightarrow> vals (s_PendingRequests (h_Session h)) \<subseteq> our_requests h
     \<and> vals (s_PendingQuotes (h_Session h)) \<subseteq> our_quotes h"

definition same_session :: "Session \<Rightarrow> Session \<Rightarrow> bool" where
  "same_session s s' \<longleftrightarrow> s_LocalID s' = s_LocalID s \<and> s_PeerID s' = s_PeerID s \<and> s_SeenMessages s' = s_SeenMessages s"

text \<open>The change of a node in a reaction: none, or a negotiated trade at the second of its quote.\<close>

definition settles :: "'x env_scheme \<Rightarrow> Handler \<Rightarrow> Node \<Rightarrow> bool" where
  "settles E h n' \<longleftrightarrow> (\<exists>qid quote ss bs. negotiated h qid quote ss bs \<and> settled (h_Node h) quote n'
     \<and> qp_ExpiryUnix quote = n_NowUnix (h_Node h) \<and> VerifyTradeIntent E ss \<and> VerifyTradeIntent E bs
     \<and> qp_Executable quote)"

lemma settles_same: "settles E h n' \<Longrightarrow> same_party (h_Node h) n'"
  by (auto simp: settles_def settled_same)

lemma same_session_pending: "pending R Q s s' \<Longrightarrow> same_session s s'"
  by (simp add: pending_def same_session_def)

lemma sells_only_step:
  assumes "sells_only h" "same_party (h_Node h) (h_Node h')" "pending R Q (h_Session h) (h_Session h')"
    and "R \<subseteq> our_requests h" "Q \<subseteq> our_quotes h"
  shows "sells_only h'"
proof -
  have "our_requests h' = our_requests h" "our_quotes h' = our_quotes h"
    using assms(2,3) by (simp_all add: our_requests_def our_quotes_def same_party_def pending_def)
  then show ?thesis using assms by (auto simp: sells_only_def pending_def)
qed

lemma dispatch_cases:
  assumes x: "dispatch E A hp rand h env payload pub = (r, h', hp')" and ok: "inv_ok (n_Inventory (h_Node h))"
  shows "untouched (h_Node h) (h_Node h') \<or> settles E h (h_Node h')" (is ?N)
    and "same_session (h_Session h) (h_Session h')" (is ?S)
    and "sells_only h \<Longrightarrow> sells_only h'" (is "_ \<Longrightarrow> ?O")
proof -
  have quiet: "?N \<and> ?S \<and> (sells_only h \<longrightarrow> ?O)" if "untouched (h_Node h) (h_Node h')" "pending {} {} (h_Session h) (h_Session h')"
    using that sells_only_step [OF _ untouched_same] same_session_pending by blast
  have "?N \<and> ?S \<and> (sells_only h \<longrightarrow> ?O)"
  proof (cases payload)
    case (QuoteRequestP p)
    then have "reacts h h'" using x by (auto simp: dispatch_def dest: handleQuoteRequest_reacts split: prod.splits)
    then show ?thesis
      using sells_only_step [OF _ untouched_same, of h h'] same_session_pending by (auto simp: reacts_def)
  next
    case (QuoteResponseP p)
    then have q: "handleQuoteResponse E rand h (e_MessageID env) p = (r, h')"
      using x by (auto simp: dispatch_def split: prod.splits)
    note f = handleQuoteResponse_frame [OF q]
    have "?O" if "sells_only h"
      using that untouched_same [OF f(1)] f(2)
      by (rule sells_only_step) (use that in \<open>auto simp: sells_only_def our_requests_def our_quotes_def\<close>)
    then show ?thesis using f same_session_pending by blast
  next
    case (SignedIntentP p)
    then show ?thesis using x quiet by (auto simp: dispatch_def dest: handleSignedIntent_frame split: prod.splits)
  next
    case (AuthorizedTradeP p)
    then have a: "handleAuthorizedTrade E A hp rand h p = (r, h', hp')" using x by (simp add: dispatch_def)
    note c = handleAuthorizedTrade_cases [OF a ok]
    have "?N" using c(2) by (simp add: settles_def)
    moreover have "same_party (h_Node h) (h_Node h')" using calculation untouched_same settles_same by blast
    ultimately show ?thesis using c(1) sells_only_step same_session_pending by blast
  next
    case (PongP p)
    then show ?thesis using x quiet by (auto simp: dispatch_def handlePong_def split: prod.splits)
  qed (use x quiet in \<open>auto simp: dispatch_def\<close>)
  then show ?N ?S "sells_only h \<Longrightarrow> ?O" by blast+
qed

text \<open>A message of the peer, with a good signature.\<close>

definition admitted :: "'x jenv_scheme \<Rightarrow> Handler \<Rightarrow> Message \<Rightarrow> PublicKey \<Rightarrow> bool" where
  "admitted E h msg pub \<longleftrightarrow> VerifyEnvelope E (m_Envelope msg) (m_PayloadBytes msg) pub = Inr ()
     \<and> e_Sender (m_Envelope msg) = s_PeerID (h_Session h)"

lemma HandleMessage_refused:
  assumes "\<not> admitted E h msg pub"
  shows "\<exists>e. HandleMessage E A hp rand h msg pub = (Inr (None, Some e), h, hp) \<and> err_is e ErrInvalidPeer"
  using assms by (auto simp: HandleMessage_def Let_def admitted_def fails_def because_def invalidPeer_def err_is_def
      split: sum.splits)

lemma HandleMessage_seen:
  assumes "admitted E h msg pub" "HasSeen (h_Session h) (e_MessageID (m_Envelope msg))"
  shows "HandleMessage E A hp rand h msg pub = (Inr (None, Some duplicateMessage), h, hp)"
  using assms by (simp add: HandleMessage_def Let_def admitted_def fails_def)

text \<open>The session with a message marked, which the operation for its type starts from.\<close>

definition marked :: "Handler \<Rightarrow> Envelope \<Rightarrow> int64 \<Rightarrow> Handler" where
  "marked h env t = setSession h ((h_Session h)
     \<lparr>s_SeenMessages := gm_put (s_SeenMessages (h_Session h)) (e_MessageID env) True, s_LastSeenUnix := t\<rparr>)"

lemma marked_simps [simp]:
  "h_Node (marked h env t) = h_Node h" "sells_only (marked h env t) = sells_only h"
  "settles E (marked h env t) n' = settles E h n'"
  "s_LocalID (h_Session (marked h env t)) = s_LocalID (h_Session h)"
  "s_PeerID (h_Session (marked h env t)) = s_PeerID (h_Session h)"
  "HasSeen (h_Session (marked h env t)) i \<longleftrightarrow> i = e_MessageID env \<or> HasSeen (h_Session h) i"
  by (simp_all add: marked_def sells_only_def our_requests_def our_quotes_def settles_def negotiated_def
      sessionOwnsParties_def HasSeen_def gm_get_def)

lemma HandleMessage_new:
  assumes "admitted E h msg pub" "\<not> HasSeen (h_Session h) (e_MessageID (m_Envelope msg))"
    and "HandleMessage E A hp rand h msg pub = (r, h', hp')"
  shows "h' = marked h (m_Envelope msg) (s_LastSeenUnix (h_Session h))
     \<or> (\<exists>payload. dispatch E A hp rand (marked h (m_Envelope msg) (e_Timestamp (m_Envelope msg))) (m_Envelope msg) payload pub
          = (r, h', hp'))"
  using assms by (auto simp: HandleMessage_def Let_def admitted_def HasSeen_def MarkSeen_def marked_def setSession_def
      split: sum.splits)

lemma HandleMessage_dispatch:
  assumes "admitted E h msg pub" "\<not> HasSeen (h_Session h) (e_MessageID (m_Envelope msg))"
    and "DecodePayload E (e_Type (m_Envelope msg)) (m_PayloadBytes msg) = Inr payload"
    and "ValidatePayloadSemantics E (e_Type (m_Envelope msg)) payload = Inr ()"
  shows "HandleMessage E A hp rand h msg pub
    = dispatch E A hp rand (marked h (m_Envelope msg) (e_Timestamp (m_Envelope msg))) (m_Envelope msg) payload pub"
  using assms by (simp add: HandleMessage_def Let_def admitted_def HasSeen_def MarkSeen_def marked_def setSession_def)

lemma HandleMessage_cases:
  assumes x: "HandleMessage E A hp rand h msg pub = (r, h', hp')" and ok: "inv_ok (n_Inventory (h_Node h))"
  shows "untouched (h_Node h) (h_Node h') \<or> settles E h (h_Node h')"
    and "s_LocalID (h_Session h') = s_LocalID (h_Session h)" "s_PeerID (h_Session h') = s_PeerID (h_Session h)"
    and "HasSeen (h_Session h') i \<longleftrightarrow> HasSeen (h_Session h) i \<or> (admitted E h msg pub \<and> i = e_MessageID (m_Envelope msg))"
    and "sells_only h \<Longrightarrow> sells_only h'"
proof -
  consider "\<not> admitted E h msg pub" | "admitted E h msg pub" "HasSeen (h_Session h) (e_MessageID (m_Envelope msg))"
    | "admitted E h msg pub" "\<not> HasSeen (h_Session h) (e_MessageID (m_Envelope msg))" by blast
  then have "(untouched (h_Node h) (h_Node h') \<or> settles E h (h_Node h'))
    \<and> s_LocalID (h_Session h') = s_LocalID (h_Session h) \<and> s_PeerID (h_Session h') = s_PeerID (h_Session h)
    \<and> (HasSeen (h_Session h') i \<longleftrightarrow> HasSeen (h_Session h) i \<or> (admitted E h msg pub \<and> i = e_MessageID (m_Envelope msg)))
    \<and> (sells_only h \<longrightarrow> sells_only h')"
  proof cases
    case 1
    then show ?thesis using HandleMessage_refused [OF 1, of A hp rand] x by auto
  next
    case 2
    then show ?thesis using HandleMessage_seen [OF 2, of A hp rand] x by auto
  next
    case 3
    from HandleMessage_new [OF this x] show ?thesis
    proof (elim disjE exE)
      fix payload
      assume d: "dispatch E A hp rand (marked h (m_Envelope msg) (e_Timestamp (m_Envelope msg))) (m_Envelope msg) payload pub
        = (r, h', hp')"
      note c = dispatch_cases [OF d]
      have "HasSeen (h_Session h') i \<longleftrightarrow> HasSeen (h_Session (marked h (m_Envelope msg) (e_Timestamp (m_Envelope msg)))) i"
        using c(2) ok by (simp add: same_session_def HasSeen_def)
      then show ?thesis using c ok 3 by (auto simp: same_session_def)
    qed (use 3 in auto)
  qed
  then show "untouched (h_Node h) (h_Node h') \<or> settles E h (h_Node h')"
    "s_LocalID (h_Session h') = s_LocalID (h_Session h)" "s_PeerID (h_Session h') = s_PeerID (h_Session h)"
    "HasSeen (h_Session h') i \<longleftrightarrow> HasSeen (h_Session h) i \<or> (admitted E h msg pub \<and> i = e_MessageID (m_Envelope msg))"
    "sells_only h \<Longrightarrow> sells_only h'" by blast+
qed

section \<open>A session\<close>

text \<open>
  A run of a session: messages of the peer, and in between anything that others (other sessions on
  the same node, the program, the passing of time) do to the node and to the stores. A node keeps its
  identity.
\<close>

definition withNode :: "Handler \<Rightarrow> Node \<Rightarrow> Handler" where
  "withNode h n = h\<lparr>h_Node := n\<rparr>"

inductive session_run ::
    "'x jenv_scheme \<Rightarrow> 'st store_api \<Rightarrow> PublicKey \<Rightarrow> Handler \<times> 'st heap \<Rightarrow> Message list \<Rightarrow> Handler \<times> 'st heap \<Rightarrow> bool"
  for E A pub
where
  begin_run: "session_run E A pub s [] s"
| others: "session_run E A pub s ms (h, hp) \<Longrightarrow> n_ID n = n_ID (h_Node h) \<Longrightarrow> inv_ok (n_Inventory n)
    \<Longrightarrow> session_run E A pub s ms (withNode h n, hp')"
| message: "session_run E A pub s ms (h, hp) \<Longrightarrow> HandleMessage E A hp rand h msg pub = (Inr r, h', hp')
    \<Longrightarrow> session_run E A pub s (ms @ [msg]) (h', hp')"

lemma withNode_simps [simp]: "h_Node (withNode h n) = n" "h_Session (withNode h n) = h_Session h"
  by (simp_all add: withNode_def)

lemma settles_ok: "settles E h n' \<Longrightarrow> inv_ok (n_Inventory n')"
  by (auto simp: settles_def settled_def traded_def swapped_def split: if_splits)

lemma sells_only_withNode [simp]: "n_ID n = n_ID (h_Node h) \<Longrightarrow> sells_only (withNode h n) = sells_only h"
  by (simp add: sells_only_def our_requests_def our_quotes_def)

lemma session_run_invariant:
  assumes "session_run E A pub s ms s'" "inv_ok (n_Inventory (h_Node (fst s)))"
  shows "inv_ok (n_Inventory (h_Node (fst s')))"
    and "n_ID (h_Node (fst s')) = n_ID (h_Node (fst s))"
    and "s_LocalID (h_Session (fst s')) = s_LocalID (h_Session (fst s))"
    and "s_PeerID (h_Session (fst s')) = s_PeerID (h_Session (fst s))"
    and "HasSeen (h_Session (fst s')) i \<longleftrightarrow> HasSeen (h_Session (fst s)) i
           \<or> (\<exists>m \<in> set ms. admitted E (fst s) m pub \<and> e_MessageID (m_Envelope m) = i)"
    and "sells_only (fst s) \<Longrightarrow> sells_only (fst s')"
proof -
  have "inv_ok (n_Inventory (h_Node (fst s'))) \<and> n_ID (h_Node (fst s')) = n_ID (h_Node (fst s))
    \<and> s_LocalID (h_Session (fst s')) = s_LocalID (h_Session (fst s))
    \<and> s_PeerID (h_Session (fst s')) = s_PeerID (h_Session (fst s))
    \<and> (\<forall>i. HasSeen (h_Session (fst s')) i \<longleftrightarrow> HasSeen (h_Session (fst s)) i
           \<or> (\<exists>m \<in> set ms. admitted E (fst s) m pub \<and> e_MessageID (m_Envelope m) = i))
    \<and> (sells_only (fst s) \<longrightarrow> sells_only (fst s'))"
    using assms
  proof (induction rule: session_run.induct)
    case (message s ms h hp rand msg r h' hp')
    have IH: "inv_ok (n_Inventory (h_Node h))" using message by simp
    note c = HandleMessage_cases [OF message.hyps(2) IH]
    have p: "same_party (h_Node h) (h_Node h')" using c(1) untouched_same settles_same by blast
    have "inv_ok (n_Inventory (h_Node h'))" using c(1) IH settles_ok by (auto simp: untouched_def)
    moreover have "admitted E h msg pub = admitted E (fst s) msg pub" using message by (simp add: admitted_def)
    ultimately show ?case using message.IH message.prems c p by (auto simp: same_party_def)
  qed auto
  then show "inv_ok (n_Inventory (h_Node (fst s')))" "n_ID (h_Node (fst s')) = n_ID (h_Node (fst s))"
    "s_LocalID (h_Session (fst s')) = s_LocalID (h_Session (fst s))"
    "s_PeerID (h_Session (fst s')) = s_PeerID (h_Session (fst s))"
    "HasSeen (h_Session (fst s')) i \<longleftrightarrow> HasSeen (h_Session (fst s)) i
           \<or> (\<exists>m \<in> set ms. admitted E (fst s) m pub \<and> e_MessageID (m_Envelope m) = i)"
    "sells_only (fst s) \<Longrightarrow> sells_only (fst s')" by blast+
qed

text \<open>A quote in which the node would buy finds no request and is turned down.\<close>

lemma buying_quote_rejected:
  assumes "sells_only h" "qp_Buyer p = n_ID (h_Node h)" "n_ID (h_Node h) \<noteq> s_PeerID (h_Session h)"
  shows "\<exists>code reason h'. handleQuoteResponse E rand h ref p = (Inr (h_reject E rand h ref code reason), h')
    \<and> h_Node h' = h_Node h"
proof -
  have "\<not> (qr_Seller req = qp_Seller p \<and> qr_Buyer req = qp_Buyer p)"
    if "map_of (s_PendingRequests (h_Session h)) i = Some req" for i req
    using vals_get [OF that] assms by (auto simp: sells_only_def our_requests_def)
  then have v: "\<exists>e. validateQuoteMatchesRequest p req now = Inl e"
    if "map_of (s_PendingRequests (h_Session h)) i = Some req" for i req now
    using that by (cases "validateQuoteMatchesRequest p req now") (auto simp: validateQuoteMatchesRequest_def)
  have r: "h_reject E rand (setSession h s) = h_reject E rand h" for s
    by (intro ext) (simp add: h_reject_def SignResponse_def)
  show ?thesis
  proof (cases "map_of (s_PendingRequests (h_Session h)) (qp_RequestID p)")
    case (Some req)
    from v [OF this] obtain e where "validateQuoteMatchesRequest p req (n_NowUnix (h_Node h)) = Inl e" by blast
    then show ?thesis using Some r by (auto simp: handleQuoteResponse_def Let_def split: sum.split)
  qed (auto simp: handleQuoteResponse_def Let_def)
qed

section \<open>The transaction of a handler\<close>

lemma h_buildTradeTx_eq: "h_buildTradeTx E q = buildTradeTx E (q_Seller q) (q_Buyer q) q (q_Timestamp q)"
  by (simp add: h_buildTradeTx_def buildTradeTx_def h_tradeValue_def tradeValue_def)

lemma buildAuthorizedTrade_replayID:
  assumes "ti_Timestamp (si_Intent ss) = q_Timestamp q"
  shows "attempt (buildAuthorizedTrade E q ss bs) (\<lambda>(auth, i). Inr i) = replayID E q ss bs"
  using assms by (auto simp: buildAuthorizedTrade_def replayID_def h_buildTradeTx_eq Let_def attempt_def split: sum.splits)

lemma quote_on_the_wire: "quoteResponseFromQuote E i q = Inr p \<Longrightarrow> quoteFromResponse p = q"
  by (auto simp: quoteResponseFromQuote_def quoteFromResponse_def Let_def)

end
