(* ===== verification/Frame.thy ===== *)
theory Frame
  imports Message
begin

text \<open>
  \<open>core/transport\<close>: messages as length-prefixed frames, on byte strings and on streams.

  A reader is the list of the bytes that will arrive before the end of the stream. A writer is a
  function from its state and the bytes offered to its next state, the number of bytes it took and
  its error, if any. The buffer of a \<open>MemoryPipe\<close> takes all and returns no error.
\<close>

section \<open>Codec\<close>

definition FrameMagic :: string where "FrameMagic = ''W4M1''"
definition FrameVersion :: uint16 where "FrameVersion = 1"
definition MaxFrameSize :: nat where "MaxFrameSize = 2 ^ 20"
definition FrameHeaderSize :: nat where "FrameHeaderSize = 10"

definition badMagic :: err where "badMagic = Err [ErrBadMagic] ''bad frame magic''"
definition unsupportedVersion :: err where "unsupportedVersion = Err [ErrUnsupportedVersion] ''unsupported frame version''"
definition frameTooLarge :: err where "frameTooLarge = Err [ErrFrameTooLarge] ''frame too large''"
definition truncatedFrame :: err where "truncatedFrame = Err [ErrTruncatedFrame] ''truncated frame''"
definition emptyFrame :: err where "emptyFrame = Err [ErrEmptyFrame] ''empty frame''"
definition invalidFrame :: err where "invalidFrame = Err [ErrInvalidFrame] ''invalid frame''"

text \<open>\<open>fmt.Errorf("%w: %v", sentinel, err)\<close>: only the first error can be found by \<open>errors.Is\<close>.\<close>

definition wrap_v :: "err \<Rightarrow> string \<Rightarrow> err" where
  "wrap_v s t = Err (err_kinds s) (err_text s @ '': '' @ t)"

record frameHeader =
  fh_version :: uint16
  fh_length :: uint32

definition encodePayloadFrame :: "bytes \<Rightarrow> err + bytes" where
  "encodePayloadFrame payload =
     guard (payload = []) emptyFrame
     (guard (MaxFrameSize < length payload) frameTooLarge
     (Inr (str_bytes FrameMagic @ be_bytes 2 (unat FrameVersion)
           @ be_bytes 4 (unat (of_nat (length payload) :: uint32)) @ payload)))"

definition decodeFrameHeader :: "bytes \<Rightarrow> err + frameHeader" where
  "decodeFrameHeader data =
     guard (length data < FrameHeaderSize) truncatedFrame
     (guard (take 4 data \<noteq> str_bytes FrameMagic) badMagic
     (let version = of_nat (be_nat (take 2 (drop 4 data))) in
     guard (version \<noteq> FrameVersion) unsupportedVersion
     (let len = of_nat (be_nat (take 4 (drop 6 data))) in
     guard (len = 0) emptyFrame
     (guard (of_nat MaxFrameSize < len) frameTooLarge
     (Inr \<lparr>fh_version = version, fh_length = len\<rparr>)))))"

definition decodePayloadFrame :: "bytes \<Rightarrow> err + bytes" where
  "decodePayloadFrame data =
     attempt (decodeFrameHeader data) (\<lambda>header.
     let want = FrameHeaderSize + unat (fh_length header) in
     guard (length data < want) truncatedFrame
     (guard (want < length data) (wrap_v invalidFrame ''trailing bytes'')
     (Inr (take (unat (fh_length header)) (drop FrameHeaderSize data)))))"

definition EncodePayloadFrame :: "bytes \<Rightarrow> err + bytes" where
  "EncodePayloadFrame payload = encodePayloadFrame payload"

definition DecodePayloadFrame :: "bytes \<Rightarrow> err + bytes" where
  "DecodePayloadFrame data = decodePayloadFrame data"

definition EncodeFrame :: "'x jenv_scheme \<Rightarrow> Message \<Rightarrow> err + bytes" where
  "EncodeFrame E msg = attempt (EncodeMessage E msg) (\<lambda>payload. EncodePayloadFrame payload)"

definition DecodeFrame :: "'x jenv_scheme \<Rightarrow> bytes \<Rightarrow> err + Message" where
  "DecodeFrame E data =
     attempt (DecodePayloadFrame data) (\<lambda>payload.
     map_err (\<lambda>e. wrap_v invalidFrame (err_text e)) (DecodeMessage E payload))"

section \<open>Streams\<close>

text \<open>\<open>io.ReadFull\<close> for a given number of bytes.\<close>

definition io_ReadFull :: "nat \<Rightarrow> bytes \<Rightarrow> (err + bytes) \<times> bytes" where
  "io_ReadFull n r =
     (if n \<le> length r then (Inr (take n r), drop n r)
      else (Inl (if r = [] then Err [EOF] ''EOF'' else errorf ''unexpected EOF''), []))"

definition ReadPayloadFrame :: "bytes \<Rightarrow> (err + bytes) \<times> bytes" where
  "ReadPayloadFrame r =
     (case io_ReadFull FrameHeaderSize r of
        (Inl e, r1) \<Rightarrow> (Inl (wrap_v truncatedFrame (err_text e)), r1)
      | (Inr headerBytes, r1) \<Rightarrow>
        (case decodeFrameHeader headerBytes of
           Inl e \<Rightarrow> (Inl e, r1)
         | Inr header \<Rightarrow>
           (case io_ReadFull (unat (fh_length header)) r1 of
              (Inl e, r2) \<Rightarrow> (Inl (wrap_v truncatedFrame (err_text e)), r2)
            | (Inr payload, r2) \<Rightarrow> (Inr payload, r2))))"

definition ReadFrame :: "'x jenv_scheme \<Rightarrow> bytes \<Rightarrow> (err + Message) \<times> bytes" where
  "ReadFrame E r =
     (case ReadPayloadFrame r of
        (Inl e, r1) \<Rightarrow> (Inl e, r1)
      | (Inr payload, r1) \<Rightarrow>
        (map_err (\<lambda>e. wrap_v invalidFrame (err_text e)) (DecodeMessage E payload), r1))"

type_synonym 'w writer = "'w \<Rightarrow> bytes \<Rightarrow> 'w \<times> nat \<times> err option"

definition WriteFrame :: "'x jenv_scheme \<Rightarrow> 'w writer \<Rightarrow> 'w \<Rightarrow> Message \<Rightarrow> (err + unit) \<times> 'w" where
  "WriteFrame E wr w msg =
     (case EncodeFrame E msg of
        Inl e \<Rightarrow> (Inl e, w)
      | Inr frame \<Rightarrow>
        (case wr w frame of
           (w', n, Some e) \<Rightarrow> (Inl e, w')
         | (w', n, None) \<Rightarrow> if n \<noteq> length frame then (Inl (errorf ''short write''), w') else (Inr (), w')))"

definition buffer_writer :: "bytes writer" where
  "buffer_writer w bs = (w @ bs, length bs, None)"

definition MemoryPipe_Write :: "'x jenv_scheme \<Rightarrow> bytes \<Rightarrow> Message \<Rightarrow> (err + unit) \<times> bytes" where
  "MemoryPipe_Write E p msg = WriteFrame E buffer_writer p msg"

definition MemoryPipe_Read :: "'x jenv_scheme \<Rightarrow> bytes \<Rightarrow> (err + Message) \<times> bytes" where
  "MemoryPipe_Read E p = ReadFrame E p"

section \<open>Frames are read as they were written\<close>

lemma encodePayloadFrame_Inr:
  "encodePayloadFrame p = Inr d \<longleftrightarrow> p \<noteq> [] \<and> length p \<le> 2 ^ 20
     \<and> d = str_bytes FrameMagic @ be_bytes 2 1 @ be_bytes 4 (length p) @ p"
proof (cases "length p \<le> 2 ^ 20")
  case True
  then have "unat (of_nat (length p) :: uint32) = length p" by (simp add: unat_of_nat)
  then show ?thesis by (auto simp: encodePayloadFrame_def MaxFrameSize_def FrameVersion_def)
qed (simp add: encodePayloadFrame_def MaxFrameSize_def)

lemma decodeFrameHeader_Inr:
  "decodeFrameHeader d = Inr h \<longleftrightarrow> (\<exists>n rest. 0 < n \<and> n \<le> 2 ^ 20 \<and> fh_length h = of_nat n \<and> fh_version h = 1
     \<and> d = str_bytes FrameMagic @ be_bytes 2 1 @ be_bytes 4 n @ rest)"
proof
  assume h: "decodeFrameHeader d = Inr h"
  let ?v = "take 2 (drop 4 d)" and ?l = "take 4 (drop 6 d)"
  from h have l: "10 \<le> length d" and m: "take 4 d = str_bytes FrameMagic"
    and v: "of_nat (be_nat ?v) = (1 :: uint16)" and n: "(of_nat (be_nat ?l) :: uint32) \<noteq> 0" "\<not> of_nat MaxFrameSize < (of_nat (be_nat ?l) :: uint32)"
    and e: "h = \<lparr>fh_version = 1, fh_length = of_nat (be_nat ?l)\<rparr>"
    by (auto simp: decodeFrameHeader_def Let_def FrameHeaderSize_def FrameVersion_def)
  have lv: "length ?v = 2" "length ?l = 4" using l by simp_all
  have "be_nat ?v < 256 ^ 2" "be_nat ?l < 256 ^ 4" using be_nat_bound [of ?v] be_nat_bound [of ?l] lv by simp_all
  then have u: "unat (of_nat (be_nat ?v) :: uint16) = be_nat ?v" "unat (of_nat (be_nat ?l) :: uint32) = be_nat ?l"
    by (simp_all add: unat_of_nat)
  have v1: "be_nat ?v = 1" using u(1) v by simp
  have n1: "0 < be_nat ?l" using n(1) by (cases "be_nat ?l") simp_all
  have n2: "be_nat ?l \<le> 2 ^ 20" using n(2) u(2) by (simp add: word_less_nat_alt MaxFrameSize_def not_less)
  have "d = take 4 d @ ?v @ ?l @ drop 10 d"
  proof -
    have "drop 6 d = ?l @ drop 10 d" using append_take_drop_id [of 4 "drop 6 d"] by simp
    moreover have "drop 4 d = ?v @ drop 6 d" using append_take_drop_id [of 2 "drop 4 d"] by simp
    ultimately show ?thesis by (metis append_take_drop_id)
  qed
  then show "\<exists>n rest. 0 < n \<and> n \<le> 2 ^ 20 \<and> fh_length h = of_nat n \<and> fh_version h = 1
     \<and> d = str_bytes FrameMagic @ be_bytes 2 1 @ be_bytes 4 n @ rest"
    using m v1 n1 n2 be_bytes_be_nat [of ?v] be_bytes_be_nat [of ?l] lv e
    by (intro exI [of _ "be_nat ?l"] exI [of _ "drop 10 d"]) simp
next
  assume "\<exists>n rest. 0 < n \<and> n \<le> 2 ^ 20 \<and> fh_length h = of_nat n \<and> fh_version h = 1
     \<and> d = str_bytes FrameMagic @ be_bytes 2 1 @ be_bytes 4 n @ rest"
  then obtain n rest where n: "0 < n" "n \<le> 2 ^ 20" "fh_length h = of_nat n" "fh_version h = 1"
    "d = str_bytes FrameMagic @ be_bytes 2 1 @ be_bytes 4 n @ rest" by blast
  have u: "unat (of_nat n :: uint32) = n" using n(2) by (simp add: unat_of_nat)
  have m: "length (str_bytes FrameMagic) = 4" by (simp add: FrameMagic_def)
  have b: "be_nat (be_bytes 2 1) = 1" "be_nat (be_bytes 4 n) = n" using n(2) by (simp_all add: be_nat_be_bytes)
  have "(of_nat n :: uint32) \<noteq> 0" using n(1) u by (metis unat_0 less_numeral_extra(3))
  moreover have "\<not> of_nat MaxFrameSize < (of_nat n :: uint32)"
    using n(2) u by (simp add: word_less_nat_alt MaxFrameSize_def)
  moreover have "h = \<lparr>fh_version = 1, fh_length = of_nat n\<rparr>" using n(3,4) by simp
  ultimately show "decodeFrameHeader d = Inr h"
    using m b by (simp add: n(5) decodeFrameHeader_def Let_def FrameHeaderSize_def FrameVersion_def)
qed

lemma magic_length [simp]: "length FrameMagic = 4"
  by (simp add: FrameMagic_def)

lemma encode_iff_decode: "encodePayloadFrame p = Inr d \<longleftrightarrow> decodePayloadFrame d = Inr p"
proof
  assume "encodePayloadFrame p = Inr d"
  then have p: "p \<noteq> []" "length p \<le> 2 ^ 20" and d: "d = str_bytes FrameMagic @ be_bytes 2 1 @ be_bytes 4 (length p) @ p"
    by (simp_all add: encodePayloadFrame_Inr)
  have u: "unat (of_nat (length p) :: uint32) = length p" using p(2) by (simp add: unat_of_nat)
  have "decodeFrameHeader d = Inr \<lparr>fh_version = 1, fh_length = of_nat (length p)\<rparr>"
    unfolding decodeFrameHeader_Inr using p d by (intro exI [of _ "length p"] exI [of _ p]) simp
  then show "decodePayloadFrame d = Inr p"
    by (simp add: decodePayloadFrame_def Let_def u) (simp add: d FrameHeaderSize_def)
next
  assume a: "decodePayloadFrame d = Inr p"
  then obtain h where h: "decodeFrameHeader d = Inr h" "length d = 10 + unat (fh_length h)"
    "p = take (unat (fh_length h)) (drop 10 d)"
    by (auto simp: decodePayloadFrame_def Let_def FrameHeaderSize_def)
  from h(1) obtain n rest where n: "0 < n" "n \<le> 2 ^ 20" "fh_length h = of_nat n"
    "d = str_bytes FrameMagic @ be_bytes 2 1 @ be_bytes 4 n @ rest" unfolding decodeFrameHeader_Inr by blast
  have u: "unat (of_nat n :: uint32) = n" using n(2) by (simp add: unat_of_nat)
  have "length rest = n" "p = rest" using h(2,3) n(3,4) u by simp_all
  then show "encodePayloadFrame p = Inr d" using n by (auto simp: encodePayloadFrame_Inr)
qed

lemma ReadPayloadFrame_encoded:
  assumes "encodePayloadFrame p = Inr d"
  shows "ReadPayloadFrame (d @ rest) = (Inr p, rest)"
proof -
  from assms have p: "p \<noteq> []" "length p \<le> 2 ^ 20" and d: "d = str_bytes FrameMagic @ be_bytes 2 1 @ be_bytes 4 (length p) @ p"
    by (simp_all add: encodePayloadFrame_Inr)
  have u: "unat (of_nat (length p) :: uint32) = length p" using p(2) by (simp add: unat_of_nat)
  have "decodeFrameHeader (str_bytes FrameMagic @ be_bytes 2 1 @ be_bytes 4 (length p))
      = Inr \<lparr>fh_version = 1, fh_length = of_nat (length p)\<rparr>"
    unfolding decodeFrameHeader_Inr using p by (intro exI [of _ "length p"] exI [of _ "[]"]) simp
  then show ?thesis by (simp add: ReadPayloadFrame_def io_ReadFull_def FrameHeaderSize_def d u)
qed

text \<open>A frame that is cut short is reported as truncated, never read as something else.\<close>

lemma ReadPayloadFrame_cut:
  assumes "encodePayloadFrame p = Inr d" "n < length d"
  shows "fst (ReadPayloadFrame (take n d)) = Inl (wrap_v truncatedFrame (if n = 0 \<or> n = FrameHeaderSize then ''EOF'' else ''unexpected EOF''))"
proof -
  from assms(1) have p: "p \<noteq> []" "length p \<le> 2 ^ 20" and d: "d = str_bytes FrameMagic @ be_bytes 2 1 @ be_bytes 4 (length p) @ p"
    by (simp_all add: encodePayloadFrame_Inr)
  have u: "unat (of_nat (length p) :: uint32) = length p" using p(2) by (simp add: unat_of_nat)
  let ?h = "str_bytes FrameMagic @ be_bytes 2 1 @ be_bytes 4 (length p)"
  have h: "decodeFrameHeader ?h = Inr \<lparr>fh_version = 1, fh_length = of_nat (length p)\<rparr>"
    unfolding decodeFrameHeader_Inr using p by (intro exI [of _ "length p"] exI [of _ "[]"]) simp
  show ?thesis
  proof (cases "n < 10")
    case True
    have len: "length (take n d) = n" using assms(2) by simp
    then have "take n d = [] \<longleftrightarrow> n = 0" by (metis length_0_conv)
    then show ?thesis using True len by (auto simp: ReadPayloadFrame_def io_ReadFull_def FrameHeaderSize_def errorf_def)
  next
    case False
    have dn: "take n d = ?h @ take (n - 10) p" using False by (simp add: d)
    have "n - 10 < length p" using assms(2) False by (simp add: d)
    then show ?thesis
      using h p(1) False by (auto simp: ReadPayloadFrame_def io_ReadFull_def FrameHeaderSize_def dn u errorf_def)
  qed
qed

section \<open>The pipe is a queue\<close>

definition sendable :: "'x jenv_scheme \<Rightarrow> Message \<Rightarrow> bool" where
  "sendable E msg \<longleftrightarrow> (\<exists>b. EncodeMessage E msg = Inr b)
     \<and> json_reads E (MessageFrameJ (m_Envelope msg) (m_PayloadBytes msg)) \<and> m_PayloadBytes msg \<noteq> []"

lemma sendable_frame:
  assumes "sendable E msg"
  shows "\<exists>d. EncodeFrame E msg = Inr d \<and> d \<noteq> [] \<and> DecodeFrame E d = Inr msg
    \<and> (\<forall>rest. ReadFrame E (d @ rest) = (Inr msg, rest))"
proof -
  from assms obtain b where b: "EncodeMessage E msg = Inr b" by (auto simp: sendable_def)
  have m: "DecodeMessage E b = Inr msg" "b \<noteq> []" "length b \<le> 2 ^ 20"
    using Decode_EncodeMessage [OF b] assms by (auto simp: sendable_def MaxMessageBytes_def)
  then obtain d where d: "encodePayloadFrame b = Inr d" "d \<noteq> []" using encodePayloadFrame_Inr by fastforce
  then show ?thesis
    using b m(1) ReadPayloadFrame_encoded [OF d(1)] encode_iff_decode [of b d]
    by (simp add: EncodeFrame_def EncodePayloadFrame_def DecodeFrame_def DecodePayloadFrame_def ReadFrame_def)
qed

fun write_all :: "'x jenv_scheme \<Rightarrow> bytes \<Rightarrow> Message list \<Rightarrow> bytes" where
  "write_all E p [] = p"
| "write_all E p (m # ms) = write_all E (snd (MemoryPipe_Write E p m)) ms"

fun read_all :: "'x jenv_scheme \<Rightarrow> nat \<Rightarrow> bytes \<Rightarrow> (err + Message) list" where
  "read_all E 0 p = []"
| "read_all E (Suc n) p = (case MemoryPipe_Read E p of (r, p') \<Rightarrow> r # read_all E n p')"

lemma pipe_write:
  assumes "sendable E m" "EncodeFrame E m = Inr d"
  shows "MemoryPipe_Write E p m = (Inr (), p @ d)"
  using assms by (simp add: MemoryPipe_Write_def WriteFrame_def buffer_writer_def)

lemma pipe_fifo:
  assumes "\<forall>m \<in> set ms. sendable E m"
  shows "\<exists>ds. write_all E p ms = p @ ds \<and> read_all E (length ms + k) (ds @ rest) = map Inr ms @ read_all E k rest"
  using assms
proof (induction ms arbitrary: p)
  case (Cons m ms)
  obtain d where d: "EncodeFrame E m = Inr d" "\<forall>rest. ReadFrame E (d @ rest) = (Inr m, rest)"
    using sendable_frame [of E m] Cons.prems by auto
  then obtain ds where ds: "write_all E (p @ d) ms = (p @ d) @ ds"
    "read_all E (length ms + k) (ds @ rest) = map Inr ms @ read_all E k rest"
    using Cons by fastforce
  have "write_all E p (m # ms) = p @ d @ ds" using ds(1) pipe_write [OF _ d(1)] Cons.prems by simp
  moreover have "read_all E (length (m # ms) + k) ((d @ ds) @ rest) = map Inr (m # ms) @ read_all E k rest"
    using d(2) ds(2) by (simp add: MemoryPipe_Read_def)
  ultimately show ?case by blast
qed simp

end
