(* ===== verification/Runtime.thy ===== *)
theory Runtime
  imports Reaction Frame
begin

text \<open>
  \<open>core/net\<close>: a session over one connection, as the listening side (\<open>PeerRuntime.Serve\<close>) and as the
  dialing side (\<open>DialAndServe\<close>) run it, and the loop of a server that accepts connections.

  A connection is the bytes that will arrive on it and the bytes written to it so far. What else the
  network and the system do is the record \<open>network\<close>, indexed by the position in the loop: the answer
  of \<open>ctx.Err\<close> at the head of a turn (even positions) and after a failure (odd positions), failing
  deadlines and reads, the writer, the clock and the random nonces. The background goroutine that closes
  the connection of a cancelled context shows as a failing read.
\<close>

section \<open>Connections\<close>

record conn =
  cn_in :: bytes
  cn_out :: bytes

record network =
  nw_ctx :: "nat \<Rightarrow> err option"
  nw_SetReadDeadline :: "nat \<Rightarrow> err option"
  nw_Read :: "nat \<Rightarrow> err option"
  nw_SetWriteDeadline :: "nat \<Rightarrow> err option"
  nw_writer :: "nat \<Rightarrow> bytes writer"
  nw_clock :: "nat \<Rightarrow> int64"
  nw_nonce :: "nat \<Rightarrow> err + nonce"
  nw_nonceReject :: "nat \<Rightarrow> err + nonce"

definition invalidRuntime :: err where "invalidRuntime = Err [ErrInvalidRuntime] ''invalid peer runtime''"
definition invalidServer :: err where "invalidServer = Err [ErrInvalidServer] ''invalid server''"
definition invalidClient :: err where "invalidClient = Err [ErrInvalidClient] ''invalid client''"
definition peerKeyRequired :: err where "peerKeyRequired = Err [ErrPeerKeyRequired] ''peer public key is required''"
definition connectionMissing :: err where "connectionMissing = Err [ErrConnectionMissing] ''connection is required''"

text \<open>Durations in nanoseconds.\<close>

definition DefaultReadTimeout :: int64 where "DefaultReadTimeout = 5 * 1000000000"
definition DefaultWriteTimeout :: int64 where "DefaultWriteTimeout = 5 * 1000000000"
definition DefaultMaxMessages :: int where "DefaultMaxMessages = 1024"
definition DefaultMaxConnections :: int where "DefaultMaxConnections = 16"

section \<open>A peer runtime\<close>

record PeerRuntime =
  p_Node :: "Node option"
  p_Handler :: "Handler option"
  p_Session :: "Session option"
  p_PeerPublicKey :: PublicKey
  p_Conn :: "conn option"
  p_ReadTimeout :: int64
  p_WriteTimeout :: int64
  p_MaxMessages :: int

text \<open>An error leaves the runtime as it was: what is filled in before the last check makes it pass.\<close>

definition runtime_init :: "PeerRuntime option \<Rightarrow> err + PeerRuntime" where
  "runtime_init po = (case po of None \<Rightarrow> Inl invalidRuntime
   | Some p \<Rightarrow> (case p_Node p of None \<Rightarrow> Inl (because invalidRuntime ''node is nil'')
   | Some n \<Rightarrow>
       guard (p_Conn p = None)
         (Err (err_kinds invalidRuntime @ err_kinds connectionMissing)
              (err_text invalidRuntime @ '': '' @ err_text connectionMissing))
       (attempt (map_err (\<lambda>e. wrap_v peerKeyRequired (err_text e)) (NodeIDFromPublicKey (p_PeerPublicKey p))) (\<lambda>peerID.
       let s = (case p_Session p of None \<Rightarrow> NewSession (n_ID n) peerID | Some s \<Rightarrow> s) in
       guard (s_LocalID s \<noteq> n_ID n) (because invalidRuntime ''session local id mismatch'')
       (guard (s_PeerID s \<noteq> peerID) (because invalidRuntime ''session peer id mismatch'')
       (attempt (case p_Handler p of Some h \<Rightarrow> Inr h | None \<Rightarrow> NewHandler (Some n) (Some s)) (\<lambda>h.
       Inr (p\<lparr>p_Session := Some s, p_Handler := Some h,
              p_ReadTimeout := (if p_ReadTimeout p \<le>s 0 then DefaultReadTimeout else p_ReadTimeout p),
              p_WriteTimeout := (if p_WriteTimeout p \<le>s 0 then DefaultWriteTimeout else p_WriteTimeout p),
              p_MaxMessages := (if p_MaxMessages p \<le> 0 then DefaultMaxMessages else p_MaxMessages p)\<rparr>))))))))"

definition NewPeerRuntime :: "Node option \<Rightarrow> PublicKey \<Rightarrow> conn option \<Rightarrow> err + PeerRuntime" where
  "NewPeerRuntime n peerPub c =
     runtime_init (Some \<lparr>p_Node = n, p_Handler = None, p_Session = None, p_PeerPublicKey = peerPub, p_Conn = c,
       p_ReadTimeout = 0, p_WriteTimeout = 0, p_MaxMessages = 0\<rparr>)"

text \<open>A read that breaks off reports its error as \<open>io.ReadFull\<close> gives it to \<open>ReadPayloadFrame\<close>.\<close>

definition readFrame :: "'x jenv_scheme \<Rightarrow> network \<Rightarrow> nat \<Rightarrow> int64 \<Rightarrow> conn \<Rightarrow> (err + Message) \<times> conn" where
  "readFrame E nw k timeout c =
     (if 0 <s timeout \<and> nw_SetReadDeadline nw k \<noteq> None then (Inl (the (nw_SetReadDeadline nw k)), c)
      else case nw_Read nw k of
        Some e \<Rightarrow> (Inl (wrap_v truncatedFrame (err_text e)), c)
      | None \<Rightarrow> (case ReadFrame E (cn_in c) of (r, rest) \<Rightarrow> (r, c\<lparr>cn_in := rest\<rparr>)))"

definition writeFrame :: "'x jenv_scheme \<Rightarrow> network \<Rightarrow> nat \<Rightarrow> int64 \<Rightarrow> conn \<Rightarrow> Message \<Rightarrow> (err + unit) \<times> conn" where
  "writeFrame E nw k timeout c msg =
     (if 0 <s timeout \<and> nw_SetWriteDeadline nw k \<noteq> None then (Inl (the (nw_SetWriteDeadline nw k)), c)
      else case WriteFrame E (nw_writer nw k) (cn_out c) msg of (r, out) \<Rightarrow> (r, c\<lparr>cn_out := out\<rparr>))"

definition runtime_reject :: "'x jenv_scheme \<Rightarrow> err + nonce \<Rightarrow> Handler \<Rightarrow> TxID \<Rightarrow> err \<Rightarrow> Message option" where
  "runtime_reject E rand h ref cause =
     (case SignResponse E rand h TypeReject
             (RejectP \<lparr>jp_RefMessageID = ref, jp_Code = ''HANDLER_ERROR'', jp_Reason = err_text cause\<rparr>) of
        Inl _ \<Rightarrow> None | Inr m \<Rightarrow> Some m)"

definition canReject :: "err \<Rightarrow> bool" where
  "canReject e \<longleftrightarrow> \<not> err_is e ErrInvalidPeer"

definition hasSuffix :: "string \<Rightarrow> string \<Rightarrow> bool" where
  "hasSuffix s t \<longleftrightarrow> length t \<le> length s \<and> drop (length s - length t) s = t"

definition isCleanEOF :: "err \<Rightarrow> bool" where
  "isCleanEOF e \<longleftrightarrow> err_is e EOF \<or> hasSuffix (err_text e) '': EOF'' \<or> err_text e = ''EOF''"

section \<open>Serving\<close>

text \<open>A node reads its clock anew for every message.\<close>

definition at_time :: "Handler \<Rightarrow> int64 \<Rightarrow> Handler" where
  "at_time h t = withNode h ((h_Node h)\<lparr>n_NowUnix := t\<rparr>)"

text \<open>The message to send back: the handler's response, or a rejection that names its error.\<close>

definition answer :: "'x jenv_scheme \<Rightarrow> err + nonce \<Rightarrow> Handler \<Rightarrow> Message \<Rightarrow> reply \<Rightarrow> Message option" where
  "answer E rand h msg r = (case r of
     (None, Some e) \<Rightarrow>
       if canReject e \<and> e_MessageID (m_Envelope msg) \<noteq> TxID 0
       then runtime_reject E rand h (e_MessageID (m_Envelope msg)) e else None
   | (response, _) \<Rightarrow> response)"

lemma readFrame_shorter:
  assumes "readFrame E nw k t c = (Inr msg, c')"
  shows "length (cn_in c') < length (cn_in c)"
proof -
  obtain r rest where r: "ReadFrame E (cn_in c) = (r, rest)" by force
  from assms r have "r = Inr msg" "c' = c\<lparr>cn_in := rest\<rparr>" by (auto simp: readFrame_def split: if_splits option.splits)
  moreover have "length rest < length (cn_in c)" if "r = Inr msg"
    using r that by (auto simp: ReadFrame_def ReadPayloadFrame_def io_ReadFull_def FrameHeaderSize_def
        split: prod.splits sum.splits if_splits)
  ultimately show ?thesis by simp
qed

lemma writeFrame_in: "writeFrame E nw k t c m = (r, c') \<Longrightarrow> cn_in c' = cn_in c"
  by (auto simp: writeFrame_def split: if_splits prod.splits)

text \<open>The loop of \<open>Serve\<close>: every turn reads a frame, so it ends with the stream at the latest.\<close>

function serveLoop ::
    "'x jenv_scheme \<Rightarrow> 'st store_api \<Rightarrow> network \<Rightarrow> PeerRuntime \<Rightarrow> nat \<Rightarrow> Handler \<Rightarrow> conn \<Rightarrow> 'st heap
      \<Rightarrow> (err + unit) \<times> Handler \<times> conn \<times> 'st heap" where
  "serveLoop E A nw p handled h c hp =
     (if 0 < p_MaxMessages p \<and> p_MaxMessages p \<le> int handled then (Inr (), h, c, hp)
      else case nw_ctx nw (2 * handled) of Some e \<Rightarrow> (Inl e, h, c, hp)
      | None \<Rightarrow>
        (case readFrame E nw handled (p_ReadTimeout p) c of
           (Inl e, c) \<Rightarrow>
             (case nw_ctx nw (2 * handled + 1) of Some ctxErr \<Rightarrow> (Inl ctxErr, h, c, hp)
              | None \<Rightarrow> if isCleanEOF e then (Inr (), h, c, hp) else (Inl e, h, c, hp))
         | (Inr msg, c1) \<Rightarrow>
           (case HandleMessage E A hp (nw_nonce nw handled) (at_time h (nw_clock nw handled)) msg (p_PeerPublicKey p) of
              (Inl e, h, hp) \<Rightarrow> (Inl e, h, c1, hp)
            | (Inr r, h, hp) \<Rightarrow>
              (case (case answer E (nw_nonceReject nw handled) h msg r of
                       None \<Rightarrow> (Inr (), c1)
                     | Some response \<Rightarrow> writeFrame E nw handled (p_WriteTimeout p) c1 response) of
                 (Inl e, c2) \<Rightarrow>
                   (case nw_ctx nw (2 * handled + 1) of Some ctxErr \<Rightarrow> (Inl ctxErr, h, c2, hp) | None \<Rightarrow> (Inl e, h, c2, hp))
               | (Inr _, c2) \<Rightarrow>
                   (case snd r of
                      Some e \<Rightarrow> (Inl e, h, c2, hp)
                    | None \<Rightarrow> serveLoop E A nw p (handled + 1) h c2 hp)))))"
  by pat_completeness auto

termination
proof (relation "measure (\<lambda>(E, A, nw, p, handled, h, c, hp). length (cn_in c))", goal_cases)
  case 2
  then show ?case by (auto split: option.splits dest!: readFrame_shorter [OF sym] writeFrame_in [OF sym])
qed simp

declare serveLoop.simps [simp del]

text \<open>Both ends close the connection when the loop returns.\<close>

definition Serve ::
    "'x jenv_scheme \<Rightarrow> 'st store_api \<Rightarrow> network \<Rightarrow> PeerRuntime option \<Rightarrow> 'st heap
      \<Rightarrow> (err + unit) \<times> (Handler \<times> conn) option \<times> 'st heap" where
  "Serve E A nw po hp = (case runtime_init po of
     Inl e \<Rightarrow> (Inl e, None, hp)
   | Inr p \<Rightarrow> (case serveLoop E A nw p 0 (the (p_Handler p)) (the (p_Conn p)) hp of
       (r, h, c, hp) \<Rightarrow> (r, Some (h, c), hp)))"

section \<open>Dialing\<close>

definition expectsResponse :: "MessageType \<Rightarrow> bool" where
  "expectsResponse t \<longleftrightarrow> t \<notin> {TypeHello, TypePong, TypeReject, TypeTradeResult}"

text \<open>The messages to start with, and the number of answers they call for.\<close>

fun writeInitial :: "'x jenv_scheme \<Rightarrow> network \<Rightarrow> nat \<Rightarrow> conn \<Rightarrow> nat \<Rightarrow> Message list \<Rightarrow> (err + nat) \<times> conn" where
  "writeInitial E nw k c expected [] = (Inr expected, c)"
| "writeInitial E nw k c expected (msg # msgs) =
     (case writeFrame E nw k DefaultWriteTimeout c msg of
        (Inl e, c) \<Rightarrow> (Inl e, c)
      | (Inr _, c) \<Rightarrow> writeInitial E nw (k + 1) c
          (if expectsResponse (e_Type (m_Envelope msg)) then expected + 1 else expected) msgs)"

fun dialLoop ::
    "'x jenv_scheme \<Rightarrow> 'st store_api \<Rightarrow> network \<Rightarrow> PublicKey \<Rightarrow> nat \<Rightarrow> nat \<Rightarrow> Handler \<Rightarrow> conn \<Rightarrow> 'st heap
      \<Rightarrow> (err + unit) \<times> Handler \<times> conn \<times> 'st heap" where
  "dialLoop E A nw peerPub k 0 h c hp = (Inr (), h, c, hp)"
| "dialLoop E A nw peerPub k (Suc expected) h c hp =
     (case nw_ctx nw (2 * k) of Some e \<Rightarrow> (Inl e, h, c, hp)
      | None \<Rightarrow>
        (case readFrame E nw k DefaultReadTimeout c of
           (Inl e, c) \<Rightarrow> (case nw_ctx nw (2 * k + 1) of Some ctxErr \<Rightarrow> (Inl ctxErr, h, c, hp) | None \<Rightarrow> (Inl e, h, c, hp))
         | (Inr msg, c) \<Rightarrow>
           (case HandleMessage E A hp (nw_nonce nw k) (at_time h (nw_clock nw k)) msg peerPub of
              (Inl e, h, hp) \<Rightarrow> (Inl e, h, c, hp)
            | (Inr (response, herr), h, hp) \<Rightarrow>
              (case (case response of None \<Rightarrow> (Inr (), c) | Some m \<Rightarrow> writeFrame E nw k DefaultWriteTimeout c m) of
                 (Inl writeErr, c) \<Rightarrow> (Inl writeErr, h, c, hp)
               | (Inr _, c) \<Rightarrow>
                 (case herr of Some e \<Rightarrow> (Inl e, h, c, hp)
                  | None \<Rightarrow> dialLoop E A nw peerPub (k + 1) expected h c hp)))))"

text \<open>\<open>dialed\<close> is what the dialer returns.\<close>

definition DialAndServe ::
    "'x jenv_scheme \<Rightarrow> 'st store_api \<Rightarrow> network \<Rightarrow> err + conn \<Rightarrow> string \<Rightarrow> Node option \<Rightarrow> PublicKey \<Rightarrow> Message list
      \<Rightarrow> 'st heap \<Rightarrow> (err + unit) \<times> (Handler \<times> conn) option \<times> 'st heap" where
  "DialAndServe E A nw dialed addr no peerPub initial hp =
     (if addr = '''' then (Inl (because invalidClient ''address is required''), None, hp)
      else case no of None \<Rightarrow> (Inl (because invalidClient ''node is nil''), None, hp)
      | Some n \<Rightarrow>
        (case NodeIDFromPublicKey peerPub of
           Inl e \<Rightarrow> (Inl (wrap_v peerKeyRequired (err_text e)), None, hp)
         | Inr peerID \<Rightarrow>
           (case dialed of
              Inl e \<Rightarrow> (Inl e, None, hp)
            | Inr c \<Rightarrow>
              (case NewHandler (Some n) (Some (NewSession (n_ID n) peerID)) of
                 Inl e \<Rightarrow> (Inl e, None, hp)
               | Inr h \<Rightarrow>
                 (case writeInitial E nw 0 c 0 initial of
                    (Inl e, c) \<Rightarrow> (Inl e, Some (h, c), hp)
                  | (Inr expected, c) \<Rightarrow>
                    (case dialLoop E A nw peerPub (length initial) expected h c hp of
                       (r, h, c, hp) \<Rightarrow> (r, Some (h, c), hp)))))))"

section \<open>Accepting\<close>

record Server =
  sv_Addr :: string
  sv_Node :: "Node option"
  sv_PeerPublicKey :: PublicKey
  sv_ReadTimeout :: int64
  sv_WriteTimeout :: int64
  sv_MaxMessages :: int
  sv_MaxConnections :: int

definition checkServer :: "Server option \<Rightarrow> err + Server" where
  "checkServer so = (case so of None \<Rightarrow> Inl invalidServer
   | Some s \<Rightarrow>
       guard (sv_Node s = None) (because invalidServer ''node is nil'')
       (attempt (map_err (\<lambda>e. wrap_v peerKeyRequired (err_text e)) (NodeIDFromPublicKey (sv_PeerPublicKey s))) (\<lambda>_.
       Inr (s\<lparr>sv_Addr := (if sv_Addr s = '''' then ''127.0.0.1:0'' else sv_Addr s)\<rparr>))))"

definition connectionRuntime :: "Server \<Rightarrow> conn \<Rightarrow> PeerRuntime" where
  "connectionRuntime s c =
     \<lparr>p_Node = sv_Node s, p_Handler = None, p_Session = None, p_PeerPublicKey = sv_PeerPublicKey s, p_Conn = Some c,
      p_ReadTimeout = sv_ReadTimeout s, p_WriteTimeout = sv_WriteTimeout s, p_MaxMessages = sv_MaxMessages s\<rparr>"

text \<open>
  What the accepting loop meets: connections, sessions that come to their end and free their slot, and
  the error that ends it. A connection for which no slot is free is closed at once. The loop returns
  its error, the number of slots taken, and the sessions it has started.
\<close>

datatype accept_event = Accepted conn | Finished | AcceptFailed err "err option"

definition maxConnections :: "Server \<Rightarrow> int" where
  "maxConnections s = (if sv_MaxConnections s \<le> 0 then DefaultMaxConnections else sv_MaxConnections s)"

fun acceptLoop :: "Server \<Rightarrow> nat \<Rightarrow> accept_event list \<Rightarrow> err option \<times> nat \<times> PeerRuntime list" where
  "acceptLoop s slots [] = (None, slots, [])"
| "acceptLoop s slots (Accepted c # es) =
     (if int slots < maxConnections s
      then (case acceptLoop s (slots + 1) es of (r, n, ps) \<Rightarrow> (r, n, connectionRuntime s c # ps))
      else acceptLoop s slots es)"
| "acceptLoop s slots (Finished # es) = acceptLoop s (slots - 1) es"
| "acceptLoop s slots (AcceptFailed e ctx # es) = (Some (case ctx of Some ctxErr \<Rightarrow> ctxErr | None \<Rightarrow> e), slots, [])"

definition ListenAndServe ::
    "Server option \<Rightarrow> err option \<Rightarrow> accept_event list \<Rightarrow> err option \<times> nat \<times> PeerRuntime list" where
  "ListenAndServe so listen es = (case checkServer so of
     Inl e \<Rightarrow> (Some e, 0, [])
   | Inr s \<Rightarrow> (case listen of Some e \<Rightarrow> (Some e, 0, []) | None \<Rightarrow> acceptLoop s 0 es))"

section \<open>A connection is a session\<close>

lemma session_run_append:
  assumes "session_run E A pub t ms' u" "session_run E A pub s ms t"
  shows "session_run E A pub s (ms @ ms') u"
  using assms
proof (induction rule: session_run.induct)
  case (message t ms' h hp rand msg r h' hp')
  then show ?case using session_run.message [of E A pub s "ms @ ms'"] by simp
qed (auto intro: session_run.intros)

lemma readFrame_frame:
  assumes "readFrame E nw k t c = (Inr msg, c')"
  shows "MemoryPipe_Read E (cn_in c) = (Inr msg, cn_in c')" "cn_out c' = cn_out c"
proof -
  obtain r rest where r: "ReadFrame E (cn_in c) = (r, rest)" by force
  show "MemoryPipe_Read E (cn_in c) = (Inr msg, cn_in c')" "cn_out c' = cn_out c"
    using assms r by (auto simp: readFrame_def MemoryPipe_Read_def split: if_splits option.splits)
qed

lemma at_time_inv [simp]: "n_Inventory (h_Node (at_time h t)) = n_Inventory (h_Node h)" "h_Session (at_time h t) = h_Session h"
  "n_ID (h_Node (at_time h t)) = n_ID (h_Node h)"
  by (simp_all add: at_time_def)

lemma session_run_tick:
  "inv_ok (n_Inventory (h_Node h)) \<Longrightarrow> session_run E A pub (h, hp) [] (at_time h t, hp)"
  unfolding at_time_def by (rule others [OF begin_run]) simp_all

text \<open>How a loop leaves a session: with the messages \<open>ms\<close> handled, or in a panic at the next one.\<close>

definition ran :: "'x jenv_scheme \<Rightarrow> 'st store_api \<Rightarrow> PublicKey \<Rightarrow> Handler \<times> 'st heap \<Rightarrow> Message list \<Rightarrow> err + unit \<Rightarrow> Handler \<times> 'st heap \<Rightarrow> bool" where
  "ran E A pub s ms r s' \<longleftrightarrow> session_run E A pub s ms s'
     \<or> (\<exists>h hp rand msg e. session_run E A pub s ms (h, hp) \<and> r = Inl e
          \<and> HandleMessage E A hp rand h msg pub = (Inl e, s'))"

lemma ran_step:
  assumes "session_run E A pub s ms t" "ran E A pub t ms' r u"
  shows "ran E A pub s (ms @ ms') r u"
  using assms session_run_append unfolding ran_def by metis

lemma serveLoop_runs:
  assumes "serveLoop E A nw p k h c hp = (r, h', c', hp')" "inv_ok (n_Inventory (h_Node h))"
  shows "\<exists>ms. ran E A (p_PeerPublicKey p) (h, hp) ms r (h', hp')
    \<and> read_all E (length ms) (cn_in c) = map Inr ms
    \<and> (0 < p_MaxMessages p \<longrightarrow> int k \<le> p_MaxMessages p \<longrightarrow> int (k + length ms) \<le> p_MaxMessages p)"
  using assms
proof (induction E A nw p k h c hp rule: serveLoop.induct)
  case (1 E A nw p k h c hp)
  let ?pub = "p_PeerPublicKey p"
  note ok = 1(3) and loop = 1(2) [unfolded serveLoop.simps [of E A nw p k h c hp]]
  have stop: ?case if "h' = h" "hp' = hp"
    by (rule exI [of _ "[]"]) (simp add: ran_def that begin_run)
  consider "h' = h" "hp' = hp" | msg c1 where "nw_ctx nw (2 * k) = None" "readFrame E nw k (p_ReadTimeout p) c = (Inr msg, c1)"
    "\<not> (0 < p_MaxMessages p \<and> p_MaxMessages p \<le> int k)"
    using loop by (auto split: if_splits option.splits sum.splits prod.splits)
  then show ?case
  proof cases
    case (2 msg c1)
    note rd = readFrame_frame(1) [OF 2(2)]
    obtain rr h1 hp1 where H: "HandleMessage E A hp (nw_nonce nw k) (at_time h (nw_clock nw k)) msg ?pub = (rr, h1, hp1)"
      by (metis surj_pair)
    note tick = session_run_tick [OF ok, of E A ?pub hp "nw_clock nw k"]
    show ?thesis
    proof (cases rr)
      case (Inl e)
      then have "r = Inl e" "h' = h1" "hp' = hp1" using loop 2 H by simp_all
      then have "ran E A ?pub (h, hp) [] r (h', hp')" unfolding ran_def using tick H Inl by metis
      then show ?thesis by (intro exI [of _ "[]"]) simp
    next
      case (Inr rep)
      have step: "session_run E A ?pub (h, hp) [msg] (h1, hp1)"
        using message [OF tick H [unfolded Inr]] by simp
      have ok1: "inv_ok (n_Inventory (h_Node h1))" using session_run_invariant(1) [OF step] ok by simp
      have bound: "0 < p_MaxMessages p \<Longrightarrow> int k \<le> p_MaxMessages p \<Longrightarrow> int (k + 1) \<le> p_MaxMessages p" using 2(3) by simp
      define w where "w = (case answer E (nw_nonceReject nw k) h1 msg rep of
          None \<Rightarrow> (Inr (), c1) | Some response \<Rightarrow> writeFrame E nw k (p_WriteTimeout p) c1 response)"
      obtain rw c2 where w2: "w = (rw, c2)" by force
      have c2: "cn_in c2 = cn_in c1" using w2 by (auto simp: w_def dest: writeFrame_in split: option.splits)
      consider "h' = h1" "hp' = hp1" | "rw = Inr ()" "snd rep = None" "serveLoop E A nw p (k + 1) h1 c2 hp1 = (r, h', c', hp')"
        using loop 2 H Inr w2
        by (auto simp: w_def [symmetric] split: if_splits option.splits sum.splits)
      then show ?thesis
      proof cases
        case 1
        then have "ran E A ?pub (h, hp) [msg] r (h', hp')" using step by (simp add: ran_def)
        then show ?thesis using rd bound by (intro exI [of _ "[msg]"]) simp
      next
        case rec: 2
        have IH: "\<exists>ms. ran E A ?pub (h1, hp1) ms r (h', hp') \<and> read_all E (length ms) (cn_in c2) = map Inr ms
          \<and> (0 < p_MaxMessages p \<longrightarrow> int (k + 1) \<le> p_MaxMessages p \<longrightarrow> int (k + 1 + length ms) \<le> p_MaxMessages p)"
          by (rule 1(1) [OF 2(3,1) 2(2) [symmetric] refl H [symmetric] Inr refl w2 [unfolded w_def, symmetric] rec(1,2,3) ok1])
        then obtain ms where ms: "ran E A ?pub (h1, hp1) ms r (h', hp')" "read_all E (length ms) (cn_in c1) = map Inr ms"
          "0 < p_MaxMessages p \<longrightarrow> int (k + 1) \<le> p_MaxMessages p \<longrightarrow> int (k + 1 + length ms) \<le> p_MaxMessages p"
          using c2 by auto
        show ?thesis using ran_step [OF step ms(1)] ms(2,3) rd bound by (intro exI [of _ "msg # ms"]) simp
      qed
    qed
  qed (rule stop)
qed

lemma dialLoop_runs:
  assumes "dialLoop E A nw pub k expected h c hp = (r, h', c', hp')" "inv_ok (n_Inventory (h_Node h))"
  shows "\<exists>ms. ran E A pub (h, hp) ms r (h', hp') \<and> read_all E (length ms) (cn_in c) = map Inr ms \<and> length ms \<le> expected"
  using assms
proof (induction expected arbitrary: k h c hp)
  case 0
  then show ?case by (intro exI [of _ "[]"]) (auto simp: ran_def intro: begin_run)
next
  case (Suc expected)
  note ok = Suc.prems(2) and loop = Suc.prems(1) [unfolded dialLoop.simps]
  have stop: ?case if "h' = h" "hp' = hp"
    by (rule exI [of _ "[]"]) (simp add: ran_def that begin_run)
  consider "h' = h" "hp' = hp" | msg c1 where "nw_ctx nw (2 * k) = None" "readFrame E nw k DefaultReadTimeout c = (Inr msg, c1)"
    using loop by (auto split: if_splits option.splits sum.splits prod.splits)
  then show ?case
  proof cases
    case (2 msg c1)
    note rd = readFrame_frame(1) [OF 2(2)]
    obtain rr h1 hp1 where H: "HandleMessage E A hp (nw_nonce nw k) (at_time h (nw_clock nw k)) msg pub = (rr, h1, hp1)"
      by (metis surj_pair)
    note tick = session_run_tick [OF ok, of E A pub hp "nw_clock nw k"]
    show ?thesis
    proof (cases rr)
      case (Inl e)
      then have "r = Inl e" "h' = h1" "hp' = hp1" using loop 2 H by simp_all
      then have "ran E A pub (h, hp) [] r (h', hp')" unfolding ran_def using tick H Inl by metis
      then show ?thesis by (intro exI [of _ "[]"]) simp
    next
      case (Inr rep)
      have step: "session_run E A pub (h, hp) [msg] (h1, hp1)"
        using message [OF tick H [unfolded Inr]] by simp
      have ok1: "inv_ok (n_Inventory (h_Node h1))" using session_run_invariant(1) [OF step] ok by simp
      obtain response herr where rep: "rep = (response, herr)" by force
      define w where "w = (case response of None \<Rightarrow> (Inr (), c1) | Some m \<Rightarrow> writeFrame E nw k DefaultWriteTimeout c1 m)"
      obtain rw c2 where w2: "w = (rw, c2)" by force
      have c2: "cn_in c2 = cn_in c1" using w2 by (auto simp: w_def dest: writeFrame_in split: option.splits)
      consider "h' = h1" "hp' = hp1" | "dialLoop E A nw pub (k + 1) expected h1 c2 hp1 = (r, h', c', hp')"
        using loop 2 H Inr w2 rep
        by (auto simp: w_def [symmetric] split: if_splits option.splits sum.splits)
      then show ?thesis
      proof cases
        case 1
        then have "ran E A pub (h, hp) [msg] r (h', hp')" using step by (simp add: ran_def)
        then show ?thesis using rd by (intro exI [of _ "[msg]"]) simp
      next
        case rec: 2
        from Suc.IH [OF rec ok1] c2 obtain ms where ms: "ran E A pub (h1, hp1) ms r (h', hp')"
          "read_all E (length ms) (cn_in c1) = map Inr ms" "length ms \<le> expected" by auto
        show ?thesis using ran_step [OF step ms(1)] ms(2,3) rd by (intro exI [of _ "msg # ms"]) simp
      qed
    qed
  qed (rule stop)
qed

text \<open>A new session knows no request and no quote.\<close>

definition newHandler :: "Node \<Rightarrow> NodeID \<Rightarrow> Handler" where
  "newHandler n peerID = \<lparr>h_Node = n, h_Session = NewSession (n_ID n) peerID\<rparr>"

lemma newHandler_simps [simp]:
  "h_Node (newHandler n peerID) = n" "sells_only (newHandler n peerID)"
  "s_PeerID (h_Session (newHandler n peerID)) = peerID" "s_LocalID (h_Session (newHandler n peerID)) = n_ID n"
  "\<not> HasSeen (h_Session (newHandler n peerID)) i"
  by (simp_all add: newHandler_def NewSession_def sells_only_def HasSeen_def gm_get_def)

lemma NewHandler_new [simp]: "NewHandler (Some n) (Some (NewSession (n_ID n) peerID)) = Inr (newHandler n peerID)"
  by (simp add: NewHandler_def newHandler_def NewSession_def)

lemma Serve_runs:
  assumes "Serve E A nw (Some p) hp = (r, Some (h', c'), hp')" "p_Node p = Some n" "p_Handler p = None" "p_Session p = None"
    and "inv_ok (n_Inventory n)"
  shows "\<exists>c peerID ms. p_Conn p = Some c \<and> NodeIDFromPublicKey (p_PeerPublicKey p) = Inr peerID
    \<and> ran E A (p_PeerPublicKey p) (newHandler n peerID, hp) ms r (h', hp') \<and> read_all E (length ms) (cn_in c) = map Inr ms
    \<and> int (length ms) \<le> (if p_MaxMessages p \<le> 0 then DefaultMaxMessages else p_MaxMessages p)"
proof -
  obtain q where q: "runtime_init (Some p) = Inr q" using assms(1) by (cases "runtime_init (Some p)") (simp_all add: Serve_def)
  obtain c peerID where c: "p_Conn p = Some c" "NodeIDFromPublicKey (p_PeerPublicKey p) = Inr peerID"
    and i: "p_Handler q = Some (newHandler n peerID)" "p_Conn q = Some c" "p_PeerPublicKey q = p_PeerPublicKey p"
      "p_MaxMessages q = (if p_MaxMessages p \<le> 0 then DefaultMaxMessages else p_MaxMessages p)"
    using q assms(2,3,4) by (auto simp: runtime_init_def Let_def)
  have "serveLoop E A nw q 0 (newHandler n peerID) c hp = (r, h', c', hp')"
    using assms(1) q i by (auto simp: Serve_def split: prod.splits)
  from serveLoop_runs [OF this] assms(5) i c show ?thesis by (fastforce simp: DefaultMaxMessages_def split: if_splits)
qed

lemma DialAndServe_runs:
  assumes "DialAndServe E A nw (Inr c) addr (Some n) pub initial hp = (r, Some (h', c'), hp')" "inv_ok (n_Inventory n)"
  shows "\<exists>peerID ms. NodeIDFromPublicKey pub = Inr peerID \<and> ran E A pub (newHandler n peerID, hp) ms r (h', hp')
    \<and> length ms \<le> length initial"
proof -
  have e: "m \<le> expected + length msgs" if "writeInitial E nw k c expected msgs = (Inr m, c2)" for k c expected m c2 msgs
    using that
  proof (induction msgs arbitrary: k c expected)
    case (Cons msg msgs)
    then show ?case by (fastforce split: prod.splits sum.splits if_splits)
  qed simp
  obtain peerID where p: "NodeIDFromPublicKey pub = Inr peerID"
    using assms(1) by (cases "NodeIDFromPublicKey pub") (auto simp: DialAndServe_def split: if_splits)
  obtain rw c1 where w: "writeInitial E nw 0 c 0 initial = (rw, c1)" by force
  show ?thesis
  proof (cases rw)
    case (Inl e)
    then have "h' = newHandler n peerID" "hp' = hp" using assms(1) p w by (auto simp: DialAndServe_def split: if_splits)
    then show ?thesis using p by (intro exI conjI) (auto simp: ran_def intro: begin_run)
  next
    case (Inr m)
    then have "dialLoop E A nw pub (length initial) m (newHandler n peerID) c1 hp = (r, h', c', hp')"
      using assms(1) p w by (auto simp: DialAndServe_def split: if_splits prod.splits)
    from dialLoop_runs [OF this] assms(2) p e [OF w [unfolded Inr]] show ?thesis by fastforce
  qed
qed

section \<open>Slots\<close>

lemma acceptLoop_slots:
  "int slots \<le> maxConnections s \<Longrightarrow> int (fst (snd (acceptLoop s slots es))) \<le> maxConnections s"
  by (induction s slots es rule: acceptLoop.induct) (auto split: prod.splits)

section \<open>The end of a stream\<close>

lemma hasSuffix_simps: "hasSuffix ''truncated frame: EOF'' '': EOF''" "\<not> hasSuffix ''truncated frame: unexpected EOF'' '': EOF''"
  by (simp_all add: hasSuffix_def)

lemma isCleanEOF_truncated:
  "isCleanEOF (wrap_v truncatedFrame ''EOF'')" "\<not> isCleanEOF (wrap_v truncatedFrame ''unexpected EOF'')"
  using hasSuffix_simps by (simp_all add: isCleanEOF_def wrap_v_def truncatedFrame_def err_is_def)

lemma ReadFrame_cut:
  assumes "encodePayloadFrame p = Inr d" "n < length d"
  shows "fst (ReadFrame E (take n d)) = Inl (wrap_v truncatedFrame (if n = 0 \<or> n = FrameHeaderSize then ''EOF'' else ''unexpected EOF''))"
  using ReadPayloadFrame_cut [OF assms] by (auto simp: ReadFrame_def split: prod.splits)

section \<open>Pings are answered\<close>

definition is_ping :: "'x jenv_scheme \<Rightarrow> PrivateKey \<Rightarrow> int64 \<Rightarrow> Message \<Rightarrow> bool" where
  "is_ping E priv t msg \<longleftrightarrow> 0 < sint t \<and> payload_reads E TypePing (PingP \<lparr>pi_TimeUnix = t\<rparr>)
     \<and> (\<exists>ts nonce. SignEnvelope E priv TypePing (PingP \<lparr>pi_TimeUnix = t\<rparr>) ts nonce = Inr (m_Envelope msg, m_PayloadBytes msg))"

lemma SignResponse_cong:
  "n_PrivateKey (h_Node h) = n_PrivateKey (h_Node h') \<Longrightarrow> n_NowUnix (h_Node h) = n_NowUnix (h_Node h')
    \<Longrightarrow> SignResponse E rand h t p = SignResponse E rand h' t p"
  by (simp add: SignResponse_def)

lemma ping_turn:
  assumes "is_ping E priv t msg" "signs_verify E priv"
    and "NodeIDFromPublicKey (ed25519_Public priv) = Inr (s_PeerID (h_Session h))"
    and "\<not> HasSeen (h_Session h) (e_MessageID (m_Envelope msg))"
  shows "HandleMessage E A hp rand h msg (ed25519_Public priv)
    = (Inr (handlePing E rand h \<lparr>pi_TimeUnix = t\<rparr>), marked h (m_Envelope msg) (e_Timestamp (m_Envelope msg)), hp)"
proof -
  obtain ts nonce where s: "SignEnvelope E priv TypePing (PingP \<lparr>pi_TimeUnix = t\<rparr>) ts nonce = Inr (m_Envelope msg, m_PayloadBytes msg)"
    and r: "payload_reads E TypePing (PingP \<lparr>pi_TimeUnix = t\<rparr>)" and t: "0 < sint t" using assms(1) by (auto simp: is_ping_def)
  note v = SignEnvelope_verifies [OF s assms(2) r]
  note i = SignEnvelope_Inr [OF s]
  have d: "DecodePayload E TypePing (m_PayloadBytes msg) = Inr (PingP \<lparr>pi_TimeUnix = t\<rparr>)"
    using v(2) by (auto simp: normalizePayload_Inr payloadOf_def)
  have sem: "ValidatePayloadSemantics E TypePing (PingP \<lparr>pi_TimeUnix = t\<rparr>) = Inr ()"
    using t payload_type_valid [of "PingP \<lparr>pi_TimeUnix = t\<rparr>"]
    by (simp add: ValidatePayloadSemantics_def word_sle_eq normalizePayload_Inr payloadOf_def)
  have e: "e_Type (m_Envelope msg) = TypePing" "e_Sender (m_Envelope msg) = s_PeerID (h_Session h)"
    using i(4,9) assms(3) by simp_all
  have a: "admitted E h msg (ed25519_Public priv)" using v(1) e(2) by (simp add: admitted_def)
  have h: "handlePing E rand (marked h env u) = handlePing E rand h" for env u
    by (intro ext) (simp add: handlePing_def SignResponse_def)
  show ?thesis
    by (subst HandleMessage_dispatch [OF a assms(4), where payload = "PingP \<lparr>pi_TimeUnix = t\<rparr>"])
      (simp_all add: e(1) d sem dispatch_def h)
qed

text \<open>Nothing fails on the network or in the context.\<close>

definition reliable :: "network \<Rightarrow> bool" where
  "reliable nw \<longleftrightarrow> (\<forall>k. nw_ctx nw k = None \<and> nw_SetReadDeadline nw k = None \<and> nw_Read nw k = None
     \<and> nw_SetWriteDeadline nw k = None \<and> nw_writer nw k = buffer_writer)"

lemma reliable_read: "reliable nw \<Longrightarrow> ReadFrame E (cn_in c) = (r, rest) \<Longrightarrow> readFrame E nw k t c = (r, c\<lparr>cn_in := rest\<rparr>)"
  by (simp add: reliable_def readFrame_def)

lemma reliable_write: "reliable nw \<Longrightarrow> EncodeFrame E m = Inr d \<Longrightarrow> writeFrame E nw k t c m = (Inr (), c\<lparr>cn_out := cn_out c @ d\<rparr>)"
  by (simp add: reliable_def writeFrame_def WriteFrame_def buffer_writer_def)

text \<open>The pong of the \<open>k\<close>-th turn.\<close>

definition pong :: "'x jenv_scheme \<Rightarrow> network \<Rightarrow> Node \<Rightarrow> nat \<Rightarrow> int64 \<Rightarrow> err + Message" where
  "pong E nw n k t = SignResponse E (nw_nonce nw k) (at_time (newHandler n (NodeID 0)) (nw_clock nw k)) TypePong
     (PongP \<lparr>po_PingTimeUnix = t, po_TimeUnix = nw_clock nw k\<rparr>)"

lemma handlePing_pong:
  assumes "pong E nw n k t = Inr m" "n_PrivateKey (h_Node h) = n_PrivateKey n"
  shows "handlePing E (nw_nonce nw k) (at_time h (nw_clock nw k)) \<lparr>pi_TimeUnix = t\<rparr> = (Some m, None)"
proof -
  have "SignResponse E (nw_nonce nw k) (at_time h (nw_clock nw k)) TypePong
     (PongP \<lparr>po_PingTimeUnix = t, po_TimeUnix = nw_clock nw k\<rparr>) = Inr m"
    using assms by (simp add: pong_def at_time_def SignResponse_def)
  then show ?thesis by (simp add: handlePing_def reply_of_def at_time_def)
qed

lemma empty_stream: "\<exists>e. ReadFrame E [] = (Inl e, []) \<and> isCleanEOF e"
  using isCleanEOF_truncated(1) by (simp add: ReadFrame_def ReadPayloadFrame_def io_ReadFull_def FrameHeaderSize_def)

text \<open>The bytes of messages sent one after the other.\<close>

primrec frames :: "'x jenv_scheme \<Rightarrow> Message list \<Rightarrow> bytes" where
  "frames E [] = []"
| "frames E (m # ms) = projr (EncodeFrame E m) @ frames E ms"

lemma serve_pings:
  assumes "reliable nw" "signs_verify E priv" "p_PeerPublicKey p = ed25519_Public priv"
    and "NodeIDFromPublicKey (ed25519_Public priv) = Inr (s_PeerID (h_Session h))"
    and "n_PrivateKey (h_Node h) = n_PrivateKey n"
    and "list_all2 (is_ping E priv) ts ms" "list_all (sendable E) ms" "distinct (map (e_MessageID \<circ> m_Envelope) ms)"
    and "\<forall>m \<in> set ms. \<not> HasSeen (h_Session h) (e_MessageID (m_Envelope m))"
    and "cn_in c = frames E ms"
    and "int (k + length ms) \<le> p_MaxMessages p"
    and "list_all2 (\<lambda>(i, t) m. pong E nw n i t = Inr m \<and> (\<exists>d. EncodeFrame E m = Inr d)) (enumerate k ts) rs"
  shows "\<exists>h' c'. serveLoop E A nw p k h c hp = (Inr (), h', c', hp) \<and> cn_out c' = cn_out c @ frames E rs"
  using assms(4-)
proof (induction ms arbitrary: ts rs k h c)
  case Nil
  obtain e where "ReadFrame E [] = (Inl e, [])" "isCleanEOF e" using empty_stream by blast
  with Nil assms(1) show ?case
    by (subst serveLoop.simps) (auto simp: reliable_def readFrame_def)
next
  case (Cons m ms)
  obtain t ts' where ts: "ts = t # ts'" "is_ping E priv t m" "list_all2 (is_ping E priv) ts' ms"
    using Cons.prems(3) by (auto simp: list_all2_Cons2)
  obtain r rs' d' where rs: "rs = r # rs'" "pong E nw n k t = Inr r" "EncodeFrame E r = Inr d'"
    "list_all2 (\<lambda>(i, t) m. pong E nw n i t = Inr m \<and> (\<exists>d. EncodeFrame E m = Inr d)) (enumerate (Suc k) ts') rs'"
    using Cons.prems(9) by (auto simp: ts list_all2_Cons1)
  obtain d where d: "EncodeFrame E m = Inr d" "\<forall>rest. ReadFrame E (d @ rest) = (Inr m, rest)"
    using sendable_frame [of E m] Cons.prems(4) by auto
  let ?rest = "frames E ms" and ?h1 = "at_time h (nw_clock nw k)"
  let ?h2 = "marked ?h1 (m_Envelope m) (e_Timestamp (m_Envelope m))"
  have rd: "readFrame E nw k (p_ReadTimeout p) c = (Inr m, c\<lparr>cn_in := ?rest\<rparr>)"
    by (rule reliable_read [OF assms(1)]) (use Cons.prems(7) d in simp)
  have H: "HandleMessage E A hp (nw_nonce nw k) ?h1 m (ed25519_Public priv) = (Inr (Some r, None), ?h2, hp)"
    using ping_turn [OF ts(2) assms(2), of ?h1 A hp "nw_nonce nw k"] Cons.prems(1,6) handlePing_pong [OF rs(2) Cons.prems(2)] by simp
  have w: "writeFrame E nw k (p_WriteTimeout p) (c\<lparr>cn_in := ?rest\<rparr>) r = (Inr (), c\<lparr>cn_in := ?rest, cn_out := cn_out c @ d'\<rparr>)"
    using reliable_write [OF assms(1) rs(3)] by simp
  have "serveLoop E A nw p k h c hp = serveLoop E A nw p (k + 1) ?h2 (c\<lparr>cn_in := ?rest, cn_out := cn_out c @ d'\<rparr>) hp"
    using rd H w assms(1,3) Cons.prems(8)
    by (subst serveLoop.simps) (simp add: reliable_def answer_def)
  moreover have "\<exists>h' c'. serveLoop E A nw p (k + 1) ?h2 (c\<lparr>cn_in := ?rest, cn_out := cn_out c @ d'\<rparr>) hp = (Inr (), h', c', hp)
    \<and> cn_out c' = cn_out (c\<lparr>cn_in := ?rest, cn_out := cn_out c @ d'\<rparr>) @ frames E rs'"
    by (rule Cons.IH [OF _ _ ts(3)]) (use Cons.prems rs(4) in \<open>auto simp: at_time_def image_iff\<close>)
  ultimately show ?case using rs(1,3) by auto
qed

end
