(* ===== verification/Policy.thy ===== *)
theory Policy
  imports Transfers
begin

text \<open>
  \<open>core/policy\<close>: a node's local decision to accept a validated issuance or transfer, from the trust
  it puts in issuers. A method on a nil policy panics where it reads a field; a panic is \<open>Inl\<close>.
  The system clock is the argument \<open>sys\<close>, a configured clock is a field of the policy.

  Shown here: an accepted value was validated, has not expired, is not too deep, and every issuer
  behind it is trusted at least at the minimum; and the score of a transfer is the lowest trust
  among its inputs.
\<close>

section \<open>Definitions\<close>

datatype Decision = Accept | Reject | Pending

record AcceptanceResult =
  res_Decision :: Decision
  res_Score :: float64
  res_Reasons :: "string list"

record Policy =
  po_TrustedIssuers :: "(string, float64) gomap"
  po_MinScore :: float64
  po_MaxDepth :: uint32
  po_NowUnix :: "int64 option"

text \<open>
  The verb \<open>%.3f\<close>: the exact binary value rounded to three decimals, ties to even.
\<close>

definition pad3 :: "string \<Rightarrow> string" where
  "pad3 s = replicate (3 - length s) (CHR ''0'') @ s"

definition fixed3 :: "rat \<Rightarrow> string" where
  "fixed3 r = (let n = nat (round_half_even (r * 1000))
               in dec_nat (n div 1000) @ ''.'' @ pad3 (dec_nat (n mod 1000)))"

fun fmt3 :: "float64 \<Rightarrow> string" where
  "fmt3 NaN = ''NaN''"
| "fmt3 (Inf s) = (if s then ''-Inf'' else ''+Inf'')"
| "fmt3 NegZero = ''-0.000''"
| "fmt3 (Fin r) = (if r < 0 then ''-'' @ fixed3 (- r) else fixed3 r)"

definition reject :: "float64 \<Rightarrow> string \<Rightarrow> AcceptanceResult" where
  "reject score reason = \<lparr>res_Decision = Reject, res_Score = score, res_Reasons = [reason]\<rparr>"

definition isExpired :: "int64 \<Rightarrow> Policy option \<Rightarrow> int64 \<Rightarrow> bool" where
  "isExpired sys p expiryUnix =
     (if expiryUnix = 0 then False
      else let now = (case p of None \<Rightarrow> sys
                      | Some q \<Rightarrow> (case po_NowUnix q of None \<Rightarrow> sys | Some t \<Rightarrow> t))
           in expiryUnix \<le>s now)"

datatype IssuerArg = KeyPublic PublicKey | KeyNode NodeID | KeyOther

definition IssuerKey :: "IssuerArg \<Rightarrow> string" where
  "IssuerKey pub = (case pub of
     KeyPublic p \<Rightarrow> hex_string p
   | KeyNode n \<Rightarrow> hex_string (NodeID_Bytes n)
   | KeyOther \<Rightarrow> '''')"

text \<open>The pair of a score and \<open>ok\<close>: \<open>None\<close> is \<open>0, false\<close>.\<close>

definition issuerTrust :: "Policy option \<Rightarrow> NodeID \<Rightarrow> float64 option" where
  "issuerTrust p issuer = (case p of None \<Rightarrow> None
     | Some q \<Rightarrow> map_of (po_TrustedIssuers q) (IssuerKey (KeyNode issuer)))"

definition nilPanic :: err where
  "nilPanic = panic (errorf ''runtime error: invalid memory address or nil pointer dereference'')"

definition EvaluateIssue ::
    "'x env_scheme \<Rightarrow> int64 \<Rightarrow> Policy option \<Rightarrow> IssueTx option \<Rightarrow> Value \<Rightarrow> err + AcceptanceResult" where
  "EvaluateIssue E sys p tx output = (case ValidateIssueTx E tx output of
     Inl e \<Rightarrow> Inr (reject (Fin 0) (''validation failed: '' @ err_text e))
   | Inr _ \<Rightarrow>
     if isExpired sys p (v_ExpiryUnix output) then Inr (reject (Fin 0) ''value expired'')
     else (case p of None \<Rightarrow> Inl nilPanic
       | Some q \<Rightarrow>
         if po_MaxDepth q < v_Depth output
         then Inr (reject (Fin 0) (concat [''depth '', dec_nat (unat (v_Depth output)),
                '' exceeds max depth '', dec_nat (unat (po_MaxDepth q))]))
         else (case issuerTrust p (v_Issuer output) of
             None \<Rightarrow> Inr (reject (Fin 0) ''issuer is not trusted'')
           | Some score \<Rightarrow>
             if flt score (po_MinScore q)
             then Inr (reject score (concat [''issuer trust '', fmt3 score, '' below minimum '', fmt3 (po_MinScore q)]))
             else Inr \<lparr>res_Decision = Accept, res_Score = score,
                        res_Reasons = [''issuer trusted'', ''issue accepted'']\<rparr>)))"

text \<open>
  The loop over the inputs ends early with a rejection (\<open>Inl\<close>) or yields the score; \<open>None\<close> is
  \<open>scoreSet = false\<close>.
\<close>

fun scanInputs ::
    "int64 \<Rightarrow> Policy \<Rightarrow> Value list \<Rightarrow> float64 option \<Rightarrow> AcceptanceResult + float64 option" where
  "scanInputs sys q [] score = Inr score"
| "scanInputs sys q (input # inputs) score =
     (if isExpired sys (Some q) (v_ExpiryUnix input) then Inl (reject (Fin 0) ''input value expired'')
      else if po_MaxDepth q < v_Depth input
      then Inl (reject (Fin 0) (concat [''input depth '', dec_nat (unat (v_Depth input)),
             '' exceeds max depth '', dec_nat (unat (po_MaxDepth q))]))
      else (case issuerTrust (Some q) (v_Issuer input) of
          None \<Rightarrow> Inl (reject (Fin 0) ''input issuer is not trusted'')
        | Some trust \<Rightarrow>
            scanInputs sys q inputs
              (case score of None \<Rightarrow> Some trust
               | Some s \<Rightarrow> if flt trust s then Some trust else Some s)))"

fun scanOutputs :: "int64 \<Rightarrow> Policy \<Rightarrow> Value list \<Rightarrow> AcceptanceResult + unit" where
  "scanOutputs sys q [] = Inr ()"
| "scanOutputs sys q (output # outputs) =
     (if isExpired sys (Some q) (v_ExpiryUnix output) then Inl (reject (Fin 0) ''output value expired'')
      else if po_MaxDepth q < v_Depth output
      then Inl (reject (Fin 0) (concat [''output depth '', dec_nat (unat (v_Depth output)),
             '' exceeds max depth '', dec_nat (unat (po_MaxDepth q))]))
      else scanOutputs sys q outputs)"

text \<open>
  A valid transfer has inputs, so a nil policy is dereferenced in the first iteration unless the
  first input is expired.
\<close>

definition EvaluateTransfer ::
    "'x env_scheme \<Rightarrow> int64 \<Rightarrow> Policy option \<Rightarrow> TransferTx option \<Rightarrow> Value list \<Rightarrow> err + AcceptanceResult" where
  "EvaluateTransfer E sys p tx inputs = (case ValidateTransferTx E tx inputs of
     Inl e \<Rightarrow> Inr (reject (Fin 0) (''validation failed: '' @ err_text e))
   | Inr _ \<Rightarrow> (case p of
       None \<Rightarrow> if isExpired sys None (v_ExpiryUnix (hd inputs))
               then Inr (reject (Fin 0) ''input value expired'') else Inl nilPanic
     | Some q \<Rightarrow> (case scanInputs sys q inputs None of
         Inl r \<Rightarrow> Inr r
       | Inr sc \<Rightarrow> (case scanOutputs sys q (x_Outputs (the tx)) of
           Inl r \<Rightarrow> Inr r
         | Inr _ \<Rightarrow>
           let score = (case sc of None \<Rightarrow> Fin 0 | Some s \<Rightarrow> s) in
           if flt score (po_MinScore q)
           then Inr (reject score (concat [''issuer trust '', fmt3 score, '' below minimum '', fmt3 (po_MinScore q)]))
           else Inr \<lparr>res_Decision = Accept, res_Score = score,
                      res_Reasons = [''input issuers trusted'', ''transfer accepted'']\<rparr>))))"

section \<open>What acceptance means\<close>

lemma reject_Decision [simp]: "res_Decision (reject s r) = Reject"
  by (simp add: reject_def)

lemma reject_neq_accept [simp]: "reject s r \<noteq> \<lparr>res_Decision = Accept, res_Score = x, res_Reasons = y\<rparr>"
  by (simp add: reject_def)

text \<open>A policy's own view of a value: current, shallow enough, from a trusted issuer.\<close>

definition passes :: "int64 \<Rightarrow> Policy \<Rightarrow> Value \<Rightarrow> bool" where
  "passes sys q v \<longleftrightarrow> \<not> isExpired sys (Some q) (v_ExpiryUnix v) \<and> v_Depth v \<le> po_MaxDepth q"

lemma EvaluateIssue_accept:
  assumes "EvaluateIssue E sys (Some q) tx v = Inr r" "res_Decision r = Accept"
  shows "ValidateIssueTx E tx v = Inr () \<and> passes sys q v
    \<and> issuerTrust (Some q) (v_Issuer v) = Some (res_Score r) \<and> \<not> flt (res_Score r) (po_MinScore q)"
  using assms
  by (auto simp: EvaluateIssue_def passes_def not_less split: sum.splits if_splits option.splits)

lemma EvaluateIssue_complete:
  assumes "ValidateIssueTx E tx v = Inr ()" "passes sys q v"
    and "issuerTrust (Some q) (v_Issuer v) = Some s" "\<not> flt s (po_MinScore q)"
  shows "\<exists>r. EvaluateIssue E sys (Some q) tx v = Inr r \<and> res_Decision r = Accept \<and> res_Score r = s"
  using assms by (simp add: EvaluateIssue_def passes_def not_less [symmetric])

lemma scanInputs_pass:
  assumes "scanInputs sys q vs sc = Inr sc'" "v \<in> set vs"
  shows "passes sys q v \<and> issuerTrust (Some q) (v_Issuer v) \<noteq> None"
  using assms
  by (induction vs arbitrary: sc) (auto simp: passes_def not_less split: if_splits option.splits)

lemma scanOutputs_pass:
  assumes "scanOutputs sys q vs = Inr u" "v \<in> set vs"
  shows "passes sys q v"
  using assms by (induction vs) (auto simp: passes_def not_less split: if_splits)

lemma flt_trans: "flt x y \<Longrightarrow> flt y z \<Longrightarrow> flt x z"
  by (cases x; cases y; cases z) auto

lemma scanInputs_score:
  assumes "scanInputs sys q vs sc = Inr sc'"
  shows "(\<forall>s. sc = Some s \<longrightarrow> (\<exists>s'. sc' = Some s' \<and> (s' = s \<or> flt s' s)))
    \<and> (\<forall>v \<in> set vs. \<exists>s'. sc' = Some s' \<and> \<not> flt (the (issuerTrust (Some q) (v_Issuer v))) s')
    \<and> (sc' = sc \<or> (\<exists>v \<in> set vs. sc' = issuerTrust (Some q) (v_Issuer v)))"
  using assms
proof (induction vs arbitrary: sc)
  case (Cons v vs)
  then obtain t where t: "issuerTrust (Some q) (v_Issuer v) = Some t"
    by (auto split: if_splits option.splits)
  let ?n = "case sc of None \<Rightarrow> t | Some s \<Rightarrow> if flt t s then t else s"
  have n: "scanInputs sys q vs (Some ?n) = Inr sc'"
    using Cons.prems t by (cases sc) (auto split: if_splits)
  from Cons.IH [OF n] obtain s' where s': "sc' = Some s'" "s' = ?n \<or> flt s' ?n" by blast
  have "\<not> flt t s'"
  proof
    assume a: "flt t s'"
    then have "flt t ?n" using s'(2) flt_trans by metis
    then show False by (auto split: option.splits if_splits)
  qed
  moreover have "s' = s \<or> flt s' s" if "sc = Some s" for s
    using s'(2) that flt_trans [of s' t s] by (simp split: if_splits) blast
  moreover have "sc' = sc \<or> sc' = Some t \<or> (\<exists>v \<in> set vs. sc' = issuerTrust (Some q) (v_Issuer v))"
    using Cons.IH [OF n] by (cases sc) (auto split: if_splits)
  ultimately show ?case using Cons.IH [OF n] s'(1) t by auto
qed simp

lemma scanInputs_reject: "scanInputs sys q vs sc = Inl r \<Longrightarrow> res_Decision r = Reject"
  by (induction vs arbitrary: sc) (auto split: if_splits option.splits)

lemma scanOutputs_reject: "scanOutputs sys q vs = Inl r \<Longrightarrow> res_Decision r = Reject"
  by (induction vs) (auto split: if_splits)

lemma EvaluateTransfer_accept:
  assumes "EvaluateTransfer E sys (Some q) tx ins = Inr r" "res_Decision r = Accept"
  shows "ValidateTransferTx E tx ins = Inr ()"
    and "\<forall>v \<in> set ins. passes sys q v \<and> issuerTrust (Some q) (v_Issuer v) \<noteq> None"
    and "\<forall>v \<in> set (x_Outputs (the tx)). passes sys q v"
    and "\<not> flt (res_Score r) (po_MinScore q)"
    and "\<exists>v \<in> set ins. issuerTrust (Some q) (v_Issuer v) = Some (res_Score r)"
    and "\<forall>v \<in> set ins. \<not> flt (the (issuerTrust (Some q) (v_Issuer v))) (res_Score r)"
proof -
  from assms obtain sc where
    v: "ValidateTransferTx E tx ins = Inr ()" and i: "scanInputs sys q ins None = Inr sc"
    and o: "scanOutputs sys q (x_Outputs (the tx)) = Inr ()"
    and s: "res_Score r = (case sc of None \<Rightarrow> Fin 0 | Some s \<Rightarrow> s)" "\<not> flt (res_Score r) (po_MinScore q)"
    by (auto simp: EvaluateTransfer_def Let_def dest: scanInputs_reject scanOutputs_reject
        split: sum.splits if_splits option.splits)
  show "ValidateTransferTx E tx ins = Inr ()" by (rule v)
  have "ins \<noteq> []" using v by (auto simp: ValidateTransferTx_def split: option.splits)
  then obtain w where w: "w \<in> set ins" by (cases ins) auto
  note S = scanInputs_score [OF i]
  then obtain s' where s': "sc = Some s'" using w by blast
  then have sr: "res_Score r = s'" using s by simp
  show "\<forall>v \<in> set ins. passes sys q v \<and> issuerTrust (Some q) (v_Issuer v) \<noteq> None"
    using scanInputs_pass [OF i] by blast
  show "\<forall>v \<in> set (x_Outputs (the tx)). passes sys q v" using scanOutputs_pass [OF o] by blast
  show "\<not> flt (res_Score r) (po_MinScore q)" by (rule s(2))
  show "\<exists>v \<in> set ins. issuerTrust (Some q) (v_Issuer v) = Some (res_Score r)" using S s' sr by auto
  show "\<forall>v \<in> set ins. \<not> flt (the (issuerTrust (Some q) (v_Issuer v))) (res_Score r)" using S s' sr by auto
qed

end
