(* ===== verification/Liveness.thy ===== *)
theory Liveness
  imports Trade
begin

text \<open>
  Trades that are executed. \<open>Trade\<close> shows what an execution does if it succeeds; here it is shown to
  succeed: a quote that both parties accept is executed when all holdings are positive, the
  counters and balances stay in range, and the hash tells the four values of the transaction
  apart. The same for a signed trade whose authorizations pass the checks.
\<close>

section \<open>The transaction of a quote is valid\<close>

text \<open>The four values of the transaction; what their identifiers have to be is that they differ.\<close>

definition plainValue :: "UnitID \<Rightarrow> amount \<Rightarrow> NodeID \<Rightarrow> int64 \<Rightarrow> Value" where
  "plainValue unit a owner createdAt =
     \<lparr>v_ID = ValueID 0, v_Unit = unit, v_Amount = a, v_Owner = owner,
      v_CreatedAt = createdAt, v_Issuer = NodeID 0, v_ExpiryUnix = 0, v_Depth = 0\<rparr>"

definition tradeValues :: "Quote \<Rightarrow> int64 \<Rightarrow> Value list" where
  "tradeValues q now =
     [plainValue (q_SellUnit q) (q_SellAmount q) (q_Seller q) now,
      plainValue (q_BuyUnit q) (q_BuyAmount q) (q_Buyer q) (now + 1),
      plainValue (q_BuyUnit q) (q_BuyAmount q) (q_Seller q) (now + 2),
      plainValue (q_SellUnit q) (q_SellAmount q) (q_Buyer q) (now + 3)]"

definition ids_differ :: "'x env_scheme \<Rightarrow> Quote \<Rightarrow> int64 \<Rightarrow> bool" where
  "ids_differ E q now \<longleftrightarrow> distinct (map (ValueIDFor E) (tradeValues q now))"

definition tradeTxOf :: "Quote \<Rightarrow> int64 \<Rightarrow> ValueID \<Rightarrow> ValueID \<Rightarrow> ValueID \<Rightarrow> ValueID \<Rightarrow> TxID \<Rightarrow> TradeTx" where
  "tradeTxOf q now w1 w2 w3 w4 tid =
     \<lparr>t_ID = tid, t_InputsA = [plainValue (q_SellUnit q) (q_SellAmount q) (q_Seller q) now\<lparr>v_ID := w1\<rparr>],
        t_InputsB = [plainValue (q_BuyUnit q) (q_BuyAmount q) (q_Buyer q) (now + 1)\<lparr>v_ID := w2\<rparr>],
        t_OutputsA = [plainValue (q_BuyUnit q) (q_BuyAmount q) (q_Seller q) (now + 2)\<lparr>v_ID := w3\<rparr>],
        t_OutputsB = [plainValue (q_SellUnit q) (q_SellAmount q) (q_Buyer q) (now + 3)\<lparr>v_ID := w4\<rparr>],
        t_PartyA = q_Seller q, t_PartyB = q_Buyer q, t_Timestamp = now\<rparr>"

lemma tradeValue_ok:
  "\<exists>w. tradeValue E u a p t = Inr (plainValue u a p t\<lparr>v_ID := w\<rparr>) \<and> ValueIDFor E (plainValue u a p t) = Inr w"
proof -
  obtain w where "ValueIDFor E (plainValue u a p t) = Inr w" using valuePreimage_total [of "plainValue u a p t"] by (auto simp: ValueIDFor_def)
  then show ?thesis by (simp add: tradeValue_def plainValue_def)
qed

lemma buildTradeTx_ok:
  assumes "ids_differ E q now"
  obtains w1 w2 w3 w4 tid where "distinct [w1, w2, w3, w4]"
    "map (ValueIDFor E) (tradeValues q now) = [Inr w1, Inr w2, Inr w3, Inr w4]"
    "TradeTxID E (tradeTxOf q now w1 w2 w3 w4 tid) = Inr tid"
    "buildTradeTx E (q_Seller q) (q_Buyer q) q now = Inr
      (tradeTxOf q now w1 w2 w3 w4 tid)"
proof -
  obtain w1 w2 w3 w4 where
    w: "tradeValue E (q_SellUnit q) (q_SellAmount q) (q_Seller q) now
        = Inr (plainValue (q_SellUnit q) (q_SellAmount q) (q_Seller q) now\<lparr>v_ID := w1\<rparr>)"
      "ValueIDFor E (plainValue (q_SellUnit q) (q_SellAmount q) (q_Seller q) now) = Inr w1"
      "tradeValue E (q_BuyUnit q) (q_BuyAmount q) (q_Buyer q) (now + 1)
        = Inr (plainValue (q_BuyUnit q) (q_BuyAmount q) (q_Buyer q) (now + 1)\<lparr>v_ID := w2\<rparr>)"
      "ValueIDFor E (plainValue (q_BuyUnit q) (q_BuyAmount q) (q_Buyer q) (now + 1)) = Inr w2"
      "tradeValue E (q_BuyUnit q) (q_BuyAmount q) (q_Seller q) (now + 2)
        = Inr (plainValue (q_BuyUnit q) (q_BuyAmount q) (q_Seller q) (now + 2)\<lparr>v_ID := w3\<rparr>)"
      "ValueIDFor E (plainValue (q_BuyUnit q) (q_BuyAmount q) (q_Seller q) (now + 2)) = Inr w3"
      "tradeValue E (q_SellUnit q) (q_SellAmount q) (q_Buyer q) (now + 3)
        = Inr (plainValue (q_SellUnit q) (q_SellAmount q) (q_Buyer q) (now + 3)\<lparr>v_ID := w4\<rparr>)"
      "ValueIDFor E (plainValue (q_SellUnit q) (q_SellAmount q) (q_Buyer q) (now + 3)) = Inr w4"
    using tradeValue_ok by metis
  let ?tx = "tradeTxOf q now w1 w2 w3 w4"
  obtain tid where t: "TradeTxID E (?tx (TxID 0)) = Inr tid" using tradePreimage_total [of "?tx (TxID 0)"] by (auto simp: TradeTxID_def)
  have t2: "TradeTxID E (?tx i) = TradeTxID E (?tx (TxID 0))" for i by (simp add: TradeTxID_def tradePreimage_def tradeTxOf_def)
  have "distinct [w1, w2, w3, w4]" using assms w by (auto simp: ids_differ_def tradeValues_def)
  moreover have "buildTradeTx E (q_Seller q) (q_Buyer q) q now = Inr (?tx tid)"
    using w t by (simp add: buildTradeTx_def tradeTxOf_def)
  ultimately show ?thesis using that [of w1 w2 w3 w4 tid] w t t2 by (simp add: tradeValues_def)
qed

lemma CheckedAdd_zero: "0 < sint a \<Longrightarrow> CheckedAdd 0 a = Inr a"
  using sint_range64 [of a] by (simp add: CheckedAdd_Inr)

lemma tally_zero: "0 < sint (v_Amount v) \<Longrightarrow> gm_get 0 m (v_Unit v) = 0 \<Longrightarrow> tally l i v m = Inr (gm_put m (v_Unit v) (v_Amount v))"
  by (simp add: tally_def CheckedAdd_zero)

lemma buildTradeTx_valid:
  assumes d: "ids_differ E q now" and p: "q_Seller q \<noteq> q_Buyer q" "q_Seller q \<noteq> NodeID 0" "q_Buyer q \<noteq> NodeID 0"
    and a: "0 < sint (q_SellAmount q)" "0 < sint (q_BuyAmount q)"
    and c: "sint (q_SellAmount q) \<le> sint (Inventory_Get c (q_Seller q) (q_SellUnit q))"
      "sint (q_BuyAmount q) \<le> sint (Inventory_Get c (q_Buyer q) (q_BuyUnit q))"
    and o: "q_SellUnit q \<noteq> q_BuyUnit q"
  shows "\<exists>tx. buildTradeTx E (q_Seller q) (q_Buyer q) q now = Inr tx \<and> ValidateTradeTx E (Some tx) c = Inr ()"
proof -
  obtain w1 w2 w3 w4 tid where w: "distinct [w1, w2, w3, w4]"
    "map (ValueIDFor E) (tradeValues q now) = [Inr w1, Inr w2, Inr w3, Inr w4]" and
    t: "TradeTxID E (tradeTxOf q now w1 w2 w3 w4 tid) = Inr tid" 
    "buildTradeTx E (q_Seller q) (q_Buyer q) q now = Inr (tradeTxOf q now w1 w2 w3 w4 tid)"
    using buildTradeTx_ok [OF d] by metis
  let ?tx = "tradeTxOf q now w1 w2 w3 w4 tid"
  note tx = tradeTxOf_def
  have ids: "ValueIDFor E (v\<lparr>v_ID := i\<rparr>) = ValueIDFor E v" for v i by (rule ValueIDFor_ID)
  have "validateValueSet E (t_InputsA ?tx) (t_PartyA ?tx) True = Inr ()"
    using w(2) a(1) by (simp add: tx validateValueSet_def checkSetValue_def ids tradeValues_def) (simp add: plainValue_def)
  moreover have "validateValueSet E (t_InputsB ?tx) (t_PartyB ?tx) True = Inr ()"
    using w(2) a(2) by (simp add: tx validateValueSet_def checkSetValue_def ids tradeValues_def) (simp add: plainValue_def)
  moreover have "validateValueSet E (t_OutputsA ?tx) (t_PartyA ?tx) False = Inr ()"
    using w(2) a(2) p by (simp add: tx validateValueSet_def checkSetValue_def ids tradeValues_def) (simp add: plainValue_def)
  moreover have "validateValueSet E (t_OutputsB ?tx) (t_PartyB ?tx) False = Inr ()"
    using w(2) a(1) p by (simp add: tx validateValueSet_def checkSetValue_def ids tradeValues_def) (simp add: plainValue_def)
  moreover have "checkNoDuplicateValueIDs [t_InputsA ?tx, t_InputsB ?tx, t_OutputsA ?tx, t_OutputsB ?tx] = Inr ()"
    using w(1) by (auto simp: tx checkNoDuplicateValueIDs_def)
  moreover have "checkTradeConservation ?tx = Inr ()"
    using a o by (simp add: tx checkTradeConservation_def tally_zero plainValue_def gm_put_def gm_get_def
        del: attempt_Inr tally_Inr guard_Inr)
  moreover have "checkTradeInventoryCoverage c (t_PartyA ?tx) (t_InputsA ?tx) ''party A'' = Inr ()"
    using a c by (simp add: tx checkTradeInventoryCoverage_def tally_zero plainValue_def gm_put_def word_sless_alt)
  moreover have "checkTradeInventoryCoverage c (t_PartyB ?tx) (t_InputsB ?tx) ''party B'' = Inr ()"
    using a c by (simp add: tx checkTradeInventoryCoverage_def tally_zero plainValue_def gm_put_def word_sless_alt)
  ultimately have "ValidateTradeTx E (Some ?tx) c = Inr ()" using p t(1) by (simp add: ValidateTradeTx_def) (simp add: tx)
  then show ?thesis using t(2) by blast
qed

section \<open>Room for a trade\<close>

text \<open>The counters of a node, and what each step of a trade adds to them.\<close>

definition counters :: "Node \<Rightarrow> UnitID \<Rightarrow> int \<times> int \<times> int" where
  "counters n u = (sint (fr_TradeVolume (gm_get zeroFlow (n_Flow n) u)), sint (fr_PaymentVolume (gm_get zeroFlow (n_Flow n) u)),
     sint (gm_get 0 (n_SettledVolume n) u))"

definition below :: "Node \<Rightarrow> UnitID \<Rightarrow> int \<Rightarrow> int \<Rightarrow> int \<Rightarrow> bool" where
  "below n u x y z \<longleftrightarrow> (case counters n u of (t, p, s) \<Rightarrow> t \<le> x \<and> p \<le> y \<and> s \<le> z)"

lemma below_init [simp]: "below (node_init n) u x y z = below n u x y z"
  by (simp add: below_def counters_def)

lemma CheckedAdd_ok: "0 < sint a \<Longrightarrow> sint b + sint a < 2 ^ 63 \<Longrightarrow> \<exists>c. CheckedAdd b a = Inr c \<and> sint c = sint b + sint a"
  using sint_range64 [of b] CheckedAdd_Inr [of b a] CheckedAdd_Inl [of b a] by (cases "CheckedAdd b a") auto

lemma recordTradeFlow_ok:
  assumes "0 < sint a" "below n u x y z" "below n v x' y' z'" "u \<noteq> v" "x + sint a < 2 ^ 63"
  shows "\<exists>m. recordTradeFlow n u a = Inr m \<and> below m u (x + sint a) y z \<and> below m v x' y' z'"
proof -
  have "sint (fr_TradeVolume (gm_get zeroFlow (n_Flow n) u)) + sint a < 2 ^ 63" using assms by (simp add: below_def counters_def)
  from CheckedAdd_ok [OF assms(1) this] show ?thesis using assms
    by (auto simp: recordTradeFlow_def AddTradeChecked_def Let_def below_def counters_def)
qed

lemma recordPaymentFlow_ok:
  assumes "0 < sint a" "below n u x y z" "below n v x' y' z'" "u \<noteq> v" "y + sint a < 2 ^ 63"
  shows "\<exists>m. recordPaymentFlow n u a = Inr m \<and> below m u x (y + sint a) z \<and> below m v x' y' z'"
proof -
  have "sint (fr_PaymentVolume (gm_get zeroFlow (n_Flow n) u)) + sint a < 2 ^ 63" using assms by (simp add: below_def counters_def)
  from CheckedAdd_ok [OF assms(1) this] show ?thesis using assms
    by (auto simp: recordPaymentFlow_def AddPaymentChecked_def Let_def below_def counters_def)
qed

lemma observe_ok:
  assumes "0 < sint a" "below n u x y z" "below n v x' y' z'" "u \<noteq> v" "z + sint a < 2 ^ 63"
  shows "\<exists>m. observe E w n u p a now = Inr m \<and> below m u x y (z + sint a) \<and> below m v x' y' z'"
proof -
  have "sint (gm_get 0 (n_SettledVolume n) u) + sint a < 2 ^ 63" using assms by (simp add: below_def counters_def)
  from CheckedAdd_ok [OF assms(1) this] show ?thesis using assms
    by (auto simp: observe_def recordObservation_def Let_def below_def counters_def computePriceLocked_def word_sle_eq)
qed

lemma recordSuccessfulTrade_ok:
  assumes a: "0 < sint (q_SellAmount q)" "0 < sint (q_BuyAmount q)" and u: "q_SellUnit q \<noteq> q_BuyUnit q"
    and s: "below s (q_SellUnit q) x y z" "below s (q_BuyUnit q) x' y' z'"
    and b: "below b (q_SellUnit q) x y z" "below b (q_BuyUnit q) x' y' z'"
    and r: "x + sint (q_SellAmount q) < 2 ^ 63" "z + sint (q_SellAmount q) < 2 ^ 63"
      "x' + sint (q_BuyAmount q) < 2 ^ 63" "y' + sint (q_BuyAmount q) < 2 ^ 63" "z' + sint (q_BuyAmount q) < 2 ^ 63"
  shows "\<exists>ns nb. recordSuccessfulTrade E s b q now = Inr (ns, nb)"
proof -
  let ?su = "q_SellUnit q" and ?bu = "q_BuyUnit q" and ?sa = "q_SellAmount q" and ?ba = "q_BuyAmount q"
  have side: "\<exists>m1 m2 m3. recordTradeFlow n ?su ?sa = Inr m1 \<and> recordTradeFlow m1 ?bu ?ba = Inr m2
      \<and> recordPaymentFlow m2 ?bu ?ba = Inr m3
      \<and> (\<forall>w w' p p'. \<exists>m4 m5. observe E w m3 ?su p ?sa now = Inr m4 \<and> observe E w' m4 ?bu p' ?ba now = Inr m5)"
    if n: "below n ?su x y z" "below n ?bu x' y' z'" for n
  proof -
    obtain m1 where 1: "recordTradeFlow n ?su ?sa = Inr m1" "below m1 ?su (x + sint ?sa) y z" "below m1 ?bu x' y' z'"
      using recordTradeFlow_ok [OF a(1) n u r(1)] by blast
    obtain m2 where 2: "recordTradeFlow m1 ?bu ?ba = Inr m2" "below m2 ?bu (x' + sint ?ba) y' z'" "below m2 ?su (x + sint ?sa) y z"
      using recordTradeFlow_ok [OF a(2) 1(3,2) u [symmetric] r(3)] by blast
    obtain m3 where 3: "recordPaymentFlow m2 ?bu ?ba = Inr m3" "below m3 ?bu (x' + sint ?ba) (y' + sint ?ba) z'"
      "below m3 ?su (x + sint ?sa) y z"
      using recordPaymentFlow_ok [OF a(2) 2(2,3) u [symmetric] r(4)] by blast
    have "\<exists>m4 m5. observe E w m3 ?su p ?sa now = Inr m4 \<and> observe E w' m4 ?bu p' ?ba now = Inr m5" for w w' p p'
      using observe_ok [OF a(1) 3(3,2) u r(2), of E w p now] observe_ok [OF a(2) _ _ u [symmetric] r(5), of _ _ _ _ _ _ E w' p' now] by meson
    then show ?thesis using 1 2 3 by blast
  qed
  from side [OF s] obtain s1 s2 s3 where 1: "recordTradeFlow s ?su ?sa = Inr s1" "recordTradeFlow s1 ?bu ?ba = Inr s2"
    "recordPaymentFlow s2 ?bu ?ba = Inr s3" 
    "\<And>w w' p p'. \<exists>m4 m5. observe E w s3 ?su p ?sa now = Inr m4 \<and> observe E w' m4 ?bu p' ?ba now = Inr m5" by blast
  from side [OF b] obtain b1 b2 b3 where 2: "recordTradeFlow b ?su ?sa = Inr b1" "recordTradeFlow b1 ?bu ?ba = Inr b2"
    "recordPaymentFlow b2 ?bu ?ba = Inr b3" 
    "\<And>w w' p p'. \<exists>m4 m5. observe E w b3 ?su p ?sa now = Inr m4 \<and> observe E w' m4 ?bu p' ?ba now = Inr m5" by blast
  let ?p = "fdiv (ToFloat ?ba) (ToFloat ?sa)" and ?p' = "fdiv (ToFloat ?sa) (ToFloat ?ba)"
  obtain s4 s5 b4 b5 where "observe E ''seller sell-unit observation overflow'' s3 ?su ?p ?sa now = Inr s4"
    "observe E ''seller buy-unit observation overflow'' s4 ?bu ?p' ?ba now = Inr s5"
    "observe E ''buyer sell-unit observation overflow'' b3 ?su ?p ?sa now = Inr b4"
    "observe E ''buyer buy-unit observation overflow'' b4 ?bu ?p' ?ba now = Inr b5"
    using 1(4) 2(4) by metis
  then show ?thesis using 1 2 by (simp add: recordSuccessfulTrade_def Let_def)
qed

section \<open>A quote that both accept is executed\<close>

definition node_ok :: "Node \<Rightarrow> bool" where
  "node_ok n \<longleftrightarrow> inv_ok (n_Inventory n) \<and> gm_ok (n_Flow n) \<and> gm_ok (n_SettledVolume n)"

abbreviation maxAmount :: int where "maxAmount \<equiv> 2 ^ 63 - 1"

text \<open>Neither the counters of a node nor the balance it receives are driven out of range.\<close>

definition room :: "Quote \<Rightarrow> Node \<Rightarrow> UnitID \<Rightarrow> amount \<Rightarrow> bool" where
  "room q n inc amt \<longleftrightarrow>
     (let s = maxAmount - sint (q_SellAmount q); b = maxAmount - sint (q_BuyAmount q) in
      below n (q_SellUnit q) s maxAmount s \<and> below n (q_BuyUnit q) b b b
      \<and> sint (balanceLocked n inc) + sint amt \<le> maxAmount)"

lemma copyMap_ok: "gm_ok m \<Longrightarrow> copyMap m = m"
  using foldl_put_distinct [of "[]" m] by (simp add: copyMap_def gm_ok_def)

lemma below_clone: "node_ok n \<Longrightarrow> below (cloneRuntimeState n\<lparr>n_Inventory := i\<rparr>) u x y z = below n u x y z"
  by (simp add: below_def counters_def cloneRuntimeState_def node_ok_def copyFlow_def copyAmountMap_def copyMap_ok)

lemma swap_ok:
  assumes "0 < sint a" "sint a \<le> sint (Inventory_Get i n u)" "0 < sint c" "sint (Inventory_Get i n v) + sint c \<le> maxAmount" "u \<noteq> v"
  shows "\<exists>i1 i2. Inventory_Sub i n u a = Inr i1 \<and> inv_credit i1 n v c = Inr i2"
proof -
  obtain i1 where 1: "Inventory_Sub i n u a = Inr i1" using inv_debit_succeeds [OF assms(1,2)] by blast
  have "Inventory_Get i1 n v = Inventory_Get i n v" using inv_debit_other [OF 1, of n v] assms(5) by auto
  then obtain i2 where "inv_credit i1 n v c = Inr i2" using inv_credit_succeeds [OF assms(3), of i1 n v] assms(4) by auto
  then show ?thesis using 1 by blast
qed

lemma preparedTradeState_ok:
  assumes a: "0 < sint (q_SellAmount q)" "0 < sint (q_BuyAmount q)" and u: "q_SellUnit q \<noteq> q_BuyUnit q"
    and ok: "node_ok s" "node_ok b"
    and h: "sint (q_SellAmount q) \<le> sint (balanceLocked s (q_SellUnit q))" "sint (q_BuyAmount q) \<le> sint (balanceLocked b (q_BuyUnit q))"
    and r: "room q s (q_BuyUnit q) (q_BuyAmount q)" "room q b (q_SellUnit q) (q_SellAmount q)"
  shows "\<exists>ns nb. preparedTradeState E s b q now = Inr (ns, nb)"
proof -
  have c: "n_Inventory (cloneRuntimeState s) = n_Inventory s" "n_Inventory (cloneRuntimeState b) = n_Inventory b"
    using ok by (simp_all add: cloneRuntimeState_keeps node_ok_def)
  obtain i1 i2 where i: "Inventory_Sub (n_Inventory s) (n_ID s) (q_SellUnit q) (q_SellAmount q) = Inr i1"
    "inv_credit i1 (n_ID s) (q_BuyUnit q) (q_BuyAmount q) = Inr i2"
    using swap_ok [of "q_SellAmount q" "n_Inventory s" "n_ID s" "q_SellUnit q" "q_BuyAmount q" "q_BuyUnit q"] a u h r
    by (auto simp: room_def Let_def balanceLocked_def)
  obtain j1 j2 where j: "Inventory_Sub (n_Inventory b) (n_ID b) (q_BuyUnit q) (q_BuyAmount q) = Inr j1"
    "inv_credit j1 (n_ID b) (q_SellUnit q) (q_SellAmount q) = Inr j2"
    using swap_ok [of "q_BuyAmount q" "n_Inventory b" "n_ID b" "q_BuyUnit q" "q_SellAmount q" "q_SellUnit q"] a u h r
    by (auto simp: room_def Let_def balanceLocked_def)
  let ?x = "maxAmount - sint (q_SellAmount q)" and ?y = "maxAmount - sint (q_BuyAmount q)"
  have "\<exists>ns nb. recordSuccessfulTrade E (cloneRuntimeState s\<lparr>n_Inventory := i2\<rparr>) (cloneRuntimeState b\<lparr>n_Inventory := j2\<rparr>) q now = Inr (ns, nb)"
    using r below_clone [OF ok(1)] below_clone [OF ok(2)]
    by (intro recordSuccessfulTrade_ok [OF a u, where x = ?x and y = maxAmount and z = ?x and x' = ?y and y' = ?y and z' = ?y])
      (simp_all add: room_def Let_def)
  then show ?thesis using i j by (simp add: preparedTradeState_def c Let_def)
qed

lemma combinedInventory_ok:
  assumes "inv_ok (n_Inventory a)" "inv_ok (n_Inventory b)" "n_ID a \<noteq> n_ID b"
    and "\<forall>(u, x) \<in> set (held a). 0 < sint x" "\<forall>(u, x) \<in> set (held b). 0 < sint x"
  shows "\<exists>c. combinedInventory a b = Inr c"
proof -
  have ok: "gm_ok (held a)" "gm_ok (held b)" using assms(1,2) by (simp_all add: held_def inv_ok_inner)
  have z: "Inventory_Get NewInventoryState m u = 0" for m u by (simp add: Inventory_Get_def NewInventoryState_def)
  obtain d where d: "each (\<lambda>_ (unit, amt) out. inv_credit out (n_ID a) unit amt) 0 (held a) NewInventoryState = Inr d"
    using holdings_load [OF ok(1) assms(4)] z by blast
  have "Inventory_Get d (n_ID b) u = 0" for u using load_holdings(3) [OF d ok(1)] assms(3) z by simp
  then obtain c where "each (\<lambda>_ (unit, amt) out. inv_credit out (n_ID b) unit amt) 0 (held b) d = Inr c"
    using holdings_load [OF ok(2) assms(5)] by blast
  then show ?thesis using d by (simp add: combinedInventory_def held_def)
qed

lemma accept_balance:
  assumes "fst (acceptQuoteLocked E n q)" 
  shows "n_ID n = q_Seller q \<Longrightarrow> sint (q_SellAmount q) \<le> sint (balanceLocked n (q_SellUnit q))"
    and "n_ID n = q_Buyer q \<Longrightarrow> n_ID n \<noteq> q_Seller q \<Longrightarrow> sint (q_BuyAmount q) \<le> sint (balanceLocked n (q_BuyUnit q))"
  using assms by (auto simp: acceptQuoteLocked_def Let_def word_sless_alt not_less split: if_splits)

lemma untouched_below: "untouched n m \<Longrightarrow> below m u x y z = below n u x y z"
  by (simp add: untouched_def below_def counters_def)

lemma ExecuteTrade_live:
  assumes q: "q_Executable q" "n_ID s = q_Seller q" "n_ID b = q_Buyer q" "fst (acceptQuoteLocked E s q)" "fst (acceptQuoteLocked E b q)"
    and p: "q_Seller q \<noteq> q_Buyer q" "q_Seller q \<noteq> NodeID 0" "q_Buyer q \<noteq> NodeID 0"
    and a: "0 < sint (q_SellAmount q)" "0 < sint (q_BuyAmount q)" and u: "q_SellUnit q \<noteq> q_BuyUnit q"
    and ok: "node_ok s" "node_ok b" and h: "\<forall>(u, x) \<in> set (held s). 0 < sint x" "\<forall>(u, x) \<in> set (held b). 0 < sint x"
    and r: "room q s (q_BuyUnit q) (q_BuyAmount q)" "room q b (q_SellUnit q) (q_SellAmount q)"
    and d: "ids_differ E q (maxOf (n_NowUnix s) (n_NowUnix b))"
  shows "\<exists>tx s' b'. ExecuteTrade E s b q = (Inr tx, s', b')"
proof -
  have i: "acceptQuoteLocked E (node_init n) q = acceptQuoteLocked E n q" for n by (simp add: acceptQuoteLocked_def)
  obtain s1 where s1: "acceptQuoteLocked E s q = (True, s1)" using q(4) by (metis (full_types) prod.collapse)
  obtain b1 where b1: "acceptQuoteLocked E b q = (True, b1)" using q(5) by (metis (full_types) prod.collapse)
  have un: "untouched s s1" "untouched b b1" using untouched_accept by (metis s1 snd_conv, metis b1 snd_conv)
  then have f: "n_ID s1 = n_ID s" "n_ID b1 = n_ID b" "n_NowUnix s1 = n_NowUnix s" "n_NowUnix b1 = n_NowUnix b"
    "n_Inventory s1 = n_Inventory s" "n_Inventory b1 = n_Inventory b"
    and ok1: "node_ok s1" "node_ok b1" using ok by (simp_all add: untouched_def node_ok_def)
  have bal: "balanceLocked s1 u = balanceLocked s u" "balanceLocked b1 u = balanceLocked b u" for u
    using f by (simp_all add: balanceLocked_def)
  obtain c where c: "combinedInventory s1 b1 = Inr c"
    using combinedInventory_ok [of s1 b1] ok1 h f p(1) q(2,3) by (auto simp: node_ok_def held_def)
  have cv: "sint (q_SellAmount q) \<le> sint (balanceLocked s (q_SellUnit q))" "sint (q_BuyAmount q) \<le> sint (balanceLocked b (q_BuyUnit q))"
    using accept_balance(1) [OF q(4,2)] accept_balance(2) [OF q(5,3)] p(1) q(3) by simp_all
  obtain tx where tx: "buildTradeTx E (q_Seller q) (q_Buyer q) q (maxOf (n_NowUnix s) (n_NowUnix b)) = Inr tx"
    "ValidateTradeTx E (Some tx) c = Inr ()"
    using buildTradeTx_valid [OF d p a _ _ u, of c] cv combinedInventory_Inr(1,2) [OF c] ok1 f q(2,3) p(1) bal
    by (auto simp: node_ok_def)
  have "room q s1 (q_BuyUnit q) (q_BuyAmount q)" "room q b1 (q_SellUnit q) (q_SellAmount q)"
    using r un by (simp_all add: room_def Let_def untouched_below bal)
  then obtain ns nb where "preparedTradeState E s1 b1 q (maxOf (n_NowUnix s) (n_NowUnix b)) = Inr (ns, nb)"
    using preparedTradeState_ok [OF a u ok1] cv bal by metis
  then show ?thesis using q(1-3) s1 b1 tx c f by (simp add: ExecuteTrade_def Let_def i)
qed

section \<open>A signed trade is executed\<close>

definition not_replayed :: "'st store_api \<Rightarrow> 'st heap \<Rightarrow> Node \<Rightarrow> TxID \<Rightarrow> bool" where
  "not_replayed A h n i \<longleftrightarrow> \<not> gm_get False (n_ExecutedTrades n) i
     \<and> (case n_Store n of None \<Rightarrow> True | Some p \<Rightarrow> \<not> HasExecutedTrade A (h p) i)"

lemma executeSigned_live:
  fixes s b :: Node
  assumes ch: "checkAuthorizations E s b q ss bs f = Inr ()" and acc: "fst (acceptQuoteLocked E s q)" "fst (acceptQuoteLocked E b q)"
    and p: "q_Seller q \<noteq> q_Buyer q" "q_Seller q \<noteq> NodeID 0" "q_Buyer q \<noteq> NodeID 0"
    and a: "0 < sint (q_SellAmount q)" "0 < sint (q_BuyAmount q)" and u: "q_SellUnit q \<noteq> q_BuyUnit q"
    and ok: "node_ok s" "node_ok b" and h: "\<forall>(u, x) \<in> set (held s). 0 < sint x" "\<forall>(u, x) \<in> set (held b). 0 < sint x"
    and r: "room q s (q_BuyUnit q) (q_BuyAmount q)" "room q b (q_SellUnit q) (q_SellAmount q)"
    and d: "ids_differ E q (ti_Timestamp (si_Intent ss))"
    and st: "n_Store s = None \<or> n_Store b = None \<or> n_Store s = n_Store b"
    and i: "replayID E q ss bs = Inr i" "not_replayed A hp s i" "not_replayed A hp b i"
    and per: "\<And>auth ns nb. preparedTradeState E (snd (acceptQuoteLocked E s q)) (snd (acceptQuoteLocked E b q)) q
        (ti_Timestamp (si_Intent ss)) = Inr (ns, nb) \<Longrightarrow> fst (persistSignedTrade A hp s b i auth ns nb) = Inr ()"
  shows "\<exists>tx s' b' hp'. executeSignedTrade E A hp s b q ss bs f = (Inr tx, s', b', hp')"
proof -
  note c0 = checkAuthorizations_Inr [OF ch]
  have ai: "acceptQuoteLocked E (node_init n) q = acceptQuoteLocked E n q" for n by (simp add: acceptQuoteLocked_def)
  obtain s1 where s1: "acceptQuoteLocked E s q = (True, s1)" using acc(1) by (metis (full_types) prod.collapse)
  obtain b1 where b1: "acceptQuoteLocked E b q = (True, b1)" using acc(2) by (metis (full_types) prod.collapse)
  have un: "untouched s s1" "untouched b b1" using untouched_accept by (metis s1 snd_conv, metis b1 snd_conv)
  then have f: "n_ID s1 = n_ID s" "n_ID b1 = n_ID b" "n_Store s1 = n_Store s" "n_Store b1 = n_Store b"
    "n_Inventory s1 = n_Inventory s" "n_Inventory b1 = n_Inventory b"
    "gm_get False (n_ExecutedTrades s1) i = gm_get False (n_ExecutedTrades s) i"
    "gm_get False (n_ExecutedTrades b1) i = gm_get False (n_ExecutedTrades b) i"
    and ok1: "node_ok s1" "node_ok b1" using ok by (simp_all add: untouched_def node_ok_def)
  have bal: "balanceLocked s1 u = balanceLocked s u" "balanceLocked b1 u = balanceLocked b u" for u
    using f by (simp_all add: balanceLocked_def)
  obtain c where c: "combinedInventory s1 b1 = Inr c"
    using combinedInventory_ok [of s1 b1] ok1 h f p(1) c0(2,3) by (auto simp: node_ok_def held_def)
  have cv: "sint (q_SellAmount q) \<le> sint (balanceLocked s (q_SellUnit q))" "sint (q_BuyAmount q) \<le> sint (balanceLocked b (q_BuyUnit q))"
    using accept_balance(1) [OF acc(1) c0(2)] accept_balance(2) [OF acc(2) c0(3)] p(1) c0(3) by simp_all
  let ?now = "ti_Timestamp (si_Intent ss)"
  obtain tx where tx: "buildTradeTx E (q_Seller q) (q_Buyer q) q ?now = Inr tx" "ValidateTradeTx E (Some tx) c = Inr ()"
    using buildTradeTx_valid [OF d p a _ _ u, of c] cv combinedInventory_Inr(1,2) [OF c] ok1 f c0(2,3) p(1) bal
    by (auto simp: node_ok_def)
  have "room q s1 (q_BuyUnit q) (q_BuyAmount q)" "room q b1 (q_SellUnit q) (q_SellAmount q)"
    using r un by (simp_all add: room_def Let_def untouched_below bal)
  then obtain ns nb where ns: "preparedTradeState E s1 b1 q ?now = Inr (ns, nb)"
    using preparedTradeState_ok [OF a u ok1] cv bal by metis
  have aid: "AuthorizedTradeID E \<lparr>at_Tx = tx, at_SellerAuth = ss, at_BuyerAuth = bs\<rparr> = Inr i"
    using i(1) tx(1) by (simp add: replayID_def)
  have rc: "rejectReplayCheck A hp (n_Store s) i = Inr ()" "rejectReplayCheck A hp (n_Store b) i = Inr ()"
    using i(2,3) by (auto simp: rejectReplayCheck_def not_replayed_def split: option.splits)
  have rm: "rejectInMemoryReplay s1 b1 i = Inr ()" using i(2,3) f by (simp add: rejectInMemoryReplay_def not_replayed_def)
  have "\<not> (n_Store s \<noteq> None \<and> n_Store b \<noteq> None \<and> n_Store s \<noteq> n_Store b)" using st by auto
  then have pr: "prepareSignedTrade E A hp s1 b1 q ss bs = Inr (tx, \<lparr>at_Tx = tx, at_SellerAuth = ss, at_BuyerAuth = bs\<rparr>, i, ns, nb)"
    using tx aid rm rc c ns f c0(2,3) by (auto simp add: prepareSignedTrade_def Let_def guard_def simp del: guard_Inr attempt_Inr)
  have rs: "reserveInMemoryReplay s1 b1 i = Inr (reserve i s1, reserve i b1)" by (simp add: reserveInMemoryReplay_def rm)
  have "persistSignedTrade A hp (reserve i s1) (reserve i b1) i auth ns nb = persistSignedTrade A hp s b i auth ns nb" for auth
    by (rule persistSignedTrade_cong) (simp_all add: f)
  then obtain hp' where "persistSignedTrade A hp (reserve i s1) (reserve i b1) i \<lparr>at_Tx = tx, at_SellerAuth = ss, at_BuyerAuth = bs\<rparr> ns nb
      = (Inr (), hp')" using per ns s1 b1 by (metis prod.collapse snd_conv)
  then show ?thesis using ch s1 b1 pr rs by (simp add: executeSignedTrade_def Let_def ai)
qed

section \<open>Refinement of the ledger\<close>

lemma combinedInventory_ok_inv: "combinedInventory a b = Inr c \<Longrightarrow> inv_ok c"
proof -
  assume c: "combinedInventory a b = Inr c"
  have st: "each (\<lambda>_ (unit, amt) out. inv_credit out p unit amt) i m s = Inr t \<Longrightarrow> inv_ok s \<Longrightarrow> inv_ok t" for p i m s t
    by (erule each_invariant) (auto intro: inv_ok_credit)
  have "inv_ok NewInventoryState" by (simp add: inv_ok_def NewInventoryState_def)
  moreover from c obtain d where "each (\<lambda>_ (unit, amt) out. inv_credit out (n_ID a) unit amt) 0
      (gm_get [] (Holdings (n_Inventory a)) (n_ID a)) NewInventoryState = Inr d"
    "each (\<lambda>_ (unit, amt) out. inv_credit out (n_ID b) unit amt) 0 (gm_get [] (Holdings (n_Inventory b)) (n_ID b)) d = Inr c"
    by (auto simp: combinedInventory_def)
  ultimately show ?thesis using st by blast
qed

lemma ExecuteTrade_ledger:
  assumes x: "ExecuteTrade E s b q = (Inr tx, s', b')" and ok: "inv_ok (n_Inventory s)" "inv_ok (n_Inventory b)"
  shows "\<exists>c c'. combinedInventory s b = Inr c \<and> ApplyTradeTx E c tx = Inr c'
    \<and> (\<forall>u. Inventory_Get c (n_ID s) u = balanceLocked s u \<and> Inventory_Get c (n_ID b) u = balanceLocked b u
         \<and> Inventory_Get c' (n_ID s) u = balanceLocked s' u \<and> Inventory_Get c' (n_ID b) u = balanceLocked b' u)"
proof -
  obtain s1 b1 c where 1: "untouched s s1" "untouched b b1"
    "buildTradeTx E (n_ID s) (n_ID b) q (maxOf (n_NowUnix s) (n_NowUnix b)) = Inr tx"
    "combinedInventory s1 b1 = Inr c" "ValidateTradeTx E (Some tx) c = Inr ()"
    using ExecuteTrade_Inr [OF x] by metis
  have c: "combinedInventory s b = Inr c" using 1 by (simp add: combinedInventory_def untouched_def)
  have ids: "n_ID s \<noteq> n_ID b" by (rule ExecuteTrade_trades(3) [OF x ok])
  have bal: "sint (balanceLocked s' u) = trade_balance c tx (n_ID s) u" "sint (balanceLocked b' u) = trade_balance c tx (n_ID b) u" for u
    using ExecuteTrade_refines [OF x ok, of u] c by auto
  obtain o1 o2 where tx: "t_OutputsA tx = [o1]" "t_OutputsB tx = [o2]" "t_PartyA tx = n_ID s" "t_PartyB tx = n_ID b"
    "v_Owner o1 = n_ID s" "v_Owner o2 = n_ID b"
    using buildTradeTx_Inr [OF 1(3)] by (auto simp: map_eq_Cons_conv)
  have "trade_balance c tx n u < 2 ^ 63" for n u
  proof -
    consider "n = n_ID s" | "n = n_ID b" | "n \<noteq> n_ID s" "n \<noteq> n_ID b" by blast
    then show ?thesis
    proof cases
      case 3
      then have "trade_balance c tx n u = sint (Inventory_Get c n u)" using tx by (auto simp: trade_balance_def)
      then show ?thesis using sint_range64 by metis
    qed (metis bal sint_range64(2))+
  qed
  then obtain c' where c': "ApplyTradeTx E c tx = Inr c'"
    using ApplyTradeTx_succeeds [OF 1(5) combinedInventory_ok_inv [OF 1(4)]] by blast
  note a = ApplyTradeTx_balance [OF c' combinedInventory_ok_inv [OF 1(4)]]
  have e: "sint (Inventory_Get c' (n_ID s) u) = sint (balanceLocked s' u)" "sint (Inventory_Get c' (n_ID b) u) = sint (balanceLocked b' u)" for u
    using a bal by simp_all
  note signed_word_eqI [OF e(1)] signed_word_eqI [OF e(2)]
  with c c' show ?thesis using combinedInventory_Inr(1,2) [OF c ids ok] by blast
qed


text \<open>A quote that the seller has just made is executed at once.\<close>

lemma fresh_quote_live:
  assumes q: "QuoteSell E s0 (Some b0) su bu sa spread = (Inr q, s, Some b)" "q_Executable q"
    and p: "n_ID s0 \<noteq> NodeID 0" "n_ID b0 \<noteq> NodeID 0" "su \<noteq> bu" "sint (q_BuyAmount q) \<le> 2 ^ 50"
    and ok: "node_ok s0" "node_ok b0" "\<forall>(u, x) \<in> set (held s0). 0 < sint x" "\<forall>(u, x) \<in> set (held b0). 0 < sint x"
    and r: "room q s0 bu (q_BuyAmount q)" "room q b0 su sa"
    and d: "ids_differ E q (maxOf (n_NowUnix s0) (n_NowUnix b0))"
  shows "\<exists>tx s' b'. ExecuteTrade E s b q = (Inr tx, s', b')"
proof (rule ExecuteTrade_live)
  note g = quoteSell_executable [OF q]
  have u: "untouched s0 s" "untouched b0 b" by (simp_all add: g(16,17))
  then have f: "n_ID s = n_ID s0" "n_ID b = n_ID b0" "node_ok s = node_ok s0" "node_ok b = node_ok b0" "held s = held s0" "held b = held b0"
    "n_NowUnix s = n_NowUnix s0" "n_NowUnix b = n_NowUnix b0"
    by (simp_all add: untouched_def node_ok_def held_def)
  have bal: "balanceLocked s v = balanceLocked s0 v" "balanceLocked b v = balanceLocked b0 v" for v
    using u by (simp_all add: untouched_def balanceLocked_def)
  show "q_Executable q" "n_ID s = q_Seller q" "n_ID b = q_Buyer q" "q_Seller q \<noteq> q_Buyer q" "q_Seller q \<noteq> NodeID 0"
    "q_Buyer q \<noteq> NodeID 0" "0 < sint (q_SellAmount q)" "0 < sint (q_BuyAmount q)" "q_SellUnit q \<noteq> q_BuyUnit q"
    using q(2) g p f by simp_all
  show "fst (acceptQuoteLocked E s q)" "fst (acceptQuoteLocked E b q)" by (rule quote_accepted [OF q p(4)])+
  show "node_ok s" "node_ok b" "\<forall>(u, x) \<in> set (held s). 0 < sint x" "\<forall>(u, x) \<in> set (held b). 0 < sint x"
    using ok f by simp_all
  show "room q s (q_BuyUnit q) (q_BuyAmount q)" "room q b (q_SellUnit q) (q_SellAmount q)"
    using r g(4-6) u by (simp_all add: room_def Let_def untouched_below bal)
  show "ids_differ E q (maxOf (n_NowUnix s) (n_NowUnix b))" using d f by simp
qed


text \<open>What a successful execution has checked and done.\<close>

lemma signed_trade_sound:
  fixes s b :: Node
  assumes x: "executeSignedTrade E A h s b q ss bs f = (Inr tx, s', b', h')"
    and ok: "inv_ok (n_Inventory s)" "inv_ok (n_Inventory b)"
  shows "VerifyTradeIntent E ss \<and> VerifyTradeIntent E bs
    \<and> NodeIDFromPublicKey (si_PublicKey ss) = Inr (n_ID s) \<and> NodeIDFromPublicKey (si_PublicKey bs) = Inr (n_ID b)
    \<and> intentMatchesQuote (si_Intent ss) q (n_ID s) \<and> intentMatchesQuote (si_Intent bs) q (n_ID b)
    \<and> \<not> MaxSignedIntentAge <s maxOf (n_NowUnix s) (n_NowUnix b) - ti_Timestamp (si_Intent ss)
    \<and> traded s (q_SellUnit q) (q_SellAmount q) (q_BuyUnit q) (q_BuyAmount q) s'
    \<and> traded b (q_BuyUnit q) (q_BuyAmount q) (q_SellUnit q) (q_SellAmount q) b'"
proof -
  from x have c: "checkAuthorizations E s b q ss bs f = Inr ()" by (rule executeSigned_Inr)
  show ?thesis using checkAuthorizations_Inr [OF c] executeSigned_trades [OF x ok] by blast
qed

end
