(* ===== verification/Disk.thy ===== *)
theory Disk
  imports NodeStore
begin

text \<open>
  The part of the operating system that \<open>core/store/json.go\<close> uses, and effects on it.

  A path is the list of its components below the root directory of the store. The entries of the
  disk are directories and files; the content of a file is a JSON document, nothing (\<open>Empty\<close>), or
  the torn text of a write that was cut short. A document is kept as the Go value that was
  marshalled: \<open>doc\<close> has one constructor per type that the store writes, and reading a document as
  another type takes the fields that both have, as \<open>json.Unmarshal\<close> does.

  Every system call that writes takes its outcome from the script \<open>d_faults\<close>: it works, it fails
  with an error, a write is cut short, or the machine stops. After the stop (\<open>d_crashed\<close>) no call has
  an effect, so the disk at the end of an operation is the disk that the next start finds. Calls
  that only read do not fail unless the entry is missing. The script is arbitrary in every
  theorem: it ranges over all behaviours of the operating system.
\<close>

section \<open>Documents\<close>

record inventoryDTO =
  iv_Node :: string
  iv_Holdings :: "(string, amount) gomap option"

record flowRecordDTO =
  fd_TradeVolume :: amount
  fd_PaymentVolume :: amount
  fd_Consumption :: amount
  fd_DemandFulfilled :: amount

record flowDTO =
  fl_Node :: string
  fl_Records :: "(string, flowRecordDTO) gomap option"

record priceDTO =
  pd_Node :: string
  pd_Prices :: "(string, PriceResult) gomap option"

record transactionManifest =
  tm_ID :: string
  tm_Phase :: string
  tm_Targets :: "string list"

text \<open>The record \<open>{"id": ..., "state": ...}\<close> of the marker files is \<open>MarkerDoc\<close>.\<close>

datatype doc =
    TradeDoc AuthorizedTradeTx
  | InventoryDoc inventoryDTO
  | FlowDoc flowDTO
  | PriceDoc priceDTO
  | ManifestDoc transactionManifest
  | MarkerDoc string string

fun result_floats :: "PriceResult \<Rightarrow> float64 list" where
  "result_floats r = [pr_FeatureScore r, pr_SeedPrice r, pr_MarketPrice r, pr_Lambda r, pr_FinalPrice r]"

definition float_text :: "float64 \<Rightarrow> string" where
  "float_text x = (if fisnan x then ''NaN'' else if flt x (Fin 0) then ''-Inf'' else ''+Inf'')"

text \<open>Only floats can make marshalling fail. The keys of a map are marshalled in order.\<close>

definition json_MarshalIndent :: "doc \<Rightarrow> err + doc" where
  "json_MarshalIndent x = (case x of
     PriceDoc d \<Rightarrow>
       (case List.find (\<lambda>f. fisnan f \<or> fisinf f)
               (concat (map (result_floats \<circ> snd) (sort_key fst (case pd_Prices d of None \<Rightarrow> [] | Some m \<Rightarrow> m)))) of
          None \<Rightarrow> Inr x
        | Some f \<Rightarrow> Inl (errorfs [''json: unsupported value: '', float_text f]))
   | _ \<Rightarrow> Inr x)"

definition doc_node :: "doc \<Rightarrow> string" where
  "doc_node x = (case x of InventoryDoc d \<Rightarrow> iv_Node d | FlowDoc d \<Rightarrow> fl_Node d | PriceDoc d \<Rightarrow> pd_Node d | _ \<Rightarrow> '''')"

definition as_inventory :: "doc \<Rightarrow> inventoryDTO" where
  "as_inventory x = (case x of InventoryDoc d \<Rightarrow> d | _ \<Rightarrow> \<lparr>iv_Node = doc_node x, iv_Holdings = None\<rparr>)"

definition as_flow :: "doc \<Rightarrow> flowDTO" where
  "as_flow x = (case x of FlowDoc d \<Rightarrow> d | _ \<Rightarrow> \<lparr>fl_Node = doc_node x, fl_Records = None\<rparr>)"

definition as_price :: "doc \<Rightarrow> priceDTO" where
  "as_price x = (case x of PriceDoc d \<Rightarrow> d | _ \<Rightarrow> \<lparr>pd_Node = doc_node x, pd_Prices = None\<rparr>)"

definition as_manifest :: "doc \<Rightarrow> transactionManifest" where
  "as_manifest x = (case x of
     ManifestDoc m \<Rightarrow> m
   | MarkerDoc i s \<Rightarrow> \<lparr>tm_ID = i, tm_Phase = '''', tm_Targets = []\<rparr>
   | _ \<Rightarrow> \<lparr>tm_ID = '''', tm_Phase = '''', tm_Targets = []\<rparr>)"

definition zeroIntent :: SignedTradeIntent where
  "zeroIntent = \<lparr>si_Intent = \<lparr>ti_Party = NodeID 0, ti_Seller = NodeID 0, ti_Buyer = NodeID 0,
     ti_SellUnit = UnitID 0, ti_BuyUnit = UnitID 0, ti_SellAmount = 0, ti_BuyAmount = 0, ti_Timestamp = 0\<rparr>,
     si_PublicKey = [], si_Signature = []\<rparr>"

definition zeroAuthorized :: AuthorizedTradeTx where
  "zeroAuthorized = \<lparr>at_Tx = \<lparr>t_ID = TxID 0, t_InputsA = [], t_InputsB = [], t_OutputsA = [], t_OutputsB = [],
     t_PartyA = NodeID 0, t_PartyB = NodeID 0, t_Timestamp = 0\<rparr>,
     at_SellerAuth = zeroIntent, at_BuyerAuth = zeroIntent\<rparr>"

definition as_trade :: "doc \<Rightarrow> AuthorizedTradeTx" where
  "as_trade x = (case x of TradeDoc t \<Rightarrow> t | _ \<Rightarrow> zeroAuthorized)"

section \<open>The disk\<close>

type_synonym path = "string list"

datatype content = Empty | Torn | Doc doc

datatype entry = Dir | File content

datatype fault = Works | Fails err | Short err | Crash

record disk =
  d_ents :: "(path, entry) gomap"
  d_faults :: "fault list"
  d_crashed :: bool
  d_temp :: nat

definition look :: "disk \<Rightarrow> path \<Rightarrow> entry option" where
  "look d p = map_of (d_ents d) p"

definition put :: "path \<Rightarrow> entry \<Rightarrow> disk \<Rightarrow> disk" where
  "put p x d = d\<lparr>d_ents := gm_put (d_ents d) p x\<rparr>"

definition del :: "path \<Rightarrow> disk \<Rightarrow> disk" where
  "del p d = d\<lparr>d_ents := gm_del (d_ents d) p\<rparr>"

lemma look_simps [simp]:
  "look (put p x d) q = (if q = p then Some x else look d q)"
  "look (del p d) q = (if q = p then None else look d q)"
  "look (d_faults_update f d) q = look d q" "look (d_crashed_update g d) q = look d q"
  "look (d_temp_update h d) q = look d q"
  by (simp_all add: look_def put_def del_def)

lemma put_del_simps [simp]:
  "d_crashed (put p x d) = d_crashed d" "d_crashed (del p d) = d_crashed d"
  "d_temp (put p x d) = d_temp d" "d_temp (del p d) = d_temp d"
  by (simp_all add: put_def del_def)

section \<open>Effects\<close>

type_synonym 'a io = "disk \<Rightarrow> (err + 'a) \<times> disk"

definition io_pure :: "err + 'a \<Rightarrow> 'a io" where
  "io_pure r d = (r, d)"

definition io_bind :: "'a io \<Rightarrow> ('a \<Rightarrow> 'b io) \<Rightarrow> 'b io" where
  "io_bind m f d = (case m d of (Inl e, d') \<Rightarrow> (Inl e, d') | (Inr x, d') \<Rightarrow> f x d')"

text \<open>\<open>_ = f()\<close>.\<close>

definition io_ignore :: "'a io \<Rightarrow> unit io" where
  "io_ignore m d = (Inr (), snd (m d))"

text \<open>A deferred clean-up: on every exit, or only when the operation fails.\<close>

definition io_finally :: "'a io \<Rightarrow> unit io \<Rightarrow> 'a io" where
  "io_finally m c d = (case m d of (r, d') \<Rightarrow> (r, snd (c d')))"

definition io_on_error :: "'a io \<Rightarrow> unit io \<Rightarrow> 'a io" where
  "io_on_error m c d = (case m d of (Inl e, d') \<Rightarrow> (Inl e, snd (c d')) | (Inr x, d') \<Rightarrow> (Inr x, d'))"

fun io_each :: "('a \<Rightarrow> unit io) \<Rightarrow> 'a list \<Rightarrow> unit io" where
  "io_each f [] = io_pure (Inr ())"
| "io_each f (x # xs) = io_bind (f x) (\<lambda>_. io_each f xs)"

definition stopped :: err where
  "stopped = errorf ''stopped''"

text \<open>A system call, with its outcome from the script.\<close>

definition syscall :: "'a io \<Rightarrow> 'a io" where
  "syscall f d =
     (if d_crashed d then (Inl stopped, d)
      else case d_faults d of
        [] \<Rightarrow> f d
      | Works # fs \<Rightarrow> f (d\<lparr>d_faults := fs\<rparr>)
      | Fails e # fs \<Rightarrow> (Inl e, d\<lparr>d_faults := fs\<rparr>)
      | Short e # fs \<Rightarrow> (Inl e, d\<lparr>d_faults := fs\<rparr>)
      | Crash # fs \<Rightarrow> (Inl stopped, d\<lparr>d_faults := fs, d_crashed := True\<rparr>))"

section \<open>System calls\<close>

definition path_text :: "path \<Rightarrow> string" where
  "path_text p = concat (map (\<lambda>c. CHR ''/'' # c) p)"

definition os_error :: "sentinel list \<Rightarrow> string \<Rightarrow> path \<Rightarrow> string \<Rightarrow> err" where
  "os_error kinds op p what = Err kinds (concat [op, '' '', path_text p, '': '', what])"

definition isFile :: "disk \<Rightarrow> path \<Rightarrow> bool" where
  "isFile d p \<longleftrightarrow> (case look d p of Some (File _) \<Rightarrow> True | _ \<Rightarrow> False)"

definition os_MkdirAll :: "path \<Rightarrow> unit io" where
  "os_MkdirAll p = syscall (\<lambda>d. case look d p of
     None \<Rightarrow> (Inr (), put p Dir d)
   | Some Dir \<Rightarrow> (Inr (), d)
   | Some (File _) \<Rightarrow> (Inl (os_error [] ''mkdir'' p ''not a directory''), d))"

text \<open>\<open>os.OpenFile(path, O_CREATE|O_EXCL|O_WRONLY, 0o600)\<close>.\<close>

definition os_CreateExclusive :: "path \<Rightarrow> unit io" where
  "os_CreateExclusive p = syscall (\<lambda>d. case look d p of
     None \<Rightarrow> (Inr (), put p (File Empty) d)
   | Some _ \<Rightarrow> (Inl (os_error [ErrExist] ''open'' p ''file exists''), d))"

text \<open>The opening of \<open>os.WriteFile\<close>, which truncates.\<close>

definition os_Create :: "path \<Rightarrow> unit io" where
  "os_Create p = syscall (\<lambda>d. if look d p = Some Dir
     then (Inl (os_error [] ''open'' p ''is a directory''), d) else (Inr (), put p (File Empty) d))"

definition os_Write :: "path \<Rightarrow> doc \<Rightarrow> unit io" where
  "os_Write p x d =
     (case d_faults d of
        Short e # fs \<Rightarrow> if d_crashed d then (Inl stopped, d) else (Inl e, put p (File Torn) (d\<lparr>d_faults := fs\<rparr>))
      | _ \<Rightarrow> syscall (\<lambda>d. (Inr (), put p (File (Doc x)) d)) d)"

text \<open>\<open>Sync\<close> and \<open>Close\<close> of a file may report an error.\<close>

definition os_Sync :: "unit io" where
  "os_Sync = syscall (io_pure (Inr ()))"

definition os_Close :: "unit io" where
  "os_Close = syscall (io_pure (Inr ()))"

definition os_Remove :: "path \<Rightarrow> unit io" where
  "os_Remove p = syscall (\<lambda>d. case look d p of
     None \<Rightarrow> (Inl (os_error [ErrNotExist] ''remove'' p ''no such file or directory''), d)
   | Some (File _) \<Rightarrow> (Inr (), del p d)
   | Some Dir \<Rightarrow>
       if list_ex (\<lambda>q. take (length p) q = p \<and> q \<noteq> p) (map fst (d_ents d))
       then (Inl (os_error [] ''remove'' p ''directory not empty''), d) else (Inr (), del p d))"

definition os_Rename :: "path \<Rightarrow> path \<Rightarrow> unit io" where
  "os_Rename p q = syscall (\<lambda>d. case look d p of
     None \<Rightarrow> (Inl (os_error [ErrNotExist] ''rename'' p ''no such file or directory''), d)
   | Some Dir \<Rightarrow> (Inl (os_error [] ''rename'' p ''is a directory''), d)
   | Some (File c) \<Rightarrow>
       if look d q = Some Dir then (Inl (os_error [] ''rename'' q ''file exists''), d)
       else (Inr (), put q (File c) (del p d)))"

text \<open>
  \<open>os.CreateTemp(dir, base + ".*" + suffix)\<close> tries names until one is free, 10000 times at most. The
  star stands for the next number of a counter.
\<close>

definition temp_name :: "path \<Rightarrow> string \<Rightarrow> nat \<Rightarrow> path" where
  "temp_name p suffix n = butlast p @ [last p @ ''.'' @ dec_nat n @ suffix]"

fun free_temp :: "nat \<Rightarrow> disk \<Rightarrow> path \<Rightarrow> string \<Rightarrow> nat \<Rightarrow> nat option" where
  "free_temp 0 d p suffix n = None"
| "free_temp (Suc k) d p suffix n =
     (if look d (temp_name p suffix n) = None then Some n else free_temp k d p suffix (n + 1))"

definition os_CreateTemp :: "path \<Rightarrow> string \<Rightarrow> path io" where
  "os_CreateTemp p suffix = syscall (\<lambda>d. case free_temp 10000 d p suffix (d_temp d) of
     None \<Rightarrow> (Inl (os_error [ErrExist] ''createtemp'' p ''file exists''), d)
   | Some n \<Rightarrow> (Inr (temp_name p suffix n), put (temp_name p suffix n) (File Empty) (d\<lparr>d_temp := n + 1\<rparr>)))"

end
