(* ===== verification/JsonStore.thy ===== *)
theory JsonStore
  imports Disk
begin

text \<open>
  \<open>core/store/json.go\<close>, first part (and the interface of \<open>store.go\<close> and \<open>replay.go\<close>): a store of node state and of executed trades as JSON files, and the
  transaction that makes an executed trade durable.

  The field \<open>root\<close> of \<open>JSONStore\<close> is the origin of all paths, so an operation of the store is an
  effect on the disk.
\<close>

section \<open>Names\<close>

definition nodeHex :: "NodeID \<Rightarrow> string" where
  "nodeHex nid = hex_string (NodeID_Bytes nid)"

definition unitHex :: "UnitID \<Rightarrow> string" where
  "unitHex u = hex_string (hashBytes (unit_hash u))"

definition idHex :: "TxID \<Rightarrow> string" where
  "idHex i = hex_string (hashBytes (tx_hash i))"

definition executedPath :: "TxID \<Rightarrow> path" where
  "executedPath i = [''trades'', idHex i @ ''.executed.json'']"

definition tradePath :: "TxID \<Rightarrow> path" where
  "tradePath i = [''trades'', idHex i @ ''.json'']"

definition committedPath :: "TxID \<Rightarrow> path" where
  "committedPath i = [''trades'', idHex i @ ''.committed.json'']"

definition manifestPath :: "TxID \<Rightarrow> path" where
  "manifestPath i = [''trades'', idHex i @ ''.txn.json'']"

definition reservationPath :: "TxID \<Rightarrow> path" where
  "reservationPath i = [''trades'', idHex i @ ''.executing'']"

definition inventoryPath :: "NodeID \<Rightarrow> path" where
  "inventoryPath n = [''inventory'', nodeHex n @ ''.json'']"

definition flowPath :: "NodeID \<Rightarrow> path" where
  "flowPath n = [''flow'', nodeHex n @ ''.json'']"

definition pricePath :: "NodeID \<Rightarrow> path" where
  "pricePath n = [''prices'', nodeHex n @ ''.json'']"

definition parseUnitID :: "string \<Rightarrow> err + UnitID" where
  "parseUnitID s =
     attempt (hex_Decode s) (\<lambda>b.
     guard (length b \<noteq> 32) (errorf ''invalid unit id length'')
     (Inr (UnitID (hashOf b))))"

section \<open>Documents of the node state\<close>

definition inventoryDTOFor :: "NodeID \<Rightarrow> InventoryState \<Rightarrow> inventoryDTO" where
  "inventoryDTOFor nid iv =
     \<lparr>iv_Node = nodeHex nid,
      iv_Holdings = Some (foldl (\<lambda>m (u, a). gm_put m (unitHex u) a) [] (gm_get [] (Holdings iv) nid))\<rparr>"

definition flowRecordDTOFor :: "FlowRecord \<Rightarrow> flowRecordDTO" where
  "flowRecordDTOFor r =
     \<lparr>fd_TradeVolume = fr_TradeVolume r, fd_PaymentVolume = fr_PaymentVolume r,
      fd_Consumption = fr_Consumption r, fd_DemandFulfilled = fr_DemandFulfilled r\<rparr>"

definition flowDTOFor :: "NodeID \<Rightarrow> (UnitID, FlowRecord) gomap \<Rightarrow> flowDTO" where
  "flowDTOFor nid flow =
     \<lparr>fl_Node = nodeHex nid,
      fl_Records = Some (foldl (\<lambda>m (u, r). gm_put m (unitHex u) (flowRecordDTOFor r)) [] flow)\<rparr>"

definition priceDTOFor :: "NodeID \<Rightarrow> (UnitID, PriceResult) gomap \<Rightarrow> priceDTO" where
  "priceDTOFor nid state =
     \<lparr>pd_Node = nodeHex nid,
      pd_Prices = Some (foldl (\<lambda>m (u, r). gm_put m (unitHex u) r) [] state)\<rparr>"

definition requireNodeMatch :: "string \<Rightarrow> NodeID \<Rightarrow> err + unit" where
  "requireNodeMatch got nid =
     guard (got \<noteq> nodeHex nid)
       (errorfs [''node state id mismatch: got '', go_quote got, '', want '', go_quote (nodeHex nid)])
     (Inr ())"

section \<open>Reading\<close>

text \<open>\<open>exists\<close>, and \<open>readJSONIfExists\<close>, which leaves its target as it is when there is no file.\<close>

definition file_exists :: "disk \<Rightarrow> path \<Rightarrow> bool" where
  "file_exists d p \<longleftrightarrow> isFile d p"

definition readJSONIfExists :: "disk \<Rightarrow> path \<Rightarrow> err + doc option" where
  "readJSONIfExists d p = (case look d p of
     None \<Rightarrow> Inr None
   | Some Dir \<Rightarrow> Inl (os_error [] ''read'' p ''is a directory'')
   | Some (File Empty) \<Rightarrow> Inl (errorfs [''empty json file: '', path_text p])
   | Some (File Torn) \<Rightarrow> Inl (errorf ''unexpected end of JSON input'')
   | Some (File (Doc x)) \<Rightarrow> Inr (Some x))"

definition LoadInventoryJSON :: "disk \<Rightarrow> NodeID \<Rightarrow> err + InventoryState" where
  "LoadInventoryJSON d nid =
     attempt (readJSONIfExists d (inventoryPath nid)) (\<lambda>x.
     let dto = (case x of None \<Rightarrow> \<lparr>iv_Node = '''', iv_Holdings = None\<rparr> | Some x \<Rightarrow> as_inventory x) in
     if iv_Node dto = '''' \<and> iv_Holdings dto = None then Inr NewInventoryState
     else
       attempt (requireNodeMatch (iv_Node dto) nid) (\<lambda>_.
       each (\<lambda>_ (unitString, a) iv.
           attempt (parseUnitID unitString) (\<lambda>unit. Inventory_Add iv nid unit a))
         0 (case iv_Holdings dto of None \<Rightarrow> [] | Some m \<Rightarrow> m) NewInventoryState))"

definition LoadFlowJSON :: "disk \<Rightarrow> NodeID \<Rightarrow> err + (UnitID, FlowRecord) gomap" where
  "LoadFlowJSON d nid =
     attempt (readJSONIfExists d (flowPath nid)) (\<lambda>x.
     let dto = (case x of None \<Rightarrow> \<lparr>fl_Node = '''', fl_Records = None\<rparr> | Some x \<Rightarrow> as_flow x) in
     if fl_Node dto = '''' \<and> fl_Records dto = None then Inr []
     else
       attempt (requireNodeMatch (fl_Node dto) nid) (\<lambda>_.
       each (\<lambda>_ (unitString, r) out.
           attempt (parseUnitID unitString) (\<lambda>unit.
           Inr (gm_put out unit
             \<lparr>fr_Unit = unit, fr_TradeVolume = fd_TradeVolume r, fr_PaymentVolume = fd_PaymentVolume r,
              fr_Consumption = fd_Consumption r, fr_DemandFulfilled = fd_DemandFulfilled r\<rparr>)))
         0 (case fl_Records dto of None \<Rightarrow> [] | Some m \<Rightarrow> m) []))"

definition LoadPriceStateJSON :: "disk \<Rightarrow> NodeID \<Rightarrow> err + (UnitID, PriceResult) gomap" where
  "LoadPriceStateJSON d nid =
     attempt (readJSONIfExists d (pricePath nid)) (\<lambda>x.
     let dto = (case x of None \<Rightarrow> \<lparr>pd_Node = '''', pd_Prices = None\<rparr> | Some x \<Rightarrow> as_price x) in
     if pd_Node dto = '''' \<and> pd_Prices dto = None then Inr []
     else
       attempt (requireNodeMatch (pd_Node dto) nid) (\<lambda>_.
       each (\<lambda>_ (unitString, r) out.
           attempt (parseUnitID unitString) (\<lambda>unit. Inr (gm_put out unit r)))
         0 (case pd_Prices dto of None \<Rightarrow> [] | Some m \<Rightarrow> m) []))"

definition LoadAuthorizedTrade :: "disk \<Rightarrow> TxID \<Rightarrow> AuthorizedTradeTx option" where
  "LoadAuthorizedTrade d i = (case look d (tradePath i) of
     Some (File (Doc x)) \<Rightarrow> Some (as_trade x) | _ \<Rightarrow> None)"

definition HasExecutedTradeJSON :: "disk \<Rightarrow> TxID \<Rightarrow> bool" where
  "HasExecutedTradeJSON d i \<longleftrightarrow>
     file_exists d (executedPath i) \<or> file_exists d (committedPath i)
     \<or> file_exists d (reservationPath i) \<or> file_exists d (manifestPath i)"

section \<open>Writing one file\<close>

definition fsyncDir :: "path \<Rightarrow> unit io" where
  "fsyncDir p d =
     (if look d p = None then (Inl (os_error [ErrNotExist] ''open'' p ''no such file or directory''), d)
      else os_Sync d)"

definition os_WriteFile :: "path \<Rightarrow> doc \<Rightarrow> unit io" where
  "os_WriteFile p x =
     io_bind (os_Create p) (\<lambda>_.
     io_bind (io_on_error (os_Write p x) os_Close) (\<lambda>_. os_Close))"

definition with_suffix :: "path \<Rightarrow> string \<Rightarrow> path" where
  "with_suffix p s = butlast p @ [last p @ s]"

definition writeJSONAtomic :: "path \<Rightarrow> doc \<Rightarrow> unit io" where
  "writeJSONAtomic p x =
     io_bind (os_MkdirAll (butlast p)) (\<lambda>_.
     let tmp = with_suffix p ''.tmp'' in
     io_bind (io_pure (json_MarshalIndent x)) (\<lambda>data.
     io_bind (os_WriteFile tmp data) (\<lambda>_.
     os_Rename tmp p)))"

text \<open>The creation of a file that must not exist, shared by the reservation and the records.\<close>

definition createMarker :: "string \<Rightarrow> path \<Rightarrow> doc \<Rightarrow> unit io" where
  "createMarker inUse p x =
     io_bind (os_MkdirAll (butlast p)) (\<lambda>_.
     io_bind (\<lambda>d. case os_CreateExclusive p d of
                (r, d') \<Rightarrow> (map_err (\<lambda>e. if err_is e ErrExist then errorf inUse else e) r, d')) (\<lambda>_.
     io_bind (io_on_error
         (io_bind (io_pure (json_MarshalIndent x)) (\<lambda>data.
          io_bind (os_Write p data) (\<lambda>_. os_Sync)))
         (io_bind (io_ignore os_Close) (\<lambda>_. os_Remove p))) (\<lambda>_.
     io_bind (io_on_error os_Close (os_Remove p)) (\<lambda>_.
     io_ignore (fsyncDir (butlast p))))))"

definition reserveExecutedTrade :: "path \<Rightarrow> TxID \<Rightarrow> path io" where
  "reserveExecutedTrade p i =
     io_bind (createMarker ''trade execution already in progress'' p (MarkerDoc (idHex i) ''reserved'')) (\<lambda>_.
     io_pure (Inr p))"

definition writeTradeRecordExclusive :: "path \<Rightarrow> TxID \<Rightarrow> string \<Rightarrow> unit io" where
  "writeTradeRecordExclusive p i state =
     createMarker ''trade replay rejected'' p (MarkerDoc (idHex i) state)"

definition writeExecutedMarkerExclusive :: "path \<Rightarrow> TxID \<Rightarrow> unit io" where
  "writeExecutedMarkerExclusive p i = writeTradeRecordExclusive p i ''executed''"

definition writeCommitRecordExclusive :: "path \<Rightarrow> TxID \<Rightarrow> unit io" where
  "writeCommitRecordExclusive p i = writeTradeRecordExclusive p i ''committed''"

definition MarkExecutedTradeJSON :: "TxID \<Rightarrow> unit io" where
  "MarkExecutedTradeJSON i = writeExecutedMarkerExclusive (executedPath i) i"

definition SaveInventory :: "NodeID \<Rightarrow> InventoryState \<Rightarrow> unit io" where
  "SaveInventory nid iv = writeJSONAtomic (inventoryPath nid) (InventoryDoc (inventoryDTOFor nid iv))"

definition SaveFlow :: "NodeID \<Rightarrow> (UnitID, FlowRecord) gomap \<Rightarrow> unit io" where
  "SaveFlow nid flow = writeJSONAtomic (flowPath nid) (FlowDoc (flowDTOFor nid flow))"

definition SavePriceState :: "NodeID \<Rightarrow> (UnitID, PriceResult) gomap \<Rightarrow> unit io" where
  "SavePriceState nid state = writeJSONAtomic (pricePath nid) (PriceDoc (priceDTOFor nid state))"

definition SaveAuthorizedTrade :: "TxID \<Rightarrow> AuthorizedTradeTx \<Rightarrow> unit io" where
  "SaveAuthorizedTrade i tx = writeJSONAtomic (tradePath i) (TradeDoc tx)"

section \<open>Writing a batch\<close>

record atomicJSONFile =
  af_path :: path
  af_value :: doc

text \<open>An empty path stands for the empty string.\<close>

record stagedJSONFile =
  sf_path :: path
  sf_tmp :: path
  sf_backup :: path
  sf_hadBackup :: bool
  sf_installed :: bool

definition preflightTarget :: "path \<Rightarrow> unit io" where
  "preflightTarget p d =
     (if look d p = Some Dir then (Inl (errorfs [''target path is a directory: '', path_text p]), d)
      else (Inr (), d))"

definition moveExistingAside :: "path \<Rightarrow> (path \<times> bool) io" where
  "moveExistingAside p =
     io_bind (preflightTarget p) (\<lambda>_ d.
     if look d p = None then (Inr ([], False), d)
     else
       io_bind (os_CreateTemp p ''.bak'') (\<lambda>backup.
       io_bind (io_on_error os_Close (os_Remove backup)) (\<lambda>_.
       io_bind (io_ignore (os_Remove backup)) (\<lambda>_.
       io_bind (os_Rename p backup) (\<lambda>_.
       io_pure (Inr (backup, True)))))) d)"

definition stageJSONFile :: "path \<Rightarrow> doc \<Rightarrow> path io" where
  "stageJSONFile p x =
     io_bind (os_MkdirAll (butlast p)) (\<lambda>_.
     io_bind (io_pure (json_MarshalIndent x)) (\<lambda>data.
     io_bind (os_CreateTemp p ''.tmp'') (\<lambda>tmp.
     io_bind (io_on_error (os_Write tmp data) (io_bind (io_ignore os_Close) (\<lambda>_. os_Remove tmp))) (\<lambda>_.
     io_bind (io_on_error os_Close (os_Remove tmp)) (\<lambda>_.
     io_pure (Inr tmp))))))"

definition undoFile :: "stagedJSONFile \<Rightarrow> unit io" where
  "undoFile f =
     io_bind (if sf_installed f then io_ignore (os_Remove (sf_path f)) else io_pure (Inr ())) (\<lambda>_.
     io_bind (if sf_hadBackup f then io_ignore (os_Rename (sf_backup f) (sf_path f)) else io_pure (Inr ())) (\<lambda>_.
     if sf_tmp f \<noteq> [] then io_ignore (os_Remove (sf_tmp f)) else io_pure (Inr ())))"

definition rollback :: "stagedJSONFile list \<Rightarrow> unit io" where
  "rollback files = io_each undoFile (rev files)"

definition cleanup :: "stagedJSONFile list \<Rightarrow> unit io" where
  "cleanup files = io_each (\<lambda>f.
     io_bind (if sf_hadBackup f then io_ignore (os_Remove (sf_backup f)) else io_pure (Inr ())) (\<lambda>_.
     if sf_tmp f \<noteq> [] then io_ignore (os_Remove (sf_tmp f)) else io_pure (Inr ()))) files"

text \<open>The deferred removal of what is still staged.\<close>

definition removeStaged :: "stagedJSONFile list \<Rightarrow> unit io" where
  "removeStaged files =
     io_each (\<lambda>f. if sf_tmp f \<noteq> [] then io_ignore (os_Remove (sf_tmp f)) else io_pure (Inr ())) files"

text \<open>
  The loops of \<open>writeJSONBatchAtomic\<close>. A loop returns the files as it leaves them, because the
  clean-up after an error reads them.
\<close>

fun stageFiles :: "atomicJSONFile list \<Rightarrow> stagedJSONFile list \<Rightarrow> disk
    \<Rightarrow> (err + unit) \<times> stagedJSONFile list \<times> disk" where
  "stageFiles [] staged d = (Inr (), staged, d)"
| "stageFiles (f # fs) staged d =
     (case io_bind (preflightTarget (af_path f)) (\<lambda>_. stageJSONFile (af_path f) (af_value f)) d of
        (Inl e, d') \<Rightarrow> (Inl e, staged, d')
      | (Inr tmp, d') \<Rightarrow>
          stageFiles fs (staged @ [\<lparr>sf_path = af_path f, sf_tmp = tmp, sf_backup = [],
                                     sf_hadBackup = False, sf_installed = False\<rparr>]) d')"

definition applyFile :: "stagedJSONFile \<Rightarrow> disk \<Rightarrow> (err + unit) \<times> stagedJSONFile \<times> disk" where
  "applyFile f d =
     (case moveExistingAside (sf_path f) d of
        (Inl e, d1) \<Rightarrow> (Inl e, f, d1)
      | (Inr (backup, hadBackup), d1) \<Rightarrow>
          let f1 = f\<lparr>sf_backup := backup, sf_hadBackup := hadBackup\<rparr> in
          (case os_Rename (sf_tmp f1) (sf_path f1) d1 of
             (Inl e, d2) \<Rightarrow> (Inl e, f1, d2)
           | (Inr _, d2) \<Rightarrow>
               (Inr (), f1\<lparr>sf_tmp := [], sf_installed := True\<rparr>,
                snd (fsyncDir (butlast (sf_path f1)) d2))))"

fun applyFiles :: "stagedJSONFile list \<Rightarrow> stagedJSONFile list \<Rightarrow> disk
    \<Rightarrow> (err + unit) \<times> stagedJSONFile list \<times> disk" where
  "applyFiles done [] d = (Inr (), done, d)"
| "applyFiles done (f # fs) d =
     (case applyFile f d of
        (Inl e, f1, d1) \<Rightarrow> (Inl e, done @ f1 # fs, d1)
      | (Inr _, f1, d1) \<Rightarrow> applyFiles (done @ [f1]) fs d1)"

definition writeJSONBatchAtomic :: "atomicJSONFile list \<Rightarrow> (string \<Rightarrow> unit io) \<Rightarrow> stagedJSONFile list io" where
  "writeJSONBatchAtomic files phase d =
     (case stageFiles files [] d of
        (Inl e, staged, d1) \<Rightarrow> (Inl e, snd (removeStaged staged d1))
      | (Inr _, staged, d1) \<Rightarrow>
        (case phase ''applying'' d1 of
           (Inl e, d2) \<Rightarrow> (Inl e, snd (removeStaged staged (snd (rollback staged d2))))
         | (Inr _, d2) \<Rightarrow>
           (case applyFiles [] staged d2 of
              (Inl e, staged, d3) \<Rightarrow> (Inl e, snd (removeStaged staged (snd (rollback staged d3))))
            | (Inr _, staged, d3) \<Rightarrow>
              (case phase ''committed'' d3 of
                 (Inl e, d4) \<Rightarrow> (Inl e, snd (removeStaged staged (snd (rollback staged d4))))
               | (Inr _, d4) \<Rightarrow> (Inr staged, snd (removeStaged staged d4))))))"

section \<open>The transaction of a trade\<close>

fun join_slash :: "path \<Rightarrow> string" where
  "join_slash [] = ''.''"
| "join_slash [c] = c"
| "join_slash (c # cs) = c @ CHR ''/'' # join_slash cs"

definition relativeTargets :: "atomicJSONFile list \<Rightarrow> err + string list" where
  "relativeTargets files =
     each (\<lambda>_ f targets.
         guard (af_path f = [] \<or> hd (af_path f) = ''..'')
           (errorfs [''transaction target escapes store root: '', path_text (af_path f)])
         (Inr (targets @ [join_slash (af_path f)])))
       0 files []"

definition writeTransactionManifest :: "path \<Rightarrow> transactionManifest \<Rightarrow> unit io" where
  "writeTransactionManifest p m = writeJSONAtomic p (ManifestDoc m)"

definition stateFiles :: "PersistedNodeState \<Rightarrow> atomicJSONFile list" where
  "stateFiles s =
     [\<lparr>af_path = inventoryPath (pn_ID s), af_value = InventoryDoc (inventoryDTOFor (pn_ID s) (pn_Inventory s))\<rparr>,
      \<lparr>af_path = flowPath (pn_ID s), af_value = FlowDoc (flowDTOFor (pn_ID s) (pn_Flow s))\<rparr>,
      \<lparr>af_path = pricePath (pn_ID s), af_value = PriceDoc (priceDTOFor (pn_ID s) (pn_PriceState s))\<rparr>]"

definition tradeFiles :: "TxID \<Rightarrow> AuthorizedTradeTx \<Rightarrow> PersistedNodeState list \<Rightarrow> atomicJSONFile list" where
  "tradeFiles i tx states =
     \<lparr>af_path = tradePath i, af_value = TradeDoc tx\<rparr> # concat (map stateFiles states)"

text \<open>What follows the first manifest: the batch, the commit record and the executed marker.\<close>

definition commitTrade :: "TxID \<Rightarrow> string list \<Rightarrow> atomicJSONFile list \<Rightarrow> unit io" where
  "commitTrade i targets files =
     io_bind (writeJSONBatchAtomic files (\<lambda>phase. writeTransactionManifest (manifestPath i)
         \<lparr>tm_ID = idHex i, tm_Phase = phase, tm_Targets = targets\<rparr>)) (\<lambda>batch.
     io_bind (io_on_error (writeCommitRecordExclusive (committedPath i) i) (rollback batch)) (\<lambda>_.
     io_bind (writeExecutedMarkerExclusive (executedPath i) i) (\<lambda>_.
     io_bind (cleanup batch) (\<lambda>_.
     io_bind (io_ignore (os_Remove (committedPath i))) (\<lambda>_.
     io_ignore (os_Remove (manifestPath i)))))))"

definition runTrade :: "TxID \<Rightarrow> atomicJSONFile list \<Rightarrow> unit io" where
  "runTrade i files =
     io_bind (io_pure (relativeTargets files)) (\<lambda>targets.
     io_bind (writeTransactionManifest (manifestPath i)
         \<lparr>tm_ID = idHex i, tm_Phase = ''preparing'', tm_Targets = targets\<rparr>) (\<lambda>_.
     io_on_error (commitTrade i targets files) (os_Remove (manifestPath i))))"

definition PersistExecutedTradeJSON :: "TxID \<Rightarrow> AuthorizedTradeTx \<Rightarrow> PersistedNodeState list \<Rightarrow> unit io" where
  "PersistExecutedTradeJSON i tx states d =
     (if HasExecutedTradeJSON d i then (Inl (errorf ''trade replay rejected''), d)
      else
        io_bind (reserveExecutedTrade (reservationPath i) i) (\<lambda>reservation.
        io_finally (runTrade i (tradeFiles i tx states)) (os_Remove reservation)) d)"

definition json_store :: "disk store_api" where
  "json_store =
     \<lparr>HasExecutedTrade = HasExecutedTradeJSON,
      MarkExecutedTrade = (\<lambda>d i. MarkExecutedTradeJSON i d),
      LoadInventory = LoadInventoryJSON, LoadFlow = LoadFlowJSON, LoadPriceState = LoadPriceStateJSON,
      PersistExecutedTrade = (\<lambda>d i tx states. PersistExecutedTradeJSON i tx states d)\<rparr>"

end
