(* ===== verification/Durability.thy ===== *)
theory Durability
  imports JsonStore Trade
begin

text \<open>
  What the JSON store guarantees, whatever the operating system does: which files each operation
  touches, that a trade made durable is known from then on, and what a crash can leave behind.
\<close>

section \<open>Which files an operation touches\<close>

definition fileAt :: "disk \<Rightarrow> path \<Rightarrow> content option" where
  "fileAt d p = (case look d p of Some (File c) \<Rightarrow> Some c | _ \<Rightarrow> None)"

lemma file_exists_iff: "file_exists d p \<longleftrightarrow> fileAt d p \<noteq> None"
  by (simp add: file_exists_def isFile_def fileAt_def split: option.splits entry.splits)

text \<open>
  \<open>touches S m\<close>: the effect \<open>m\<close> changes no file outside \<open>S\<close>, and nothing at all once the machine has
  stopped.
\<close>

definition touches :: "(path \<Rightarrow> bool) \<Rightarrow> 'a io \<Rightarrow> bool" where
  "touches S m \<longleftrightarrow> (\<forall>d p. \<not> S p \<longrightarrow> fileAt (snd (m d)) p = fileAt d p) \<and> (\<forall>d. d_crashed d \<longrightarrow> snd (m d) = d)"

named_theorems touch \<open>which files an effect touches\<close>

lemma touchesD: "touches S m \<Longrightarrow> m d = (r, d') \<Longrightarrow> \<not> S p \<Longrightarrow> fileAt d' p = fileAt d p"
  by (metis snd_conv touches_def)

lemma touches_crashed: "touches S m \<Longrightarrow> d_crashed d \<Longrightarrow> snd (m d) = d"
  by (simp add: touches_def)

lemma touches_mono: "touches S m \<Longrightarrow> (\<And>p. S p \<Longrightarrow> T p) \<Longrightarrow> touches T m"
  by (auto simp: touches_def)

lemma touches_pure [touch]: "touches S (io_pure r)"
  by (simp add: touches_def io_pure_def)

lemma touches_bind [touch]: "touches S m \<Longrightarrow> (\<And>x. touches S (f x)) \<Longrightarrow> touches S (io_bind m f)"
  unfolding touches_def io_bind_def by (auto split: prod.splits sum.splits) (metis snd_conv)+

lemma touches_ignore [touch]: "touches S m \<Longrightarrow> touches S (io_ignore m)"
  by (simp add: touches_def io_ignore_def)

lemma touches_finally [touch]: "touches S m \<Longrightarrow> touches S c \<Longrightarrow> touches S (io_finally m c)"
  unfolding touches_def io_finally_def by (auto split: prod.splits) (metis snd_conv)+

lemma touches_on_error [touch]: "touches S m \<Longrightarrow> touches S c \<Longrightarrow> touches S (io_on_error m c)"
  unfolding touches_def io_on_error_def by (auto split: prod.splits sum.splits) (metis snd_conv)+

lemma touches_each: "(\<And>x. x \<in> set xs \<Longrightarrow> touches S (f x)) \<Longrightarrow> touches S (io_each f xs)"
  by (induction xs) (auto intro: touch)

lemma touches_syscall: "(\<And>d p. \<not> S p \<Longrightarrow> fileAt (snd (f d)) p = fileAt d p) \<Longrightarrow> touches S (syscall f)"
  by (auto simp: touches_def syscall_def fileAt_def split: list.splits fault.splits)

lemma fileAt_simps [simp]:
  "fileAt (put q x d) p = (if p = q then (case x of Dir \<Rightarrow> None | File c \<Rightarrow> Some c) else fileAt d p)"
  "fileAt (del q d) p = (if p = q then None else fileAt d p)"
  "fileAt (d_faults_update f d) p = fileAt d p" "fileAt (d_crashed_update g d) p = fileAt d p"
  "fileAt (d_temp_update h d) p = fileAt d p"
  by (simp_all add: fileAt_def split: entry.splits)

lemma touches_MkdirAll [touch]: "touches S (os_MkdirAll p)"
  unfolding os_MkdirAll_def by (rule touches_syscall) (auto simp: fileAt_def split: option.splits entry.splits)

lemma touches_CreateExclusive: "S p \<Longrightarrow> touches S (os_CreateExclusive p)"
  unfolding os_CreateExclusive_def by (rule touches_syscall) (auto split: option.splits)

lemma touches_Create: "S p \<Longrightarrow> touches S (os_Create p)"
  unfolding os_Create_def by (rule touches_syscall) auto

lemma touches_Write: "S p \<Longrightarrow> touches S (os_Write p x)"
  by (auto simp: touches_def os_Write_def syscall_def split: list.splits fault.splits)

lemma touches_Sync [touch]: "touches S os_Sync" "touches S os_Close"
  unfolding os_Sync_def os_Close_def by (rule touches_syscall, simp add: io_pure_def)+

lemma touches_Remove: "S p \<Longrightarrow> touches S (os_Remove p)"
  unfolding os_Remove_def by (rule touches_syscall) (auto split: option.splits entry.splits)

lemma touches_Rename: "S p \<Longrightarrow> S q \<Longrightarrow> touches S (os_Rename p q)"
  unfolding os_Rename_def by (rule touches_syscall) (auto split: option.splits entry.splits)

text \<open>Temporary and backup files.\<close>

definition scratch :: "path \<Rightarrow> bool" where
  "scratch p \<longleftrightarrow> p \<noteq> [] \<and> take 4 (rev (last p)) \<in> {''pmt.'', ''kab.''}"

lemma scratch_temp [simp]: "scratch (temp_name p ''.tmp'' n)" "scratch (temp_name p ''.bak'' n)"
  "scratch (with_suffix p ''.tmp'')"
  by (simp_all add: scratch_def temp_name_def with_suffix_def)

lemma touches_CreateTemp: "(\<And>n. S (temp_name p suffix n)) \<Longrightarrow> touches S (os_CreateTemp p suffix)"
  unfolding os_CreateTemp_def by (rule touches_syscall) (auto split: option.splits)

lemma touches_fsync [touch]: "touches S (fsyncDir p)"
  using touches_Sync(1) [of S] by (simp add: touches_def fsyncDir_def)

lemmas touches_calls = touches_CreateExclusive touches_Create touches_Write touches_Remove touches_Rename
  touches_CreateTemp

lemma touches_map_err: "touches S m \<Longrightarrow> touches S (\<lambda>d. case m d of (r, d') \<Rightarrow> (map_err g r, d'))"
  by (auto simp: touches_def split: prod.splits) (metis snd_conv)+

lemma touches_WriteFile: "S p \<Longrightarrow> touches S (os_WriteFile p x)"
  unfolding os_WriteFile_def by (intro touch touches_calls)

lemma touches_writeJSONAtomic: "S p \<Longrightarrow> S (with_suffix p ''.tmp'') \<Longrightarrow> touches S (writeJSONAtomic p x)"
  unfolding writeJSONAtomic_def Let_def by (intro touch touches_calls touches_WriteFile)

lemma touches_createMarker: "S p \<Longrightarrow> touches S (createMarker s p x)"
  unfolding createMarker_def by (intro touch touches_calls touches_map_err)

lemma touches_preflight [touch]: "touches S (preflightTarget p)"
  by (simp add: touches_def preflightTarget_def)


lemma touches_bind_Inr:
  "touches S m \<Longrightarrow> (\<And>x d d'. m d = (Inr x, d') \<Longrightarrow> touches S (f x)) \<Longrightarrow> touches S (io_bind m f)"
  unfolding touches_def io_bind_def by (auto split: prod.splits sum.splits) (metis snd_conv)+

lemma CreateTemp_name: "os_CreateTemp p suffix d = (Inr q, d') \<Longrightarrow> \<exists>n. q = temp_name p suffix n"
  by (auto simp: os_CreateTemp_def syscall_def split: if_splits list.splits fault.splits option.splits)

lemma CreateTemp_scratch:
  "os_CreateTemp p ''.tmp'' d = (Inr q, d') \<Longrightarrow> scratch q" "os_CreateTemp p ''.bak'' d = (Inr q, d') \<Longrightarrow> scratch q"
  by (auto dest: CreateTemp_name)

definition covers :: "(path \<Rightarrow> bool) \<Rightarrow> bool" where
  "covers S \<longleftrightarrow> (\<forall>p. scratch p \<longrightarrow> S p)"

lemma coversD: "covers S \<Longrightarrow> scratch p \<Longrightarrow> S p"
  by (simp add: covers_def)

lemma touches_stageJSONFile: "covers S \<Longrightarrow> touches S (stageJSONFile p x)"
  unfolding stageJSONFile_def
  by (intro touches_bind_Inr [OF touches_CreateTemp] touch touches_calls; auto intro: coversD dest: CreateTemp_scratch)

lemma touches_moveExistingAside: "covers S \<Longrightarrow> S p \<Longrightarrow> touches S (moveExistingAside p)"
proof -
  assume S: "covers S" "S p"
  have "touches S (io_bind (os_CreateTemp p ''.bak'') (\<lambda>backup.
       io_bind (io_on_error os_Close (os_Remove backup)) (\<lambda>_.
       io_bind (io_ignore (os_Remove backup)) (\<lambda>_.
       io_bind (os_Rename p backup) (\<lambda>_.
       io_pure (Inr (backup, True)))))))"
    using S(2) by (intro touches_bind_Inr [OF touches_CreateTemp] touch touches_calls; auto intro: coversD [OF S(1)] dest: CreateTemp_scratch)
  then show ?thesis unfolding moveExistingAside_def
    by (intro touches_bind touch) (auto simp: touches_def)
qed

lemma io_bind_Inr: "io_bind m f d = (Inr y, d') \<longleftrightarrow> (\<exists>x d1. m d = (Inr x, d1) \<and> f x d1 = (Inr y, d'))"
  by (auto simp: io_bind_def split: prod.splits sum.splits)

lemma io_pure_Inr [simp]: "io_pure r d = (r', d') \<longleftrightarrow> r' = r \<and> d' = d"
  by (auto simp: io_pure_def)

lemma io_on_error_Inr [simp]: "io_on_error m c d = (Inr y, d') \<longleftrightarrow> m d = (Inr y, d')"
  by (auto simp: io_on_error_def split: prod.splits sum.splits)

lemma io_finally_Inr: "io_finally m c d = (r, d') \<longleftrightarrow> (\<exists>d1. m d = (r, d1) \<and> d' = snd (c d1))"
  by (auto simp: io_finally_def split: prod.splits)

lemma io_ignore_Inr: "io_ignore m d = (r, d') \<longleftrightarrow> r = Inr () \<and> d' = snd (m d)"
  by (auto simp: io_ignore_def)

lemma stageJSONFile_scratch: "stageJSONFile p x d = (Inr q, d') \<Longrightarrow> scratch q"
  by (auto simp: stageJSONFile_def io_bind_Inr dest: CreateTemp_scratch)

lemma moveExistingAside_scratch: "moveExistingAside p d = (Inr (q, had), d') \<Longrightarrow> had \<Longrightarrow> scratch q"
  by (auto simp: moveExistingAside_def io_bind_Inr dest: CreateTemp_scratch split: if_splits)

text \<open>A file in the course of a batch: its target, its temporary file and its backup.\<close>

definition staged_ok :: "(path \<Rightarrow> bool) \<Rightarrow> stagedJSONFile \<Rightarrow> bool" where
  "staged_ok S f \<longleftrightarrow> S (sf_path f) \<and> (sf_tmp f \<noteq> [] \<longrightarrow> scratch (sf_tmp f)) \<and> (sf_hadBackup f \<longrightarrow> scratch (sf_backup f))"

lemma touches_rollback: "covers S \<Longrightarrow> \<forall>f \<in> set fs. staged_ok S f \<Longrightarrow> touches S (rollback fs)"
  unfolding rollback_def undoFile_def
  by (intro touches_each) (auto simp: staged_ok_def coversD intro!: touch touches_calls)

lemma touches_removeStaged: "covers S \<Longrightarrow> \<forall>f \<in> set fs. staged_ok S f \<Longrightarrow> touches S (removeStaged fs)"
  unfolding removeStaged_def by (intro touches_each) (auto simp: staged_ok_def coversD intro!: touch touches_calls)

lemma touches_cleanup: "covers S \<Longrightarrow> \<forall>f \<in> set fs. staged_ok S f \<Longrightarrow> touches S (cleanup fs)"
  unfolding cleanup_def by (intro touches_each) (auto simp: staged_ok_def coversD intro!: touch touches_calls)

lemma stageFiles_touches:
  assumes S: "covers S" and "\<forall>f \<in> set staged. staged_ok S f" "\<forall>f \<in> set fs. S (af_path f)"
  shows "(case stageFiles fs staged d of (r, staged', d') \<Rightarrow>
     (\<forall>f \<in> set staged'. staged_ok S f) \<and> (\<forall>p. \<not> S p \<longrightarrow> fileAt d' p = fileAt d p) \<and> (d_crashed d \<longrightarrow> d' = d))"
  using assms(2,3)
proof (induction fs arbitrary: staged d)
  case (Cons f fs)
  let ?m = "io_bind (preflightTarget (af_path f)) (\<lambda>_. stageJSONFile (af_path f) (af_value f))"
  have t: "touches S ?m" by (intro touch touches_stageJSONFile S)
  show ?case
  proof (cases "?m d")
    case (Pair r d1)
    note fr = touchesD [OF t Pair] touches_crashed [OF t, of d]
    show ?thesis
    proof (cases r)
      case (Inr tmp)
      have "scratch tmp" using Pair Inr by (auto simp: io_bind_Inr dest: stageJSONFile_scratch)
      then have "\<forall>g \<in> set (staged @ [\<lparr>sf_path = af_path f, sf_tmp = tmp, sf_backup = [],
            sf_hadBackup = False, sf_installed = False\<rparr>]). staged_ok S g"
        using Cons.prems by (auto simp: staged_ok_def)
      from Cons.IH [OF this, of d1] show ?thesis
        using Cons.prems(2) fr by (auto simp: Pair Inr split: prod.splits)
    qed (use Cons.prems(1) fr in \<open>auto simp: Pair\<close>)
  qed
qed simp

lemma applyFile_touches:
  assumes S: "covers S" and "staged_ok S f" "sf_tmp f \<noteq> []"
  shows "(case applyFile f d of (r, f', d') \<Rightarrow>
     staged_ok S f' \<and> (\<forall>p. \<not> S p \<longrightarrow> fileAt d' p = fileAt d p) \<and> (d_crashed d \<longrightarrow> d' = d))"
proof (cases "moveExistingAside (sf_path f) d")
  case (Pair r d1)
  have t: "touches S (moveExistingAside (sf_path f))"
    using assms by (intro touches_moveExistingAside S) (simp_all add: staged_ok_def)
  note fr = touchesD [OF t Pair] touches_crashed [OF t, of d]
  show ?thesis
  proof (cases r)
    case (Inr b)
    obtain backup had where b: "b = (backup, had)" by force
    have sc: "had \<Longrightarrow> scratch backup" using Pair Inr b moveExistingAside_scratch by blast
    have t2: "touches S (os_Rename (sf_tmp f) (sf_path f))"
      using assms by (intro touches_Rename) (simp_all add: staged_ok_def coversD)
    obtain r2 d2 where d2: "os_Rename (sf_tmp f) (sf_path f) d1 = (r2, d2)" by force
    note fr2 = touchesD [OF t2 d2] touches_crashed [OF t2, of d1]
    have t3: "touches S (fsyncDir (butlast (sf_path f)))" by (intro touch)
    obtain r3 d3 where d3: "fsyncDir (butlast (sf_path f)) d2 = (r3, d3)" by force
    note fr3 = touchesD [OF t3 d3] touches_crashed [OF t3, of d2]
    show ?thesis using assms sc fr fr2 fr3
      by (auto simp: applyFile_def Pair Inr b d2 d3 Let_def staged_ok_def split: sum.splits)
  qed (use assms fr in \<open>auto simp: applyFile_def Pair\<close>)
qed


lemma applyFiles_touches:
  assumes S: "covers S" and "\<forall>f \<in> set done. staged_ok S f" "\<forall>f \<in> set fs. staged_ok S f \<and> sf_tmp f \<noteq> []"
  shows "(case applyFiles done fs d of (r, staged', d') \<Rightarrow>
     (\<forall>f \<in> set staged'. staged_ok S f) \<and> (\<forall>p. \<not> S p \<longrightarrow> fileAt d' p = fileAt d p) \<and> (d_crashed d \<longrightarrow> d' = d))"
  using assms(2,3)
proof (induction fs arbitrary: "done" d)
  case (Cons f fs)
  obtain r f1 d1 where a: "applyFile f d = (r, f1, d1)" by (cases "applyFile f d") auto
  have fr: "staged_ok S f1" "\<forall>p. \<not> S p \<longrightarrow> fileAt d1 p = fileAt d p" "d_crashed d \<longrightarrow> d1 = d"
    using applyFile_touches [OF S, of f d] Cons.prems(2) by (auto simp: a)
  show ?case
  proof (cases r)
    case (Inr u)
    have "\<forall>g \<in> set (done @ [f1]). staged_ok S g" using Cons.prems(1) fr(1) by simp
    from Cons.IH [OF this, of d1] show ?thesis using Cons.prems(2) fr(2,3) by (auto simp: a Inr split: prod.splits)
  qed (use Cons.prems fr in \<open>auto simp: a\<close>)
qed simp

lemma stageFiles_tmp:
  "stageFiles fs staged d = (r, staged', d') \<Longrightarrow> \<forall>f \<in> set staged. sf_tmp f \<noteq> [] \<Longrightarrow> \<forall>f \<in> set staged'. sf_tmp f \<noteq> []"
proof (induction fs arbitrary: staged d)
  case (Cons f fs)
  show ?case
  proof (cases "io_bind (preflightTarget (af_path f)) (\<lambda>_. stageJSONFile (af_path f) (af_value f)) d")
    case (Pair r1 d1)
    show ?thesis
    proof (cases r1)
      case (Inl e)
      then show ?thesis using Cons.prems Pair by auto
    next
      case (Inr tmp)
      have "tmp \<noteq> []" using Pair Inr by (auto simp: io_bind_Inr scratch_def dest!: stageJSONFile_scratch)
      then show ?thesis
        using Cons.IH [of "staged @ [\<lparr>sf_path = af_path f, sf_tmp = tmp, sf_backup = [],
            sf_hadBackup = False, sf_installed = False\<rparr>]" d1] Cons.prems Pair Inr by auto
    qed
  qed
qed auto

lemma writeJSONBatchAtomic_touches:
  assumes S: "covers S" and files: "\<forall>f \<in> set files. S (af_path f)" and phase: "\<And>s. touches S (phase s)"
  shows "touches S (writeJSONBatchAtomic files phase)"
    and "writeJSONBatchAtomic files phase d = (Inr batch, d') \<Longrightarrow> \<forall>f \<in> set batch. staged_ok S f"
proof -
  have all: "(\<forall>p. \<not> S p \<longrightarrow> fileAt (snd (writeJSONBatchAtomic files phase d)) p = fileAt d p)
    \<and> (d_crashed d \<longrightarrow> snd (writeJSONBatchAtomic files phase d) = d)
    \<and> (\<forall>batch d'. writeJSONBatchAtomic files phase d = (Inr batch, d') \<longrightarrow> (\<forall>f \<in> set batch. staged_ok S f))" for d
  proof -
    obtain r1 st1 d1 where 1: "stageFiles files [] d = (r1, st1, d1)" by (cases "stageFiles files [] d") auto
    have f1: "\<forall>f \<in> set st1. staged_ok S f" "\<forall>p. \<not> S p \<longrightarrow> fileAt d1 p = fileAt d p" "d_crashed d \<longrightarrow> d1 = d"
      using stageFiles_touches [OF S, of "[]" files d] files by (auto simp: 1)
    have tmp: "\<forall>f \<in> set st1. sf_tmp f \<noteq> []" using stageFiles_tmp [OF 1] by simp
    obtain r2 d2 where 2: "phase ''applying'' d1 = (r2, d2)" by force
    note f2 = touchesD [OF phase 2] touches_crashed [OF phase, of d1 "''applying''"]
    obtain r3 st3 d3 where 3: "applyFiles [] st1 d2 = (r3, st3, d3)" by (cases "applyFiles [] st1 d2") auto
    have f3: "\<forall>f \<in> set st3. staged_ok S f" "\<forall>p. \<not> S p \<longrightarrow> fileAt d3 p = fileAt d2 p" "d_crashed d2 \<longrightarrow> d3 = d2"
      using applyFiles_touches [OF S, of "[]" st1 d2] f1(1) tmp by (auto simp: 3)
    obtain r4 d4 where 4: "phase ''committed'' d3 = (r4, d4)" by force
    note f4 = touchesD [OF phase 4] touches_crashed [OF phase, of d3 "''committed''"]
    note rb = touches_rollback [OF S] and rm = touches_removeStaged [OF S]
    have "fileAt (snd (removeStaged st1 d1)) p = fileAt d1 p"
      "fileAt (snd (removeStaged st1 (snd (rollback st1 d2)))) p = fileAt d2 p"
      "fileAt (snd (removeStaged st3 (snd (rollback st3 d3)))) p = fileAt d3 p"
      "fileAt (snd (removeStaged st3 (snd (rollback st3 d4)))) p = fileAt d4 p"
      "fileAt (snd (removeStaged st3 d4)) p = fileAt d4 p" if "\<not> S p" for p
      using that rb rm f1(1) f3(1) by (simp_all add: touches_def)
    then have A: "\<forall>p. \<not> S p \<longrightarrow> fileAt (snd (writeJSONBatchAtomic files phase d)) p = fileAt d p"
      using f1(2) f2(1) f3(2) f4(1)
      by (cases r1; cases r2; cases r3; cases r4) (simp_all add: writeJSONBatchAtomic_def 1 2 3 4)
    have B: "snd (writeJSONBatchAtomic files phase d) = d" if c: "d_crashed d"
    proof -
      have e: "d1 = d" "d2 = d" "d3 = d" "d4 = d" using c f1(3) f2(2) f3(3) f4(2) 2 4 by auto
      have "snd (removeStaged st1 d) = d" "snd (rollback st1 d) = d" "snd (removeStaged st3 d) = d" "snd (rollback st3 d) = d"
        using rb rm f1(1) f3(1) c by (simp_all add: touches_def)
      then show ?thesis using 1 2 3 4
        by (cases r1; cases r2; cases r3; cases r4) (simp_all add: writeJSONBatchAtomic_def e)
    qed
    have C: "\<forall>f \<in> set batch. staged_ok S f" if "writeJSONBatchAtomic files phase d = (Inr batch, d')" for batch d'
      using that f3(1) by (auto simp: writeJSONBatchAtomic_def 1 2 3 4 split: sum.splits)
    from A B C show ?thesis by blast
  qed
  show "touches S (writeJSONBatchAtomic files phase)" unfolding touches_def using all by blast
  show "writeJSONBatchAtomic files phase d = (Inr batch, d') \<Longrightarrow> \<forall>f \<in> set batch. staged_ok S f"
    using all by blast
qed

lemma commitTrade_touches:
  assumes S: "covers S" and files: "\<forall>f \<in> set files. S (af_path f)"
    and m: "S (manifestPath i)" "S (committedPath i)" "S (executedPath i)"
  shows "touches S (commitTrade i targets files)"
proof -
  have ph: "touches S (writeTransactionManifest (manifestPath i) x)" for x
    unfolding writeTransactionManifest_def by (intro touches_writeJSONAtomic m coversD [OF S]) simp
  note b = writeJSONBatchAtomic_touches [OF S files ph]
  show ?thesis
    unfolding commitTrade_def writeCommitRecordExclusive_def writeExecutedMarkerExclusive_def writeTradeRecordExclusive_def
    by (intro touches_bind_Inr [OF b(1)] touch touches_calls touches_createMarker m
        touches_rollback [OF S b(2)] touches_cleanup [OF S b(2)])
qed

lemma runTrade_touches:
  assumes S: "covers S" and files: "\<forall>f \<in> set files. S (af_path f)"
    and m: "S (manifestPath i)" "S (committedPath i)" "S (executedPath i)"
  shows "touches S (runTrade i files)"
  unfolding runTrade_def writeTransactionManifest_def
  by (intro touch touches_calls touches_writeJSONAtomic commitTrade_touches [OF S files] m coversD [OF S]) simp

section \<open>File names\<close>

lemma length_idHex [simp]: "length (idHex i) = 64"
  by (simp add: idHex_def hashBytes_def)

lemma idHex_inj [simp]: "idHex i = idHex j \<longleftrightarrow> i = j"
  by (cases i; cases j) (simp add: idHex_def)

lemma idHex_app [simp]: "idHex i @ x = idHex j @ y \<longleftrightarrow> i = j \<and> x = y"
  by (subst append_eq_append_conv) simp_all

lemmas trade_paths = executedPath_def tradePath_def committedPath_def manifestPath_def reservationPath_def
lemmas state_paths = inventoryPath_def flowPath_def pricePath_def

lemma not_scratch [simp]:
  "\<not> scratch (executedPath i)" "\<not> scratch (tradePath i)" "\<not> scratch (committedPath i)"
  "\<not> scratch (manifestPath i)" "\<not> scratch (reservationPath i)"
  "\<not> scratch (inventoryPath n)" "\<not> scratch (flowPath n)" "\<not> scratch (pricePath n)"
  by (simp_all add: scratch_def trade_paths state_paths)

lemma trade_files_paths:
  "f \<in> set (tradeFiles i tx states) \<Longrightarrow> af_path f = tradePath i \<or> hd (af_path f) \<in> {''inventory'', ''flow'', ''prices''}"
  by (auto simp: tradeFiles_def stateFiles_def state_paths)

text \<open>The marker files of a trade, and what an operation on another trade may touch.\<close>

definition marker :: "TxID \<Rightarrow> path \<Rightarrow> bool" where
  "marker i p \<longleftrightarrow> p \<in> {executedPath i, committedPath i, reservationPath i, manifestPath i}"

definition tradeArea :: "TxID \<Rightarrow> atomicJSONFile list \<Rightarrow> path \<Rightarrow> bool" where
  "tradeArea i files p \<longleftrightarrow> scratch p \<or> p \<in> {manifestPath i, committedPath i, executedPath i} \<or> p \<in> af_path ` set files"

lemma covers_tradeArea: "covers (tradeArea i files)"
  by (simp add: covers_def tradeArea_def)

lemma runTrade_area: "touches (tradeArea i files) (runTrade i files)"
  by (rule runTrade_touches [OF covers_tradeArea]) (auto simp: tradeArea_def)

lemma outside_files:
  "hd p = ''trades'' \<Longrightarrow> p \<noteq> tradePath i \<Longrightarrow> p \<notin> af_path ` set (tradeFiles i tx states)"
  using trade_files_paths [of _ i tx states] by fastforce

lemma marker_outside: "marker j p \<Longrightarrow> j \<noteq> i \<Longrightarrow> \<not> tradeArea i (tradeFiles i tx states) p"
proof -
  assume m: "marker j p" "j \<noteq> i"
  then have "hd p = ''trades''" "p \<noteq> tradePath i" "p \<notin> {manifestPath i, committedPath i, executedPath i}"
    by (auto simp: marker_def trade_paths)
  moreover have "\<not> scratch p" using m by (auto simp: marker_def)
  ultimately show ?thesis using outside_files [of p i tx states] by (simp add: tradeArea_def)
qed

lemma reservation_outside: "\<not> tradeArea i (tradeFiles i tx states) (reservationPath i)"
  unfolding tradeArea_def using not_scratch outside_files [of "reservationPath i" i tx states]
  by (simp add: trade_paths)

lemma HasExecutedTradeJSON_iff: "HasExecutedTradeJSON d i \<longleftrightarrow> (\<exists>p. marker i p \<and> fileAt d p \<noteq> None)"
  by (auto simp: HasExecutedTradeJSON_def file_exists_iff marker_def)

section \<open>The contract\<close>

lemma os_Write_Inr: "os_Write p x d = (Inr u, d') \<Longrightarrow> fileAt d' p = Some (Doc x)"
  by (auto simp: os_Write_def syscall_def split: list.splits fault.splits if_splits)

lemma case_map_err: "(case m of (r, d') \<Rightarrow> (map_err g r, d')) = (Inr y, d2) \<longleftrightarrow> m = (Inr y, d2)"
  by (cases m) auto

lemma createMarker_Inr:
  assumes "createMarker s p x d = (Inr u, d')" 
  shows "\<exists>y. json_MarshalIndent x = Inr y \<and> fileAt d' p = Some (Doc y)" and "look d p = None \<or> p = butlast p"
proof -
  note n = touchesD [of "\<lambda>_. False", simplified]
  from assms obtain y d1 d2 d3 d4 d5 u1 u2 u3 u4 u5 where y: "json_MarshalIndent x = Inr y" and
    d1: "os_MkdirAll (butlast p) d = (Inr u1, d1)" and d2: "os_CreateExclusive p d1 = (Inr u2, d2)" and
    d3: "os_Write p y d2 = (Inr u3, d3)" and d4: "os_Sync d3 = (Inr u4, d4)"
    and d5: "os_Close d4 = (Inr u5, d5)" and d': "d' = snd (fsyncDir (butlast p) d5)"
    unfolding createMarker_def io_bind_Inr io_ignore_Inr case_map_err io_on_error_Inr io_pure_Inr by metis
  have "fileAt d' p = fileAt d5 p" "fileAt d5 p = fileAt d4 p" "fileAt d4 p = fileAt d3 p"
    using touches_fsync [of "\<lambda>_. False" "butlast p"] n [OF touches_Sync(2) d5] n [OF touches_Sync(1) d4]
    by (simp_all add: touches_def d')
  then show "\<exists>y. json_MarshalIndent x = Inr y \<and> fileAt d' p = Some (Doc y)" using os_Write_Inr [OF d3] y by simp
  have "look d1 p = None"
    using d2 by (auto simp: os_CreateExclusive_def syscall_def split: list.splits fault.splits option.splits if_splits)
  moreover have "look d1 p = look d p" if "p \<noteq> butlast p"
    using d1 that by (auto simp: os_MkdirAll_def syscall_def split: list.splits fault.splits option.splits entry.splits if_splits)
  ultimately show "look d p = None \<or> p = butlast p" by auto
qed

lemma commitTrade_executed:
  assumes "commitTrade i targets (tradeFiles i tx states) d = (Inr u, d')"
  shows "fileAt d' (executedPath i) \<noteq> None"
proof -
  let ?files = "tradeFiles i tx states"
  let ?S = "\<lambda>p. tradeArea i ?files p"
  from assms obtain batch d1 d2 d3 d4 where 
    b: "writeJSONBatchAtomic ?files (\<lambda>phase. writeTransactionManifest (manifestPath i)
         \<lparr>tm_ID = idHex i, tm_Phase = phase, tm_Targets = targets\<rparr>) d = (Inr batch, d1)"
    and x: "writeExecutedMarkerExclusive (executedPath i) i d2 = (Inr (), d3)"
    and c: "cleanup batch d3 = (Inr (), d4)"
    and d': "d' = snd (os_Remove (manifestPath i) (snd (os_Remove (committedPath i) d4)))"
    unfolding commitTrade_def io_bind_Inr io_ignore_Inr io_on_error_Inr by (metis old.unit.exhaust)
  have ph: "touches ?S (writeTransactionManifest (manifestPath i) y)" for y
    unfolding writeTransactionManifest_def by (rule touches_writeJSONAtomic) (simp_all add: tradeArea_def)
  have ok: "\<forall>f \<in> set batch. staged_ok ?S f"
    by (rule writeJSONBatchAtomic_touches(2) [OF covers_tradeArea _ ph b]) (simp add: tradeArea_def)
  have cl: "touches scratch (cleanup batch)"
    unfolding cleanup_def using ok
    by (intro touches_each) (auto simp: staged_ok_def intro!: touch touches_calls)
  have "fileAt d3 (executedPath i) \<noteq> None"
    using createMarker_Inr(1) x by (fastforce simp: writeExecutedMarkerExclusive_def writeTradeRecordExclusive_def)
  moreover have "fileAt d4 (executedPath i) = fileAt d3 (executedPath i)" using touchesD [OF cl c] by simp
  moreover have "touches (\<lambda>p. p = committedPath i) (os_Remove (committedPath i))"
    "touches (\<lambda>p. p = manifestPath i) (os_Remove (manifestPath i))" by (intro touches_Remove, simp)+
  moreover have "executedPath i \<noteq> committedPath i" "executedPath i \<noteq> manifestPath i" by (simp_all add: trade_paths)
  ultimately show ?thesis unfolding d' touches_def by simp
qed

lemma runTrade_executed:
  "runTrade i (tradeFiles i tx states) d = (Inr u, d') \<Longrightarrow> fileAt d' (executedPath i) \<noteq> None"
  by (auto simp: runTrade_def io_bind_Inr dest: commitTrade_executed)

lemma touches_reserve: "touches (\<lambda>q. q = p) (reserveExecutedTrade p i)"
  unfolding reserveExecutedTrade_def by (intro touch touches_createMarker) simp

lemma persist_steps:
  assumes "\<not> HasExecutedTradeJSON d i" "PersistExecutedTradeJSON i tx states d = (r, d')"
  obtains (unreserved) e where "reserveExecutedTrade (reservationPath i) i d = (Inl e, d')" "r = Inl e"
  | (ran) d1 d2 where "reserveExecutedTrade (reservationPath i) i d = (Inr (reservationPath i), d1)"
      "runTrade i (tradeFiles i tx states) d1 = (r, d2)" "d' = snd (os_Remove (reservationPath i) d2)"
proof (cases "reserveExecutedTrade (reservationPath i) i d")
  case (Pair q d1)
  show thesis
  proof (cases q)
    case (Inr p)
    have "p = reservationPath i" using Pair Inr by (auto simp: reserveExecutedTrade_def io_bind_Inr)
    then show thesis using ran assms Pair Inr
      by (auto simp: PersistExecutedTradeJSON_def io_bind_def io_finally_def split: prod.splits)
  qed (use assms Pair unreserved in \<open>auto simp: PersistExecutedTradeJSON_def io_bind_def\<close>)
qed

lemma persist_json_ok:
  assumes "PersistExecutedTradeJSON i tx states d = (Inr u, d')"
  shows "HasExecutedTradeJSON d' i"
proof -
  have "\<not> HasExecutedTradeJSON d i" using assms by (auto simp: PersistExecutedTradeJSON_def)
  from this assms show ?thesis
  proof (cases rule: persist_steps)
    case (ran d1 d2)
    have "fileAt d2 (executedPath i) \<noteq> None" using ran(2) by (rule runTrade_executed)
    moreover have "touches (\<lambda>p. p = reservationPath i) (os_Remove (reservationPath i))" by (intro touches_Remove) simp
    moreover have "executedPath i \<noteq> reservationPath i" by (simp add: trade_paths)
    ultimately have "fileAt d' (executedPath i) \<noteq> None" unfolding ran(3) touches_def by simp
    then show ?thesis by (auto simp: HasExecutedTradeJSON_iff marker_def)
  qed simp
qed

lemma persist_json_area:
  assumes "PersistExecutedTradeJSON i tx states d = (r, d')" "p \<noteq> reservationPath i"
    "\<not> tradeArea i (tradeFiles i tx states) p"
  shows "fileAt d' p = fileAt d p"
proof (cases "HasExecutedTradeJSON d i")
  case False
  have rm: "touches (\<lambda>q. q = reservationPath i) (os_Remove (reservationPath i))" by (intro touches_Remove) simp
  from False assms(1) show ?thesis
  proof (cases rule: persist_steps)
    case (unreserved e)
    then show ?thesis using touchesD [OF touches_reserve unreserved(1)] assms(2) by blast
  next
    case (ran d1 d2)
    then show ?thesis
      using touchesD [OF touches_reserve ran(1)] touchesD [OF runTrade_area ran(2)] rm assms(2,3)
      unfolding touches_def by simp
  qed
qed (use assms in \<open>simp add: PersistExecutedTradeJSON_def\<close>)

lemma persist_json_keeps:
  assumes "PersistExecutedTradeJSON i tx states d = (r, d')" "HasExecutedTradeJSON d j"
  shows "HasExecutedTradeJSON d' j"
proof (cases "i = j")
  case True
  then show ?thesis using assms by (simp add: PersistExecutedTradeJSON_def)
next
  case False
  from assms(2) obtain p where p: "marker j p" "fileAt d p \<noteq> None" by (auto simp: HasExecutedTradeJSON_iff)
  have "p \<noteq> reservationPath i" using p(1) False by (auto simp: marker_def trade_paths)
  moreover have "\<not> tradeArea i (tradeFiles i tx states) p" using marker_outside [OF p(1)] False by simp
  ultimately have "fileAt d' p = fileAt d p" by (rule persist_json_area [OF assms(1)])
  then show ?thesis using p by (auto simp: HasExecutedTradeJSON_iff)
qed

lemma mark_json_ok: "MarkExecutedTradeJSON i d = (Inr u, d') \<Longrightarrow> HasExecutedTradeJSON d' i"
  unfolding MarkExecutedTradeJSON_def writeExecutedMarkerExclusive_def writeTradeRecordExclusive_def
  by (drule createMarker_Inr(1)) (auto simp: HasExecutedTradeJSON_iff marker_def)

interpretation json: trade_store json_store "\<lambda>_. True"
proof unfold_locales
  fix d i tx states
  assume "fst (PersistExecutedTrade json_store d i tx states) = Inr ()"
  then show "HasExecutedTrade json_store (snd (PersistExecutedTrade json_store d i tx states)) i"
    by (simp add: json_store_def) (metis persist_json_ok prod.collapse)
next
  fix d i j tx states
  assume "HasExecutedTrade json_store d j"
  then show "HasExecutedTrade json_store (snd (PersistExecutedTrade json_store d i tx states)) j"
    by (simp add: json_store_def) (metis persist_json_keeps prod.collapse)
next
  fix d i
  assume "fst (MarkExecutedTrade json_store d i) = Inr ()"
  then show "HasExecutedTrade json_store (snd (MarkExecutedTrade json_store d i)) i"
    by (simp add: json_store_def) (metis mark_json_ok prod.collapse)
qed (auto simp: json_store_def PersistExecutedTradeJSON_def)

section \<open>What a crash leaves\<close>

lemma Remove_crashed: "d_crashed (snd (os_Remove p d)) \<Longrightarrow> fileAt (snd (os_Remove p d)) q = fileAt d q"
  by (auto simp: os_Remove_def syscall_def del_def split: if_splits list.splits fault.splits option.splits entry.splits)

lemma crash_leaves_evidence:
  assumes "PersistExecutedTradeJSON i tx states d = (r, d')" "d_crashed d'"
  shows "HasExecutedTradeJSON d' i \<or> (\<forall>q. fileAt d' q = fileAt d q)"
proof (cases "HasExecutedTradeJSON d i")
  case False
  from False assms(1) show ?thesis
  proof (cases rule: persist_steps)
    case (unreserved e)
    have "fileAt d (reservationPath i) = None" using False by (auto simp: HasExecutedTradeJSON_iff marker_def)
    then show ?thesis using touchesD [OF touches_reserve unreserved(1)]
      by (metis HasExecutedTradeJSON_iff False marker_def insertCI)
  next
    case (ran d1 d2)
    have "fileAt d1 (reservationPath i) \<noteq> None"
      using ran(1) by (fastforce simp: reserveExecutedTrade_def io_bind_Inr dest: createMarker_Inr(1))
    moreover have "fileAt d2 (reservationPath i) = fileAt d1 (reservationPath i)"
      using touchesD [OF runTrade_area ran(2) reservation_outside] .
    moreover have "fileAt d' (reservationPath i) = fileAt d2 (reservationPath i)"
      using Remove_crashed assms(2) unfolding ran(3) .
    ultimately show ?thesis by (auto simp: HasExecutedTradeJSON_iff marker_def)
  qed
qed (use assms in \<open>simp add: PersistExecutedTradeJSON_def\<close>)

section \<open>Saving and loading\<close>

lemma parseUnitID_unitHex [simp]: "parseUnitID (unitHex u) = Inr u"
  by (cases u) (simp add: parseUnitID_def unitHex_def hex_Decode_hex_string)

lemma unitHex_inj [simp]: "unitHex u = unitHex v \<longleftrightarrow> u = v"
  by (metis parseUnitID_unitHex sum.inject(2))

lemma map_keys_distinct: "gm_ok m \<Longrightarrow> distinct (map fst (map (\<lambda>(u, a). (unitHex u, f a)) m))"
  by (induction m) (force simp: gm_ok_def)+

lemma hex_keys:
  "gm_ok m \<Longrightarrow> foldl (\<lambda>m (u, a). gm_put m (unitHex u) (f a)) [] m = map (\<lambda>(u, a). (unitHex u, f a)) m"
proof -
  assume ok: "gm_ok m"
  have "foldl (\<lambda>m (u, a). gm_put m (unitHex u) (f a)) acc m
      = foldl (\<lambda>m (k, v). gm_put m k v) acc (map (\<lambda>(u, a). (unitHex u, f a)) m)" for acc
    by (induction m arbitrary: acc) auto
  also have "foldl (\<lambda>m (k, v). gm_put m k v) [] (map (\<lambda>(u, a). (unitHex u, f a)) m) = [] @ map (\<lambda>(u, a). (unitHex u, f a)) m"
    by (rule foldl_put_distinct) (simp only: append_Nil map_keys_distinct [OF ok])
  finally show ?thesis by simp
qed

lemma load_saved_holdings:
  assumes "fileAt d (inventoryPath n) = Some (Doc (InventoryDoc (inventoryDTOFor n iv)))" "inv_ok iv"
  shows "LoadInventoryJSON d n = map_err panic (each (\<lambda>_ (unit, a) out. inv_credit out n unit a) 0
           (gm_get [] (Holdings iv) n) NewInventoryState)"
proof -
  let ?m = "gm_get [] (Holdings iv) n"
  have l: "look d (inventoryPath n) = Some (File (Doc (InventoryDoc (inventoryDTOFor n iv))))"
    using assms(1) by (simp add: fileAt_def split: option.splits entry.splits)
  have h: "iv_Holdings (inventoryDTOFor n iv) = Some (map (\<lambda>(u, a). (unitHex u, a)) ?m)"
    using hex_keys [of ?m "\<lambda>a. a"] inv_ok_inner [OF assms(2), of n] by (simp add: inventoryDTOFor_def)
  have "each (\<lambda>_ (unitString, a) iv. attempt (parseUnitID unitString) (\<lambda>unit. Inventory_Add iv n unit a)) j
          (map (\<lambda>(u, a). (unitHex u, a)) m) s
      = map_err panic (each (\<lambda>_ (unit, a) out. inv_credit out n unit a) j m s)" for j m s
  proof (induction m arbitrary: j s)
    case (Cons p m)
    then show ?case by (cases p; cases "inv_credit s n (fst p) (snd p)") (simp_all add: Add_eq_credit)
  qed simp
  moreover have "iv_Node (inventoryDTOFor n iv) = nodeHex n" by (simp add: inventoryDTOFor_def)
  ultimately show ?thesis
    by (simp add: LoadInventoryJSON_def readJSONIfExists_def l as_inventory_def h requireNodeMatch_def)
qed

lemma load_saved_inventory:
  assumes "fileAt d (inventoryPath n) = Some (Doc (InventoryDoc (inventoryDTOFor n iv)))" "inv_ok iv"
    and pos: "\<forall>(u, a) \<in> set (gm_get [] (Holdings iv) n). 0 < sint a"
  shows "\<exists>iv'. LoadInventoryJSON d n = Inr iv'
    \<and> (\<forall>m u. Inventory_Get iv' m u = (if m = n then Inventory_Get iv n u else 0))"
proof -
  let ?m = "gm_get [] (Holdings iv) n"
  note ok = inv_ok_inner [OF assms(2), of n]
  have z: "Inventory_Get NewInventoryState m u = 0" for m u by (simp add: Inventory_Get_def NewInventoryState_def)
  obtain t where t: "each (\<lambda>_ (unit, amt) out. inv_credit out n unit amt) 0 ?m NewInventoryState = Inr t"
    using holdings_load [OF ok pos, of NewInventoryState n] z by blast
  have g: "gm_get 0 ?m u = Inventory_Get iv n u" for u by (simp add: Inventory_Get_def gm_get_absent)
  have "Inventory_Get t n u = Inventory_Get iv n u" for u
    using load_holdings(2) [OF t ok, of u] z g by (intro signed_word_eqI) simp
  moreover have "Inventory_Get t m u = 0" if "m \<noteq> n" for m u using load_holdings(3) [OF t ok that] z by simp
  ultimately show ?thesis using t load_saved_holdings [OF assms(1,2)] by auto
qed

text \<open>A holding of zero is saved, and panics when it is loaded.\<close>

lemma load_zero_holding:
  assumes "fileAt d (inventoryPath n) = Some (Doc (InventoryDoc (inventoryDTOFor n iv)))" "inv_ok iv"
    and "gm_has (gm_get [] (Holdings iv) n) u" "Inventory_Get iv n u = 0"
  shows "\<exists>e. LoadInventoryJSON d n = Inl e \<and> panics e"
proof (cases "LoadInventoryJSON d n")
  case (Inl e)
  then show ?thesis using load_saved_holdings [OF assms(1,2)] by (auto simp: map_err_Inl)
next
  case (Inr t)
  have "(u, 0) \<in> set (gm_get [] (Holdings iv) n)"
    using gm_get_has [OF assms(3), of 0] assms(4) by (auto simp: Inventory_Get_def gm_get_absent dest!: map_of_SomeD split: if_splits)
  then show ?thesis
    using load_holdings(1) [OF Inr [unfolded load_saved_holdings [OF assms(1,2)] map_err_Inr] inv_ok_inner [OF assms(2)]] by auto
qed

lemma each_hex_puts:
  assumes "\<And>u r. (u, r) \<in> set m \<Longrightarrow> g u (f r) = r" "distinct (map fst (acc @ m))"
  shows "each (\<lambda>_ (s, r) out. attempt (parseUnitID s) (\<lambda>u. Inr (gm_put out u (g u r)))) i
      (map (\<lambda>(u, r). (unitHex u, f r)) m) acc = Inr (acc @ m)"
  using assms
proof (induction m arbitrary: acc i)
  case (Cons x m)
  obtain u r where x: "x = (u, r)" by force
  have "gm_put acc u r = acc @ [(u, r)]"
    using foldl_put_distinct [of acc "[(u, r)]"] Cons.prems(2) by (simp add: x)
  moreover have "g u (f r) = r" using Cons.prems(1) x by simp
  ultimately show ?case using Cons.IH [of "acc @ [(u, r)]" "i + 1"] Cons.prems by (simp add: x)
qed simp

lemma load_saved_flow:
  assumes "fileAt d (flowPath n) = Some (Doc (FlowDoc (flowDTOFor n flow)))" "gm_ok flow"
    and "\<forall>(u, r) \<in> set flow. fr_Unit r = u"
  shows "LoadFlowJSON d n = Inr flow"
proof -
  have l: "look d (flowPath n) = Some (File (Doc (FlowDoc (flowDTOFor n flow))))"
    using assms(1) by (simp add: fileAt_def split: option.splits entry.splits)
  have h: "fl_Records (flowDTOFor n flow) = Some (map (\<lambda>(u, r). (unitHex u, flowRecordDTOFor r)) flow)"
    using hex_keys [of flow flowRecordDTOFor] assms(2) by (simp add: flowDTOFor_def)
  have e: "each (\<lambda>_ (s, r) out. attempt (parseUnitID s) (\<lambda>u. Inr (gm_put out u
             \<lparr>fr_Unit = u, fr_TradeVolume = fd_TradeVolume r, fr_PaymentVolume = fd_PaymentVolume r,
              fr_Consumption = fd_Consumption r, fr_DemandFulfilled = fd_DemandFulfilled r\<rparr>))) 0
       (map (\<lambda>(u, r). (unitHex u, flowRecordDTOFor r)) flow) [] = Inr ([] @ flow)"
    by (rule each_hex_puts) (use assms(2,3) in \<open>auto simp: flowRecordDTOFor_def gm_ok_def\<close>)
  have "fl_Node (flowDTOFor n flow) = nodeHex n" by (simp add: flowDTOFor_def)
  then show ?thesis using e
    by (simp add: LoadFlowJSON_def readJSONIfExists_def l as_flow_def h requireNodeMatch_def)
qed

lemma load_saved_prices:
  assumes "fileAt d (pricePath n) = Some (Doc (PriceDoc (priceDTOFor n prices)))" "gm_ok prices"
  shows "LoadPriceStateJSON d n = Inr prices"
proof -
  have l: "look d (pricePath n) = Some (File (Doc (PriceDoc (priceDTOFor n prices))))"
    using assms(1) by (simp add: fileAt_def split: option.splits entry.splits)
  have h: "pd_Prices (priceDTOFor n prices) = Some (map (\<lambda>(u, r). (unitHex u, r)) prices)"
    using hex_keys [of prices "\<lambda>r. r"] assms(2) by (simp add: priceDTOFor_def)
  have e: "each (\<lambda>_ (s, r) out. attempt (parseUnitID s) (\<lambda>u. Inr (gm_put out u r))) 0
       (map (\<lambda>(u, r). (unitHex u, r)) prices) [] = Inr ([] @ prices)"
    using each_hex_puts [of prices "\<lambda>u r. r" "\<lambda>r. r" "[]" 0] assms(2) by (simp add: gm_ok_def)
  have "pd_Node (priceDTOFor n prices) = nodeHex n" by (simp add: priceDTOFor_def)
  then show ?thesis using e
    by (simp add: LoadPriceStateJSON_def readJSONIfExists_def l as_price_def h requireNodeMatch_def)
qed

lemma os_Rename_Inr:
  "os_Rename p q d = (Inr u, d') \<Longrightarrow> fileAt d p \<noteq> None \<and> fileAt d' q = fileAt d p"
  by (auto simp: os_Rename_def syscall_def fileAt_def split: if_splits list.splits fault.splits option.splits entry.splits)

lemma writeJSONAtomic_Inr:
  assumes "writeJSONAtomic p x d = (Inr u, d')"
  shows "\<exists>y. json_MarshalIndent x = Inr y \<and> fileAt d' p = Some (Doc y)"
proof -
  let ?t = "with_suffix p ''.tmp''"
  from assms obtain y d1 d2 d3 d4 u1 u2 u3 where y: "json_MarshalIndent x = Inr y"
    and w: "os_Write ?t y d2 = (Inr u1, d3)" and c: "os_Close d3 = (Inr u2, d4)" and r: "os_Rename ?t p d4 = (Inr u3, d')"
    unfolding writeJSONAtomic_def os_WriteFile_def Let_def io_bind_Inr io_on_error_Inr io_pure_Inr by metis
  have "fileAt d4 ?t = Some (Doc y)"
    using os_Write_Inr [OF w] touchesD [OF touches_Sync(2) c, of "\<lambda>_. False"] by simp
  then show ?thesis using os_Rename_Inr [OF r] y by simp
qed

lemma marshal_same: "json_MarshalIndent x = Inr y \<Longrightarrow> y = x"
  by (auto simp: json_MarshalIndent_def split: doc.splits option.splits)

lemma SaveInventory_saves:
  "SaveInventory n iv d = (Inr u, d') \<Longrightarrow> fileAt d' (inventoryPath n) = Some (Doc (InventoryDoc (inventoryDTOFor n iv)))"
  unfolding SaveInventory_def by (drule writeJSONAtomic_Inr) (auto dest: marshal_same)

lemma SaveFlow_saves:
  "SaveFlow n flow d = (Inr u, d') \<Longrightarrow> fileAt d' (flowPath n) = Some (Doc (FlowDoc (flowDTOFor n flow)))"
  unfolding SaveFlow_def by (drule writeJSONAtomic_Inr) (auto dest: marshal_same)

lemma SavePriceState_saves:
  "SavePriceState n ps d = (Inr u, d') \<Longrightarrow> fileAt d' (pricePath n) = Some (Doc (PriceDoc (priceDTOFor n ps)))"
  unfolding SavePriceState_def by (drule writeJSONAtomic_Inr) (auto dest: marshal_same)

lemma SaveAuthorizedTrade_saves:
  "SaveAuthorizedTrade i tx d = (Inr u, d') \<Longrightarrow> LoadAuthorizedTrade d' i = Some tx"
  unfolding SaveAuthorizedTrade_def
  by (drule writeJSONAtomic_Inr)
    (auto dest!: marshal_same simp: LoadAuthorizedTrade_def fileAt_def as_trade_def split: option.splits entry.splits)

end
