(* ===== verification/Saved.thy ===== *)
theory Saved
  imports Durability
begin

text \<open>
  A trade that \<open>PersistExecutedTrade\<close> reports as stored is on the disk: the documents of the trade and
  of the node states are in their files, and a restarted node loads the states that were saved.
\<close>

section \<open>A persisted trade is on the disk\<close>

lemma free_temp_free: "free_temp k d p s n = Some m \<Longrightarrow> look d (temp_name p s m) = None"
  by (induction k arbitrary: n) (auto split: if_splits)

lemma os_CreateTemp_Inr:
  assumes "os_CreateTemp p s d = (Inr q, d')"
  shows "\<exists>n. q = temp_name p s n \<and> fileAt d q = None" "\<And>r. r \<noteq> q \<Longrightarrow> fileAt d' r = fileAt d r"
  using assms
  by (auto simp: os_CreateTemp_def syscall_def fileAt_def split: if_splits list.splits fault.splits option.splits
      dest!: free_temp_free)

lemma os_Write_only: "os_Write q x d = (r, d') \<Longrightarrow> p \<noteq> q \<Longrightarrow> fileAt d' p = fileAt d p"
  using touchesD [OF touches_Write [of "\<lambda>p. p = q" q x]] by blast

lemma stageJSONFile_Inr:
  assumes "stageJSONFile p x d = (Inr q, d')"
  shows "\<exists>n. q = temp_name p ''.tmp'' n" "fileAt d q = None" "fileAt d' q = Some (Doc x)"
    "r \<noteq> q \<Longrightarrow> fileAt d' r = fileAt d r"
proof -
  from assms obtain y d1 d2 d3 u1 u2 u3 where y: "json_MarshalIndent x = Inr y"
    and m: "os_MkdirAll (butlast p) d = (Inr u1, d1)" and t: "os_CreateTemp p ''.tmp'' d1 = (Inr q, d2)"
    and w: "os_Write q y d2 = (Inr u2, d3)" and c: "os_Close d3 = (Inr u3, d')"
    unfolding stageJSONFile_def io_bind_Inr io_on_error_Inr io_pure_Inr by (metis Inr_inject)
  note mk = touchesD [OF touches_MkdirAll m, of "\<lambda>_. False", simplified]
    and cl = touchesD [OF touches_Sync(2) c, of "\<lambda>_. False", simplified]
  show "\<exists>n. q = temp_name p ''.tmp'' n" "fileAt d q = None" using os_CreateTemp_Inr(1) [OF t] mk by auto
  show "fileAt d' q = Some (Doc x)" using os_Write_Inr [OF w] cl marshal_same [OF y] by simp
  show "r \<noteq> q \<Longrightarrow> fileAt d' r = fileAt d r" using os_Write_only [OF w] os_CreateTemp_Inr(2) [OF t] mk cl by simp
qed

text \<open>Staged files: every temporary file holds its document, and no two are the same.\<close>

definition staged_docs :: "atomicJSONFile list \<Rightarrow> stagedJSONFile list \<Rightarrow> disk \<Rightarrow> bool" where
  "staged_docs fs gs d \<longleftrightarrow> map sf_path gs = map af_path fs \<and> distinct (map sf_tmp gs)
     \<and> list_all2 (\<lambda>f g. fileAt d (sf_tmp g) = Some (Doc (af_value f))) fs gs
     \<and> (\<forall>g \<in> set gs. \<exists>n. sf_tmp g = temp_name (sf_path g) ''.tmp'' n)"

lemma staged_docs_files: "staged_docs fs gs d \<Longrightarrow> g \<in> set gs \<Longrightarrow> fileAt d (sf_tmp g) \<noteq> None"
  by (auto simp: staged_docs_def list_all2_conv_all_nth in_set_conv_nth)

lemma staged_docs_frame:
  "staged_docs fs gs d \<Longrightarrow> (\<And>g. g \<in> set gs \<Longrightarrow> fileAt d' (sf_tmp g) = fileAt d (sf_tmp g)) \<Longrightarrow> staged_docs fs gs d'"
  by (auto simp: staged_docs_def list_all2_conv_all_nth)

lemma stageFiles_docs:
  assumes "stageFiles fs gs d = (Inr u, gs', d')" "staged_docs done gs d"
  shows "staged_docs (done @ fs) gs' d'"
  using assms
proof (induction fs arbitrary: "done" gs d)
  case (Cons f fs)
  let ?m = "io_bind (preflightTarget (af_path f)) (\<lambda>_. stageJSONFile (af_path f) (af_value f))"
  from Cons.prems(1) obtain q d1 where m: "?m d = (Inr q, d1)"
    and rest: "stageFiles fs (gs @ [\<lparr>sf_path = af_path f, sf_tmp = q, sf_backup = [],
                                     sf_hadBackup = False, sf_installed = False\<rparr>]) d1 = (Inr u, gs', d')"
    by (auto split: prod.splits sum.splits)
  have st: "stageJSONFile (af_path f) (af_value f) d = (Inr q, d1)"
    using m by (auto simp: io_bind_Inr preflightTarget_def split: if_splits)
  note s = stageJSONFile_Inr [OF st]
  have ne: "sf_tmp g \<noteq> q" if "g \<in> set gs" for g using staged_docs_files [OF Cons.prems(2) that] s(2) by auto
  have "staged_docs done gs d1" using Cons.prems(2) by (rule staged_docs_frame) (simp add: s(4) ne)
  then have "staged_docs (done @ [f]) (gs @ [\<lparr>sf_path = af_path f, sf_tmp = q, sf_backup = [],
                                     sf_hadBackup = False, sf_installed = False\<rparr>]) d1"
    using s(1,3) ne by (auto simp: staged_docs_def list_all2_appendI)
  from Cons.IH [OF rest this] show ?case by simp
qed auto

lemma moveExistingAside_only:
  assumes "moveExistingAside p d = (Inr (b, had), d')" "r \<noteq> p" "take 4 (rev (last r)) \<noteq> ''kab.''"
  shows "fileAt d' r = fileAt d r"
proof (cases "look d p = None")
  case True
  then show ?thesis using assms(1) by (auto simp: moveExistingAside_def io_bind_Inr preflightTarget_def split: if_splits)
next
  case False
  from assms(1) False obtain d1 d2 d3 u1 u2 where t: "os_CreateTemp p ''.bak'' d = (Inr b, d1)"
    and c: "os_Close d1 = (Inr u1, d2)" and r: "d3 = snd (os_Remove b d2)" and n: "os_Rename p b d3 = (Inr u2, d')"
    by (auto simp: moveExistingAside_def io_bind_Inr io_ignore_Inr preflightTarget_def split: if_splits)
  have "r \<noteq> b" using os_CreateTemp_Inr(1) [OF t] assms(3) by (auto simp: temp_name_def)
  then show ?thesis
    using os_CreateTemp_Inr(2) [OF t] touchesD [OF touches_Sync(2) c, of "\<lambda>_. False"] assms(2)
      touchesD [OF touches_Rename [of "\<lambda>x. x = p \<or> x = b"] n]
      touches_Remove [of "\<lambda>x. x = b" b] unfolding touches_def r by simp
qed

lemma applyFile_Inr:
  assumes "applyFile g d = (Inr u, g', d')" "take 4 (rev (last (sf_path g))) \<noteq> ''kab.''"
    "\<exists>n. sf_tmp g = temp_name (sf_path g) ''.tmp'' n" "sf_tmp g \<noteq> sf_path g"
  shows "fileAt d' (sf_path g) = fileAt d (sf_tmp g)" "sf_tmp g' = []"
    "r \<noteq> sf_path g \<Longrightarrow> r \<noteq> sf_tmp g \<Longrightarrow> take 4 (rev (last r)) \<noteq> ''kab.'' \<Longrightarrow> fileAt d' r = fileAt d r"
proof -
  from assms(1) obtain b had d1 d2 u2 where m: "moveExistingAside (sf_path g) d = (Inr (b, had), d1)"
    and n: "os_Rename (sf_tmp g) (sf_path g) d1 = (Inr u2, d2)"
    and g': "g' = g\<lparr>sf_backup := b, sf_hadBackup := had, sf_tmp := [], sf_installed := True\<rparr>"
    and d': "d' = snd (fsyncDir (butlast (sf_path g)) d2)"
    by (auto simp: applyFile_def Let_def split: prod.splits sum.splits)
  have f: "fileAt d' r = fileAt d2 r" for r using touches_fsync [of "\<lambda>_. False"] unfolding touches_def d' by simp
  have t: "take 4 (rev (last (sf_tmp g))) \<noteq> ''kab.''" using assms(3) by (auto simp: temp_name_def)
  show "sf_tmp g' = []" by (simp add: g')
  show "fileAt d' (sf_path g) = fileAt d (sf_tmp g)"
    using os_Rename_Inr [OF n] moveExistingAside_only [OF m assms(4) t] f by simp
  show "r \<noteq> sf_path g \<Longrightarrow> r \<noteq> sf_tmp g \<Longrightarrow> take 4 (rev (last r)) \<noteq> ''kab.'' \<Longrightarrow> fileAt d' r = fileAt d r"
    using touchesD [OF touches_Rename [of "\<lambda>x. x = sf_tmp g \<or> x = sf_path g"] n] moveExistingAside_only [OF m] f by simp
qed

lemma temp_kab: "take 4 (rev (last (temp_name p ''.tmp'' n))) \<noteq> ''kab.''"
  by (simp add: temp_name_def)

lemma applyFiles_docs:
  assumes "applyFiles done gs d = (Inr u, gs', d')" "staged_docs fs gs d" "distinct (map af_path fs)"
    "\<forall>f \<in> set fs. \<not> scratch (af_path f) \<and> af_path f \<noteq> []" "\<forall>g \<in> set done. sf_tmp g = []"
  shows "(\<forall>f \<in> set fs. fileAt d' (af_path f) = Some (Doc (af_value f))) \<and> (\<forall>g \<in> set gs'. sf_tmp g = [])
    \<and> (\<forall>p. p \<notin> af_path ` set fs \<longrightarrow> \<not> scratch p \<longrightarrow> p \<noteq> [] \<longrightarrow> fileAt d' p = fileAt d p)"
  using assms
proof (induction gs arbitrary: "done" d fs)
  case (Cons g gs)
  note a = Cons.prems
    from a(2) obtain f fs' where fs: "fs = f # fs'" by (cases fs) (auto simp: staged_docs_def)
    have g: "sf_path g = af_path f" "fileAt d (sf_tmp g) = Some (Doc (af_value f))"
      "\<exists>n. sf_tmp g = temp_name (sf_path g) ''.tmp'' n" "sf_tmp g \<notin> sf_tmp ` set gs"
      "\<forall>h \<in> set gs. \<exists>n. sf_tmp h = temp_name (sf_path h) ''.tmp'' n"
      using a(2) by (auto simp: staged_docs_def fs)
    from a(1) obtain g1 d1 where g1: "applyFile g d = (Inr (), g1, d1)" and r: "applyFiles (done @ [g1]) gs d1 = (Inr u, gs', d')"
      by (auto split: prod.splits sum.splits)
    have ns: "\<not> scratch (af_path f)" "af_path f \<noteq> []" using a(4) fs by auto
    then have k: "take 4 (rev (last (sf_path g))) \<noteq> ''kab.''" by (simp add: scratch_def g(1))
    have sc: "scratch (sf_tmp h)" if "h \<in> set (g # gs)" for h using that g(3,5) by auto
    have "sf_tmp g \<noteq> sf_path g" using sc [of g] ns g(1) by auto
    note ap = applyFile_Inr [OF g1 k g(3) this]
    have "staged_docs fs' gs d" using a(2) by (simp add: staged_docs_def fs)
    then have sd: "staged_docs fs' gs d1"
    proof (rule staged_docs_frame)
      fix h assume h: "h \<in> set gs"
      then have "sf_tmp h \<noteq> sf_path g" using sc [of h] ns g(1) by auto
      moreover have "sf_tmp h \<noteq> sf_tmp g" using g(4) h by (metis image_eqI)
      moreover have "take 4 (rev (last (sf_tmp h))) \<noteq> ''kab.''" using g(5) h temp_kab by fastforce
      ultimately show "fileAt d1 (sf_tmp h) = fileAt d (sf_tmp h)" by (rule ap(3))
    qed
    have dn: "\<forall>h \<in> set (done @ [g1]). sf_tmp h = []" using a(5) ap(2) by simp
    have di: "distinct (map af_path fs')" "\<forall>f \<in> set fs'. \<not> scratch (af_path f) \<and> af_path f \<noteq> []" using a(3,4) fs by auto
    note ih = Cons.IH [OF r sd di dn]
    have "fileAt d' (af_path f) = Some (Doc (af_value f))" using ih a(3) fs ns ap(1) g(1,2) by auto
    moreover have "fileAt d' p = fileAt d p" if "p \<notin> af_path ` set fs" "\<not> scratch p" "p \<noteq> []" for p
    proof -
      have "p \<noteq> sf_tmp g" "p \<noteq> sf_path g" using sc [of g] that g(1) fs by auto
      moreover have "take 4 (rev (last p)) \<noteq> ''kab.''" using that by (auto simp: scratch_def)
      ultimately show ?thesis using ap(3) ih that fs by simp
    qed
    ultimately show ?case using ih fs by simp
qed (auto simp: staged_docs_def)


lemma writeJSONBatchAtomic_docs:
  assumes "writeJSONBatchAtomic fs phase d = (Inr batch, d')" "distinct (map af_path fs)"
    "\<forall>f \<in> set fs. \<not> scratch (af_path f) \<and> af_path f \<noteq> []"
    and ph: "\<And>s. touches (\<lambda>p. p \<in> P) (phase s)" and out: "\<forall>f \<in> set fs. af_path f \<notin> P"
      "\<And>f n. f \<in> set fs \<Longrightarrow> temp_name (af_path f) ''.tmp'' n \<notin> P"
  shows "\<forall>f \<in> set fs. fileAt d' (af_path f) = Some (Doc (af_value f))" "\<forall>g \<in> set batch. sf_tmp g = []"
proof -
  from assms(1) obtain st d1 d2 d3 d4 u1 u2 u3 u4 where 1: "stageFiles fs [] d = (Inr u1, st, d1)"
    and 2: "phase ''applying'' d1 = (Inr u2, d2)" and 3: "applyFiles [] st d2 = (Inr u3, batch, d3)"
    and 4: "phase ''committed'' d3 = (Inr u4, d4)" and d': "d' = snd (removeStaged batch d4)"
    by (auto simp: writeJSONBatchAtomic_def split: prod.splits sum.splits)
  have sd: "staged_docs fs st d1" using stageFiles_docs [OF 1, of "[]"] by (simp add: staged_docs_def)
  then have "staged_docs fs st d2"
  proof (rule staged_docs_frame)
    fix g assume g: "g \<in> set st"
    have "sf_path ` set st = af_path ` set fs" using sd by (metis staged_docs_def set_map)
    then obtain f where "f \<in> set fs" "sf_path g = af_path f" using g by (metis imageE imageI)
    then have "sf_tmp g \<notin> P" using sd g out(2) by (auto simp: staged_docs_def)
    then show "fileAt d2 (sf_tmp g) = fileAt d1 (sf_tmp g)" using touchesD [OF ph 2] by simp
  qed
  from applyFiles_docs [OF 3 this assms(2,3)]
  have a: "\<forall>f \<in> set fs. fileAt d3 (af_path f) = Some (Doc (af_value f))" "\<forall>g \<in> set batch. sf_tmp g = []" by simp_all
  then have "touches (\<lambda>_. False) (removeStaged batch)" unfolding removeStaged_def
    by (intro touches_each) (simp add: touch)
  then have "fileAt d' p = fileAt d4 p" for p by (simp add: touches_def d')
  then show "\<forall>f \<in> set fs. fileAt d' (af_path f) = Some (Doc (af_value f))" "\<forall>g \<in> set batch. sf_tmp g = []"
    using a touchesD [OF ph 4] out(1) by simp_all
qed

text \<open>The files of a trade, when no node occurs twice among the saved states.\<close>

lemma nodeHex_inj [simp]: "nodeHex m = nodeHex n \<longleftrightarrow> m = n"
  by (cases m; cases n) (simp add: nodeHex_def)

lemma tradeFiles_distinct: "distinct (map pn_ID states) \<Longrightarrow> distinct (map af_path (tradeFiles i tx states))"
proof -
  assume "distinct (map pn_ID states)"
  then have "distinct (map af_path (concat (map stateFiles states)))"
    by (induction states) (auto simp: stateFiles_def state_paths)
  then show ?thesis by (auto simp: tradeFiles_def stateFiles_def state_paths trade_paths)
qed

lemma tradeFiles_plain:
  "f \<in> set (tradeFiles i tx states) \<Longrightarrow> \<not> scratch (af_path f) \<and> af_path f \<noteq> []"
  by (auto simp: tradeFiles_def stateFiles_def) (simp_all add: state_paths trade_paths)

lemma tradeFiles_no_marker:
  "f \<in> set (tradeFiles i tx states) \<Longrightarrow>
     af_path f \<notin> {manifestPath j, executedPath j, committedPath j, reservationPath j, with_suffix (manifestPath j) ''.tmp''}"
  by (auto simp: tradeFiles_def stateFiles_def state_paths trade_paths with_suffix_def)

lemma persist_json_docs:
  assumes "PersistExecutedTradeJSON i tx states d = (Inr u, d')" "distinct (map pn_ID states)"
    "f \<in> set (tradeFiles i tx states)"
  shows "fileAt d' (af_path f) = Some (Doc (af_value f))"
proof -
  let ?fs = "tradeFiles i tx states" and ?p = "af_path f"
  have "\<not> HasExecutedTradeJSON d i" using assms by (auto simp: PersistExecutedTradeJSON_def)
  from this assms(1) show ?thesis
  proof (cases rule: persist_steps)
    case (ran d1 d2)
    from ran(2) obtain ts d3 u1 where "commitTrade i ts ?fs d3 = (Inr u, d2)"
      unfolding runTrade_def io_bind_Inr io_on_error_Inr by metis
    then obtain batch d4 d5 d6 d7 d8 u2 u3 u4 u5 where
      b: "writeJSONBatchAtomic ?fs (\<lambda>phase. writeTransactionManifest (manifestPath i)
         \<lparr>tm_ID = idHex i, tm_Phase = phase, tm_Targets = ts\<rparr>) d3 = (Inr batch, d4)"
      and c: "createMarker ''trade replay rejected'' (committedPath i) (MarkerDoc (idHex i) ''committed'') d4 = (Inr u2, d5)"
      and e: "createMarker ''trade replay rejected'' (executedPath i) (MarkerDoc (idHex i) ''executed'') d5 = (Inr u3, d6)"
      and cl: "cleanup batch d6 = (Inr u4, d7)" and rc: "d8 = snd (os_Remove (committedPath i) d7)"
      and rm: "d2 = snd (os_Remove (manifestPath i) d8)"
      unfolding commitTrade_def writeCommitRecordExclusive_def writeExecutedMarkerExclusive_def writeTradeRecordExclusive_def
        io_bind_Inr io_on_error_Inr io_ignore_Inr by metis
    have ph: "touches (\<lambda>p. p \<in> {manifestPath i, with_suffix (manifestPath i) ''.tmp''})
        (writeTransactionManifest (manifestPath i) x)" for x
      unfolding writeTransactionManifest_def by (rule touches_writeJSONAtomic) simp_all
    have tmp: "temp_name (af_path g) ''.tmp'' n \<notin> {manifestPath i, with_suffix (manifestPath i) ''.tmp''}"
      if "g \<in> set ?fs" for g n
      using that by (auto simp: tradeFiles_def stateFiles_def state_paths trade_paths temp_name_def with_suffix_def)
    note docs = writeJSONBatchAtomic_docs [OF b tradeFiles_distinct [OF assms(2)] _ ph _ tmp]
    have m: "fileAt d4 ?p = Some (Doc (af_value f))" "\<forall>g \<in> set batch. sf_tmp g = []"
      using docs tradeFiles_plain tradeFiles_no_marker assms(3) by blast+
    have "\<forall>g \<in> set batch. staged_ok (tradeArea i ?fs) g"
      unfolding writeTransactionManifest_def
      by (rule writeJSONBatchAtomic_touches(2) [OF covers_tradeArea _ _ b [unfolded writeTransactionManifest_def]])
        (auto simp: tradeArea_def intro!: touches_writeJSONAtomic)
    then have "touches scratch (cleanup batch)" unfolding cleanup_def using m(2)
      by (intro touches_each) (auto simp: staged_ok_def intro!: touch touches_calls)
    note fr = touchesD [OF touches_createMarker c, of "\<lambda>p. p = committedPath i"]
      touchesD [OF touches_createMarker e, of "\<lambda>p. p = executedPath i"] touchesD [OF this cl]
      touches_Remove [of "\<lambda>p. p = committedPath i" "committedPath i"]
      touches_Remove [of "\<lambda>p. p = manifestPath i" "manifestPath i"]
      touches_Remove [of "\<lambda>p. p = reservationPath i" "reservationPath i"]
    show ?thesis unfolding ran(3) rm rc using fr m(1) tradeFiles_no_marker [OF assms(3), of i] tradeFiles_plain [OF assms(3)]
      by (simp add: touches_def)
  qed simp
qed

section \<open>What a restarted node loads\<close>

lemma persisted_state:
  assumes "PersistExecutedTradeJSON i tx states d = (Inr u, d')" "distinct (map pn_ID states)" "s \<in> set states"
  shows "fileAt d' (inventoryPath (pn_ID s)) = Some (Doc (InventoryDoc (inventoryDTOFor (pn_ID s) (pn_Inventory s))))"
    "fileAt d' (flowPath (pn_ID s)) = Some (Doc (FlowDoc (flowDTOFor (pn_ID s) (pn_Flow s))))"
    "fileAt d' (pricePath (pn_ID s)) = Some (Doc (PriceDoc (priceDTOFor (pn_ID s) (pn_PriceState s))))"
proof -
  note d = persist_json_docs [OF assms(1,2)]
  have "set (stateFiles s) \<subseteq> set (tradeFiles i tx states)" using assms(3) by (auto simp: tradeFiles_def)
  then have "\<And>p x. \<lparr>af_path = p, af_value = x\<rparr> \<in> set (stateFiles s) \<Longrightarrow> fileAt d' p = Some (Doc x)" using d by fastforce
  then show "fileAt d' (inventoryPath (pn_ID s)) = Some (Doc (InventoryDoc (inventoryDTOFor (pn_ID s) (pn_Inventory s))))"
    "fileAt d' (flowPath (pn_ID s)) = Some (Doc (FlowDoc (flowDTOFor (pn_ID s) (pn_Flow s))))"
    "fileAt d' (pricePath (pn_ID s)) = Some (Doc (PriceDoc (priceDTOFor (pn_ID s) (pn_PriceState s))))"
    by (simp_all add: stateFiles_def)
qed

lemma persisted_trade:
  assumes "PersistExecutedTradeJSON i tx states d = (Inr u, d')" "distinct (map pn_ID states)"
  shows "LoadAuthorizedTrade d' i = Some tx"
proof -
  have "fileAt d' (tradePath i) = Some (Doc (TradeDoc tx))"
    using persist_json_docs [OF assms, of "\<lparr>af_path = tradePath i, af_value = TradeDoc tx\<rparr>"] by (simp add: tradeFiles_def)
  then show ?thesis by (simp add: LoadAuthorizedTrade_def fileAt_def as_trade_def split: option.splits entry.splits)
qed

section \<open>A restart after a signed trade\<close>

text \<open>
  A signed trade on the JSON store: the seller's next state and the authorized trade are on the disk,
  whether the buyer shares the store or is a mere shadow without one.
\<close>

lemma signed_trade_saved:
  fixes s b :: Node
  assumes x: "executeSignedTrade E json_store h s b q ss bs f = (Inr tx, s', b', h')"
    and p: "n_Store s = Some p" and ok: "inv_ok (n_Inventory s)" "inv_ok (n_Inventory b)"
    and pos: "\<forall>(u, a) \<in> set (held s'). 0 < sint a"
  shows "\<exists>iv i. LoadInventoryJSON (h' p) (n_ID s) = Inr iv \<and> (\<forall>u. Inventory_Get iv (n_ID s) u = balanceLocked s' u)
    \<and> replayID E q ss bs = Inr i
    \<and> LoadAuthorizedTrade (h' p) i = Some \<lparr>at_Tx = tx, at_SellerAuth = ss, at_BuyerAuth = bs\<rparr>"
proof -
  let ?a = "\<lparr>at_Tx = tx, at_SellerAuth = ss, at_BuyerAuth = bs\<rparr>"
  from x obtain s1 b1 i ns nb where 1: "untouched s s1" "untouched b b1" "replayID E q ss bs = Inr i"
    "prepareSignedTrade E json_store h s1 b1 q ss bs = Inr (tx, ?a, i, ns, nb)"
    "persistSignedTrade json_store h s b i ?a ns nb = (Inr (), h')" "s' = commitPreparedState (reserve i s1) ns"
    by (rule executeSigned_Inr)
  note t = executeSigned_trades [OF x ok]
  have split: "n_Store b = None \<or> n_Store b = Some p"
    using prepareSigned_Inr(8) [OF 1(4)] 1(1,2) p by (cases "n_Store b") (auto simp: untouched_def)
  then obtain states where st: "PersistExecutedTradeJSON i ?a states (h p) = (Inr (), h' p)" "distinct (map pn_ID states)"
    "persistedNodeState (n_ID s) ns \<in> set states"
    using 1(5) p t(3) by (auto simp: persistSignedTrade_def persistAt_def json_store_def persistedNodeState_def
        split: prod.splits sum.splits)
  have inv: "n_Inventory s' = n_Inventory ns" "n_ID s' = n_ID s"
    using 1(1) by (simp_all add: 1(6) commitPreparedState_def reserve_def untouched_def)
  have "inv_ok (n_Inventory ns)" using t(1) inv by (simp add: traded_def swapped_def)
  then obtain iv where "LoadInventoryJSON (h' p) (n_ID s) = Inr iv"
    "\<forall>m u. Inventory_Get iv m u = (if m = n_ID s then Inventory_Get (n_Inventory ns) (n_ID s) u else 0)"
    using load_saved_inventory [OF persisted_state(1) [OF st, unfolded persistedNodeState_def, simplified]] pos inv
    by (auto simp: held_def)
  then show ?thesis using persisted_trade [OF st(1,2)] 1(3) inv by (auto simp: balanceLocked_def)
qed

end
