(* ===== verification/Calm.thy ===== *)
theory Calm
  imports Saved
begin

text \<open>
  The JSON store makes every trade durable when no system call fails: the steps of the transaction
  succeed on a calm disk, one with an empty fault script, whose directories and files are where
  they belong and on which no temporary name of the future is taken.
\<close>

section \<open>Names that are still free\<close>

text \<open>Decimal text is made of digits and determines the number.\<close>

lemma dec_nat_digits: "c \<in> set (dec_nat n) \<Longrightarrow> 48 \<le> (of_char c :: nat) \<and> of_char c < (58 :: nat)"
proof (induction n rule: dec_nat.induct)
  case (1 n)
  then show ?case by (cases "n < 10") (auto simp: dec_nat.simps [of n])
qed

definition dec_val :: "string \<Rightarrow> nat" where
  "dec_val s = foldl (\<lambda>a c. 10 * a + (of_char c - 48)) 0 s"

lemma dec_val_dec [simp]: "dec_val (dec_nat n) = n"
proof (induction n rule: dec_nat.induct)
  case (1 n)
  have app: "dec_val (a @ [c]) = 10 * dec_val a + (of_char c - 48)" for a c by (simp add: dec_val_def)
  show ?case
  proof (cases "n < 10")
    case True
    then show ?thesis by (simp add: dec_nat.simps [of n] dec_val_def)
  next
    case False
    then show ?thesis using 1 by (simp add: dec_nat.simps [of n] app)
  qed
qed

lemma dec_dot: "a @ CHR ''.'' # dec_nat n = b @ CHR ''.'' # dec_nat m \<Longrightarrow> n = m"
proof -
  assume e: "a @ CHR ''.'' # dec_nat n = b @ CHR ''.'' # dec_nat m"
  have "takeWhile (\<lambda>c. c \<noteq> CHR ''.'') (rev (x @ CHR ''.'' # dec_nat k)) = rev (dec_nat k)" for x k
  proof -
    have "takeWhile (\<lambda>c. c \<noteq> CHR ''.'') (rev (dec_nat k) @ CHR ''.'' # rev x)
        = rev (dec_nat k) @ takeWhile (\<lambda>c. c \<noteq> CHR ''.'') (CHR ''.'' # rev x)"
      by (rule takeWhile_append2) (use dec_nat_digits in fastforce)
    then show ?thesis by simp
  qed
  with e have "rev (dec_nat n) = rev (dec_nat m)" by metis
  then have "dec_nat n = dec_nat m" by simp
  then show "n = m" by (metis dec_val_dec)
qed

text \<open>A temporary name that may still be given, when the counter is at \<open>n\<close>.\<close>

definition future :: "nat \<Rightarrow> path \<Rightarrow> bool" where
  "future n p \<longleftrightarrow> (\<exists>x y s m. s \<in> {''.tmp'', ''.bak''} \<and> n \<le> m \<and> p = temp_name [x, y] s m)"

lemma future_Suc: "future (Suc n) p \<Longrightarrow> future n p"
  unfolding future_def using Suc_leD by blast

lemma future_le: "future m p \<Longrightarrow> n \<le> m \<Longrightarrow> future n p"
  unfolding future_def using order_trans by blast

lemma temp_name_future:
  assumes "s \<in> {''.tmp'', ''.bak''}"
  shows "future n (temp_name [x, y] s n)" "\<not> future (Suc n) (temp_name [x, y] s n)"
proof -
  show "future n (temp_name [x, y] s n)" using assms unfolding future_def by blast
  show "\<not> future (Suc n) (temp_name [x, y] s n)"
  proof
    assume "future (Suc n) (temp_name [x, y] s n)"
    then obtain x' y' s' m where m: "s' \<in> {''.tmp'', ''.bak''}" "n < m" "temp_name [x, y] s n = temp_name [x', y'] s' m"
      by (auto simp: future_def Suc_le_eq)
    then have "(y @ CHR ''.'' # dec_nat n) @ s = (y' @ CHR ''.'' # dec_nat m) @ s'" by (simp add: temp_name_def)
    moreover have "length s = length s'" using assms m(1) by auto
    ultimately have "y @ CHR ''.'' # dec_nat n = y' @ CHR ''.'' # dec_nat m" using append_eq_append_conv by blast
    then show False using dec_dot m(2) by blast
  qed
qed

definition calm :: "disk \<Rightarrow> bool" where
  "calm d \<longleftrightarrow> d_faults d = [] \<and> \<not> d_crashed d
     \<and> (\<forall>x c. look d [x] \<noteq> Some (File c)) \<and> (\<forall>x y. look d [x, y] \<noteq> Some Dir)
     \<and> (\<forall>p. future (d_temp d) p \<longrightarrow> look d p = None)"

definition writable :: "disk \<Rightarrow> path \<Rightarrow> bool" where
  "writable d p \<longleftrightarrow> length p = 2 \<and> \<not> future (d_temp d) p"

lemma calm_syscall: "calm d \<Longrightarrow> syscall f d = f d"
  by (simp add: calm_def syscall_def)

lemma fields_put [simp]: "d_faults (put p x d) = d_faults d" "d_faults (del p d) = d_faults d"
  by (simp_all add: put_def del_def)

lemma calm_put: "calm d \<Longrightarrow> writable d p \<Longrightarrow> calm (put p (File c) d)"
  by (auto simp: calm_def writable_def)

lemma calm_del: "calm d \<Longrightarrow> calm (del p d)"
  by (auto simp: calm_def)

lemma calm_mkdir: "calm d \<Longrightarrow> calm (put [x] Dir d)"
  by (auto simp: calm_def) (auto simp: future_def temp_name_def)

lemma length_2: "length p = 2 \<longleftrightarrow> (\<exists>x y. p = [x, y])"
  by (auto simp: numeral_2_eq_2 length_Suc_conv)

lemma calm_look: "calm d \<Longrightarrow> look d [x, y] = None \<longleftrightarrow> fileAt d [x, y] = None"
  by (auto simp: calm_def fileAt_def split: option.splits entry.splits)

lemma calm_file: "calm d \<Longrightarrow> fileAt d [x, y] \<noteq> None \<Longrightarrow> \<exists>c. look d [x, y] = Some (File c)"
  by (auto simp: calm_def fileAt_def split: option.splits entry.splits)

lemma calm_MkdirAll: "calm d \<Longrightarrow> \<exists>d'. os_MkdirAll [x] d = (Inr (), d') \<and> calm d' \<and> d_temp d' = d_temp d"
  using calm_mkdir [of d x]
  by (auto simp: os_MkdirAll_def calm_syscall calm_def split: option.split entry.split)

lemma calm_Write: "calm d \<Longrightarrow> writable d p \<Longrightarrow> \<exists>d'. os_Write p x d = (Inr (), d') \<and> calm d' \<and> d_temp d' = d_temp d"
  using calm_put [of d p "Doc x"] by (auto simp: os_Write_def calm_syscall calm_def)

lemma calm_Sync: "calm d \<Longrightarrow> os_Sync d = (Inr (), d)" "calm d \<Longrightarrow> os_Close d = (Inr (), d)"
  by (simp_all add: os_Sync_def os_Close_def calm_syscall io_pure_def)

lemma calm_Create: "calm d \<Longrightarrow> writable d p \<Longrightarrow> \<exists>d'. os_Create p d = (Inr (), d') \<and> calm d' \<and> d_temp d' = d_temp d"
  using calm_put [of d p Empty] by (auto simp: os_Create_def calm_syscall calm_def writable_def length_2)

lemma calm_CreateExclusive:
  "calm d \<Longrightarrow> writable d p \<Longrightarrow> look d p = None \<Longrightarrow> \<exists>d'. os_CreateExclusive p d = (Inr (), d') \<and> calm d' \<and> d_temp d' = d_temp d"
  using calm_put [of d p Empty] by (simp add: os_CreateExclusive_def calm_syscall)

lemma calm_Remove: "calm d \<Longrightarrow> calm (snd (os_Remove p d))" "calm d \<Longrightarrow> d_temp (snd (os_Remove p d)) = d_temp d"
  using calm_del [of d p] by (auto simp: os_Remove_def calm_syscall split: option.split entry.split)

lemma calm_Rename:
  assumes "calm d" "writable d q" "fileAt d [x, y] \<noteq> None"
  shows "\<exists>d'. os_Rename [x, y] q d = (Inr (), d') \<and> calm d' \<and> d_temp d' = d_temp d"
proof -
  obtain c where c: "look d [x, y] = Some (File c)" using calm_file assms by blast
  have "calm (put q (File c) (del [x, y] d))" using assms by (intro calm_put calm_del) (simp_all add: writable_def)
  moreover have "look d q \<noteq> Some Dir" using assms by (auto simp: calm_def writable_def length_2)
  ultimately show ?thesis using c assms(1) by (simp add: os_Rename_def calm_syscall)
qed

lemma calm_CreateTemp:
  assumes "calm d" "s \<in> {''.tmp'', ''.bak''}"
  shows "\<exists>d' n. os_CreateTemp [x, y] s d = (Inr (temp_name [x, y] s n), d') \<and> calm d' \<and> d_temp d < d_temp d'
    \<and> d_temp d \<le> n \<and> writable d' (temp_name [x, y] s n)"
proof -
  let ?n = "d_temp d"
  have "look d (temp_name [x, y] s ?n) = None" using assms temp_name_future(1) [OF assms(2)] by (auto simp: calm_def)
  then have f: "free_temp 10000 d [x, y] s ?n = Some ?n" using free_temp.simps(2) [of 9999 d "[x, y]" s ?n] by simp
  let ?d = "put (temp_name [x, y] s ?n) (File Empty) (d\<lparr>d_temp := ?n + 1\<rparr>)"
  have "calm ?d" "writable ?d (temp_name [x, y] s ?n)"
    using assms temp_name_future [OF assms(2)] future_Suc [of ?n]
    by (auto simp: calm_def writable_def) (auto simp: temp_name_def)
  then show ?thesis using f assms(1) by (auto simp: os_CreateTemp_def calm_syscall)
qed

section \<open>Writing on a calm disk\<close>

lemma calm_fsync: "calm d \<Longrightarrow> snd (fsyncDir p d) = d"
  by (simp add: fsyncDir_def calm_Sync)

lemma calm_createMarker:
  assumes "calm d" "writable d [x, y]" "fileAt d [x, y] = None" "json_MarshalIndent v = Inr w"
  shows "\<exists>d'. createMarker s [x, y] v d = (Inr (), d') \<and> calm d' \<and> d_temp d' = d_temp d"
proof -
  have wr: "writable d' p = writable d p" if "d_temp d' = d_temp d" for d' :: disk and p using that by (simp add: writable_def)
  obtain d1 where 1: "os_MkdirAll [x] d = (Inr (), d1)" "calm d1" "d_temp d1 = d_temp d" using calm_MkdirAll [OF assms(1)] by blast
  have "fileAt d1 [x, y] = None" using touchesD [OF touches_MkdirAll 1(1), of "\<lambda>_. False"] assms(3) by simp
  then obtain d2 where 2: "os_CreateExclusive [x, y] d1 = (Inr (), d2)" "calm d2" "d_temp d2 = d_temp d"
    using calm_CreateExclusive [OF 1(2), of "[x, y]"] calm_look [OF 1(2)] wr [OF 1(3)] assms(2) 1(3) by metis
  obtain d3 where 3: "os_Write [x, y] w d2 = (Inr (), d3)" "calm d3" "d_temp d3 = d_temp d"
    using calm_Write [OF 2(2), of "[x, y]"] wr [OF 2(3)] assms(2) 2(3) by metis
  show ?thesis
    using 1 2 3 assms(4) calm_Sync [OF 3(2)] calm_fsync [OF 3(2)]
    by (simp add: createMarker_def io_bind_def io_on_error_def io_ignore_def io_pure_def)
qed

lemma calm_writeJSONAtomic:
  assumes "calm d" "writable d [x, y]" "writable d [x, y @ ''.tmp'']" "json_MarshalIndent v = Inr w"
  shows "\<exists>d'. writeJSONAtomic [x, y] v d = (Inr (), d') \<and> calm d' \<and> d_temp d' = d_temp d"
proof -
  let ?t = "[x, y @ ''.tmp'']"
  have wr: "writable d' p = writable d p" if "d_temp d' = d_temp d" for d' :: disk and p using that by (simp add: writable_def)
  obtain d1 where 1: "os_MkdirAll [x] d = (Inr (), d1)" "calm d1" "d_temp d1 = d_temp d" using calm_MkdirAll [OF assms(1)] by blast
  obtain d2 where 2: "os_Create ?t d1 = (Inr (), d2)" "calm d2" "d_temp d2 = d_temp d"
    using calm_Create [OF 1(2), of ?t] wr [OF 1(3)] assms(3) 1(3) by metis
  obtain d3 where 3: "os_Write ?t w d2 = (Inr (), d3)" "calm d3" "d_temp d3 = d_temp d"
    using calm_Write [OF 2(2), of ?t] wr [OF 2(3)] assms(3) 2(3) by metis
  have "fileAt d3 ?t \<noteq> None" using os_Write_Inr [OF 3(1)] by simp
  then obtain d4 where 4: "os_Rename ?t [x, y] d3 = (Inr (), d4)" "calm d4" "d_temp d4 = d_temp d"
    using calm_Rename [OF 3(2), of "[x, y]"] wr [OF 3(3)] assms(2) 3(3) by metis
  show ?thesis
    using 1 2 3 4 assms(4) calm_Sync [OF 3(2)]
    by (simp add: writeJSONAtomic_def os_WriteFile_def with_suffix_def Let_def io_bind_def io_on_error_def io_pure_def)
qed

lemma calm_stageJSONFile:
  assumes "calm d" "json_MarshalIndent v = Inr w"
  shows "\<exists>q d'. stageJSONFile [x, y] v d = (Inr q, d') \<and> calm d' \<and> d_temp d \<le> d_temp d'"
proof -
  obtain d1 where 1: "os_MkdirAll [x] d = (Inr (), d1)" "calm d1" "d_temp d1 = d_temp d" using calm_MkdirAll [OF assms(1)] by blast
  obtain d2 n where 2: "os_CreateTemp [x, y] ''.tmp'' d1 = (Inr (temp_name [x, y] ''.tmp'' n), d2)" "calm d2"
    "d_temp d1 < d_temp d2" "writable d2 (temp_name [x, y] ''.tmp'' n)"
    using calm_CreateTemp [OF 1(2), of "''.tmp''" x y] by auto
  obtain d3 where 3: "os_Write (temp_name [x, y] ''.tmp'' n) w d2 = (Inr (), d3)" "calm d3" "d_temp d3 = d_temp d2"
    using calm_Write [OF 2(2,4)] by blast
  show ?thesis
    using 1 2 3 assms(2) calm_Sync [OF 3(2)]
    by (simp add: stageJSONFile_def io_bind_def io_on_error_def io_pure_def)
qed

lemma calm_preflight: "calm d \<Longrightarrow> preflightTarget [x, y] d = (Inr (), d)"
  by (simp add: preflightTarget_def calm_def)

lemma calm_moveExistingAside:
  assumes "calm d"
  shows "\<exists>q d'. moveExistingAside [x, y] d = (Inr q, d') \<and> calm d' \<and> d_temp d \<le> d_temp d'"
proof (cases "look d [x, y]")
  case None
  then show ?thesis using assms by (auto simp: moveExistingAside_def io_bind_def calm_preflight)
next
  case (Some e)
  obtain d1 n where 1: "os_CreateTemp [x, y] ''.bak'' d = (Inr (temp_name [x, y] ''.bak'' n), d1)" "calm d1"
    "d_temp d < d_temp d1" "writable d1 (temp_name [x, y] ''.bak'' n)" "d_temp d \<le> n"
    using calm_CreateTemp [OF assms, of "''.bak''" x y] by auto
  let ?q = "temp_name [x, y] ''.bak'' n" and ?d2 = "snd (os_Remove (temp_name [x, y] ''.bak'' n) d1)"
  have "future (d_temp d) ?q" unfolding future_def using 1(5) by blast
  then have ne: "?q \<noteq> [x, y]" using Some assms by (auto simp: calm_def)
  have f: "fileAt d [x, y] \<noteq> None" using calm_look [OF assms, of x y] Some by auto
  have "fileAt d1 [x, y] \<noteq> None" using os_CreateTemp_Inr(2) [OF 1(1)] ne f by metis
  moreover have "touches (\<lambda>p. p = ?q) (os_Remove ?q)" by (rule touches_Remove) simp
  ultimately have "fileAt ?d2 [x, y] \<noteq> None" using ne unfolding touches_def by metis
  moreover have "writable ?d2 ?q" using 1(4) calm_Remove(2) [OF 1(2)] by (simp add: writable_def)
  ultimately obtain d3 where 3: "os_Rename [x, y] ?q ?d2 = (Inr (), d3)" "calm d3" "d_temp d3 = d_temp ?d2"
    using calm_Rename [OF calm_Remove(1) [OF 1(2)]] by metis
  then show ?thesis using 1 Some assms calm_Remove(2) [OF 1(2)] calm_Sync [OF 1(2)]
    by (auto simp: moveExistingAside_def io_bind_def io_on_error_def io_ignore_def io_pure_def calm_preflight)
qed

lemma calm_applyFile:
  assumes "calm d" "sf_path g = [x, y]" "writable d [x, y]" "sf_tmp g = [x', y']" "fileAt d [x', y'] \<noteq> None"
    "[x', y'] \<noteq> [x, y]" "take 4 (rev y') \<noteq> ''kab.''"
  shows "\<exists>g' d'. applyFile g d = (Inr (), g', d') \<and> calm d' \<and> d_temp d \<le> d_temp d'"
proof -
  obtain b had d1 where 1: "moveExistingAside [x, y] d = (Inr (b, had), d1)" "calm d1" "d_temp d \<le> d_temp d1"
    using calm_moveExistingAside [OF assms(1)] by fastforce
  have "fileAt d1 [x', y'] \<noteq> None" using moveExistingAside_only [OF 1(1), of "[x', y']"] assms(5-7) by simp
  moreover have "writable d1 [x, y]" using assms(3) 1(3) future_le by (auto simp: writable_def)
  ultimately obtain d2 where 2: "os_Rename [x', y'] [x, y] d1 = (Inr (), d2)" "calm d2" "d_temp d2 = d_temp d1"
    using calm_Rename [OF 1(2)] by metis
  then show ?thesis using 1 assms calm_fsync [OF 2(2)] by (simp add: applyFile_def Let_def)
qed

section \<open>A transaction on a calm disk\<close>

definition plain_file :: "atomicJSONFile \<Rightarrow> bool" where
  "plain_file f \<longleftrightarrow> (\<exists>x y. af_path f = [x, y]) \<and> \<not> scratch (af_path f) \<and> json_MarshalIndent (af_value f) = Inr (af_value f)"

lemma not_scratch_not_future: "\<not> scratch p \<Longrightarrow> \<not> future n p"
  by (auto simp: future_def)

lemma calm_stageFiles:
  assumes "calm d" "\<forall>f \<in> set fs. plain_file f"
  shows "\<exists>gs' d'. stageFiles fs gs d = (Inr (), gs', d') \<and> calm d'"
  using assms
proof (induction fs arbitrary: gs d)
  case (Cons f fs)
  obtain x y where f: "af_path f = [x, y]" "json_MarshalIndent (af_value f) = Inr (af_value f)" using Cons.prems(2) by (auto simp: plain_file_def)
  obtain q d1 where "stageJSONFile [x, y] (af_value f) d = (Inr q, d1)" "calm d1"
    using calm_stageJSONFile [OF Cons.prems(1) f(2)] by blast
  then show ?case using Cons f(1) by (auto simp: io_bind_def calm_preflight)
qed auto

lemma calm_applyFiles:
  assumes "calm d" "staged_docs fs gs d" "\<forall>f \<in> set fs. plain_file f" "distinct (map af_path fs)"
  shows "\<exists>gs' d'. applyFiles done gs d = (Inr (), gs', d') \<and> calm d'"
  using assms
proof (induction gs arbitrary: "done" d fs)
  case (Cons g gs)
  from Cons.prems(2) obtain f fs' where fs: "fs = f # fs'" by (cases fs) (auto simp: staged_docs_def)
  obtain x y where f: "af_path f = [x, y]" "\<not> scratch [x, y]" using Cons.prems(3) by (auto simp: plain_file_def fs)
  obtain n where g: "sf_path g = [x, y]" "fileAt d (sf_tmp g) = Some (Doc (af_value f))" "sf_tmp g = temp_name [x, y] ''.tmp'' n"
    using Cons.prems(2) f by (auto simp: staged_docs_def fs)
  have sc: "scratch (sf_tmp h)" if "h \<in> set (g # gs)" for h using that Cons.prems(2) by (auto simp: staged_docs_def)
  have ne: "sf_tmp g \<noteq> [x, y]" using sc [of g] f(2) by auto
  obtain g1 d1 where a: "applyFile g d = (Inr (), g1, d1)" "calm d1"
    using calm_applyFile [OF Cons.prems(1) g(1), of x "y @ ''.'' @ dec_nat n @ ''.tmp''"] g f(2) ne not_scratch_not_future [of "[x, y]"]
    by (auto simp: temp_name_def writable_def)
  have k: "take 4 (rev (last (sf_path g))) \<noteq> ''kab.''" using f(2) by (simp add: g(1) scratch_def)
  have ap: "fileAt d1 r = fileAt d r" if "r \<noteq> sf_path g" "r \<noteq> sf_tmp g" "take 4 (rev (last r)) \<noteq> ''kab.''" for r
    using applyFile_Inr(3) [OF a(1) k _ _ that] g ne by auto
  have "staged_docs fs' gs d" using Cons.prems(2) by (simp add: staged_docs_def fs)
  then have "staged_docs fs' gs d1"
  proof (rule staged_docs_frame)
    fix h assume h: "h \<in> set gs"
    have "sf_tmp h \<noteq> sf_path g" using sc [of h] h f(2) g(1) by auto
    moreover have "sf_tmp h \<noteq> sf_tmp g" using Cons.prems(2) h by (simp add: staged_docs_def) (metis image_eqI)
    moreover have "take 4 (rev (last (sf_tmp h))) \<noteq> ''kab.''"
      using Cons.prems(2) h temp_kab by (fastforce simp: staged_docs_def)
    ultimately show "fileAt d1 (sf_tmp h) = fileAt d (sf_tmp h)" by (rule ap)
  qed
  then show ?case using Cons.IH [OF a(2), of fs' "done @ [g1]"] Cons.prems(3,4) a(1) fs by auto
qed auto

lemma calm_io_each:
  "(\<And>x d. calm d \<Longrightarrow> fst (f x d) = Inr () \<and> calm (snd (f x d))) \<Longrightarrow> calm d \<Longrightarrow>
     \<exists>d'. io_each f xs d = (Inr (), d') \<and> calm d'"
proof (induction xs arbitrary: d)
  case (Cons x xs)
  obtain r d1 where 1: "f x d = (r, d1)" by force
  then have "r = Inr ()" "calm d1" using Cons.prems by (metis fst_conv, metis snd_conv)
  then show ?case using Cons.IH [of d1] Cons.prems(1) 1 by (simp add: io_bind_def)
qed (simp add: io_pure_def)

lemma calm_ignore_Remove: "calm d \<Longrightarrow> fst (io_ignore (os_Remove p) d) = Inr () \<and> calm (snd (io_ignore (os_Remove p) d))"
  by (simp add: io_ignore_def calm_Remove)

lemma calm_cleanup: "calm d \<Longrightarrow> \<exists>d'. cleanup gs d = (Inr (), d') \<and> calm d'"
  unfolding cleanup_def
  by (rule calm_io_each) (auto simp: io_bind_def io_ignore_def io_pure_def calm_Remove)

lemma calm_removeStaged: "calm d \<Longrightarrow> \<exists>d'. removeStaged gs d = (Inr (), d') \<and> calm d'"
  unfolding removeStaged_def
  by (rule calm_io_each) (auto simp: io_ignore_def io_pure_def calm_Remove)

lemma calm_batch:
  assumes "calm d" "\<forall>f \<in> set fs. plain_file f" "distinct (map af_path fs)"
    and ph: "\<And>s d. calm d \<Longrightarrow> \<exists>d'. phase s d = (Inr (), d') \<and> calm d'"
      "\<And>s. touches (\<lambda>p. p \<in> P) (phase s)" and out: "\<And>f n. f \<in> set fs \<Longrightarrow> temp_name (af_path f) ''.tmp'' n \<notin> P"
  shows "\<exists>gs d'. writeJSONBatchAtomic fs phase d = (Inr gs, d') \<and> calm d'"
proof -
  obtain st d1 where 1: "stageFiles fs [] d = (Inr (), st, d1)" "calm d1" using calm_stageFiles [OF assms(1,2)] by blast
  obtain d2 where 2: "phase ''applying'' d1 = (Inr (), d2)" "calm d2" using ph(1) [OF 1(2)] by blast
  have sd: "staged_docs fs st d1" using stageFiles_docs [OF 1(1), of "[]"] by (simp add: staged_docs_def)
  then have "staged_docs fs st d2"
  proof (rule staged_docs_frame)
    fix g assume g: "g \<in> set st"
    have "sf_path ` set st = af_path ` set fs" using sd by (metis staged_docs_def set_map)
    then obtain f where "f \<in> set fs" "sf_path g = af_path f" using g by (metis imageE imageI)
    then have "sf_tmp g \<notin> P" using sd g out by (auto simp: staged_docs_def)
    then show "fileAt d2 (sf_tmp g) = fileAt d1 (sf_tmp g)" using touchesD [OF ph(2) 2(1)] by simp
  qed
  from calm_applyFiles [OF 2(2) this assms(2,3)] obtain gs d3 where 3: "applyFiles [] st d2 = (Inr (), gs, d3)" "calm d3" by blast
  obtain d4 where 4: "phase ''committed'' d3 = (Inr (), d4)" "calm d4" using ph(1) [OF 3(2)] by blast
  obtain d5 where "removeStaged gs d4 = (Inr (), d5)" "calm d5" using calm_removeStaged [OF 4(2)] by blast
  then show ?thesis using 1 2 3 4 by (simp add: writeJSONBatchAtomic_def)
qed

text \<open>Nothing but a float that JSON cannot express can stop a trade on a calm disk.\<close>

definition finite_prices :: "PersistedNodeState \<Rightarrow> bool" where
  "finite_prices s \<longleftrightarrow> (let x = PriceDoc (priceDTOFor (pn_ID s) (pn_PriceState s)) in json_MarshalIndent x = Inr x)"

lemma tradeFiles_plain_file: "\<forall>s \<in> set states. finite_prices s \<Longrightarrow> \<forall>f \<in> set (tradeFiles i tx states). plain_file f"
  by (auto simp: tradeFiles_def stateFiles_def plain_file_def finite_prices_def Let_def)
    (simp_all add: state_paths trade_paths json_MarshalIndent_def)

lemma relativeTargets_ok: "\<forall>f \<in> set fs. \<exists>x y. af_path f = [x, y] \<and> x \<noteq> ''..'' \<Longrightarrow> \<exists>ts. relativeTargets fs = Inr ts"
proof -
  have "\<exists>ts. each (\<lambda>_ f targets.
         guard (af_path f = [] \<or> hd (af_path f) = ''..'')
           (errorfs [''transaction target escapes store root: '', path_text (af_path f)])
         (Inr (targets @ [join_slash (af_path f)]))) j fs acc = Inr ts"
    if "\<forall>f \<in> set fs. \<exists>x y. af_path f = [x, y] \<and> x \<noteq> ''..''" for j acc
    using that by (induction fs arbitrary: j acc) auto
  then show "\<forall>f \<in> set fs. \<exists>x y. af_path f = [x, y] \<and> x \<noteq> ''..'' \<Longrightarrow> \<exists>ts. relativeTargets fs = Inr ts"
    by (simp add: relativeTargets_def)
qed

lemma json_tmp_free: "\<not> future n [x, (y @ ''.json'') @ ''.tmp'']"
proof
  assume "future n [x, (y @ ''.json'') @ ''.tmp'']"
  then obtain z s m where s: "s \<in> {''.tmp'', ''.bak''}"
    and e: "(y @ ''.json'') @ ''.tmp'' = (z @ CHR ''.'' # dec_nat m) @ s"
    by (auto simp: future_def temp_name_def)
  have l: "length ''.tmp'' = length s" using s by auto
  have "y @ ''.json'' = z @ CHR ''.'' # dec_nat m"
    by (rule conjunct1 [OF iffD1 [OF append_eq_append_conv [OF disjI2 [OF l]] e]])
  then have "last (y @ ''.json'') = last (z @ CHR ''.'' # dec_nat m)" by (rule arg_cong)
  moreover have "dec_nat m \<noteq> []" by (simp add: dec_nat.simps [of m])
  ultimately have "CHR ''n'' = last (dec_nat m)" by simp
  then have "CHR ''n'' \<in> set (dec_nat m)" using \<open>dec_nat m \<noteq> []\<close> last_in_set by metis
  then show False using dec_nat_digits [of "CHR ''n''" m] by simp
qed

lemma manifest_tmp_writable: "\<not> future n [''trades'', (idHex i @ ''.txn.json'') @ ''.tmp'']"
  using json_tmp_free [of n "''trades''" "idHex i @ ''.txn''"] by simp

lemma calm_manifest:
  assumes "calm d"
  shows "\<exists>d'. writeTransactionManifest (manifestPath i) m d = (Inr (), d') \<and> calm d'"
proof -
  have "\<not> future n (manifestPath i)" for n by (rule not_scratch_not_future) simp
  then show ?thesis
    using calm_writeJSONAtomic [OF assms, of "''trades''" "idHex i @ ''.txn.json''" "ManifestDoc m" "ManifestDoc m"] manifest_tmp_writable
    by (auto simp: writeTransactionManifest_def writable_def manifestPath_def json_MarshalIndent_def)
qed

lemma calm_marker:
  assumes "calm d" "fileAt d p = None" "p \<in> {executedPath i, committedPath i, reservationPath i}"
  shows "\<exists>d'. createMarker s p (MarkerDoc a b) d = (Inr (), d') \<and> calm d'"
proof -
  have "\<not> future n p" for n using assms(3) by (intro not_scratch_not_future) auto
  moreover obtain y where "p = [''trades'', y]" using assms(3) by (auto simp: trade_paths)
  ultimately show ?thesis
    using calm_createMarker [OF assms(1), of "''trades''" y "MarkerDoc a b" "MarkerDoc a b"] assms(2)
    by (auto simp: writable_def json_MarshalIndent_def)
qed

lemma calm_commitTrade:
  assumes "calm d" "\<forall>s \<in> set states. finite_prices s" "distinct (map pn_ID states)"
    and none: "fileAt d (committedPath i) = None" "fileAt d (executedPath i) = None"
  shows "\<exists>d'. commitTrade i ts (tradeFiles i tx states) d = (Inr (), d') \<and> calm d'"
proof -
  let ?fs = "tradeFiles i tx states"
  let ?ph = "\<lambda>phase. writeTransactionManifest (manifestPath i) \<lparr>tm_ID = idHex i, tm_Phase = phase, tm_Targets = ts\<rparr>"
  let ?S = "\<lambda>p. scratch p \<or> p = manifestPath i \<or> p \<in> af_path ` set ?fs"
  have ph: "touches (\<lambda>p. p \<in> {manifestPath i, with_suffix (manifestPath i) ''.tmp''}) (?ph s)" for s
    unfolding writeTransactionManifest_def by (rule touches_writeJSONAtomic) simp_all
  have tmp: "temp_name (af_path g) ''.tmp'' n \<notin> {manifestPath i, with_suffix (manifestPath i) ''.tmp''}"
    if "g \<in> set ?fs" for g n
    using that by (auto simp: tradeFiles_def stateFiles_def state_paths trade_paths temp_name_def with_suffix_def)
  obtain gs d1 where b: "writeJSONBatchAtomic ?fs ?ph d = (Inr gs, d1)" "calm d1"
    using calm_batch [OF assms(1) tradeFiles_plain_file [OF assms(2)] tradeFiles_distinct [OF assms(3)], where phase = ?ph,
      OF calm_manifest ph tmp] by blast
  have "touches ?S (writeJSONBatchAtomic ?fs ?ph)"
    by (rule writeJSONBatchAtomic_touches(1)) (auto simp: covers_def intro: touches_mono [OF ph])
  note fr = touchesD [OF this b(1)]
  have "committedPath i \<noteq> manifestPath i" "executedPath i \<noteq> manifestPath i" by (simp_all add: trade_paths)
  moreover have "committedPath i \<notin> af_path ` set ?fs" "executedPath i \<notin> af_path ` set ?fs"
    by (rule outside_files; simp add: trade_paths)+
  ultimately have out: "\<not> ?S (committedPath i)" "\<not> ?S (executedPath i)" by simp_all
  obtain d2 where 2: "writeCommitRecordExclusive (committedPath i) i d1 = (Inr (), d2)" "calm d2"
    using calm_marker [OF b(2), of "committedPath i" i] fr [OF out(1)] none(1)
    unfolding writeCommitRecordExclusive_def writeTradeRecordExclusive_def by fastforce
  have tc: "touches (\<lambda>p. p = committedPath i) (writeCommitRecordExclusive (committedPath i) i)"
    unfolding writeCommitRecordExclusive_def writeTradeRecordExclusive_def by (rule touches_createMarker) simp
  have "fileAt d2 (executedPath i) = None" using touchesD [OF tc 2(1)] fr [OF out(2)] none(2) by (simp add: trade_paths)
  then obtain d3 where 3: "writeExecutedMarkerExclusive (executedPath i) i d2 = (Inr (), d3)" "calm d3"
    using calm_marker [OF 2(2), of "executedPath i" i]
    unfolding writeExecutedMarkerExclusive_def writeTradeRecordExclusive_def by fastforce
  obtain d4 where 4: "cleanup gs d3 = (Inr (), d4)" "calm d4" using calm_cleanup [OF 3(2)] by blast
  show ?thesis using b 2 3 4 calm_Remove by (simp add: commitTrade_def io_bind_def io_on_error_def io_ignore_def)
qed

lemma persist_json_live:
  assumes "calm d" "\<not> HasExecutedTradeJSON d i" "\<forall>s \<in> set states. finite_prices s" "distinct (map pn_ID states)"
  shows "\<exists>d'. PersistExecutedTradeJSON i tx states d = (Inr (), d') \<and> calm d'"
proof -
  have n: "fileAt d p = None" if "marker i p" for p using assms(2) that by (auto simp: HasExecutedTradeJSON_iff)
  obtain d1 where "createMarker ''trade execution already in progress'' (reservationPath i) (MarkerDoc (idHex i) ''reserved'') d = (Inr (), d1)"
    and c1: "calm d1"
    using calm_marker [OF assms(1) n [of "reservationPath i"], of i "''trade execution already in progress''" "idHex i" "''reserved''"]
    by (auto simp: marker_def)
  then have 1: "reserveExecutedTrade (reservationPath i) i d = (Inr (reservationPath i), d1)" "calm d1"
    by (simp_all add: reserveExecutedTrade_def io_bind_def io_pure_def)
  obtain ts where ts: "relativeTargets (tradeFiles i tx states) = Inr ts"
  proof -
    have "\<exists>ts. relativeTargets (tradeFiles i tx states) = Inr ts"
      by (rule relativeTargets_ok) (auto simp: tradeFiles_def stateFiles_def state_paths trade_paths)
    then show thesis using that by blast
  qed
  obtain d2 where 2: "writeTransactionManifest (manifestPath i)
      \<lparr>tm_ID = idHex i, tm_Phase = ''preparing'', tm_Targets = ts\<rparr> d1 = (Inr (), d2)" "calm d2"
    using calm_manifest [OF 1(2)] by blast
  have t1: "touches (\<lambda>p. p = reservationPath i) (reserveExecutedTrade (reservationPath i) i)" by (rule touches_reserve)
  have t2: "touches (\<lambda>p. p \<in> {manifestPath i, with_suffix (manifestPath i) ''.tmp''}) (writeTransactionManifest (manifestPath i) x)" for x
    unfolding writeTransactionManifest_def by (rule touches_writeJSONAtomic) simp_all
  have "fileAt d2 p = None" if "marker i p" "p \<noteq> reservationPath i" "p \<notin> {manifestPath i, with_suffix (manifestPath i) ''.tmp''}" for p
    using touchesD [OF t1 1(1) that(2)] touchesD [OF t2 2(1) that(3)] n [OF that(1)] by simp
  from this [of "committedPath i"] this [of "executedPath i"]
  have "fileAt d2 (committedPath i) = None" "fileAt d2 (executedPath i) = None"
    by (simp_all add: marker_def) (simp_all add: trade_paths with_suffix_def)
  then obtain d3 where 3: "commitTrade i ts (tradeFiles i tx states) d2 = (Inr (), d3)" "calm d3"
    using calm_commitTrade [OF 2(2) assms(3,4)] by blast
  show ?thesis using assms(2) 1 2 3 ts calm_Remove(1) [OF 3(2)]
    by (simp add: PersistExecutedTradeJSON_def runTrade_def io_bind_def io_finally_def io_on_error_def io_pure_def)
qed

lemma calm_empty: "calm \<lparr>d_ents = [], d_faults = [], d_crashed = False, d_temp = 0\<rparr>"
  by (simp add: calm_def look_def)


text \<open>What a complete run leaves.\<close>

lemma persist_json_complete:
  assumes "calm d" "\<not> HasExecutedTradeJSON d i" "\<forall>s \<in> set states. finite_prices s" "distinct (map pn_ID states)"
  shows "\<exists>d'. PersistExecutedTradeJSON i tx states d = (Inr (), d') \<and> calm d' \<and> HasExecutedTradeJSON d' i
    \<and> LoadAuthorizedTrade d' i = Some tx"
  using persist_json_live [OF assms, of tx] persist_json_ok persisted_trade [OF _ assms(4)] by blast

end
