(* ===== verification/Recovery.thy ===== *)
theory Recovery
  imports Durability
begin

text \<open>
  \<open>core/store/json.go\<close>, second part: opening a store, and what it does with the transactions that a
  crash or a failure left behind.

  A target in a manifest is any string. \<open>clean\<close> is \<open>filepath.Clean\<close> on a relative path; a target that
  leaves the root is refused in any case, by the test on its first component here.
\<close>

section \<open>Manifests\<close>

fun split_slash :: "string \<Rightarrow> string \<Rightarrow> string list" where
  "split_slash acc [] = [acc]"
| "split_slash acc (c # cs) = (if c = CHR ''/'' then acc # split_slash [] cs else split_slash (acc @ [c]) cs)"

definition clean_step :: "string list \<Rightarrow> string \<Rightarrow> string list" where
  "clean_step cs c =
     (if c = [] \<or> c = ''.'' then cs
      else if c = ''..'' \<and> cs \<noteq> [] \<and> last cs \<noteq> ''..'' then butlast cs
      else cs @ [c])"

definition clean :: "string \<Rightarrow> string list" where
  "clean s = foldl clean_step [] (split_slash [] s)"

definition isAbs :: "string \<Rightarrow> bool" where
  "isAbs s \<longleftrightarrow> take 1 s = ''/''"

definition hasSuffix :: "string \<Rightarrow> string \<Rightarrow> bool" where
  "hasSuffix s suffix \<longleftrightarrow> length suffix \<le> length s \<and> drop (length s - length suffix) s = suffix"

definition nodeIDFromStateFile :: "string \<Rightarrow> err + NodeID" where
  "nodeIDFromStateFile name =
     (let nodeString = (if hasSuffix name ''.json'' then take (length name - 5) name else name) in
      guard (nodeString = name \<or> nodeString = '''') (errorfs [''invalid node state target: '', name])
      (attempt (hex_Decode nodeString) (\<lambda>b.
      guard (length b \<noteq> 32) (errorf ''invalid node id length'')
      (Inr (NodeID (hashOf b))))))"

definition readTransactionManifest :: "disk \<Rightarrow> path \<Rightarrow> err + transactionManifest \<times> bool" where
  "readTransactionManifest d p =
     (if \<not> file_exists d p then Inr (\<lparr>tm_ID = '''', tm_Phase = '''', tm_Targets = []\<rparr>, False)
      else attempt (readJSONIfExists d p) (\<lambda>x.
        Inr (case x of None \<Rightarrow> \<lparr>tm_ID = '''', tm_Phase = '''', tm_Targets = []\<rparr> | Some x \<Rightarrow> as_manifest x, True)))"

definition checkUnits :: "string \<Rightarrow> ('k :: linorder, 'v) gomap option \<Rightarrow> ('k \<Rightarrow> string) \<Rightarrow> err + unit" where
  "checkUnits what m key =
     each (\<lambda>_ (k, _) s. attempt (map_err (wrap_err what) (parseUnitID (key k))) (\<lambda>_. Inr s))
       0 (case m of None \<Rightarrow> [] | Some m \<Rightarrow> m) ()"

definition zero_doc :: doc where
  "zero_doc = MarkerDoc '''' ''''"

definition validateTransactionTarget ::
    "'x env_scheme \<Rightarrow> disk \<Rightarrow> TxID \<Rightarrow> string \<Rightarrow> path \<Rightarrow> err + unit" where
  "validateTransactionTarget E d i target p =
     (let parts = clean target;
          read = (\<lambda>what. map_err (wrap_err what) (attempt (readJSONIfExists d p) (\<lambda>x.
                    Inr (case x of None \<Rightarrow> zero_doc | Some x \<Rightarrow> x)))) in
      guard (length parts \<noteq> 2) (errorfs [''unexpected transaction target: '', target])
      (if parts ! 0 = ''trades'' then
         guard (parts ! 1 \<noteq> idHex i @ ''.json'') (errorfs [''transaction trade target id mismatch: '', target])
         (attempt (read ''authorized trade target invalid'') (\<lambda>x.
         attempt (map_err (wrap_err ''authorized trade target invalid'') (AuthorizedTradeID E (as_trade x))) (\<lambda>authID.
         guard (authID \<noteq> i) (errorf ''authorized trade target id mismatch'') (Inr ()))))
       else if parts ! 0 = ''inventory'' then
         attempt (nodeIDFromStateFile (parts ! 1)) (\<lambda>nodeID.
         attempt (read ''inventory target invalid'') (\<lambda>x.
         attempt (requireNodeMatch (iv_Node (as_inventory x)) nodeID) (\<lambda>_.
         checkUnits ''inventory target invalid unit id'' (iv_Holdings (as_inventory x)) (\<lambda>k. k))))
       else if parts ! 0 = ''flow'' then
         attempt (nodeIDFromStateFile (parts ! 1)) (\<lambda>nodeID.
         attempt (read ''flow target invalid'') (\<lambda>x.
         attempt (requireNodeMatch (fl_Node (as_flow x)) nodeID) (\<lambda>_.
         checkUnits ''flow target invalid unit id'' (fl_Records (as_flow x)) (\<lambda>k. k))))
       else if parts ! 0 = ''prices'' then
         attempt (nodeIDFromStateFile (parts ! 1)) (\<lambda>nodeID.
         attempt (read ''price target invalid'') (\<lambda>x.
         attempt (requireNodeMatch (pd_Node (as_price x)) nodeID) (\<lambda>_.
         checkUnits ''price target invalid unit id'' (pd_Prices (as_price x)) (\<lambda>k. k))))
       else Inl (errorfs [''unexpected transaction target: '', target])))"

definition verifyTransactionManifest ::
    "'x env_scheme \<Rightarrow> disk \<Rightarrow> TxID \<Rightarrow> transactionManifest \<Rightarrow> err + unit" where
  "verifyTransactionManifest E d i m =
     guard (tm_ID m \<noteq> idHex i)
       (errorfs [''transaction manifest id mismatch: got '', go_quote (tm_ID m), '', want '', go_quote (idHex i)])
     (guard (tm_Targets m = []) (errorf ''transaction manifest has no targets'')
     (attempt (each (\<lambda>_ target sawTrade.
         guard (isAbs target) (errorfs [''transaction target escapes store root: '', target])
         (let p = clean target in
          guard (p = [] \<or> hd p = ''..'') (errorfs [''transaction target escapes store root: '', target])
          (guard (\<not> file_exists d p) (errorfs [''committed transaction target missing: '', target])
          (attempt (validateTransactionTarget E d i target p) (\<lambda>_.
          Inr (sawTrade \<or> p = tradePath i))))))
       0 (tm_Targets m) False) (\<lambda>sawTrade.
     guard (\<not> sawTrade) (errorf ''transaction manifest missing authorized trade target'') (Inr ()))))"

section \<open>Recovery\<close>

text \<open>The first suffix that fits decides.\<close>

definition tradeArtifactID :: "string \<Rightarrow> TxID option" where
  "tradeArtifactID name =
     (case List.find (hasSuffix name) [''.committed.json'', ''.executing'', ''.txn.json'', ''.json''] of
        None \<Rightarrow> None
      | Some suffix \<Rightarrow>
          (case hex_Decode (take (length name - length suffix) name) of
             Inl _ \<Rightarrow> None
           | Inr b \<Rightarrow> if length b \<noteq> 32 then None else Some (TxID (hashOf b))))"

definition removeArtifacts :: "TxID \<Rightarrow> unit io" where
  "removeArtifacts i =
     io_bind (io_ignore (os_Remove (committedPath i))) (\<lambda>_.
     io_bind (io_ignore (os_Remove (reservationPath i))) (\<lambda>_.
     io_ignore (os_Remove (manifestPath i))))"

definition recoverTrade :: "'x env_scheme \<Rightarrow> TxID \<Rightarrow> unit io" where
  "recoverTrade E i d =
     (if file_exists d (executedPath i) then removeArtifacts i d
      else case readTransactionManifest d (manifestPath i) of
        Inl e \<Rightarrow> (Inl e, d)
      | Inr (m, hasManifest) \<Rightarrow>
          if file_exists d (committedPath i) \<or> (hasManifest \<and> tm_Phase m = ''committed'') then
            if \<not> hasManifest
            then (Inl (errorfs [''committed json transaction for trade '', idHex i, '' is missing manifest'']), d)
            else
              (case verifyTransactionManifest E d i m of
                 Inl e \<Rightarrow> (Inl e, d)
               | Inr _ \<Rightarrow>
                   io_bind (writeExecutedMarkerExclusive (executedPath i) i) (\<lambda>_. removeArtifacts i) d)
          else if hasManifest then
            (if tm_Phase m = ''preparing'' then (Inr (), d)
             else if tm_Phase m = ''applying''
             then (Inl (errorfs [''incomplete json transaction for trade '', idHex i]), d)
             else (Inl (errorfs [''unknown json transaction phase '', go_quote (tm_Phase m), '' for trade '', idHex i]), d))
          else (Inr (), d))"

text \<open>The names in a directory, sorted, as \<open>os.ReadDir\<close> returns them.\<close>

definition os_ReadDir :: "disk \<Rightarrow> string \<Rightarrow> err + (string \<times> entry) list" where
  "os_ReadDir d dir =
     (case look d [dir] of
        Some Dir \<Rightarrow> Inr (sort_key fst (map (\<lambda>(p, x). (last p, x))
          (filter (\<lambda>(p, x). length p = 2 \<and> hd p = dir) (d_ents d))))
      | _ \<Rightarrow> Inl (os_error [ErrNotExist] ''open'' [dir] ''no such file or directory''))"

definition recoverTransactions :: "'x env_scheme \<Rightarrow> unit io" where
  "recoverTransactions E d =
     (case os_ReadDir d ''trades'' of
        Inl e \<Rightarrow> (Inl e, d)
      | Inr entries \<Rightarrow>
          io_each (\<lambda>(name, x).
              if x = Dir then io_pure (Inr ())
              else (case tradeArtifactID name of None \<Rightarrow> io_pure (Inr ()) | Some i \<Rightarrow> recoverTrade E i))
            entries d)"

definition NewJSONStore :: "'x env_scheme \<Rightarrow> unit io" where
  "NewJSONStore E =
     io_bind (io_each (\<lambda>dir. os_MkdirAll [dir]) [''trades'', ''inventory'', ''flow'', ''prices'']) (\<lambda>_.
     recoverTransactions E)"

text \<open>The next start of the process on the disk that the last one left.\<close>

definition restart :: "disk \<Rightarrow> fault list \<Rightarrow> disk" where
  "restart d faults = d\<lparr>d_crashed := False, d_faults := faults\<rparr>"

section \<open>Recovery never forgets a trade\<close>

definition has_kept :: "'a io \<Rightarrow> bool" where
  "has_kept m \<longleftrightarrow> (\<forall>d j. HasExecutedTradeJSON d j \<longrightarrow> HasExecutedTradeJSON (snd (m d)) j)"

lemma has_kept_bind: "has_kept m \<Longrightarrow> (\<And>x. has_kept (f x)) \<Longrightarrow> has_kept (io_bind m f)"
  unfolding has_kept_def io_bind_def by (auto split: prod.splits sum.splits) (metis snd_conv)+

lemma has_kept_pure: "has_kept (io_pure r)"
  by (simp add: has_kept_def io_pure_def)

lemma has_kept_each: "(\<And>x. x \<in> set xs \<Longrightarrow> has_kept (f x)) \<Longrightarrow> has_kept (io_each f xs)"
  by (induction xs) (auto intro: has_kept_bind has_kept_pure)

lemma touches_none_kept: "touches (\<lambda>_. False) m \<Longrightarrow> has_kept m"
  by (simp add: has_kept_def HasExecutedTradeJSON_iff touches_def)

lemma removeArtifacts_touches:
  "touches (\<lambda>p. p \<in> {committedPath i, reservationPath i, manifestPath i}) (removeArtifacts i)"
  unfolding removeArtifacts_def by (intro touch touches_calls) simp_all

lemma removeArtifacts_keeps:
  assumes "fileAt d (executedPath i) \<noteq> None" "HasExecutedTradeJSON d j"
  shows "HasExecutedTradeJSON (snd (removeArtifacts i d)) j"
proof (cases "j = i")
  case True
  have "executedPath i \<notin> {committedPath i, reservationPath i, manifestPath i}" by (simp add: trade_paths)
  then have "fileAt (snd (removeArtifacts i d)) (executedPath i) = fileAt d (executedPath i)"
    using removeArtifacts_touches [of i] unfolding touches_def by blast
  then show ?thesis using assms(1) True by (auto simp: HasExecutedTradeJSON_iff marker_def)
next
  case False
  from assms(2) obtain p where p: "marker j p" "fileAt d p \<noteq> None" by (auto simp: HasExecutedTradeJSON_iff)
  have "p \<notin> {committedPath i, reservationPath i, manifestPath i}" using p(1) False by (auto simp: marker_def trade_paths)
  then have "fileAt (snd (removeArtifacts i d)) p = fileAt d p"
    using removeArtifacts_touches [of i] unfolding touches_def by blast
  then show ?thesis using p by (auto simp: HasExecutedTradeJSON_iff)
qed

lemma marker_create_touches: "touches (\<lambda>p. p = executedPath i) (writeExecutedMarkerExclusive (executedPath i) i)"
  unfolding writeExecutedMarkerExclusive_def writeTradeRecordExclusive_def by (intro touches_createMarker) simp

lemma recoverTrade_kept: "has_kept (recoverTrade E i)"
  unfolding has_kept_def
proof (intro allI impI)
  fix d j assume h: "HasExecutedTradeJSON d j"
  show "HasExecutedTradeJSON (snd (recoverTrade E i d)) j"
  proof (cases "fileAt d (executedPath i)")
    case None
    obtain r1 d1 where w: "writeExecutedMarkerExclusive (executedPath i) i d = (r1, d1)" by force
    from h obtain p where p: "marker j p" "fileAt d p \<noteq> None" by (auto simp: HasExecutedTradeJSON_iff)
    then have "p \<noteq> executedPath i" using None by auto
    then have "fileAt d1 p = fileAt d p" using touchesD [OF marker_create_touches w] by simp
    then have h1: "HasExecutedTradeJSON d1 j" using p by (auto simp: HasExecutedTradeJSON_iff)
    have "HasExecutedTradeJSON (snd (removeArtifacts i d1)) j" if "r1 = Inr u" for u
    proof -
      have "fileAt d1 (executedPath i) \<noteq> None"
        using w that createMarker_Inr(1) by (fastforce simp: writeExecutedMarkerExclusive_def writeTradeRecordExclusive_def)
      then show ?thesis using h1 by (rule removeArtifacts_keeps)
    qed
    moreover have "\<not> file_exists d (executedPath i)" using None by (simp add: file_exists_iff)
    ultimately show ?thesis
      using h h1 w by (cases r1) (simp_all add: recoverTrade_def io_bind_def split: sum.split prod.split)
  next
    case (Some c)
    then show ?thesis using removeArtifacts_keeps [OF _ h, of i] by (simp add: recoverTrade_def file_exists_iff)
  qed
qed

lemma NewJSONStore_kept: "has_kept (NewJSONStore E)"
proof -
  have e: "has_kept (\<lambda>d. io_each (\<lambda>(name, x). if x = Dir then io_pure (Inr ())
        else (case tradeArtifactID name of None \<Rightarrow> io_pure (Inr ()) | Some i \<Rightarrow> recoverTrade E i)) entries d)" for entries
    by (intro has_kept_each) (auto intro: has_kept_pure recoverTrade_kept split: option.split)
  have "has_kept (recoverTransactions E)"
    using e by (auto simp: has_kept_def recoverTransactions_def split: sum.splits)
  moreover have "has_kept (io_each (\<lambda>dir. os_MkdirAll [dir]) [''trades'', ''inventory'', ''flow'', ''prices''])"
    by (intro has_kept_each touches_none_kept touch)
  ultimately show ?thesis unfolding NewJSONStore_def by (intro has_kept_bind)
qed

section \<open>The life of a store\<close>

text \<open>
  What can happen to the disk after a trade: any operation of the store, with any outcome of its
  system calls, and any number of restarts of the process.
\<close>

inductive store_step :: "'x env_scheme \<Rightarrow> disk \<Rightarrow> disk \<Rightarrow> bool" for E :: "'x env_scheme" where
  persisted: "store_step E d (snd (PersistExecutedTradeJSON i tx states d))"
| marked: "store_step E d (snd (MarkExecutedTradeJSON i d))"
| saved_inventory: "store_step E d (snd (SaveInventory n iv d))"
| saved_flow: "store_step E d (snd (SaveFlow n fl d))"
| saved_prices: "store_step E d (snd (SavePriceState n ps d))"
| saved_trade: "store_step E d (snd (SaveAuthorizedTrade i tx d))"
| restarted: "store_step E d (snd (NewJSONStore E (restart d faults)))"

lemma touches_has_kept: "touches S m \<Longrightarrow> (\<And>i p. marker i p \<Longrightarrow> \<not> S p) \<Longrightarrow> has_kept m"
  unfolding has_kept_def HasExecutedTradeJSON_iff touches_def by metis

lemma save_has_kept:
  assumes "\<not> scratch p" "\<And>i. \<not> marker i p" "\<And>i. \<not> marker i (with_suffix p ''.tmp'')"
  shows "has_kept (writeJSONAtomic p x)"
  by (rule touches_has_kept [of "\<lambda>q. q = p \<or> q = with_suffix p ''.tmp''"])
    (use assms in \<open>auto intro: touches_writeJSONAtomic\<close>)

lemma saves_kept:
  "has_kept (SaveInventory n iv)" "has_kept (SaveFlow n fl)" "has_kept (SavePriceState n ps)"
  "has_kept (SaveAuthorizedTrade i tx)"
  unfolding SaveInventory_def SaveFlow_def SavePriceState_def SaveAuthorizedTrade_def
  by (rule save_has_kept; simp add: marker_def state_paths trade_paths with_suffix_def scratch_def)+

lemma createMarker_exists:
  assumes "look d p \<noteq> None" "p \<noteq> butlast p"
  shows "fileAt (snd (createMarker s p x d)) q = fileAt d q"
proof -
  obtain r1 d1 where 1: "os_MkdirAll (butlast p) d = (r1, d1)" by force
  have f1: "fileAt d1 q = fileAt d q" using touchesD [OF touches_MkdirAll 1, of "\<lambda>_. False"] by simp
  have "look d1 p = look d p"
    using 1 assms(2) by (auto simp: os_MkdirAll_def syscall_def split: list.splits fault.splits option.splits entry.splits if_splits)
  then obtain y where y: "look d1 p = Some y" using assms(1) by auto
  obtain r2 d2 where 2: "os_CreateExclusive p d1 = (r2, d2)" by force
  have "isl r2 \<and> fileAt d2 q = fileAt d1 q"
    using 2 y by (auto simp: os_CreateExclusive_def syscall_def split: list.splits fault.splits if_splits)
  then obtain e where 3: "r2 = Inl e" "fileAt d2 q = fileAt d1 q" by (auto simp: isl_def)
  show ?thesis using 1 2 3 f1 by (cases r1) (simp_all add: createMarker_def io_bind_def)
qed

lemma mark_kept: "has_kept (MarkExecutedTradeJSON i)"
  unfolding has_kept_def
proof (intro allI impI)
  fix d j assume h: "HasExecutedTradeJSON d j"
  obtain r d' where m: "MarkExecutedTradeJSON i d = (r, d')" by force
  have t: "touches (\<lambda>p. p = executedPath i) (MarkExecutedTradeJSON i)"
    unfolding MarkExecutedTradeJSON_def by (rule marker_create_touches)
  from h obtain p where p: "marker j p" "fileAt d p \<noteq> None" by (auto simp: HasExecutedTradeJSON_iff)
  have "fileAt d' p = fileAt d p"
  proof (cases "p = executedPath i")
    case True
    then have "look d p \<noteq> None" using p(2) by (auto simp: fileAt_def split: option.splits)
    moreover have "p \<noteq> butlast p" using True by (simp add: executedPath_def)
    ultimately show ?thesis using createMarker_exists m
      by (metis MarkExecutedTradeJSON_def True snd_conv writeExecutedMarkerExclusive_def writeTradeRecordExclusive_def)
  qed (rule touchesD [OF t m])
  then show "HasExecutedTradeJSON (snd (MarkExecutedTradeJSON i d)) j"
    using p m by (auto simp: HasExecutedTradeJSON_iff)
qed

lemma store_step_keeps:
  assumes "store_step E d d'" "HasExecutedTradeJSON d i"
  shows "HasExecutedTradeJSON d' i"
  using assms(1)
proof cases
  case (persisted j tx states)
  then show ?thesis using persist_json_keeps [OF _ assms(2)] by (metis prod.collapse)
next
  case (restarted faults)
  have "HasExecutedTradeJSON (restart d faults) i" using assms(2) by (simp add: HasExecutedTradeJSON_iff restart_def)
  then show ?thesis using NewJSONStore_kept [of E] restarted by (simp add: has_kept_def)
qed (use assms(2) mark_kept saves_kept in \<open>simp_all add: has_kept_def\<close>)

lemma store_steps_keep: "(store_step E)\<^sup>*\<^sup>* d d' \<Longrightarrow> HasExecutedTradeJSON d i \<Longrightarrow> HasExecutedTradeJSON d' i"
  by (induction rule: rtranclp_induct) (auto intro: store_step_keeps)

section \<open>A commit record without a manifest blocks the store\<close>

lemma tradeArtifactID_committed: "tradeArtifactID (idHex i @ ''.committed.json'') = Some i"
proof -
  have "hasSuffix (idHex i @ ''.committed.json'') ''.committed.json''" by (simp add: hasSuffix_def)
  then show ?thesis
    by (cases i) (simp add: tradeArtifactID_def idHex_def hex_Decode_hex_string)
qed

definition orphan :: "TxID \<Rightarrow> disk \<Rightarrow> bool" where
  "orphan i d \<longleftrightarrow> fileAt d (committedPath i) \<noteq> None \<and> fileAt d (executedPath i) = None \<and> fileAt d (manifestPath i) = None"

lemma orphan_blocks: "orphan i d \<Longrightarrow> \<exists>e. recoverTrade E i d = (Inl e, d)"
  by (simp add: recoverTrade_def orphan_def file_exists_iff readTransactionManifest_def)

lemma recoverTrade_touches: "touches (\<lambda>p. p \<in> {executedPath i, committedPath i, reservationPath i, manifestPath i}) (recoverTrade E i)"
proof -
  let ?S = "\<lambda>p. p \<in> {executedPath i, committedPath i, reservationPath i, manifestPath i}"
  have a: "touches ?S (removeArtifacts i)" by (rule touches_mono [OF removeArtifacts_touches]) auto
  have b: "touches ?S (io_bind (writeExecutedMarkerExclusive (executedPath i) i) (\<lambda>_. removeArtifacts i))"
    by (intro touches_bind a touches_mono [OF marker_create_touches]) simp
  show ?thesis unfolding touches_def
  proof (intro conjI allI impI)
    fix d :: disk and p assume "\<not> ?S p"
    then show "fileAt (snd (recoverTrade E i d)) p = fileAt d p"
      using a b by (simp add: recoverTrade_def touches_def split: sum.split prod.split)
  next
    fix d :: disk assume "d_crashed d"
    then show "snd (recoverTrade E i d) = d"
      using a b by (simp add: recoverTrade_def touches_def split: sum.split prod.split)
  qed
qed

lemma orphan_stays: "orphan i d \<Longrightarrow> j \<noteq> i \<Longrightarrow> orphan i (snd (recoverTrade E j d))"
proof -
  assume o: "orphan i d" "j \<noteq> i"
  have "fileAt (snd (recoverTrade E j d)) p = fileAt d p" if "p \<in> {committedPath i, executedPath i, manifestPath i}" for p
  proof -
    have "p \<notin> {executedPath j, committedPath j, reservationPath j, manifestPath j}"
      using that o(2) by (auto simp: trade_paths)
    then show ?thesis using recoverTrade_touches [of j E] unfolding touches_def by blast
  qed
  then show ?thesis using o(1) by (simp add: orphan_def)
qed

lemma recover_blocked:
  assumes "orphan i d" "(idHex i @ ''.committed.json'', File c) \<in> set entries"
  shows "\<exists>e. fst (io_each (\<lambda>(name, x).
              if x = Dir then io_pure (Inr ())
              else (case tradeArtifactID name of None \<Rightarrow> io_pure (Inr ()) | Some i \<Rightarrow> recoverTrade E i)) entries d) = Inl e"
  using assms
proof (induction entries arbitrary: d)
  case (Cons x xs)
  let ?f = "\<lambda>(name, x). if x = Dir then io_pure (Inr ())
              else (case tradeArtifactID name of None \<Rightarrow> io_pure (Inr ()) | Some i \<Rightarrow> recoverTrade E i)"
  obtain name y where x: "x = (name, y)" by force
  obtain r d1 where r: "?f x d = (r, d1)" by force
  show ?case
  proof (cases "y \<noteq> Dir \<and> tradeArtifactID name = Some i")
    case True
    then have "?f x d = recoverTrade E i d" by (simp add: x)
    then show ?thesis using orphan_blocks [OF Cons.prems(1), of E] by (auto simp: io_bind_def)
  next
    case False
    then have "orphan i d1" "(idHex i @ ''.committed.json'', File c) \<in> set xs"
      using r Cons.prems orphan_stays [OF Cons.prems(1), of _ E] tradeArtifactID_committed [of i]
      by (auto simp: x io_pure_def split: if_splits option.splits) (metis snd_conv)+
    then show ?thesis using Cons.IH [of d1] r by (cases r) (simp_all add: io_bind_def)
  qed
qed simp

lemma orphan_blocks_recovery: "orphan i d \<Longrightarrow> \<exists>e. fst (recoverTransactions E d) = Inl e"
proof -
  assume o: "orphan i d"
  then obtain c where "look d (committedPath i) = Some (File c)"
    by (auto simp: orphan_def fileAt_def split: option.splits entry.splits)
  then have "(committedPath i, File c) \<in> set (d_ents d)" by (simp add: look_def map_of_SomeD)
  then have "(idHex i @ ''.committed.json'', File c) \<in> set (map (\<lambda>(p, x). (last p, x))
       (filter (\<lambda>(p, x). length p = 2 \<and> hd p = ''trades'') (d_ents d)))"
    by (force simp: committedPath_def)
  then have "(idHex i @ ''.committed.json'', File c) \<in> set (sort_key fst (map (\<lambda>(p, x). (last p, x))
       (filter (\<lambda>(p, x). length p = 2 \<and> hd p = ''trades'') (d_ents d))))" by simp
  from recover_blocked [OF o this, of E] show ?thesis
    by (simp add: recoverTransactions_def os_ReadDir_def split: option.split entry.split)
qed

lemma orphan_blocks_store:
  assumes "orphan i d"
  shows "\<exists>e. fst (NewJSONStore E d) = Inl e"
proof -
  let ?m = "io_each (\<lambda>dir. os_MkdirAll [dir]) [''trades'', ''inventory'', ''flow'', ''prices'']"
  have "touches (\<lambda>_. False) ?m" by (intro touches_each touch)
  obtain r d1 where m: "?m d = (r, d1)" by force
  have "orphan i d1" using touchesD [OF \<open>touches (\<lambda>_. False) ?m\<close> m] assms by (simp add: orphan_def)
  then show ?thesis using orphan_blocks_recovery [of i d1 E] m
    by (cases r) (auto simp: NewJSONStore_def io_bind_def simp del: io_each.simps)
qed

text \<open>
  A run that leaves such a record: everything works but the \<open>Sync\<close> of the executed marker. The new
  state is on the disk, the caller is told that the trade failed, and the next start fails.
\<close>
definition blank :: "fault list \<Rightarrow> disk" where
  "blank fs = \<lparr>d_ents = [([''trades''], Dir)], d_faults = fs, d_crashed = False, d_temp = 0\<rparr>"

lemma free_temp_hit: "look d (temp_name p s n) = None \<Longrightarrow> free_temp 10000 d p s n = Some n"
  using free_temp.simps(2) [of 9999 d p s n] by simp

lemma dec0: "dec_nat 0 = ''0''" by code_simp

lemmas eval_io = io_bind_def io_pure_def io_ignore_def io_finally_def io_on_error_def syscall_def
  os_MkdirAll_def os_CreateExclusive_def os_Create_def os_Write_def os_Sync_def os_Close_def os_Remove_def os_Rename_def
  os_CreateTemp_def fsyncDir_def os_WriteFile_def writeJSONAtomic_def createMarker_def reserveExecutedTrade_def
  writeTradeRecordExclusive_def writeExecutedMarkerExclusive_def writeCommitRecordExclusive_def preflightTarget_def
  moveExistingAside_def stageJSONFile_def undoFile_def rollback_def cleanup_def removeStaged_def applyFile_def
  writeJSONBatchAtomic_def writeTransactionManifest_def commitTrade_def runTrade_def PersistExecutedTradeJSON_def
  json_MarshalIndent_def with_suffix_def look_def put_def del_def temp_name_def trade_paths



definition marker_fails :: "err \<Rightarrow> fault list" where
  "marker_fails e = replicate 36 Works @ [Fails e]"

lemma marker_fails: "marker_fails e = [Works, Works, Works, Works, Works, Works, Works, Works, Works, Works, Works, Works, Works, Works, Works, Works, Works, Works, Works, Works, Works, Works, Works, Works, Works, Works, Works, Works, Works, Works, Works, Works, Works, Works, Works, Works, Fails e]"
  by (simp add: marker_fails_def eval_nat_numeral)

lemma persist_marker_fails:
  assumes "PersistExecutedTradeJSON i tx [] (blank (marker_fails e)) = (r, d)"
  shows "r = Inl e \<and> orphan i d \<and> fileAt d (tradePath i) = Some (Doc (TradeDoc tx))"
  using assms
  by (auto simp: eval_io blank_def Let_def tradeFiles_def relativeTargets_def free_temp_hit dec0
      marker_fails HasExecutedTradeJSON_def file_exists_def isFile_def orphan_def fileAt_def)


section \<open>No replay on the JSON store\<close>

lemma json_no_replay:
  fixes s b s2 b2 :: Node
  assumes x: "executeSignedTrade E json_store h s b q ss bs f = (Inr tx, s', b', h')"
    and p: "n_Store s = Some p \<or> n_Store b = Some p"
    and l: "(store_step E)\<^sup>*\<^sup>* (h' p) (h2 p)" and p2: "n_Store s2 = Some p \<or> n_Store b2 = Some p"
  shows "\<exists>e. fst (executeSignedTrade E json_store h2 s2 b2 q ss bs f2) = Inl e"
proof (rule json.no_replay [OF x _ p p2])
  show "\<forall>j. HasExecutedTrade json_store (h' p) j \<longrightarrow> HasExecutedTrade json_store (h2 p) j"
    using store_steps_keep [OF l] by (simp add: json_store_def)
qed simp

end
