(* ===== verification/World.thy ===== *)
theory World
  imports Liveness Calm Recovery
begin

text \<open>
  A concrete deal, at which the properties of trades are witnessed: Alice sells one of her units to
  Bob for one of his. The hash of this world numbers the four values of the transaction, and every
  signature verifies. Both parties have the price 1 of both units in their caches, so that the deal
  is accepted; the observed price of the trade is 1 again.
\<close>

section \<open>The environment\<close>

definition aUnit :: UnitID where "aUnit = UnitID 1"
definition bUnit :: UnitID where "bUnit = UnitID 2"
definition aliceID :: NodeID where "aliceID = NodeID 1"
definition bobID :: NodeID where "bobID = NodeID 2"

definition one :: amount where "one = 1000000"

definition deal :: Quote where
  "deal = \<lparr>q_Seller = aliceID, q_Buyer = bobID, q_SellUnit = aUnit, q_BuyUnit = bUnit,
     q_SellAmount = one, q_BuyAmount = one, q_SellerAsk = Fin 1, q_BuyerBid = Fin 1,
     q_Executable = True, q_Reason = ''executable'', q_Timestamp = 100\<rparr>"

fun position :: "'a \<Rightarrow> 'a list \<Rightarrow> nat" where
  "position x [] = 0"
| "position x (y # ys) = (if x = y then 0 else Suc (position x ys))"

definition W :: env where
  "W = \<lparr>blake3_Sum256 = (\<lambda>bs. of_nat (Suc (position (Inr bs) (map valuePreimage (tradeValues deal 100))))),
     ed25519_Sign = (\<lambda>_ _. replicate 64 0), ed25519_Verify = (\<lambda>_ _ _. True),
     xchacha_Seal = (\<lambda>_ _ p _. p), xchacha_Open = (\<lambda>_ _ c _. Inr c), math_Exp = (\<lambda>_. Fin 1)\<rparr>"

lemma differing_preimages: "stripID v \<noteq> stripID w \<Longrightarrow> valuePreimage v \<noteq> valuePreimage w"
  using valuePreimage_inj valuePreimage_total by metis

lemma ids_differ_deal: "ids_differ W deal 100"
proof -
  obtain v1 v2 v3 v4 where v: "tradeValues deal 100 = [v1, v2, v3, v4]"
    "v_CreatedAt v1 = 100" "v_CreatedAt v2 = 101" "v_CreatedAt v3 = 102" "v_CreatedAt v4 = 103"
    by (simp add: tradeValues_def plainValue_def)
  obtain p1 p2 p3 p4 where p: "valuePreimage v1 = Inr p1" "valuePreimage v2 = Inr p2" "valuePreimage v3 = Inr p3" "valuePreimage v4 = Inr p4"
    using valuePreimage_total by metis
  have "v_CreatedAt (stripID v) = v_CreatedAt v" for v by (simp add: stripID_def)
  then have "stripID v \<noteq> stripID w" if "v_CreatedAt v \<noteq> v_CreatedAt w" for v w using that by metis
  then have "distinct [p1, p2, p3, p4]"
    using differing_preimages [of v1 v2] differing_preimages [of v1 v3] differing_preimages [of v1 v4]
      differing_preimages [of v2 v3] differing_preimages [of v2 v4] differing_preimages [of v3 v4] v p by auto
  then have "map (ValueIDFor W) (tradeValues deal 100) = map (\<lambda>n. Inr (ValueID n)) [1, 2, 3, 4]"
    using p by (auto simp: v(1) ValueIDFor_def HashBytes_def W_def)
  then show ?thesis by (simp add: ids_differ_def)
qed

section \<open>The parties\<close>

definition onePrice :: PriceResult where
  "onePrice = \<lparr>pr_FeatureScore = Fin 0, pr_SeedPrice = Fin 1, pr_MarketPrice = Fin 0, pr_HasMarketPrice = False,
     pr_Lambda = Fin 0, pr_FinalPrice = Fin 1\<rparr>"

definition keyOf :: "NodeID \<Rightarrow> PrivateKey" where "keyOf nid = replicate 32 0 @ NodeID_Bytes nid"

definition party :: "NodeID \<Rightarrow> UnitID \<Rightarrow> amount \<Rightarrow> nat option \<Rightarrow> Node" where
  "party nid unit a store =
     (NewBare 100 nid)\<lparr>n_PublicKey := NodeID_Bytes nid, n_PrivateKey := keyOf nid, n_Inventory := \<lparr>Holdings = [(nid, [(unit, a)])]\<rparr>,
       n_PriceState := [(aUnit, onePrice), (bUnit, onePrice)],
       n_PriceConfig := \<lparr>pc_BasePrice = Fin 1, pc_Weights = \<lparr>fw_Cost = Fin 1, fw_Age = Fin 0, fw_Stability = Fin 0\<rparr>,
         pc_VolumeThreshold = 0, pc_DecayK = Fin 0\<rparr>,
       n_Store := store, n_AllowEphemeralReplayUnsafe := True\<rparr>"

definition alice :: "amount \<Rightarrow> nat option \<Rightarrow> Node" where "alice a store = party aliceID aUnit a store"
definition bob :: Node where "bob = party bobID bUnit (2 * one) None"

lemma party_fields [simp]:
  "n_ID (party nid unit a store) = nid" "n_NowUnix (party nid unit a store) = 100" "n_Store (party nid unit a store) = store"
  "n_ExecutedTrades (party nid unit a store) = []" "n_Flow (party nid unit a store) = []"
  "n_SettledVolume (party nid unit a store) = []" "held (party nid unit a store) = [(unit, a)]"
  "n_PublicKey (party nid unit a store) = NodeID_Bytes nid" "n_AllowEphemeralReplayUnsafe (party nid unit a store)"
  by (simp_all add: party_def NewBare_def held_def gm_get_def)

lemma party_ok: "node_ok (party nid unit a store)" "inv_ok (n_Inventory (party nid unit a store))"
  by (simp_all add: node_ok_def party_def NewBare_def inv_ok_def gm_ok_def)

lemma party_balance: "balanceLocked (party nid unit a store) u = (if u = unit then a else 0)"
  by (simp add: balanceLocked_def party_def NewBare_def Inventory_Get_def gm_get_def gm_has_def)

lemma units_differ [simp]: "aUnit \<noteq> bUnit" "bUnit \<noteq> aUnit" "aliceID \<noteq> bobID" "bobID \<noteq> aliceID"
  "aliceID \<noteq> NodeID 0" "bobID \<noteq> NodeID 0"
  by (simp_all add: aUnit_def bUnit_def aliceID_def bobID_def)

lemma party_init [simp]: "node_init (party nid unit a store) = party nid unit a store"
  by (simp add: node_init_def party_def)

lemma party_effective: "u \<in> {aUnit, bUnit} \<Longrightarrow> effectivePriceLocked E (party nid unit a store) u = (Fin 1, party nid unit a store)"
  by (auto simp: effectivePriceLocked_def party_def NewBare_def onePrice_def gm_get_def Let_def)

lemma ToFloat_one: "ToFloat one = Fin 1"
  using of_int64_exact [of one] by (simp add: ToFloat_def one_def scale_exact)

lemma one_slack: "fle (Fin 1) (fadd (Fin 1) roundingSlack)"
proof -
  have "rne (1 / 1000000) \<le> (1 :: rat)" using rne_mono [of "1 / 1000000" 1] by simp
  then have fin: "is_fin (fadd (Fin 1) roundingSlack)"
    using slack_fval by (intro is_fin_fadd) (simp_all del: rne_nonneg)
  have "fval (fadd (Fin 1) roundingSlack) = rne (1 + rne (1 / 1000000))"
    using fval_fadd [of "Fin 1" roundingSlack] slack_fval fin by simp
  then show ?thesis using fin rne_mono [of 1 "1 + rne (1 / 1000000)"] by (simp add: fle_fval)
qed

lemma sint_one: "sint one = 1000000" "sint (2 * one) = 2000000"
  by (simp_all add: one_def)

lemma accept_deal:
  "sint one \<le> sint a \<Longrightarrow> acceptQuoteLocked E (alice a st) deal = (True, alice a st)"
  "acceptQuoteLocked E bob deal = (True, bob)"
  using one_slack
  by (simp_all add: acceptQuoteLocked_def deal_def alice_def bob_def party_balance party_effective ToFloat_one word_sless_alt sint_one)

lemma room_deal: "sint a \<le> 2 ^ 62 \<Longrightarrow> room deal (alice a st) (q_BuyUnit deal) (q_BuyAmount deal)"
  "room deal bob (q_SellUnit deal) (q_SellAmount deal)"
  by (simp_all add: room_def below_def counters_def deal_def alice_def bob_def party_balance one_def zeroFlow_def)

lemma deal_executes:
  assumes "sint one \<le> sint a" "sint a \<le> 2 ^ 62"
  shows "\<exists>tx s b. ExecuteTrade W (alice a None) bob deal = (Inr tx, s, b)"
proof (rule ExecuteTrade_live)
  show "ids_differ W deal (maxOf (n_NowUnix (alice a None)) (n_NowUnix bob))"
    using ids_differ_deal by (simp add: maxOf_def alice_def bob_def)
  show "fst (acceptQuoteLocked W (alice a None) deal)" "fst (acceptQuoteLocked W bob deal)"
    by (simp_all add: accept_deal assms)
  show "room deal (alice a None) (q_BuyUnit deal) (q_BuyAmount deal)" "room deal bob (q_SellUnit deal) (q_SellAmount deal)"
    using room_deal assms by blast+
qed (use assms in \<open>simp_all add: deal_def alice_def bob_def party_ok one_def\<close>)

section \<open>The prices after the deal\<close>

definition plainConfig :: PriceConfig where
  "plainConfig = \<lparr>pc_BasePrice = Fin 1, pc_Weights = \<lparr>fw_Cost = Fin 1, fw_Age = Fin 0, fw_Stability = Fin 0\<rparr>,
     pc_VolumeThreshold = 0, pc_DecayK = Fin 0\<rparr>"

definition marketPrice :: PriceResult where
  "marketPrice = \<lparr>pr_FeatureScore = Fin 0, pr_SeedPrice = Fin 0, pr_MarketPrice = Fin 1,
     pr_HasMarketPrice = True, pr_Lambda = Fin 0, pr_FinalPrice = Fin 0\<rparr>"

lemma price_of_one_trade:
  "ComputePrice E zeroFeatures [\<lparr>ob_Price = Fin 1, ob_Volume = one, ob_Weight = Fin 1, ob_TimeUnix = t\<rparr>] v l now plainConfig
     = marketPrice"
  by (simp add: ComputePrice_def WeightedVWAP_def vwapStep_def validTradeObservation_def Let_def
    word_sless_alt sint_one ToFloat_one VolumeLambda_def BlendPrice_def SeedPrice_def FeatureScore_def Normalize_def
    zeroFeatures_def plainConfig_def nonNegative_def clamp01_def fsub_def fzero_def ApplyDecay_def of_int64_def marketPrice_def)

definition pricing :: "Node \<Rightarrow> (UnitID, PriceResult) gomap \<Rightarrow> UnitID list \<Rightarrow> bool" where
  "pricing n ps us \<longleftrightarrow> n_PriceState n = ps \<and> n_PriceConfig n = plainConfig \<and> n_Features n = []
     \<and> (\<forall>u \<in> set us. gm_get [] (n_TradeHistory n) u = [])"

lemma plain_init: "n_PriceConfig n = plainConfig \<Longrightarrow> node_init n = n"
  by (simp add: node_init_def plainConfig_def)

lemma flow_pricing:
  "recordTradeFlow n u a = Inr m \<Longrightarrow> pricing n ps us \<Longrightarrow> pricing m ps us"
  "recordPaymentFlow n u a = Inr m \<Longrightarrow> pricing n ps us \<Longrightarrow> pricing m ps us"
  by (auto simp: recordTradeFlow_def recordPaymentFlow_def pricing_def Let_def node_init_def plainConfig_def)

lemma observe_pricing:
  assumes "observe E w n u (Fin 1) one now = Inr m" "pricing n ps (u # us)" "u \<notin> set us"
    and "map_of ps u = Some onePrice"
  shows "pricing m (gm_put ps u marketPrice) us"
proof -
  have w: "\<not> one \<le>s 0" by (simp add: word_sle_eq sint_one)
  have p: "gm_get zeroFeatures [] u = zeroFeatures" by simp
  show ?thesis using assms
    by (auto simp: price_of_one_trade observe_def recordObservation_def Let_def computePriceLocked_def pricing_def w onePrice_def
        plain_init split: sum.splits if_splits)
qed

lemma deal_prices:
  assumes "preparedTradeState E (alice a st) b deal now = Inr (ns, nb)"
  shows "n_PriceState ns = [(aUnit, marketPrice), (bUnit, marketPrice)]"
proof -
  let ?ps = "[(aUnit, onePrice), (bUnit, onePrice)]"
  have p: "fdiv (ToFloat one) (ToFloat one) = Fin 1" by (simp add: ToFloat_one)
  from assms obtain i s0 where r: "recordSuccessfulTrade E (cloneRuntimeState (alice a st)\<lparr>n_Inventory := i\<rparr>) s0 deal now = Inr (ns, nb)"
    by (auto simp: preparedTradeState_def Let_def)
  from r obtain s1 s2 s3 s4 w1 w2 where
    1: "recordTradeFlow (cloneRuntimeState (alice a st)\<lparr>n_Inventory := i\<rparr>) aUnit one = Inr s1" and
    2: "recordTradeFlow s1 bUnit one = Inr s2" and 3: "recordPaymentFlow s2 bUnit one = Inr s3" and
    4: "observe E w1 s3 aUnit (Fin 1) one now = Inr s4" and 5: "observe E w2 s4 bUnit (Fin 1) one now = Inr ns"
    by (auto simp: recordSuccessfulTrade_def Let_def deal_def p simp del: fdiv.simps)
  have "gm_ok ?ps" by (simp add: gm_ok_def)
  then have "pricing (cloneRuntimeState (alice a st)\<lparr>n_Inventory := i\<rparr>) ?ps [aUnit, bUnit]"
    by (simp add: pricing_def cloneRuntimeState_def alice_def party_def NewBare_def copyPriceState_def copyMap_ok plainConfig_def
        copyFeatures_def copyTradeHistory_def)
  note flow_pricing(2) [OF 3 flow_pricing(1) [OF 2 flow_pricing(1) [OF 1 this]]]
  from observe_pricing [OF 4 this] have "pricing s4 (gm_put ?ps aUnit marketPrice) [bUnit]" by simp
  from observe_pricing [OF 5 this] show ?thesis by (simp add: pricing_def gm_put_def)
qed

lemma finite_pricesI:
  assumes "gm_ok (pn_PriceState s)" "\<forall>(u, r) \<in> set (pn_PriceState s). \<forall>x \<in> set (result_floats r). \<not> fisnan x \<and> \<not> fisinf x"
  shows "finite_prices s"
proof -
  have h: "pd_Prices (priceDTOFor (pn_ID s) (pn_PriceState s)) = Some (map (\<lambda>(u, r). (unitHex u, r)) (pn_PriceState s))"
    using hex_keys [of "pn_PriceState s" "\<lambda>r. r"] assms(1) by (simp add: priceDTOFor_def)
  have "List.find (\<lambda>f. fisnan f \<or> fisinf f) (concat (map (result_floats \<circ> snd)
          (sort_key fst (map (\<lambda>(u, r). (unitHex u, r)) (pn_PriceState s))))) = None"
    using assms(2) by (auto simp: find_None_iff)
  then show ?thesis by (simp add: finite_prices_def Let_def json_MarshalIndent_def h)
qed

section \<open>The signed deal\<close>

definition signed :: "NodeID \<Rightarrow> SignedTradeIntent" where
  "signed nid = \<lparr>si_Intent = IntentFromQuote deal nid 100, si_PublicKey = NodeID_Bytes nid, si_Signature = replicate 64 0\<rparr>"

lemma authorized_deal:
  assumes "st = None \<or> f"
  shows "checkAuthorizations W (alice a st) bob deal (signed aliceID) (signed bobID) f = Inr ()"
proof -
  have n: "NodeIDFromPublicKey (NodeID_Bytes nid) = Inr nid" for nid
    by (simp add: NodeIDFromPublicKey_def NodeID_Bytes_def)
  have t: "ti_Timestamp (IntentFromQuote q nid t) = t" "ti_Party (IntentFromQuote q nid t) = nid" for q nid t
    by (simp_all add: IntentFromQuote_def)
  have v: "VerifyTradeIntent W (signed nid)" for nid
    using tradeIntentPreimage_total [of "IntentFromQuote deal nid 100"]
    by (auto simp: VerifyTradeIntent_def signed_def n t validateTradeIntent_def Verify_def W_def word_sle_eq)
  show ?thesis using assms v
    by (auto simp: checkAuthorizations_def signed_def deal_def alice_def bob_def n IntentFromQuote_def publicKeyMatchesNode_def
        samePublicKey_def intentMatchesQuote_def economicTermsMatch_def validateSignedIntentFreshness_def
        requireDurableReplayGuard_def maxOf_def MaxSignedIntentAge_def word_sle_eq word_sless_alt Let_def)
qed

lemma deal_signed_with:
  fixes E :: "'x env_scheme" and b :: Node
  assumes a: "sint one \<le> sint a" "sint a \<le> 2 ^ 62" and st: "st = None \<or> calm (h (the st)) \<and> fileAt (h (the st)) = (\<lambda>_. None)"
    and ch: "checkAuthorizations E (alice a st) b deal (signed aliceID) (signed bobID) f = Inr ()"
    and b: "fst (acceptQuoteLocked E b deal)" "room deal b (q_SellUnit deal) (q_SellAmount deal)" "node_ok b"
      "\<forall>(u, x) \<in> set (held b). 0 < sint x" "n_Store b = None" "n_ExecutedTrades b = []"
    and d: "ids_differ E deal 100"
  shows "\<exists>tx s' b' h'. executeSignedTrade E json_store h (alice a st) b deal (signed aliceID) (signed bobID) f = (Inr tx, s', b', h')"
proof -
  obtain tx where tx: "buildTradeTx E (q_Seller deal) (q_Buyer deal) deal (ti_Timestamp (si_Intent (signed aliceID))) = Inr tx"
    using buildTradeTx_ok [of E deal 100] d by (auto simp: signed_def IntentFromQuote_def)
  obtain i where i: "replayID E deal (signed aliceID) (signed bobID) = Inr i"
    using AuthorizedTradeID_total tx by (fastforce simp: replayID_def)
  have f0: "\<not> HasExecutedTradeJSON (h p) j" if "st = Some p" for p j
    using st that by (auto simp: HasExecutedTradeJSON_iff)
  show ?thesis
  proof (rule executeSigned_live)
    show "fst (acceptQuoteLocked E (alice a st) deal)" by (simp add: accept_deal a)
    show "room deal (alice a st) (q_BuyUnit deal) (q_BuyAmount deal)" using room_deal a by blast
    show "ids_differ E deal (ti_Timestamp (si_Intent (signed aliceID)))"
      using d by (simp add: signed_def IntentFromQuote_def)
    show "not_replayed json_store h (alice a st) i" "not_replayed json_store h b i"
      using f0 b(5,6) by (auto simp: not_replayed_def alice_def json_store_def split: option.split)
    show "fst (persistSignedTrade json_store h (alice a st) b i auth ns nb) = Inr ()"
      if "preparedTradeState E (snd (acceptQuoteLocked E (alice a st) deal)) (snd (acceptQuoteLocked E b deal)) deal
          (ti_Timestamp (si_Intent (signed aliceID))) = Inr (ns, nb)" for auth ns nb
    proof (cases st)
      case (Some p)
      have "n_PriceState ns = [(aUnit, marketPrice), (bUnit, marketPrice)]"
        using that deal_prices by (simp add: accept_deal a)
      then have "finite_prices (persistedNodeState aliceID ns)"
        by (intro finite_pricesI) (simp_all add: persistedNodeState_def gm_ok_def marketPrice_def)
      then obtain d' where "PersistExecutedTradeJSON i auth [persistedNodeState aliceID ns] (h p) = (Inr (), d')"
        using persist_json_live [of "h p" i "[persistedNodeState aliceID ns]" auth] st Some f0 by auto
      then show ?thesis using Some b(5)
        by (simp add: persistSignedTrade_def alice_def persistAt_def json_store_def)
    qed (simp add: persistSignedTrade_def alice_def b(5))
  qed (use a b ch i in \<open>simp_all add: deal_def alice_def party_ok sint_one\<close>)
qed

lemma deal_signed:
  assumes "sint one \<le> sint a" "sint a \<le> 2 ^ 62" and st: "st = None \<or> f \<and> calm (h (the st)) \<and> fileAt (h (the st)) = (\<lambda>_. None)"
  shows "\<exists>tx s b h'. executeSignedTrade W json_store h (alice a st) bob deal (signed aliceID) (signed bobID) f = (Inr tx, s, b, h')"
  by (rule deal_signed_with) (use assms ids_differ_deal room_deal(2) accept_deal(2) [of W] authorized_deal [of st f a] in
    \<open>auto simp: bob_def party_ok sint_one\<close>)

lemma deal_quoted:
  "QuoteSell W (alice (2 * one) None) (Some bob) aUnit bUnit one (Fin 0) = (Inr deal, alice (2 * one) None, Some bob)"
proof -
  have r: "rnd 2 = Fin 2" using rnd_of_nat [of 2] by simp
  have f: "FromFloat (Fin 1) = Inr one" using FromFloat_ToFloat [of one] by (simp add: ToFloat_one FromFloat_def sint_one)
  show ?thesis
    by (simp add: QuoteSell_def quoteSellLocked_def alice_def bob_def party_balance party_effective ToFloat_one
        word_sless_alt word_sle_eq sint_one r f deal_def Let_def)
qed


definition emptyDisk :: disk where
  "emptyDisk = \<lparr>d_ents = [], d_faults = [], d_crashed = False, d_temp = 0\<rparr>"

lemma deal_signed_on_disk:
  "\<exists>tx s' b' h'. executeSignedTrade W json_store (\<lambda>_. emptyDisk) (alice (2 * one) (Some 0)) bob deal
     (signed aliceID) (signed bobID) True = (Inr tx, s', b', h')"
  by (rule deal_signed) (auto simp: sint_one emptyDisk_def calm_empty fileAt_def look_def)


text \<open>The holdings after the deal, a store of one party only, and saves on the empty disk.\<close>

lemma deal_holdings:
  assumes "executeSignedTrade E A h (alice (2 * one) st) bob deal ss bs f = (Inr tx, s', b', h')"
  shows "\<forall>(u, a) \<in> set (held s'). 0 < sint a"
proof -
  from assms obtain s1 b1 i ns nb where u: "untouched (alice (2 * one) st) s1" and
    p: "prepareSignedTrade E A h s1 b1 deal ss bs = Inr (tx, \<lparr>at_Tx = tx, at_SellerAuth = ss, at_BuyerAuth = bs\<rparr>, i, ns, nb)" and
    s': "s' = commitPreparedState (reserve i s1) ns"
    by (rule executeSigned_Inr)
  have n: "n_Inventory s1 = \<lparr>Holdings = [(aliceID, [(aUnit, 2 * one)])]\<rparr>" "n_ID s1 = aliceID"
    using u by (simp_all add: untouched_def alice_def party_def NewBare_def)
  have ok: "inv_ok (n_Inventory s1)" by (simp add: n inv_ok_def gm_ok_def)
  obtain i1 i2 b2 where 1: "Inventory_Sub (n_Inventory s1) aliceID aUnit one = Inr i1" "inv_credit i1 aliceID bUnit one = Inr i2"
    "recordSuccessfulTrade E (cloneRuntimeState s1\<lparr>n_Inventory := i2\<rparr>) b2 deal (ti_Timestamp (si_Intent ss)) = Inr (ns, nb)"
    using prepareSigned_Inr(3) [OF p] ok by (auto simp: preparedTradeState_def Let_def deal_def n cloneRuntimeState_keeps)
  then have "n_Inventory ns = i2" using recordSuccessfulTrade_keeps by (fastforce simp: keeps_def)
  moreover have "i1 = \<lparr>Holdings = [(aliceID, [(aUnit, one)])]\<rparr>"
    using 1(1) by (simp add: n Inventory_Sub_def Let_def Inventory_Get_def gm_get_def gm_has_def gm_put_def Sub_def sint_one word_sless_alt)
  moreover have "CheckedAdd 0 one = Inr one" by (simp add: CheckedAdd_Inr)
  ultimately have "n_Inventory ns = \<lparr>Holdings = [(aliceID, [(aUnit, one), (bUnit, one)])]\<rparr>"
    using 1(2) by (simp add: inv_credit_def Inventory_AddChecked_def Let_def gm_get_def gm_has_def gm_put_def sint_one)
  then show ?thesis by (simp add: s' held_def commitPreparedState_def n reserve_def gm_get_def sint_one)
qed

lemma one_sided_refused:
  "\<exists>e. checkAuthorizations W (alice a (Some p)) bob deal ss bs False = Inl e"
proof (cases "checkAuthorizations W (alice a (Some p)) bob deal ss bs False")
  case (Inr u)
  then have "requireDurableReplayGuard (alice a (Some p)) bob False = Inr ()" using checkAuthorizations_Inr(13) by fastforce
  then show ?thesis by (simp add: requireDurableReplayGuard_def alice_def bob_def)
qed simp

lemma calm_emptyDisk: "calm emptyDisk" "d_temp emptyDisk = 0"
  using calm_empty by (simp_all add: emptyDisk_def)

lemma saves_on_empty_disk:
  "\<exists>d1. SaveInventory aliceID iv emptyDisk = (Inr (), d1)" "\<exists>d2. SaveFlow aliceID fl emptyDisk = (Inr (), d2)"
  "\<exists>d3. SavePriceState aliceID [(aUnit, onePrice)] emptyDisk = (Inr (), d3)"
proof -
  have w: "\<exists>d'. writeJSONAtomic [x, nodeHex aliceID @ ''.json''] v emptyDisk = (Inr (), d')" if "json_MarshalIndent v = Inr v" for x v
  proof -
    have "\<not> scratch [x, nodeHex aliceID @ ''.json'']" by (simp add: scratch_def)
    then have "\<not> future 0 [x, nodeHex aliceID @ ''.json'']" by (rule not_scratch_not_future)
    moreover have "\<not> future 0 [x, (nodeHex aliceID @ ''.json'') @ ''.tmp'']" by (rule json_tmp_free)
    ultimately show ?thesis
      using calm_writeJSONAtomic [OF calm_emptyDisk(1), of x "nodeHex aliceID @ ''.json''" v v] that
      by (auto simp: writable_def calm_emptyDisk)
  qed
  show "\<exists>d1. SaveInventory aliceID iv emptyDisk = (Inr (), d1)"
    unfolding SaveInventory_def inventoryPath_def by (rule w) (simp add: json_MarshalIndent_def)
  show "\<exists>d2. SaveFlow aliceID fl emptyDisk = (Inr (), d2)"
    unfolding SaveFlow_def flowPath_def by (rule w) (simp add: json_MarshalIndent_def)
  have "finite_prices \<lparr>pn_ID = aliceID, pn_Inventory = NewInventoryState, pn_Flow = [], pn_PriceState = [(aUnit, onePrice)]\<rparr>"
    by (rule finite_pricesI) (simp_all add: gm_ok_def onePrice_def)
  then show "\<exists>d3. SavePriceState aliceID [(aUnit, onePrice)] emptyDisk = (Inr (), d3)"
    unfolding SavePriceState_def pricePath_def by (intro w) (simp add: finite_prices_def Let_def)
qed

lemma early_stop:
  assumes "PersistExecutedTradeJSON i tx [] (blank [Works, Works, Works, Crash]) = (r, d)"
  shows "d_crashed d \<and> fileAt d (reservationPath i) \<noteq> None"
  using assms
  by (auto simp: eval_io blank_def HasExecutedTradeJSON_def file_exists_def isFile_def fileAt_def)

end
