(* ===== verification/Coins.thy ===== *)
theory Coins
  imports Policy World
begin

text \<open>
  A concrete issuance and a concrete transfer, at which the properties of values are witnessed: Alice
  issues five millionths of a coin to herself and sends them on to Bob. In this world the hash of
  everything is zero, which does no harm where only one value is spent.
\<close>

definition W0 :: env where "W0 = W\<lparr>blake3_Sum256 := \<lambda>_. 0\<rparr>"

definition aliceKey :: PrivateKey where "aliceKey = replicate 32 0 @ hashBytes 1"

lemma aliceKey_signs: "signs_verify W0 aliceKey"
  by (simp add: signs_verify_def W0_def W_def)

lemma unitPreimage_total: "\<exists>p. unitPreimage issuer name = Inr p"
  by (simp add: unitPreimage_def EncodeFields_def)

lemma zero_ids:
  "ValueIDFor W0 v = Inr (ValueID 0)" "IssueTxID W0 tx = Inr (TxID 0)" "TransferTxID W0 x = Inr (TxID 0)"
  "NewUnitID W0 issuer name = Inr (UnitID 0)"
proof -
  obtain p q r s where "valuePreimage v = Inr p" "issuePreimage tx = Inr q" "transferPreimage x = Inr r"
    "unitPreimage issuer name = Inr s"
    using valuePreimage_total issuePreimage_total transferPreimage_total unitPreimage_total by metis
  then show "ValueIDFor W0 v = Inr (ValueID 0)" "IssueTxID W0 tx = Inr (TxID 0)" "TransferTxID W0 x = Inr (TxID 0)"
    "NewUnitID W0 issuer name = Inr (UnitID 0)"
    by (simp_all add: ValueIDFor_def IssueTxID_def TransferTxID_def NewUnitID_def HashBytes_def W0_def W_def)
qed

lemma alice_keys: "publicKeyFromPrivate aliceKey = Inr (hashBytes 1)" "NodeIDFromPublicKey (hashBytes n) = Inr (NodeID n)"
  "Sign W0 aliceKey m = Inr (replicate 64 0)"
  by (simp_all add: publicKeyFromPrivate_def aliceKey_def ed25519_Public_def NodeIDFromPublicKey_def Sign_def W0_def W_def)

definition coin :: Value where
  "coin = \<lparr>v_ID = ValueID 0, v_Unit = UnitID 0, v_Amount = 5, v_Owner = aliceID, v_CreatedAt = 0,
     v_Issuer = aliceID, v_ExpiryUnix = 900, v_Depth = 0\<rparr>"

lemma coin_issued: "\<exists>tx. NewIssueTx W0 aliceKey (hashBytes 1) ''coin'' 5 900 = Inr (tx, coin)"
  using issuePreimage_total
  by (simp add: NewIssueTx_def alice_keys zero_ids Let_def coin_def aliceID_def isZeroNodeID_iff)

definition payment :: Value where
  "payment = coin\<lparr>v_Owner := bobID, v_ExpiryUnix := 0\<rparr>"

definition paid :: TransferTx where
  "paid = \<lparr>x_ID = TxID 0, x_Inputs = [ValueID 0], x_Outputs = [payment\<lparr>v_ExpiryUnix := 900, v_Depth := 1\<rparr>],
     x_Author = aliceID, x_Signature = replicate 64 0\<rparr>"

lemma coin_inputs: "canonicalInputsForTransfer W0 [ValueID 0] [coin] = Inr [coin]"
  by (simp add: canonicalInputsForTransfer_def indexInput_def selectInput_def zero_ids coin_def gm_has_def gm_put_def)

lemma coin_sent: "NewTransferTx W0 aliceKey [coin] [payment] = Inr paid"
proof -
  have i: "canonicalUniqueInputs W0 [coin] = Inr [coin]"
    using coin_inputs by (simp add: canonicalUniqueInputs_def coin_def)
  have c: "checkConservation [coin] [payment\<lparr>v_ExpiryUnix := 900, v_Depth := 1, v_ID := ValueID 0\<rparr>] = Inr ()"
    by (simp add: checkConservation_def balanceInput_def balanceOutput_def Let_def coin_def payment_def zeroBalance_def
        gm_get_def gm_put_def CheckedAdd_def add_overflows_def Sub_def word_sless_alt word_sle_eq)
  show ?thesis using c
    by (simp add: NewTransferTx_def alice_keys i zero_ids Let_def checkAuthor_iff nextTransferDepth_def
        normalizeTransferOutputExpiries_def minExpiryStep_def completeOutput_def)
       (simp add: coin_def payment_def paid_def vkey_def gm_get_def gm_put_def aliceID_def bobID_def transferPreimage_total)
qed

definition trusting :: Policy where
  "trusting = \<lparr>po_TrustedIssuers = [(hex_string (NodeID_Bytes aliceID), Fin 1)], po_MinScore = Fin 1,
     po_MaxDepth = 3, po_NowUnix = Some 100\<rparr>"

lemma payment_accepted:
  assumes "ValidateTransferTx W0 (Some paid) [coin] = Inr ()"
  shows "EvaluateTransfer W0 0 (Some trusting) (Some paid) [coin]
    = Inr \<lparr>res_Decision = Accept, res_Score = Fin 1, res_Reasons = [''input issuers trusted'', ''transfer accepted'']\<rparr>"
  using assms by (simp add: EvaluateTransfer_def trusting_def isExpired_def issuerTrust_def IssuerKey_def coin_def paid_def
      payment_def word_sle_eq)

lemma empty_balance [simp]: "Inventory_Get NewInventoryState n u = 0"
  by (simp add: Inventory_Get_def NewInventoryState_def gm_get_def gm_has_def)

lemma coin_applied:
  assumes "NewIssueTx W0 aliceKey (hashBytes 1) ''coin'' 5 900 = Inr (tx, coin)"
  shows "\<exists>iv. ApplyStructuralIssueTx W0 NewInventoryState tx = Inr iv"
proof -
  have t: "i_Outputs tx = [coin]" "i_Unit tx = UnitID 0" "i_ID tx = TxID 0"
    using NewIssueTx_Inr [OF assms] by (auto simp: zero_ids coin_def)
  have "ValidateStructuralIssueTx W0 (Some tx) = Inr ()"
    by (simp add: ValidateStructuralIssueTx_def t zero_ids coin_def aliceID_def)
  moreover obtain iv where "inv_credit NewInventoryState aliceID (UnitID 0) 5 = Inr iv"
    using inv_credit_succeeds [of 5 NewInventoryState aliceID "UnitID 0"]
    by (auto simp: Inventory_Get_def NewInventoryState_def gm_get_def gm_has_def)
  ultimately show ?thesis
    by (simp add: ApplyStructuralIssueTx_def t coin_def Inventory_Copy_eq)
qed

text \<open>A hash that tells apart the byte strings of one authorized trade, and two records of that trade.\<close>

definition W1 :: env where
  "W1 = W\<lparr>blake3_Sum256 := \<lambda>bs. if Inr bs = tradePreimage (at_Tx zeroAuthorized) then 0
     else if Inr bs = tradeIntentPreimage (si_Intent zeroIntent) then 1 else 2\<rparr>"

definition copied :: AuthorizedTradeTx where
  "copied = zeroAuthorized\<lparr>at_Tx := (at_Tx zeroAuthorized)\<lparr>t_ID := TxID 5\<rparr>\<rparr>"

lemma copied_id: "AuthorizedTradeID W1 copied = AuthorizedTradeID W1 zeroAuthorized" "authFits copied" "authFits zeroAuthorized"
  "authPreimages W1 copied = authPreimages W1 zeroAuthorized"
proof -
  have t: "tradePreimage (at_Tx copied) = tradePreimage (at_Tx zeroAuthorized)"
    by (simp add: copied_def tradePreimage_def)
  have a: "authorizedPreimage i j k copied = authorizedPreimage i j k zeroAuthorized" for i j k
    by (simp add: copied_def authorizedPreimage_def)
  show "AuthorizedTradeID W1 copied = AuthorizedTradeID W1 zeroAuthorized"
    using t a by (simp add: AuthorizedTradeID_def TradeTxID_def) (simp add: copied_def)
  show "authFits copied" "authFits zeroAuthorized"
    by (simp_all add: copied_def authFits_def tradeFits_def zeroAuthorized_def zeroIntent_def)
  show "authPreimages W1 copied = authPreimages W1 zeroAuthorized"
    using t a by (simp add: authPreimages_def) (simp add: copied_def)
qed

lemma W1_tells_apart: "inj_on (HashBytes W1) (set (authPreimages W1 zeroAuthorized))"
proof -
  obtain t s where p: "tradePreimage (at_Tx zeroAuthorized) = Inr t" "tradeIntentPreimage (si_Intent zeroIntent) = Inr s"
    using tradePreimage_total tradeIntentPreimage_total by metis
  then have h: "HashBytes W1 bs = (if bs = t then 0 else if bs = s then 1 else 2)" for bs
    by (simp add: HashBytes_def W1_def)
  obtain q where "set (authPreimages W1 zeroAuthorized) = {t, s, q}"
    using p by (auto simp: authPreimages_def Let_def zeroAuthorized_def)
  then show ?thesis by (auto simp: inj_on_def h split: if_splits)
qed

end
