(* ===== verification/Peers.thy ===== *)
theory Peers
  imports Runtime Coins
begin

text \<open>
  Two peers at whom the properties of messages and sessions are witnessed. Their JSON is of one
  conversation: it can read back the one message that is said to it.
\<close>

section \<open>A conversation of one message\<close>

definition codec :: "env \<Rightarrow> Payload \<Rightarrow> Envelope \<Rightarrow> jenv" where
  "codec E p env = \<lparr>blake3_Sum256 = blake3_Sum256 E, ed25519_Sign = ed25519_Sign E, ed25519_Verify = ed25519_Verify E,
     xchacha_Seal = xchacha_Seal E, xchacha_Open = xchacha_Open E, math_Exp = math_Exp E,
     json_Marshal = (\<lambda>x. case x of PayloadJ _ \<Rightarrow> Inr [1] | PayloadFrameJ _ _ \<Rightarrow> Inr [2] | MessageFrameJ _ _ \<Rightarrow> Inr [3]),
     json_Decode = (\<lambda>s bs. case s of PayloadS _ \<Rightarrow> Inr (PayloadJ p, []) | PayloadFrameS \<Rightarrow> Inr (PayloadFrameJ (payload_type p) [1], [])
        | MessageFrameS \<Rightarrow> Inr (MessageFrameJ env [2], [])),
     json_AtEOF = (\<lambda>bs. bs = [])\<rparr>"

lemma keyOf_simps [simp]:
  "ed25519_Public (keyOf nid) = NodeID_Bytes nid" "NodeIDFromPublicKey (NodeID_Bytes nid) = Inr nid"
  "publicKeyFromPrivate (keyOf nid) = Inr (NodeID_Bytes nid)"
  by (simp_all add: keyOf_def ed25519_Public_def NodeIDFromPublicKey_def NodeID_Bytes_def publicKeyFromPrivate_def)

lemma codec_reads:
  assumes "payloadOf (PayloadJ p) = p" "p \<noteq> OtherP"
  shows "payload_reads (codec E p env) (payload_type p) p" "json_reads (codec E p env) (MessageFrameJ env [2])"
  using assms by (auto simp: payload_reads_def json_reads_def codec_def normalizePayload_Inr)

definition good_signatures :: "env \<Rightarrow> bool" where
  "good_signatures E \<longleftrightarrow> (\<forall>k m s b. length (ed25519_Sign E k m) = 64 \<and> ed25519_Verify E b m s)"

lemma codec_signs: "good_signatures E \<Longrightarrow> signs_verify (codec E p env) priv"
  by (simp add: signs_verify_def codec_def good_signatures_def)

text \<open>An envelope does not depend on what JSON reads.\<close>

lemma EnvelopePreimage_total: "\<exists>p. EnvelopePreimage env = Inr p"
  by (simp add: EnvelopePreimage_def EncodeFields_def)

lemma messageIDPreimage_total: "\<exists>p. messageIDPreimage v t s ts n h = Inr p"
  by (simp add: messageIDPreimage_def EncodeFields_def)

lemma codec_simps [simp]:
  "HashBytes (codec E p env) = HashBytes E" "Sign (codec E p env) = Sign E" "MessageID (codec E p env) = MessageID E"
  by (intro ext, simp add: HashBytes_def Sign_def MessageID_def codec_def)+

lemma codec_encodes:
  assumes "payloadOf (PayloadJ q) = q" "q \<noteq> OtherP"
  shows "EncodePayload (codec E p env) (payload_type q) q = Inr [2]"
proof -
  have "normalizePayload (payload_type q) q = Inr q" using assms by (simp add: normalizePayload_Inr)
  then show ?thesis using payload_type_valid [OF assms(2)] by (simp add: EncodePayload_def codec_def MaxMessageBytes_def)
qed

lemma codec_signed:
  assumes "payloadOf (PayloadJ q) = q" "q \<noteq> OtherP" "0 < sint ts" "nonce \<noteq> 0"
  shows "\<exists>env. \<forall>p env0. SignEnvelope (codec E p env0) (keyOf nid) (payload_type q) q ts nonce = Inr (env, [2])"
proof -
  note v = payload_type_valid [OF assms(2)]
  obtain mp where mp: "messageIDPreimage CurrentVersion (payload_type q) nid ts nonce (HashBytes E [2]) = Inr mp"
    using messageIDPreimage_total by blast
  then have mid: "MessageID E CurrentVersion (payload_type q) nid ts nonce (HashBytes E [2]) = Inr (TxID (HashBytes E mp))"
    using assms v by (simp add: MessageID_def CurrentVersion_def isZeroNonce_def word_sle_eq)
  let ?env = "\<lparr>e_Version = CurrentVersion, e_Type = payload_type q, e_MessageID = TxID (HashBytes E mp), e_Sender = nid,
                e_Timestamp = ts, e_Nonce = nonce, e_PayloadHash = HashBytes E [2], e_Signature = []\<rparr>"
  obtain pre where pre: "EnvelopePreimage ?env = Inr pre" using EnvelopePreimage_total by blast
  have k: "length (keyOf nid) = 64" by (simp add: keyOf_def NodeID_Bytes_def)
  have "SignEnvelope (codec E p env0) (keyOf nid) (payload_type q) q ts nonce
      = Inr (?env\<lparr>e_Signature := ed25519_Sign E (keyOf nid) pre\<rparr>, [2])" for p env0
    using assms v mid pre by (simp add: SignEnvelope_def codec_encodes Let_def isZeroNonce_def word_sle_eq Sign_def k)
  then show ?thesis by blast
qed

text \<open>A message that its sender signs, everyone can send, and JSON reads back.\<close>

definition said :: "env \<Rightarrow> NodeID \<Rightarrow> Payload \<Rightarrow> jenv \<Rightarrow> Message \<Rightarrow> bool" where
  "said E nid q J msg \<longleftrightarrow> J = codec E q (m_Envelope msg)
     \<and> SignEnvelope J (keyOf nid) (payload_type q) q 5 1 = Inr (m_Envelope msg, m_PayloadBytes msg)
     \<and> m_PayloadBytes msg = [2] \<and> e_Sender (m_Envelope msg) = nid
     \<and> payload_reads J (payload_type q) q \<and> sendable J msg"

lemma someone_says:
  assumes "payloadOf (PayloadJ q) = q" "q \<noteq> OtherP"
  shows "\<exists>J msg. said E nid q J msg"
proof -
  have n: "0 < sint (5 :: int64)" "(1 :: nonce) \<noteq> 0" by simp_all
  obtain env where e: "\<forall>p env0. SignEnvelope (codec E p env0) (keyOf nid) (payload_type q) q 5 1 = Inr (env, [2])"
    using codec_signed [OF assms n, of E nid] by blast
  have s: "sendable (codec E q env) \<lparr>m_Envelope = env, m_PayloadBytes = [2]\<rparr>"
    using codec_reads(2) [OF assms] by (simp add: sendable_def EncodeMessage_def codec_def MaxMessageBytes_def)
  have "said E nid q (codec E q env) \<lparr>m_Envelope = env, m_PayloadBytes = [2]\<rparr>"
    using e s codec_reads(1) [OF assms] SignEnvelope_Inr(9) [OF e [rule_format]] by (simp add: said_def)
  then show ?thesis by blast
qed

lemma any_message_frames: "m_PayloadBytes m = [2] \<Longrightarrow> \<exists>d. EncodeFrame (codec E p env) m = Inr d"
  by (simp add: EncodeFrame_def EncodeMessage_def EncodePayloadFrame_def codec_def MaxMessageBytes_def encodePayloadFrame_def MaxFrameSize_def)

lemma said_verifies:
  assumes "said E nid q J msg" "good_signatures E"
  shows "VerifyEnvelope J (m_Envelope msg) (m_PayloadBytes msg) (NodeID_Bytes nid) = Inr ()"
proof -
  have "signs_verify J (keyOf nid)" using assms codec_signs by (simp add: said_def)
  then show ?thesis using assms SignEnvelope_verifies(1) by (fastforce simp: said_def)
qed

section \<open>A ping\<close>

definition thePing :: Payload where "thePing = PingP \<lparr>pi_TimeUnix = 7\<rparr>"

lemma thePing_plain: "payloadOf (PayloadJ thePing) = thePing" "thePing \<noteq> OtherP" "payload_type thePing = TypePing"
  by (simp_all add: thePing_def payloadOf_def)

lemma W_signatures: "good_signatures W" "good_signatures W0"
  by (simp_all add: good_signatures_def W_def W0_def)

section \<open>A negotiated deal\<close>

text \<open>Alice is selling to Bob over a session in which both intents have been collected.\<close>

definition dealPayload :: QuoteResponsePayload where
  "dealPayload = \<lparr>qp_RequestID = TxID 8, qp_QuoteID = TxID 9, qp_Seller = aliceID, qp_Buyer = bobID,
     qp_SellUnit = aUnit, qp_BuyUnit = bUnit, qp_SellAmount = one, qp_BuyAmount = one, qp_SellerAsk = Fin 1,
     qp_BuyerBid = Fin 1, qp_Executable = True, qp_Reason = ''executable'', qp_ExpiryUnix = 100\<rparr>"

lemma dealPayload_quote [simp]: "quoteFromResponse dealPayload = deal"
  by (simp add: quoteFromResponse_def dealPayload_def deal_def)

definition seller :: Handler where
  "seller = \<lparr>h_Node = alice (2 * one) (Some 0), h_Session = (NewSession aliceID bobID)
     \<lparr>s_PendingQuotes := [(TxID 9, dealPayload)], s_PendingIntents := [(TxID 9, [signed aliceID, signed bobID])]\<rparr>\<rparr>"

definition shadowFeatures :: AssetFeatures where
  "shadowFeatures = \<lparr>af_Cost = Fin 1, af_Age = Fin 0, af_Stability = Fin 0\<rparr>"

definition shadowPrice :: rat where "shadowPrice = 6004799503160661 / 9007199254740992"

lemma shadow_score: "FeatureScore shadowFeatures (pc_Weights DefaultPriceConfig) = Fin (6004799503160661 / 9007199254740992)"
  by code_simp

lemma shadow_price: "pr_FinalPrice (ComputePrice E shadowFeatures [] v 0 now DefaultPriceConfig) = Fin shadowPrice"
proof -
  have b: "pc_BasePrice DefaultPriceConfig = Fin 1" "pc_DecayK DefaultPriceConfig = Fin 0"
    by (simp_all add: DefaultPriceConfig_def)
  have m: "rnd (6004799503160661 / 9007199254740992) = Fin (6004799503160661 / 9007199254740992)" by code_simp
  show ?thesis
    by (simp add: ComputePrice_def Let_def shadow_score WeightedVWAP_def SeedPrice_def b nonNegative_def clamp01_def m
        ApplyDecay_def shadowPrice_def)
qed

definition shadow :: "'x env_scheme \<Rightarrow> Node" where
  "shadow E = (NewBare 100 bobID)\<lparr>n_PublicKey := NodeID_Bytes bobID,
     n_Inventory := \<lparr>Holdings = [(bobID, [(bUnit, 10 * one)])]\<rparr>,
     n_Features := [(bUnit, shadowFeatures), (aUnit, shadowFeatures)],
     n_PriceState := map (\<lambda>u. (u, ComputePrice E shadowFeatures [] 0 0 100 DefaultPriceConfig)) [bUnit, aUnit]\<rparr>"

lemma shadow_holding: "Inventory_Add NewInventoryState bobID bUnit (one * 10) = Inr \<lparr>Holdings = [(bobID, [(bUnit, 10 * one)])]\<rparr>"
  by (simp add: Inventory_Add_def Inventory_AddChecked_def validAmount_def CheckedAdd_def add_overflows_def NewInventoryState_def
      gm_put_def gm_get_def gm_has_def one_def word_sless_alt word_sle_eq Let_def)

lemma seller_shadow: "attempt (peerShadow E seller bobID bUnit aUnit one) (\<lambda>b. Inr (b\<lparr>n_PublicKey := NodeID_Bytes bobID\<rparr>)) = Inr (shadow E)"
proof -
  have i: "node_init n = n" if "n_PriceConfig n = DefaultPriceConfig" for n
    using that by (simp add: node_init_def DefaultPriceConfig_def)
  have c: "n_PriceConfig (configureUnit E n u) = DefaultPriceConfig" for n u
    by (simp add: configureUnit_def Node_ComputePrice_def computePriceLocked_def Let_def i)
  have o: "one \<le>s 922337203685477580" by (simp add: one_def word_sle_eq)
  show ?thesis
    by (simp add: peerShadow_def Let_def AddInventory_def i c o)
      (simp add: configureUnit_def Node_ComputePrice_def computePriceLocked_def Let_def i shadow_def seller_def
        NewBare_def shadow_holding alice_def shadowFeatures_def gm_put_def gm_get_def)
qed

lemma shadow_accepts: "fst (acceptQuoteLocked E (shadow E) deal)"
proof -
  have p: "fmul (Fin shadowPrice) (Fin 1) = Fin shadowPrice" unfolding shadowPrice_def by code_simp
  have e: "effectivePriceLocked E (shadow E) u = (Fin shadowPrice, shadow E)" if "u \<in> {aUnit, bUnit}" for u
    using that shadow_price [of E 0 100] p
    by (auto simp: effectivePriceLocked_def shadow_def NewBare_def gm_get_def Let_def simp del: fmul.simps)
  have i: "node_init (shadow E) = shadow E" by (simp add: node_init_def shadow_def NewBare_def DefaultPriceConfig_def)
  have b: "balanceLocked (shadow E) bUnit = 10 * one"
    by (simp add: balanceLocked_def shadow_def NewBare_def Inventory_Get_def gm_get_def gm_has_def)
  have q: "\<not> 10 * one <s one" by (simp add: one_def word_sless_alt)
  have n: "n_ID (shadow E) = bobID" by (simp add: shadow_def NewBare_def)
  show ?thesis using one_slack
    by (simp add: acceptQuoteLocked_def i Let_def deal_def e b q ToFloat_one n) (simp add: shadowPrice_def)
qed

lemma codec_env [simp]:
  "ValueIDFor (codec E p env) = ValueIDFor E" "TradeTxID (codec E p env) = TradeTxID E"
  "TradeIntentID (codec E p env) = TradeIntentID E" "AuthorizedTradeID (codec E p env) = AuthorizedTradeID E"
  "VerifyTradeIntent (codec E p env) = VerifyTradeIntent E"
proof -
  have v: "Verify (codec E p env) = Verify E" by (intro ext) (simp add: Verify_def codec_def)
  show "ValueIDFor (codec E p env) = ValueIDFor E" "TradeTxID (codec E p env) = TradeTxID E"
    "TradeIntentID (codec E p env) = TradeIntentID E" "VerifyTradeIntent (codec E p env) = VerifyTradeIntent E"
    by (intro ext, simp add: ValueIDFor_def TradeTxID_def TradeIntentID_def VerifyTradeIntent_iff v)+
  then show "AuthorizedTradeID (codec E p env) = AuthorizedTradeID E"
    by (intro ext) (simp add: AuthorizedTradeID_def)
qed

lemma codec_trades [simp]:
  "checkAuthorizations (codec E p env) = checkAuthorizations E" "ids_differ (codec E p env) = ids_differ E"
  "buildTradeTx (codec E p env) = buildTradeTx E" "replayID (codec E p env) = replayID E"
  "buildAuthorizedTrade (codec E p env) = buildAuthorizedTrade E"
proof -
  show b: "buildTradeTx (codec E p env) = buildTradeTx E"
    by (intro ext) (simp add: buildTradeTx_def tradeValue_def)
  show "checkAuthorizations (codec E p env) = checkAuthorizations E" "ids_differ (codec E p env) = ids_differ E"
    "replayID (codec E p env) = replayID E" "buildAuthorizedTrade (codec E p env) = buildAuthorizedTrade E"
    by (intro ext, simp add: checkAuthorizations_def ids_differ_def replayID_def b buildAuthorizedTrade_def h_buildTradeTx_eq)+
qed

lemma shadow_fits:
  "room deal (shadow E) (q_SellUnit deal) (q_SellAmount deal)" "node_ok (shadow E)"
  "\<forall>(u, x) \<in> set (held (shadow E)). 0 < sint x" "n_Store (shadow E) = None" "n_ExecutedTrades (shadow E) = []"
  by (simp_all add: shadow_def NewBare_def room_def below_def counters_def deal_def node_ok_def inv_ok_def gm_ok_def held_def
      gm_get_def balanceLocked_def Inventory_Get_def gm_has_def zeroFlow_def one_def)

lemma shadow_authorized: "checkAuthorizations W (alice (2 * one) (Some 0)) (shadow E) deal (signed aliceID) (signed bobID) True = Inr ()"
proof -
  have f: "n_ID (shadow E) = n_ID bob" "n_PublicKey (shadow E) = n_PublicKey bob" "n_NowUnix (shadow E) = n_NowUnix bob"
    by (simp_all add: shadow_def NewBare_def bob_def)
  have r: "requireDurableReplayGuard (alice (2 * one) (Some 0)) b True = Inr ()" for b
    by (simp add: requireDurableReplayGuard_def alice_def)
  have "checkAuthorizations W (alice (2 * one) (Some 0)) bob deal (signed aliceID) (signed bobID) True = Inr ()"
    by (rule authorized_deal) simp
  then show ?thesis unfolding checkAuthorizations_def validateSignedIntentFreshness_def f r .
qed

lemma seller_executes:
  "\<exists>tx s' b' hp'. executeSignedTrade (codec W q env) json_store (\<lambda>_. emptyDisk) (alice (2 * one) (Some 0)) (shadow (codec W q env)) deal
     (signed aliceID) (signed bobID) True = (Inr tx, s', b', hp')"
  by (rule deal_signed_with) (use ids_differ_deal shadow_fits [of "codec W q env"] shadow_authorized shadow_accepts in
    \<open>auto simp: sint_one emptyDisk_def calm_empty fileAt_def look_def\<close>)

lemma deal_built: "\<exists>auth i. buildAuthorizedTrade W deal (signed aliceID) (signed bobID) = Inr (auth, i) \<and> i \<noteq> TxID 0
  \<and> at_SellerAuth auth = signed aliceID \<and> at_BuyerAuth auth = signed bobID \<and> AuthorizedTradeID W auth = Inr i"
proof -
  obtain tx where tx: "buildTradeTx W (q_Seller deal) (q_Buyer deal) deal (q_Timestamp deal) = Inr tx"
    using buildTradeTx_ok [of W deal 100] ids_differ_deal by (auto simp: deal_def)
  obtain i where i: "AuthorizedTradeID W \<lparr>at_Tx = tx, at_SellerAuth = signed aliceID, at_BuyerAuth = signed bobID\<rparr> = Inr i"
    using AuthorizedTradeID_total by blast
  have "HashBytes W bs \<noteq> 0" for bs
  proof -
    have p: "position x xs \<le> length xs" for x :: "err + bytes" and xs by (induction xs) auto
    have "unat (of_nat (Suc (position (Inr bs) (map valuePreimage (tradeValues deal 100)))) :: hash)
      = Suc (position (Inr bs) (map valuePreimage (tradeValues deal 100)))"
      using p [of "Inr bs" "map valuePreimage (tradeValues deal 100)"] by (subst unat_of_nat, intro mod_less) (simp add: tradeValues_def)
    then show ?thesis by (metis HashBytes_def W_def env.select_convs(1) nat.distinct(1) unsigned_0)
  qed
  then have "i \<noteq> TxID 0" using i by (auto simp: AuthorizedTradeID_def)
  then show ?thesis using tx i by (auto simp: buildAuthorizedTrade_def h_buildTradeTx_eq)
qed

lemma codec_responds:
  assumes "n_PrivateKey (h_Node h) = keyOf nid" "0 < sint (n_NowUnix (h_Node h))" "payloadOf (PayloadJ p) = p" "p \<noteq> OtherP"
  shows "\<exists>m. SignResponse (codec E q env) (Inr 1) h (payload_type p) p = Inr m \<and> m_PayloadBytes m = [2]"
proof -
  have n: "(1 :: nonce) \<noteq> 0" "keyOf nid \<noteq> []" by (simp_all add: keyOf_def)
  obtain e where "SignEnvelope (codec E q env) (keyOf nid) (payload_type p) p (n_NowUnix (h_Node h)) 1 = Inr (e, [2])"
    using codec_signed [OF assms(3,4,2) n(1)] by blast
  then show ?thesis using assms n by (simp add: SignResponse_def)
qed

lemma seller_negotiates:
  assumes b: "buildAuthorizedTrade W deal (signed aliceID) (signed bobID) = Inr (auth, i)"
    and a: "at_SellerAuth auth = signed aliceID" "at_BuyerAuth auth = signed bobID"
  shows "\<exists>s. authorizedNegotiation (codec W q env) (marked seller env' t) \<lparr>ap_AuthorizedTrade = auth, ap_AuthorizedTradeID = i\<rparr>
    = (Inr (TxID 9, dealPayload), setSession seller s)"
proof -
  have i: "h_intentMatchesQuote (si_Intent (signed nid)) dealPayload" "ti_Party (si_Intent (signed nid)) = nid" for nid
    by (simp_all add: h_intentMatchesQuote_def signed_def IntentFromQuote_def dealPayload_def deal_def)
  have o: "sessionOwnsParties (marked seller env' t) (qp_Seller dealPayload) (qp_Buyer dealPayload)"
    by (simp add: sessionOwnsParties_def seller_def NewSession_def dealPayload_def)
  have s: "s_PendingQuotes (h_Session (marked seller env' t)) = [(TxID 9, dealPayload)]" 
    "s_PendingIntents (h_Session (marked seller env' t)) = [(TxID 9, [signed aliceID, signed bobID])]"
    "s_PendingTrades (h_Session (marked seller env' t)) = []" "s_PendingRequests (h_Session (marked seller env' t)) = []"
    "s_PeerID (h_Session (marked seller env' t)) = bobID" "h_Node (marked seller env' t) = alice (2 * one) (Some 0)"
    by (simp_all add: marked_def seller_def NewSession_def)
  have k: "h_Node seller = alice (2 * one) (Some 0)" "s_PeerID (h_Session seller) = bobID"
    "n_ID (alice (2 * one) (Some 0)) = aliceID" by (simp_all add: seller_def NewSession_def alice_def)
  have now: "n_NowUnix (alice (2 * one) (Some 0)) = 100" by (simp add: alice_def)
  have f: "validatePendingQuoteFreshness (marked seller env' t) dealPayload = Inr ()"
    unfolding validatePendingQuoteFreshness_def s now
    by (simp add: validateQuoteFreshness_def h_isExpired_def dealPayload_def)
  have bd: "bindAuthorizedIntents (marked seller env' t) (TxID 9) auth = Inr ()"
    by (simp add: bindAuthorizedIntents_def s k a i gm_get_def Let_def)
  have m: "setSession (marked seller env' t) x = setSession seller x" for x by (simp add: setSession_def marked_def)
  have p: "qp_Seller dealPayload = aliceID" "qp_Buyer dealPayload = bobID" by (simp_all add: dealPayload_def)
  show ?thesis
    by (intro exI) (simp add: authorizedNegotiation_def Let_def s a i b o [unfolded p] f bd p m)
qed

lemma executeSigned_key:
  assumes "executeSignedTrade E A h s b q ss bs f = (Inr tx, s', b', h')"
  shows "n_PrivateKey s' = n_PrivateKey s" "n_NowUnix s' = n_NowUnix s"
proof -
  from assms obtain s1 i ns where "untouched s s1" "s' = commitPreparedState (reserve i s1) ns" by (rule executeSigned_Inr)
  then show "n_PrivateKey s' = n_PrivateKey s" "n_NowUnix s' = n_NowUnix s"
    by (simp_all add: untouched_def commitPreparedState_def reserve_def)
qed

text \<open>An authorized trade that is negotiated, executes and can be answered.\<close>

lemma authorized_trade_handled:
  assumes "VerifyTradeIntent E (at_SellerAuth auth)" "VerifyTradeIntent E (at_BuyerAuth auth)"
    and "requireSessionCounterparty h (ti_Seller (si_Intent (at_SellerAuth auth))) (ti_Buyer (si_Intent (at_SellerAuth auth))) = Inr ()"
    and "authorizedNegotiation E h \<lparr>ap_AuthorizedTrade = auth, ap_AuthorizedTradeID = i\<rparr> = (Inr (qid, quote), h1)"
    and "executionParties E h1 (quoteFromResponse quote) auth = Inr (s, b)" "n_ID (h_Node h1) = qp_Seller quote"
    and "executeSignedTrade E A hp s b (quoteFromResponse quote) (at_SellerAuth auth) (at_BuyerAuth auth) True = (Inr tx, s', b', hp')"
    and "\<And>h p. h_Node h = s' \<Longrightarrow> \<exists>m. SignResponse E rand h TypeTradeResult (TradeResultP p) = Inr m"
  shows "\<exists>m h'. handleAuthorizedTrade E A hp rand h \<lparr>ap_AuthorizedTrade = auth, ap_AuthorizedTradeID = i\<rparr> = (Inr (Some m, None), h', hp')
    \<and> h_Node h' = s'"
proof -
  have p: "n_ID (h_Node h) = ti_Seller (si_Intent (at_SellerAuth auth)) \<or> n_ID (h_Node h) = ti_Buyer (si_Intent (at_SellerAuth auth))"
    using assms(3) by (simp add: requireSessionCounterparty_def split: if_splits)
  have s: "q_Seller (quoteFromResponse quote) = qp_Seller quote" by (simp add: quoteFromResponse_def)
  let ?h2 = "setSession (h1\<lparr>h_Node := s'\<rparr>) ((h_Session h1)\<lparr>s_PendingTrades := gm_put (s_PendingTrades (h_Session h1)) i auth\<rparr>)"
  obtain m where m: "SignResponse E rand ?h2 TypeTradeResult
      (TradeResultP \<lparr>rp_AuthorizedTradeID = i, rp_Status = ''ACCEPTED'', rp_Reason = ''executed''\<rparr>) = Inr m"
    using assms(8) [of ?h2] by auto
  show ?thesis
    using assms(1-7) p m
    by (auto simp: handleAuthorizedTrade_def Let_def ExecuteSignedTradeWithPeerShadow_def s)
qed

lemma seller_trades:
  "\<exists>q J msg m h' hp'. said W bobID q J msg
    \<and> HandleMessage J json_store (\<lambda>_. emptyDisk) (Inr 1) seller msg (NodeID_Bytes bobID) = (Inr (Some m, None), h', hp')
    \<and> balanceLocked (h_Node h') bUnit = one"
proof -
  obtain auth i where b: "buildAuthorizedTrade W deal (signed aliceID) (signed bobID) = Inr (auth, i)" "i \<noteq> TxID 0"
    "at_SellerAuth auth = signed aliceID" "at_BuyerAuth auth = signed bobID" "AuthorizedTradeID W auth = Inr i"
    using deal_built by blast
  let ?a = "\<lparr>ap_AuthorizedTrade = auth, ap_AuthorizedTradeID = i\<rparr>" and ?q = "AuthorizedTradeP \<lparr>ap_AuthorizedTrade = auth, ap_AuthorizedTradeID = i\<rparr>"
  have q: "payloadOf (PayloadJ ?q) = ?q" "?q \<noteq> OtherP" by (simp_all add: payloadOf_def)
  obtain J msg where m: "said W bobID ?q J msg" using someone_says [OF q] by blast
  then have J: "J = codec W ?q (m_Envelope msg)" and t: "e_Type (m_Envelope msg) = TypeAuthorizedTrade"
    using SignEnvelope_Inr(4) by (auto simp: said_def)
  have ad: "admitted J seller msg (NodeID_Bytes bobID)"
    using said_verifies [OF m W_signatures(1)] m by (simp add: admitted_def said_def seller_def NewSession_def)
  have new: "\<not> HasSeen (h_Session seller) (e_MessageID (m_Envelope msg))"
    by (simp add: HasSeen_def seller_def NewSession_def gm_get_def)
  have de: "DecodePayload J TypeAuthorizedTrade (m_PayloadBytes msg) = Inr ?q"
    using SignEnvelope_verifies(2) [of J "keyOf bobID" "payload_type ?q" ?q 5 1 "m_Envelope msg" "m_PayloadBytes msg"] m
      codec_signs [OF W_signatures(1)] q by (auto simp: said_def normalizePayload_Inr)
  have va: "ValidatePayloadSemantics J TypeAuthorizedTrade ?q = Inr ()"
    using payload_type_valid [of ?q] b by (simp add: ValidatePayloadSemantics_def normalizePayload_Inr payloadOf_def J)
  let ?h = "marked seller (m_Envelope msg) (e_Timestamp (m_Envelope msg))"
  obtain s where n: "authorizedNegotiation J ?h ?a = (Inr (TxID 9, dealPayload), setSession seller s)"
    using seller_negotiates [OF b(1,3,4)] J by blast
  obtain tx s' b' hp' where x: "executeSignedTrade J json_store (\<lambda>_. emptyDisk) (alice (2 * one) (Some 0)) (shadow J) deal
     (signed aliceID) (signed bobID) True = (Inr tx, s', b', hp')"
    using seller_executes J by blast
  have vt: "VerifyTradeIntent J (signed nid)" if "nid \<in> {aliceID, bobID}" for nid
    using checkAuthorizations_Inr(4,5) [OF shadow_authorized] that by (auto simp: J)
  have pe: "executionParties J (setSession seller s) deal auth = Inr (alice (2 * one) (Some 0), shadow J)"
    using seller_shadow [of J] by (auto simp: executionParties_def seller_def b deal_def alice_def signed_def peerShadow_def)
  have tr: "balanceLocked s' bUnit = one"
  proof -
    have "traded (alice (2 * one) (Some 0)) aUnit one bUnit one s'"
      using executeSigned_trades(1) [OF x] shadow_fits(2) [of J] by (simp add: alice_def party_ok deal_def node_ok_def)
    then have "sint (balanceLocked s' bUnit) = sint (balanceLocked (alice (2 * one) (Some 0)) bUnit) + sint one"
      by (simp add: traded_def swapped_def balanceLocked_def)
    then have "sint (balanceLocked s' bUnit) = sint one" by (simp add: alice_def party_balance)
    then show ?thesis by (rule signed_word_eqI)
  qed
  have key: "n_PrivateKey s' = keyOf aliceID" "n_NowUnix s' = 100"
    using executeSigned_key [OF x] by (simp_all add: alice_def) (simp add: party_def NewBare_def)
  have si: "\<exists>m. SignResponse J (Inr 1) h TypeTradeResult (TradeResultP p) = Inr m" if "h_Node h = s'" for h p
    using codec_responds [of h aliceID "TradeResultP p" W ?q "m_Envelope msg"] that key by (auto simp: payloadOf_def J)
  have ID: "n_ID (alice (2 * one) (Some 0)) = aliceID" "h_Node seller = alice (2 * one) (Some 0)" "qp_Seller dealPayload = aliceID"
    by (simp_all add: alice_def seller_def dealPayload_def)
  have rc: "requireSessionCounterparty ?h (ti_Seller (si_Intent (signed aliceID))) (ti_Buyer (si_Intent (signed aliceID))) = Inr ()"
    by (simp add: requireSessionCounterparty_def) (simp add: seller_def NewSession_def signed_def IntentFromQuote_def deal_def ID)
  have "\<exists>m h'. handleAuthorizedTrade J json_store (\<lambda>_. emptyDisk) (Inr 1) ?h ?a = (Inr (Some m, None), h', hp') \<and> h_Node h' = s'"
    by (rule authorized_trade_handled [OF _ _ _ n _ _ _ si])
      (use b vt rc pe x ID in auto)
  then show ?thesis
    using HandleMessage_dispatch [OF ad new, of ?q json_store "\<lambda>_. emptyDisk" "Inr 1"] t de va m tr
    by (fastforce simp: dispatch_def)
qed


section \<open>A session of one ping\<close>

definition pinged :: Node where "pinged = alice one None"

definition still :: network where
  "still = \<lparr>nw_ctx = \<lambda>_. None, nw_SetReadDeadline = \<lambda>_. None, nw_Read = \<lambda>_. None, nw_SetWriteDeadline = \<lambda>_. None,
     nw_writer = \<lambda>_. buffer_writer, nw_clock = \<lambda>_. 100, nw_nonce = \<lambda>_. Inr 1, nw_nonceReject = \<lambda>_. Inr 1\<rparr>"

lemma reliable_still: "reliable still"
  by (simp add: reliable_def still_def)

lemma pinged_simps [simp]: "n_ID pinged = aliceID" "n_PrivateKey pinged = keyOf aliceID" "inv_ok (n_Inventory pinged)"
  by (simp_all add: pinged_def alice_def party_ok) (simp add: party_def NewBare_def)

lemma someone_pings: "\<exists>J msg. said W bobID thePing J msg \<and> is_ping J (keyOf bobID) 7 msg \<and> signs_verify J (keyOf bobID) \<and> sendable J msg"
proof -
  obtain J msg where m: "said W bobID thePing J msg" using someone_says [OF thePing_plain(1,2)] by blast
  then have s: "SignEnvelope J (keyOf bobID) TypePing thePing 5 1 = Inr (m_Envelope msg, m_PayloadBytes msg)"
    "payload_reads J TypePing thePing" unfolding said_def thePing_plain(3) by blast+
  have "is_ping J (keyOf bobID) 7 msg"
    using s unfolding is_ping_def thePing_def by (intro conjI exI [of _ 5] exI [of _ 1]) simp_all
  moreover have "signs_verify J (keyOf bobID)" "sendable J msg" using m codec_signs [OF W_signatures(1)] by (auto simp: said_def)
  ultimately show ?thesis using m by blast
qed

lemma pinged_pong:
  assumes "said W bobID thePing J msg"
  shows "\<exists>m d. pong J still pinged 0 7 = Inr m \<and> EncodeFrame J m = Inr d"
proof -
  let ?h = "at_time (newHandler pinged (NodeID 0)) 100" and ?p = "PongP \<lparr>po_PingTimeUnix = 7, po_TimeUnix = 100\<rparr>"
  have J: "J = codec W thePing (m_Envelope msg)" using assms by (simp add: said_def)
  have "\<exists>m. SignResponse J (Inr 1) ?h (payload_type ?p) ?p = Inr m \<and> m_PayloadBytes m = [2]"
    unfolding J by (rule codec_responds [where nid = aliceID]) (simp_all add: at_time_def payloadOf_def)
  then obtain m where "SignResponse J (Inr 1) ?h TypePong ?p = Inr m" "m_PayloadBytes m = [2]" by auto
  then show ?thesis using any_message_frames unfolding J by (auto simp: pong_def still_def)
qed

text \<open>Alice has answered a ping of Bob.\<close>

lemma ping_session:
  assumes "said W bobID thePing J msg" "is_ping J (keyOf bobID) 7 msg" "signs_verify J (keyOf bobID)"
  shows "\<exists>h. session_run J json_store (NodeID_Bytes bobID) (newHandler pinged bobID, \<lambda>_. emptyDisk) [msg] (h, \<lambda>_. emptyDisk)"
proof -
  have "HandleMessage J json_store (\<lambda>_. emptyDisk) (Inr 1) (newHandler pinged bobID) msg (ed25519_Public (keyOf bobID))
    = (Inr (handlePing J (Inr 1) (newHandler pinged bobID) \<lparr>pi_TimeUnix = 7\<rparr>),
       marked (newHandler pinged bobID) (m_Envelope msg) (e_Timestamp (m_Envelope msg)), \<lambda>_. emptyDisk)"
    by (rule ping_turn [OF assms(2,3)]) simp_all
  then show ?thesis using message [OF begin_run] by fastforce
qed

end
