(* ===== verification/Tables.thy ===== *)
theory Tables
  imports Price Policy
begin

text \<open>
  The data of the market simulation (\<open>core/sim\<close>: asset, inventory, demand, consumption, production,
  preference, price, flow, topology, node and metrics): maps from nodes to maps from assets to floats.
  A map of the simulation is made by a constructor and is never nil, so the tests for nil maps fall
  away; a method that writes to the map of its receiver returns the receiver, and copies of values that
  are not shared are the values. Loops over maps run in the order of the association list.
\<close>

section \<open>Floats\<close>

definition max0 :: "float64 \<Rightarrow> float64" where
  "max0 v = (if flt v (Fin 0) then Fin 0 else v)"

text \<open>In contrast to the \<open>clamp01\<close> of the prices, this one lets a not-a-number through.\<close>

definition sim_clamp01 :: "float64 \<Rightarrow> float64" where
  "sim_clamp01 v = (if flt v (Fin 0) then Fin 0 else if flt (Fin 1) v then Fin 1 else v)"

definition minFloat :: "float64 list \<Rightarrow> float64" where
  "minFloat values = (if values = [] then Fin 0
     else foldl (\<lambda>m v. if flt v m then v else m) (hd values) (tl values))"

section \<open>Assets\<close>

definition sortedUnique :: "string list \<Rightarrow> string list" where
  "sortedUnique ids = foldl (\<lambda>out i. if out = [] \<or> last out \<noteq> i then out @ [i] else out) [] (sort ids)"

record AssetUniverse =
  au_AssetIDs :: "string list"

definition NewAssetUniverse :: "string list \<Rightarrow> AssetUniverse" where
  "NewAssetUniverse assetIDs = \<lparr>au_AssetIDs = sortedUnique assetIDs\<rparr>"

definition AssetUniverse_Validate :: "AssetUniverse \<Rightarrow> err + unit" where
  "AssetUniverse_Validate u = guard (au_AssetIDs u = []) (errorf ''asset universe must not be empty'') (Inr ())"

section \<open>Tables\<close>

type_synonym row = "(string, float64) gomap"
type_synonym table = "(string, row) gomap"

text \<open>The code that the \<open>Set\<close> and \<open>Get\<close> methods of the states have in common.\<close>

definition table_set :: "table \<Rightarrow> string \<Rightarrow> string \<Rightarrow> float64 \<Rightarrow> table" where
  "table_set t nodeID assetID v = gm_put t nodeID (gm_put (gm_get [] t nodeID) assetID v)"

definition table_get :: "table \<Rightarrow> string \<Rightarrow> string \<Rightarrow> float64" where
  "table_get t nodeID assetID = gm_get (Fin 0) (gm_get [] t nodeID) assetID"

definition keys :: "('k, 'v) gomap \<Rightarrow> 'k list" where
  "keys m = map fst m"

record AcceptanceState =
  ac_Scores :: row

record MultiAcceptanceState =
  ma_Scores :: table

definition NewMultiAcceptanceState :: MultiAcceptanceState where
  "NewMultiAcceptanceState = \<lparr>ma_Scores = []\<rparr>"

definition MultiAcceptanceState_Set :: "MultiAcceptanceState \<Rightarrow> string \<Rightarrow> string \<Rightarrow> float64 \<Rightarrow> MultiAcceptanceState" where
  "MultiAcceptanceState_Set s nodeID assetID score = s\<lparr>ma_Scores := table_set (ma_Scores s) nodeID assetID (sim_clamp01 score)\<rparr>"

definition MultiAcceptanceState_Get :: "MultiAcceptanceState \<Rightarrow> string \<Rightarrow> string \<Rightarrow> float64" where
  "MultiAcceptanceState_Get s = table_get (ma_Scores s)"

definition MultiAcceptanceState_AssetState :: "MultiAcceptanceState \<Rightarrow> string \<Rightarrow> AcceptanceState" where
  "MultiAcceptanceState_AssetState s assetID =
     \<lparr>ac_Scores = map (\<lambda>(nodeID, assets). (nodeID, sim_clamp01 (gm_get (Fin 0) assets assetID))) (ma_Scores s)\<rparr>"

definition MultiAcceptanceState_SetAssetState :: "MultiAcceptanceState \<Rightarrow> string \<Rightarrow> AcceptanceState \<Rightarrow> MultiAcceptanceState" where
  "MultiAcceptanceState_SetAssetState s assetID state =
     foldl (\<lambda>next (nodeID, score). MultiAcceptanceState_Set next nodeID assetID score) s (ac_Scores state)"

definition multiNodeIDs :: "MultiAcceptanceState \<Rightarrow> string list" where
  "multiNodeIDs state = sortedUnique (keys (ma_Scores state))"

definition stateNodeIDs :: "AcceptanceState \<Rightarrow> string list" where
  "stateNodeIDs state = sortedUnique (keys (ac_Scores state))"

section \<open>Inventories and demand\<close>

record simInventoryState =
  si_Holdings :: table

definition sim_NewInventoryState :: simInventoryState where
  "sim_NewInventoryState = \<lparr>si_Holdings = []\<rparr>"

definition simInventoryState_Set :: "simInventoryState \<Rightarrow> string \<Rightarrow> string \<Rightarrow> float64 \<Rightarrow> simInventoryState" where
  "simInventoryState_Set s nodeID assetID qty = s\<lparr>si_Holdings := table_set (si_Holdings s) nodeID assetID (max0 qty)\<rparr>"

definition simInventoryState_Get :: "simInventoryState \<Rightarrow> string \<Rightarrow> string \<Rightarrow> float64" where
  "simInventoryState_Get s = table_get (si_Holdings s)"

definition simInventoryState_Add :: "simInventoryState \<Rightarrow> string \<Rightarrow> string \<Rightarrow> float64 \<Rightarrow> simInventoryState" where
  "simInventoryState_Add s nodeID assetID delta =
     simInventoryState_Set s nodeID assetID (fadd (simInventoryState_Get s nodeID assetID) delta)"

record DemandState =
  de_Targets :: table

definition NewDemandState :: DemandState where
  "NewDemandState = \<lparr>de_Targets = []\<rparr>"

definition DemandState_SetTarget :: "DemandState \<Rightarrow> string \<Rightarrow> string \<Rightarrow> float64 \<Rightarrow> DemandState" where
  "DemandState_SetTarget d nodeID assetID qty = d\<lparr>de_Targets := table_set (de_Targets d) nodeID assetID (max0 qty)\<rparr>"

definition DemandState_Target :: "DemandState \<Rightarrow> string \<Rightarrow> string \<Rightarrow> float64" where
  "DemandState_Target d = table_get (de_Targets d)"

definition DemandState_Need :: "DemandState \<Rightarrow> string \<Rightarrow> string \<Rightarrow> simInventoryState \<Rightarrow> float64" where
  "DemandState_Need d nodeID assetID iv =
     max0 (fsub (DemandState_Target d nodeID assetID) (simInventoryState_Get iv nodeID assetID))"

definition DemandState_Surplus :: "DemandState \<Rightarrow> string \<Rightarrow> string \<Rightarrow> simInventoryState \<Rightarrow> float64" where
  "DemandState_Surplus d nodeID assetID iv =
     max0 (fsub (simInventoryState_Get iv nodeID assetID) (DemandState_Target d nodeID assetID))"

section \<open>Consumption and production\<close>

record ConsumptionState =
  co_Rates :: table

record ProductionState =
  pd_Rates :: table

definition NewConsumptionState :: ConsumptionState where
  "NewConsumptionState = \<lparr>co_Rates = []\<rparr>"

definition ConsumptionState_SetRate :: "ConsumptionState \<Rightarrow> string \<Rightarrow> string \<Rightarrow> float64 \<Rightarrow> ConsumptionState" where
  "ConsumptionState_SetRate c nodeID assetID rate = c\<lparr>co_Rates := table_set (co_Rates c) nodeID assetID (max0 rate)\<rparr>"

definition ConsumptionState_Rate :: "ConsumptionState \<Rightarrow> string \<Rightarrow> string \<Rightarrow> float64" where
  "ConsumptionState_Rate c = table_get (co_Rates c)"

definition ConsumptionState_ApplyWithVolume :: "ConsumptionState \<Rightarrow> simInventoryState \<Rightarrow> simInventoryState \<times> float64" where
  "ConsumptionState_ApplyWithVolume c iv =
     foldl (\<lambda>s (nodeID, assets). foldl (\<lambda>(next, consumed) (assetID, rate).
         let qty = minFloat [max0 rate, simInventoryState_Get next nodeID assetID] in
         if feq qty (Fin 0) then (next, consumed)
         else (simInventoryState_Add next nodeID assetID (fneg qty), fadd consumed qty)) s assets)
       (iv, Fin 0) (co_Rates c)"

definition ConsumptionState_Apply :: "ConsumptionState \<Rightarrow> simInventoryState \<Rightarrow> simInventoryState" where
  "ConsumptionState_Apply c iv = fst (ConsumptionState_ApplyWithVolume c iv)"

definition NewProductionState :: ProductionState where
  "NewProductionState = \<lparr>pd_Rates = []\<rparr>"

definition ProductionState_SetRate :: "ProductionState \<Rightarrow> string \<Rightarrow> string \<Rightarrow> float64 \<Rightarrow> ProductionState" where
  "ProductionState_SetRate p nodeID assetID rate = p\<lparr>pd_Rates := table_set (pd_Rates p) nodeID assetID (max0 rate)\<rparr>"

definition ProductionState_Rate :: "ProductionState \<Rightarrow> string \<Rightarrow> string \<Rightarrow> float64" where
  "ProductionState_Rate p = table_get (pd_Rates p)"

definition ProductionState_ApplyWithVolume :: "ProductionState \<Rightarrow> simInventoryState \<Rightarrow> simInventoryState \<times> float64" where
  "ProductionState_ApplyWithVolume p iv =
     foldl (\<lambda>s (nodeID, assets). foldl (\<lambda>(next, produced) (assetID, rate).
         let qty = max0 rate in
         if feq qty (Fin 0) then (next, produced)
         else (simInventoryState_Add next nodeID assetID qty, fadd produced qty)) s assets)
       (iv, Fin 0) (pd_Rates p)"

definition ProductionState_Apply :: "ProductionState \<Rightarrow> simInventoryState \<Rightarrow> simInventoryState" where
  "ProductionState_Apply p iv = fst (ProductionState_ApplyWithVolume p iv)"

section \<open>Prices and preferences\<close>

definition sim_PriceFromAcceptance :: "float64 \<Rightarrow> float64" where
  "sim_PriceFromAcceptance a = sim_clamp01 a"

definition RiskFromAcceptance :: "float64 \<Rightarrow> float64" where
  "RiskFromAcceptance a = fsub (Fin 1) (sim_clamp01 a)"

record PriceTable =
  pt_Prices :: table

definition NewPriceTable :: PriceTable where
  "NewPriceTable = \<lparr>pt_Prices = []\<rparr>"

definition PriceTable_Set :: "PriceTable \<Rightarrow> string \<Rightarrow> string \<Rightarrow> float64 \<Rightarrow> PriceTable" where
  "PriceTable_Set pt nodeID assetID price = pt\<lparr>pt_Prices := table_set (pt_Prices pt) nodeID assetID price\<rparr>"

definition PriceTable_Get :: "PriceTable \<Rightarrow> string \<Rightarrow> string \<Rightarrow> float64 option" where
  "PriceTable_Get pt nodeID assetID = map_of (gm_get [] (pt_Prices pt) nodeID) assetID"

definition PriceTableFromAcceptance :: "string \<Rightarrow> AcceptanceState \<Rightarrow> PriceTable" where
  "PriceTableFromAcceptance assetID state =
     foldl (\<lambda>pt (nodeID, score). PriceTable_Set pt nodeID assetID (sim_PriceFromAcceptance score)) NewPriceTable (ac_Scores state)"

definition PriceTableFromMultiAcceptance :: "MultiAcceptanceState \<Rightarrow> PriceTable" where
  "PriceTableFromMultiAcceptance state =
     foldl (\<lambda>pt (nodeID, assets). foldl (\<lambda>pt (assetID, score). PriceTable_Set pt nodeID assetID (sim_PriceFromAcceptance score)) pt assets)
       NewPriceTable (ma_Scores state)"

record PortfolioPreference =
  pp_Weights :: table

definition NewPortfolioPreference :: PortfolioPreference where
  "NewPortfolioPreference = \<lparr>pp_Weights = []\<rparr>"

definition PortfolioPreference_SetWeight :: "PortfolioPreference \<Rightarrow> string \<Rightarrow> string \<Rightarrow> float64 \<Rightarrow> PortfolioPreference" where
  "PortfolioPreference_SetWeight p nodeID assetID weight = p\<lparr>pp_Weights := table_set (pp_Weights p) nodeID assetID (max0 weight)\<rparr>"

definition PortfolioPreference_Weight :: "PortfolioPreference \<Rightarrow> string \<Rightarrow> string \<Rightarrow> float64" where
  "PortfolioPreference_Weight p nodeID assetID =
     (case map_of (pp_Weights p) nodeID of None \<Rightarrow> Fin 1 | Some assets \<Rightarrow> gm_get (Fin 1) assets assetID)"

definition sim_EffectiveValue :: "PriceTable \<Rightarrow> PortfolioPreference \<Rightarrow> string \<Rightarrow> string \<Rightarrow> float64" where
  "sim_EffectiveValue pt pref nodeID assetID = (case PriceTable_Get pt nodeID assetID of
     None \<Rightarrow> Fin 0 | Some price \<Rightarrow> fmul price (PortfolioPreference_Weight pref nodeID assetID))"

definition PreferredAsset :: "PriceTable \<Rightarrow> PortfolioPreference \<Rightarrow> string \<Rightarrow> AssetUniverse \<Rightarrow> string" where
  "PreferredAsset pt pref nodeID universe =
     fst (foldl (\<lambda>(bestAsset, bestValue) assetID.
       let v = sim_EffectiveValue pt pref nodeID assetID in
       if flt bestValue v then (assetID, v) else (bestAsset, bestValue)) ('''', Fin (-1)) (au_AssetIDs universe))"

record ValueDemand =
  vd_Targets :: row

definition NewValueDemand :: ValueDemand where
  "NewValueDemand = \<lparr>vd_Targets = []\<rparr>"

definition ValueDemand_SetTarget :: "ValueDemand \<Rightarrow> string \<Rightarrow> float64 \<Rightarrow> ValueDemand" where
  "ValueDemand_SetTarget d nodeID target = d\<lparr>vd_Targets := gm_put (vd_Targets d) nodeID (max0 target)\<rparr>"

definition ValueDemand_Target :: "ValueDemand \<Rightarrow> string \<Rightarrow> float64" where
  "ValueDemand_Target d nodeID = gm_get (Fin 0) (vd_Targets d) nodeID"

definition ValueDemand_HoldingValue ::
    "string \<Rightarrow> simInventoryState \<Rightarrow> PriceTable \<Rightarrow> PortfolioPreference \<Rightarrow> AssetUniverse \<Rightarrow> float64" where
  "ValueDemand_HoldingValue nodeID iv pt pref universe =
     foldl (\<lambda>total assetID. fadd total (fmul (simInventoryState_Get iv nodeID assetID) (sim_EffectiveValue pt pref nodeID assetID)))
       (Fin 0) (au_AssetIDs universe)"

definition ValueDemand_Need ::
    "ValueDemand \<Rightarrow> string \<Rightarrow> simInventoryState \<Rightarrow> PriceTable \<Rightarrow> PortfolioPreference \<Rightarrow> AssetUniverse \<Rightarrow> float64" where
  "ValueDemand_Need d nodeID iv pt pref universe =
     max0 (fsub (ValueDemand_Target d nodeID) (ValueDemand_HoldingValue nodeID iv pt pref universe))"


section \<open>Flows\<close>

record AssetFlowMetrics =
  fm_TradeVolume :: row
  fm_PaymentVolume :: row
  fm_ConsumptionVolume :: row
  fm_DemandFulfilled :: row

definition NewAssetFlowMetrics :: "string list \<Rightarrow> AssetFlowMetrics" where
  "NewAssetFlowMetrics assetIDs =
     (let zeros = foldl (\<lambda>m assetID. gm_put m assetID (Fin 0)) [] (sortedUnique assetIDs) in
      \<lparr>fm_TradeVolume = zeros, fm_PaymentVolume = zeros, fm_ConsumptionVolume = zeros, fm_DemandFulfilled = zeros\<rparr>)"

definition addFlow :: "row \<Rightarrow> string \<Rightarrow> float64 \<Rightarrow> row" where
  "addFlow volumes assetID qty =
     (if fle qty (Fin 0) then volumes else gm_put volumes assetID (fadd (gm_get (Fin 0) volumes assetID) qty))"

definition AssetFlowMetrics_AddTrade :: "AssetFlowMetrics \<Rightarrow> string \<Rightarrow> float64 \<Rightarrow> AssetFlowMetrics" where
  "AssetFlowMetrics_AddTrade m assetID qty = m\<lparr>fm_TradeVolume := addFlow (fm_TradeVolume m) assetID qty\<rparr>"

definition AssetFlowMetrics_AddPayment :: "AssetFlowMetrics \<Rightarrow> string \<Rightarrow> float64 \<Rightarrow> AssetFlowMetrics" where
  "AssetFlowMetrics_AddPayment m assetID qty = m\<lparr>fm_PaymentVolume := addFlow (fm_PaymentVolume m) assetID qty\<rparr>"

definition AssetFlowMetrics_AddConsumption :: "AssetFlowMetrics \<Rightarrow> string \<Rightarrow> float64 \<Rightarrow> AssetFlowMetrics" where
  "AssetFlowMetrics_AddConsumption m assetID qty = m\<lparr>fm_ConsumptionVolume := addFlow (fm_ConsumptionVolume m) assetID qty\<rparr>"

definition AssetFlowMetrics_AddDemandFulfilled :: "AssetFlowMetrics \<Rightarrow> string \<Rightarrow> float64 \<Rightarrow> AssetFlowMetrics" where
  "AssetFlowMetrics_AddDemandFulfilled m assetID qty = m\<lparr>fm_DemandFulfilled := addFlow (fm_DemandFulfilled m) assetID qty\<rparr>"

definition sortedVolumeIDs :: "row \<Rightarrow> string list" where
  "sortedVolumeIDs volumes = sortedUnique (keys volumes)"

definition sumVolumes :: "row \<Rightarrow> float64" where
  "sumVolumes volumes = foldl (\<lambda>total assetID. fadd total (gm_get (Fin 0) volumes assetID)) (Fin 0) (sortedVolumeIDs volumes)"

definition FlowShare :: "row \<Rightarrow> row" where
  "FlowShare volumes =
     (let total = sumVolumes volumes in
      foldl (\<lambda>shares assetID. gm_put shares assetID
          (if feq total (Fin 0) then Fin 0 else fdiv (gm_get (Fin 0) volumes assetID) total)) [] (sortedVolumeIDs volumes))"

definition DominantByFlow :: "row \<Rightarrow> string" where
  "DominantByFlow volumes =
     (if feq (sumVolumes volumes) (Fin 0) then ''''
      else fst (foldl (\<lambda>(bestAsset, bestVolume) assetID.
        let volume = gm_get (Fin 0) volumes assetID in
        if flt bestVolume volume then (assetID, volume) else (bestAsset, bestVolume)) ('''', Fin (-1)) (sortedVolumeIDs volumes)))"

definition FlowConcentration :: "row \<Rightarrow> float64" where
  "FlowConcentration volumes =
     (let shares = FlowShare volumes in
      foldl (\<lambda>maxShare assetID. if flt maxShare (gm_get (Fin 0) shares assetID) then gm_get (Fin 0) shares assetID else maxShare)
        (Fin 0) (sortedVolumeIDs shares))"

definition ApplyConsumptionWithFlow ::
    "ConsumptionState \<Rightarrow> simInventoryState \<Rightarrow> AssetUniverse \<Rightarrow> simInventoryState \<times> AssetFlowMetrics" where
  "ApplyConsumptionWithFlow consumption iv universe =
     foldl (\<lambda>s (nodeID, assets). foldl (\<lambda>(next, flows) assetID.
         let qty = minFloat [max0 (gm_get (Fin 0) assets assetID), simInventoryState_Get next nodeID assetID] in
         if feq qty (Fin 0) then (next, flows)
         else (simInventoryState_Add next nodeID assetID (fneg qty), AssetFlowMetrics_AddConsumption flows assetID qty))
         s (au_AssetIDs universe))
       (iv, NewAssetFlowMetrics (au_AssetIDs universe)) (co_Rates consumption)"

definition addAssetFlows :: "AssetFlowMetrics \<Rightarrow> AssetFlowMetrics \<Rightarrow> AssetFlowMetrics" where
  "addAssetFlows dst src =
     (let dst = foldl (\<lambda>d (assetID, qty). AssetFlowMetrics_AddTrade d assetID qty) dst (fm_TradeVolume src);
          dst = foldl (\<lambda>d (assetID, qty). AssetFlowMetrics_AddPayment d assetID qty) dst (fm_PaymentVolume src);
          dst = foldl (\<lambda>d (assetID, qty). AssetFlowMetrics_AddConsumption d assetID qty) dst (fm_ConsumptionVolume src) in
      foldl (\<lambda>d (assetID, qty). AssetFlowMetrics_AddDemandFulfilled d assetID qty) dst (fm_DemandFulfilled src))"

section \<open>Topologies\<close>

record Topology =
  tp_Neighbors :: "(string, string list) gomap"

definition NewTopology :: "(string, string list) gomap \<Rightarrow> Topology" where
  "NewTopology neighbors = \<lparr>tp_Neighbors = map (\<lambda>(nodeID, ids). (nodeID, sortedUnique ids)) neighbors\<rparr>"

text \<open>\<open>neighbors[nodeID] = append(neighbors[nodeID], other)\<close>.\<close>

definition append_neighbor :: "(string, string list) gomap \<Rightarrow> string \<Rightarrow> string \<Rightarrow> (string, string list) gomap" where
  "append_neighbor m nodeID other = gm_put m nodeID (gm_get [] m nodeID @ [other])"

definition meshNeighbors :: "(string, string list) gomap \<Rightarrow> string list \<Rightarrow> (string, string list) gomap" where
  "meshNeighbors neighbors ids =
     foldl (\<lambda>m nodeID. foldl (\<lambda>m other. if other \<noteq> nodeID then append_neighbor m nodeID other else m) m ids) neighbors ids"

definition FullMeshTopology :: "string list \<Rightarrow> Topology" where
  "FullMeshTopology nodeIDs = NewTopology (meshNeighbors [] (sortedUnique nodeIDs))"

definition ChainTopology :: "string list \<Rightarrow> Topology" where
  "ChainTopology nodeIDs =
     (let ids = sortedUnique nodeIDs in
      NewTopology (foldl (\<lambda>m i.
        let m = (if 0 < i then append_neighbor m (ids ! i) (ids ! (i - 1)) else m) in
        if i + 1 < length ids then append_neighbor m (ids ! i) (ids ! (i + 1)) else m) [] [0..<length ids]))"

definition ClusteredTopology :: "string list list \<Rightarrow> Topology" where
  "ClusteredTopology clusters = NewTopology (foldl (\<lambda>m cluster. meshNeighbors m (sortedUnique cluster)) [] clusters)"

definition Topology_Neighborhood :: "Topology \<Rightarrow> string \<Rightarrow> bool \<Rightarrow> string list" where
  "Topology_Neighborhood t nodeID includeSelf =
     sortedUnique (gm_get [] (tp_Neighbors t) nodeID @ (if includeSelf then [nodeID] else []))"

section \<open>Networks of policies\<close>

record SimNode =
  sn_ID :: string
  sn_Policy :: "Policy option"

definition SimNode_EvaluateIssue :: "'x env_scheme \<Rightarrow> int64 \<Rightarrow> SimNode \<Rightarrow> IssueTx option \<Rightarrow> Value \<Rightarrow> err + AcceptanceResult" where
  "SimNode_EvaluateIssue E sys n tx output = EvaluateIssue E sys (sn_Policy n) tx output"

definition SimNode_EvaluateTransfer :: "'x env_scheme \<Rightarrow> int64 \<Rightarrow> SimNode \<Rightarrow> TransferTx option \<Rightarrow> Value list \<Rightarrow> err + AcceptanceResult" where
  "SimNode_EvaluateTransfer E sys n tx inputs = EvaluateTransfer E sys (sn_Policy n) tx inputs"

definition Trade :: "'x env_scheme \<Rightarrow> int64 \<Rightarrow> SimNode \<Rightarrow> SimNode \<Rightarrow> TransferTx option \<Rightarrow> Value list \<Rightarrow> err + bool" where
  "Trade E sys a b tx inputs =
     attempt (SimNode_EvaluateTransfer E sys a tx inputs) (\<lambda>ra.
     if res_Decision ra = Accept
     then attempt (SimNode_EvaluateTransfer E sys b tx inputs) (\<lambda>rb. Inr (res_Decision rb = Accept))
     else Inr False)"

record SurvivalResult =
  sr_Ratio :: float64
  sr_AcceptCount :: nat
  sr_RejectCount :: nat
  sr_Decisions :: "Decision list"

text \<open>A network is the list of its nodes; the nil network has none.\<close>

type_synonym SimNetwork = "SimNode list"

definition Evaluate :: "'x env_scheme \<Rightarrow> int64 \<Rightarrow> SimNetwork \<Rightarrow> TransferTx option \<Rightarrow> Value list \<Rightarrow> err + SurvivalResult" where
  "Evaluate E sys net tx inputs =
     (if net = [] then Inr \<lparr>sr_Ratio = Fin 0, sr_AcceptCount = 0, sr_RejectCount = 0, sr_Decisions = []\<rparr>
      else attempt (each (\<lambda>_ node r.
          attempt (SimNode_EvaluateTransfer E sys node tx inputs) (\<lambda>res.
          let r = r\<lparr>sr_Decisions := sr_Decisions r @ [res_Decision res]\<rparr> in
          Inr (if res_Decision res = Accept then r\<lparr>sr_AcceptCount := sr_AcceptCount r + 1\<rparr>
               else r\<lparr>sr_RejectCount := sr_RejectCount r + 1\<rparr>))) 0 net
          \<lparr>sr_Ratio = Fin 0, sr_AcceptCount = 0, sr_RejectCount = 0, sr_Decisions = []\<rparr>) (\<lambda>r.
        Inr (r\<lparr>sr_Ratio := fdiv (of_count (sr_AcceptCount r)) (of_count (length net))\<rparr>)))"

definition AcceptanceVector :: "'x env_scheme \<Rightarrow> int64 \<Rightarrow> SimNetwork \<Rightarrow> TransferTx option \<Rightarrow> Value list \<Rightarrow> err + float64 list" where
  "AcceptanceVector E sys net tx inputs =
     attempt (Evaluate E sys net tx inputs) (\<lambda>r. Inr (map (\<lambda>d. if d = Accept then Fin 1 else Fin 0) (sr_Decisions r)))"

definition AcceptanceRatio :: "'x env_scheme \<Rightarrow> int64 \<Rightarrow> SimNetwork \<Rightarrow> TransferTx option \<Rightarrow> Value list \<Rightarrow> err + float64" where
  "AcceptanceRatio E sys net tx inputs = attempt (Evaluate E sys net tx inputs) (\<lambda>r. Inr (sr_Ratio r))"

definition Survives :: "'x env_scheme \<Rightarrow> int64 \<Rightarrow> SimNetwork \<Rightarrow> TransferTx option \<Rightarrow> Value list \<Rightarrow> float64 \<Rightarrow> err + bool" where
  "Survives E sys net tx inputs tau = attempt (AcceptanceRatio E sys net tx inputs) (\<lambda>r. Inr (fle tau r))"

end
