(* ===== verification/Exchange.thy ===== *)
theory Exchange
  imports Tables
begin

text \<open>
  The rules of the market simulation (\<open>core/sim\<close>: trade, demand_trade, exchange, arbitrage and
  dynamics): quotes, what a trade does to inventories and to acceptance scores, arbitrage
  opportunities, and the dynamics of acceptance.
\<close>

section \<open>Trades of one asset\<close>

record simTradeQuote =
  tq_Seller :: string
  tq_Buyer :: string
  tq_AssetID :: string
  tq_SellerAsk :: float64
  tq_BuyerBid :: float64
  tq_Executable :: bool
  tq_ClearingPrice :: float64

definition sim_QuoteTrade :: "PriceTable \<Rightarrow> string \<Rightarrow> string \<Rightarrow> string \<Rightarrow> float64 \<Rightarrow> simTradeQuote" where
  "sim_QuoteTrade pt sellerID buyerID assetID spread =
     (let spread = (if flt spread (Fin 0) then Fin 0 else spread);
          quote = \<lparr>tq_Seller = sellerID, tq_Buyer = buyerID, tq_AssetID = assetID, tq_SellerAsk = Fin 0, tq_BuyerBid = Fin 0,
                   tq_Executable = False, tq_ClearingPrice = Fin 0\<rparr> in
      case PriceTable_Get pt sellerID assetID of None \<Rightarrow> quote
      | Some ask \<Rightarrow> (case PriceTable_Get pt buyerID assetID of None \<Rightarrow> quote\<lparr>tq_SellerAsk := ask\<rparr>
        | Some bid \<Rightarrow>
          let executable = fle (fmul ask (fadd (Fin 1) spread)) bid in
          quote\<lparr>tq_SellerAsk := ask, tq_BuyerBid := bid, tq_Executable := executable,
                tq_ClearingPrice := (if executable then fdiv (fadd ask bid) (Fin 2) else Fin 0)\<rparr>))"

text \<open>A party without a score gets none.\<close>

definition ApplyTradeFeedback :: "AcceptanceState \<Rightarrow> simTradeQuote \<Rightarrow> float64 \<Rightarrow> AcceptanceState" where
  "ApplyTradeFeedback state quote alpha =
     (if \<not> tq_Executable quote then state
      else
        let alpha = (if flt alpha (Fin 0) then Fin 0 else alpha);
            alpha = (if flt (Fin 1) alpha then Fin 1 else alpha);
            nudge = (\<lambda>party scores. case map_of (ac_Scores state) party of None \<Rightarrow> scores
                     | Some score \<Rightarrow> gm_put scores party
                         (sim_clamp01 (fadd score (fmul alpha (fsub (tq_ClearingPrice quote) score))))) in
        \<lparr>ac_Scores = nudge (tq_Buyer quote) (nudge (tq_Seller quote) (ac_Scores state))\<rparr>)"

record DemandTradeQuote =
  dq_Seller :: string
  dq_Buyer :: string
  dq_AssetID :: string
  dq_Quantity :: float64
  dq_SellerSurplus :: float64
  dq_BuyerNeed :: float64
  dq_SellerAsk :: float64
  dq_BuyerBid :: float64
  dq_Executable :: bool
  dq_ClearingPrice :: float64

definition QuoteDemandTrade ::
    "PriceTable \<Rightarrow> simInventoryState \<Rightarrow> DemandState \<Rightarrow> string \<Rightarrow> string \<Rightarrow> string \<Rightarrow> float64 \<Rightarrow> float64 \<Rightarrow> DemandTradeQuote" where
  "QuoteDemandTrade pt iv demand sellerID buyerID assetID maxQty spread =
     (let spread = (if flt spread (Fin 0) then Fin 0 else spread);
          quote = \<lparr>dq_Seller = sellerID, dq_Buyer = buyerID, dq_AssetID = assetID, dq_Quantity = Fin 0, dq_SellerSurplus = Fin 0,
                   dq_BuyerNeed = Fin 0, dq_SellerAsk = Fin 0, dq_BuyerBid = Fin 0, dq_Executable = False, dq_ClearingPrice = Fin 0\<rparr> in
      if fle maxQty (Fin 0) then quote
      else
        let surplus = DemandState_Surplus demand sellerID assetID iv;
            need = DemandState_Need demand buyerID assetID iv;
            quantity = minFloat [surplus, need, maxQty];
            quote = quote\<lparr>dq_SellerSurplus := surplus, dq_BuyerNeed := need, dq_Quantity := quantity\<rparr> in
        (case PriceTable_Get pt sellerID assetID of None \<Rightarrow> quote
         | Some ask \<Rightarrow> (case PriceTable_Get pt buyerID assetID of None \<Rightarrow> quote\<lparr>dq_SellerAsk := ask\<rparr>
           | Some bid \<Rightarrow>
             let executable = (flt (Fin 0) quantity \<and> fle (fmul ask (fadd (Fin 1) spread)) bid) in
             quote\<lparr>dq_SellerAsk := ask, dq_BuyerBid := bid, dq_Executable := executable,
                   dq_ClearingPrice := (if executable then fdiv (fadd ask bid) (Fin 2) else Fin 0)\<rparr>)))"

definition ApplyDemandTrade ::
    "simInventoryState \<Rightarrow> AcceptanceState \<Rightarrow> DemandTradeQuote \<Rightarrow> float64 \<Rightarrow> simInventoryState \<times> AcceptanceState" where
  "ApplyDemandTrade iv state quote alpha =
     (if \<not> dq_Executable quote then (iv, state)
      else
        let qty = max0 (dq_Quantity quote) in
        if feq qty (Fin 0) then (iv, state)
        else
          let iv = simInventoryState_Add iv (dq_Seller quote) (dq_AssetID quote) (fneg qty);
              iv = simInventoryState_Add iv (dq_Buyer quote) (dq_AssetID quote) qty in
          (iv, ApplyTradeFeedback state \<lparr>tq_Seller = dq_Seller quote, tq_Buyer = dq_Buyer quote, tq_AssetID = dq_AssetID quote,
              tq_SellerAsk = Fin 0, tq_BuyerBid = Fin 0, tq_Executable = True, tq_ClearingPrice = dq_ClearingPrice quote\<rparr> alpha))"

section \<open>Exchanges of two assets\<close>

record ExchangeQuote =
  eq_NodeID :: string
  eq_BaseAsset :: string
  eq_QuoteAsset :: string
  eq_BasePrice :: float64
  eq_QuotePrice :: float64
  eq_Rate :: float64
  eq_Valid :: bool

definition QuoteExchange :: "PriceTable \<Rightarrow> string \<Rightarrow> string \<Rightarrow> string \<Rightarrow> ExchangeQuote" where
  "QuoteExchange pt nodeID baseAsset quoteAsset =
     (let quote = \<lparr>eq_NodeID = nodeID, eq_BaseAsset = baseAsset, eq_QuoteAsset = quoteAsset, eq_BasePrice = Fin 0,
                   eq_QuotePrice = Fin 0, eq_Rate = Fin 0, eq_Valid = False\<rparr> in
      case PriceTable_Get pt nodeID baseAsset of None \<Rightarrow> quote
      | Some basePrice \<Rightarrow> (case PriceTable_Get pt nodeID quoteAsset of None \<Rightarrow> quote\<lparr>eq_BasePrice := basePrice\<rparr>
        | Some quotePrice \<Rightarrow>
          let quote = quote\<lparr>eq_BasePrice := basePrice, eq_QuotePrice := quotePrice\<rparr> in
          if fle quotePrice (Fin 0) then quote
          else quote\<lparr>eq_Rate := fdiv basePrice quotePrice, eq_Valid := True\<rparr>))"

record CrossAssetTradeQuote =
  xq_Seller :: string
  xq_Buyer :: string
  xq_SellAsset :: string
  xq_BuyAsset :: string
  xq_SellQty :: float64
  xq_BuyQty :: float64
  xq_SellerSellPrice :: float64
  xq_SellerBuyPrice :: float64
  xq_BuyerSellPrice :: float64
  xq_BuyerBuyPrice :: float64
  xq_Executable :: bool

text \<open>A price that is there and positive.\<close>

definition goodPrice :: "PriceTable \<Rightarrow> string \<Rightarrow> string \<Rightarrow> float64 option" where
  "goodPrice pt nodeID assetID = (case PriceTable_Get pt nodeID assetID of
     None \<Rightarrow> None | Some p \<Rightarrow> if fle p (Fin 0) then None else Some p)"

definition emptyCrossQuote :: "string \<Rightarrow> string \<Rightarrow> string \<Rightarrow> string \<Rightarrow> CrossAssetTradeQuote" where
  "emptyCrossQuote sellerID buyerID sellAsset buyAsset =
     \<lparr>xq_Seller = sellerID, xq_Buyer = buyerID, xq_SellAsset = sellAsset, xq_BuyAsset = buyAsset, xq_SellQty = Fin 0,
      xq_BuyQty = Fin 0, xq_SellerSellPrice = Fin 0, xq_SellerBuyPrice = Fin 0, xq_BuyerSellPrice = Fin 0,
      xq_BuyerBuyPrice = Fin 0, xq_Executable = False\<rparr>"

definition QuoteCrossAssetTrade ::
    "PriceTable \<Rightarrow> simInventoryState \<Rightarrow> string \<Rightarrow> string \<Rightarrow> string \<Rightarrow> string \<Rightarrow> float64 \<Rightarrow> float64 \<Rightarrow> CrossAssetTradeQuote" where
  "QuoteCrossAssetTrade pt iv sellerID buyerID sellAsset buyAsset sellQty spread =
     (let spread = (if flt spread (Fin 0) then Fin 0 else spread);
          quote = emptyCrossQuote sellerID buyerID sellAsset buyAsset in
      if sellAsset = buyAsset \<or> fle sellQty (Fin 0) \<or> flt (simInventoryState_Get iv sellerID sellAsset) sellQty then quote
      else case goodPrice pt sellerID sellAsset of None \<Rightarrow> quote
      | Some sellerSellPrice \<Rightarrow>
        let quote = quote\<lparr>xq_SellerSellPrice := sellerSellPrice\<rparr> in
        (case goodPrice pt sellerID buyAsset of None \<Rightarrow> quote
         | Some sellerBuyPrice \<Rightarrow>
           let quote = quote\<lparr>xq_SellerBuyPrice := sellerBuyPrice\<rparr> in
           (case goodPrice pt buyerID sellAsset of None \<Rightarrow> quote
            | Some buyerSellPrice \<Rightarrow>
              let quote = quote\<lparr>xq_BuyerSellPrice := buyerSellPrice\<rparr> in
              (case goodPrice pt buyerID buyAsset of None \<Rightarrow> quote
               | Some buyerBuyPrice \<Rightarrow>
                 let quote = quote\<lparr>xq_SellQty := sellQty, xq_BuyerBuyPrice := buyerBuyPrice\<rparr>;
                     sellerRequiredBuyQty = fmul (fmul sellQty (fdiv sellerSellPrice sellerBuyPrice)) (fadd (Fin 1) spread);
                     buyerMaxBuyQty = fmul sellQty (fdiv buyerSellPrice buyerBuyPrice) in
                 if flt buyerMaxBuyQty sellerRequiredBuyQty then quote
                 else
                   let buyQty = fdiv (fadd sellerRequiredBuyQty buyerMaxBuyQty) (Fin 2) in
                   if flt (simInventoryState_Get iv buyerID buyAsset) buyQty then quote
                   else quote\<lparr>xq_BuyQty := buyQty, xq_Executable := True\<rparr>))))"

definition ApplyCrossAssetTrade ::
    "simInventoryState \<Rightarrow> MultiAcceptanceState \<Rightarrow> CrossAssetTradeQuote \<Rightarrow> float64 \<Rightarrow> simInventoryState \<times> MultiAcceptanceState" where
  "ApplyCrossAssetTrade iv state quote alpha =
     (if \<not> xq_Executable quote then (iv, state)
      else
        let iv = simInventoryState_Add iv (xq_Seller quote) (xq_SellAsset quote) (fneg (xq_SellQty quote));
            iv = simInventoryState_Add iv (xq_Buyer quote) (xq_SellAsset quote) (xq_SellQty quote);
            iv = simInventoryState_Add iv (xq_Buyer quote) (xq_BuyAsset quote) (fneg (xq_BuyQty quote));
            iv = simInventoryState_Add iv (xq_Seller quote) (xq_BuyAsset quote) (xq_BuyQty quote);
            alpha = sim_clamp01 alpha;
            sellClearing = fdiv (fadd (xq_SellerSellPrice quote) (xq_BuyerSellPrice quote)) (Fin 2);
            buyClearing = fdiv (fadd (xq_SellerBuyPrice quote) (xq_BuyerBuyPrice quote)) (Fin 2);
            nudge = (\<lambda>nodeID assetID clearing next.
              let score = MultiAcceptanceState_Get state nodeID assetID in
              MultiAcceptanceState_Set next nodeID assetID (fadd score (fmul alpha (fsub clearing score)))) in
        (iv, foldl (\<lambda>next nodeID. nudge nodeID (xq_BuyAsset quote) buyClearing (nudge nodeID (xq_SellAsset quote) sellClearing next))
           state [xq_Seller quote, xq_Buyer quote]))"

definition QuoteSubstitutionSwitch ::
    "PriceTable \<Rightarrow> simInventoryState \<Rightarrow> string \<Rightarrow> string \<Rightarrow> string \<Rightarrow> string \<Rightarrow> float64 \<Rightarrow> float64 \<Rightarrow> CrossAssetTradeQuote" where
  "QuoteSubstitutionSwitch pt iv sellerID buyerID sellAsset buyAsset sellQty spread =
     (let spread = (if flt spread (Fin 0) then Fin 0 else spread);
          quote = emptyCrossQuote sellerID buyerID sellAsset buyAsset in
      if sellAsset = buyAsset \<or> fle sellQty (Fin 0) \<or> flt (simInventoryState_Get iv sellerID sellAsset) sellQty then quote
      else case (goodPrice pt sellerID sellAsset, goodPrice pt sellerID buyAsset, goodPrice pt buyerID sellAsset, goodPrice pt buyerID buyAsset) of
        (Some sellerSellPrice, Some sellerBuyPrice, Some buyerSellPrice, Some buyerBuyPrice) \<Rightarrow>
          let buyQty = fmul (fmul sellQty (fdiv sellerSellPrice sellerBuyPrice)) (fadd (Fin 1) spread) in
          if flt (simInventoryState_Get iv buyerID buyAsset) buyQty then quote
          else quote\<lparr>xq_SellQty := sellQty, xq_BuyQty := buyQty, xq_SellerSellPrice := sellerSellPrice,
                     xq_SellerBuyPrice := sellerBuyPrice, xq_BuyerSellPrice := buyerSellPrice,
                     xq_BuyerBuyPrice := buyerBuyPrice, xq_Executable := True\<rparr>
      | _ \<Rightarrow> quote)"


section \<open>Arbitrage\<close>

record ArbitrageOpportunity =
  op_BuyFrom :: string
  op_SellTo :: string
  op_AssetID :: string
  op_BuyPrice :: float64
  op_SellPrice :: float64
  op_Profit :: float64

definition priceNodeIDs :: "PriceTable \<Rightarrow> string list" where
  "priceNodeIDs pt = sortedUnique (keys (pt_Prices pt))"

text \<open>
  The comparison given to \<open>sort.Slice\<close>. Opportunities differ in their nodes, and no profit is a
  not-a-number, so that it is a total order on them and every sorting algorithm gives the same list.
\<close>

definition better :: "ArbitrageOpportunity \<Rightarrow> ArbitrageOpportunity \<Rightarrow> bool" where
  "better a b \<longleftrightarrow>
     (if \<not> feq (op_Profit a) (op_Profit b) then flt (op_Profit b) (op_Profit a)
      else if op_BuyFrom a \<noteq> op_BuyFrom b then op_BuyFrom a < op_BuyFrom b
      else op_SellTo a < op_SellTo b)"

fun insert_by :: "('a \<Rightarrow> 'a \<Rightarrow> bool) \<Rightarrow> 'a \<Rightarrow> 'a list \<Rightarrow> 'a list" where
  "insert_by lt x [] = [x]"
| "insert_by lt x (y # ys) = (if lt x y then x # y # ys else y # insert_by lt x ys)"

definition sort_by :: "('a \<Rightarrow> 'a \<Rightarrow> bool) \<Rightarrow> 'a list \<Rightarrow> 'a list" where
  "sort_by lt xs = foldr (insert_by lt) xs []"

definition opportunity :: "PriceTable \<Rightarrow> string \<Rightarrow> float64 \<Rightarrow> string \<Rightarrow> string \<Rightarrow> ArbitrageOpportunity list" where
  "opportunity pt assetID minProfit buyFrom sellTo =
     (if buyFrom = sellTo then []
      else case (PriceTable_Get pt buyFrom assetID, PriceTable_Get pt sellTo assetID) of
        (Some buyPrice, Some sellPrice) \<Rightarrow>
          let profit = fsub sellPrice buyPrice in
          if fle minProfit profit
          then [\<lparr>op_BuyFrom = buyFrom, op_SellTo = sellTo, op_AssetID = assetID, op_BuyPrice = buyPrice,
                 op_SellPrice = sellPrice, op_Profit = profit\<rparr>] else []
      | _ \<Rightarrow> [])"

definition FindArbitrage :: "PriceTable \<Rightarrow> string \<Rightarrow> float64 \<Rightarrow> ArbitrageOpportunity list" where
  "FindArbitrage pt assetID minProfit =
     (let minProfit = (if flt minProfit (Fin 0) then Fin 0 else minProfit);
          nodeIDs = priceNodeIDs pt in
      sort_by better (concat (map (\<lambda>buyFrom. concat (map (opportunity pt assetID minProfit buyFrom) nodeIDs)) nodeIDs)))"

section \<open>Dynamics of acceptance\<close>

record DynamicsConfig =
  dy_Alpha :: float64
  dy_Steps :: int
  dy_Tau :: float64

record LocalDynamicsConfig =
  ld_Alpha :: float64
  ld_Steps :: int
  ld_Tau :: float64
  ld_IncludeSelf :: bool

definition validateDynamicsConfig :: "DynamicsConfig \<Rightarrow> err + unit" where
  "validateDynamicsConfig cfg =
     guard (flt (dy_Alpha cfg) (Fin 0) \<or> flt (Fin 1) (dy_Alpha cfg)) (errorf ''alpha must be in [0,1]'')
     (guard (dy_Steps cfg < 0) (errorf ''steps must be >= 0'')
     (guard (flt (dy_Tau cfg) (Fin 0) \<or> flt (Fin 1) (dy_Tau cfg)) (errorf ''tau must be in [0,1]'')
     (Inr ())))"

definition NewDynamicsConfig :: "float64 \<Rightarrow> int \<Rightarrow> float64 \<Rightarrow> err + DynamicsConfig" where
  "NewDynamicsConfig alpha steps tau =
     (let cfg = \<lparr>dy_Alpha = alpha, dy_Steps = steps, dy_Tau = tau\<rparr> in
      attempt (validateDynamicsConfig cfg) (\<lambda>_. Inr cfg))"

definition NewLocalDynamicsConfig :: "float64 \<Rightarrow> int \<Rightarrow> float64 \<Rightarrow> bool \<Rightarrow> err + LocalDynamicsConfig" where
  "NewLocalDynamicsConfig alpha steps tau includeSelf =
     attempt (validateDynamicsConfig \<lparr>dy_Alpha = alpha, dy_Steps = steps, dy_Tau = tau\<rparr>) (\<lambda>_.
     Inr \<lparr>ld_Alpha = alpha, ld_Steps = steps, ld_Tau = tau, ld_IncludeSelf = includeSelf\<rparr>)"

definition InitialAcceptanceState ::
    "'x env_scheme \<Rightarrow> int64 \<Rightarrow> SimNetwork \<Rightarrow> TransferTx option \<Rightarrow> Value list \<Rightarrow> err + AcceptanceState" where
  "InitialAcceptanceState E sys net tx inputs =
     attempt (each (\<lambda>_ node scores.
       attempt (SimNode_EvaluateTransfer E sys node tx inputs) (\<lambda>res.
       Inr (gm_put scores (sn_ID node) (sim_clamp01 (res_Score res))))) 0 net [])
     (\<lambda>scores. Inr \<lparr>ac_Scores = scores\<rparr>)"

text \<open>\<open>state.Scores[nodeID]\<close> is zero for a node without a score.\<close>

definition score_of :: "AcceptanceState \<Rightarrow> string \<Rightarrow> float64" where
  "score_of state nodeID = gm_get (Fin 0) (ac_Scores state) nodeID"

definition BinaryAcceptanceRatio :: "AcceptanceState \<Rightarrow> float64 \<Rightarrow> float64" where
  "BinaryAcceptanceRatio state tau =
     (if ac_Scores state = [] then Fin 0
      else fdiv (of_count (length (filter (\<lambda>(nodeID, score). fle tau score) (ac_Scores state)))) (of_count (length (ac_Scores state))))"

definition StepAcceptance :: "AcceptanceState \<Rightarrow> float64 \<Rightarrow> float64 \<Rightarrow> AcceptanceState" where
  "StepAcceptance state tau alpha =
     (let m = BinaryAcceptanceRatio state tau in
      \<lparr>ac_Scores = map (\<lambda>(nodeID, score). (nodeID, sim_clamp01 (fadd score (fmul alpha (fsub m score))))) (ac_Scores state)\<rparr>)"

text \<open>The states of a run, the initial one included; a slice cannot have a negative capacity.\<close>

primrec iterates :: "('a \<Rightarrow> 'a) \<Rightarrow> nat \<Rightarrow> 'a \<Rightarrow> 'a list" where
  "iterates f 0 x = [x]"
| "iterates f (Suc n) x = x # iterates f n (f x)"

definition RunDynamics :: "AcceptanceState \<Rightarrow> DynamicsConfig \<Rightarrow> err + AcceptanceState list" where
  "RunDynamics initial cfg =
     guard (dy_Steps cfg + 1 < 0) (panic (errorf ''makeslice: cap out of range''))
     (Inr (iterates (\<lambda>s. StepAcceptance s (dy_Tau cfg) (dy_Alpha cfg)) (nat (dy_Steps cfg)) initial))"

definition LocalAcceptanceRatio :: "AcceptanceState \<Rightarrow> Topology \<Rightarrow> string \<Rightarrow> float64 \<Rightarrow> bool \<Rightarrow> float64" where
  "LocalAcceptanceRatio state topology nodeID tau includeSelf =
     (let neighborhood = Topology_Neighborhood topology nodeID includeSelf in
      if neighborhood = [] then Fin 0
      else fdiv (of_count (length (filter (\<lambda>i. fle tau (score_of state i)) neighborhood))) (of_count (length neighborhood)))"

definition StepLocalAcceptance :: "AcceptanceState \<Rightarrow> Topology \<Rightarrow> LocalDynamicsConfig \<Rightarrow> AcceptanceState" where
  "StepLocalAcceptance state topology cfg =
     \<lparr>ac_Scores = map (\<lambda>nodeID.
        let score = score_of state nodeID;
            m = LocalAcceptanceRatio state topology nodeID (ld_Tau cfg) (ld_IncludeSelf cfg) in
        (nodeID, sim_clamp01 (fadd score (fmul (ld_Alpha cfg) (fsub m score))))) (stateNodeIDs state)\<rparr>"

definition RunLocalDynamics :: "AcceptanceState \<Rightarrow> Topology \<Rightarrow> LocalDynamicsConfig \<Rightarrow> err + AcceptanceState list" where
  "RunLocalDynamics initial topology cfg =
     guard (ld_Steps cfg + 1 < 0) (panic (errorf ''makeslice: cap out of range''))
     (Inr (iterates (\<lambda>s. StepLocalAcceptance s topology cfg) (nat (ld_Steps cfg)) initial))"

definition AcceptanceMean :: "AcceptanceState \<Rightarrow> float64" where
  "AcceptanceMean state =
     (if ac_Scores state = [] then Fin 0
      else fdiv (foldl (\<lambda>sum (nodeID, score). fadd sum score) (Fin 0) (ac_Scores state)) (of_count (length (ac_Scores state))))"

text \<open>The smallest and the largest of some floats, not-a-numbers left out; infinities if there are none.\<close>

definition minOf :: "float64 list \<Rightarrow> float64" where
  "minOf xs = foldl (\<lambda>m x. if flt x m then x else m) (Inf False) xs"

definition maxOfAll :: "float64 list \<Rightarrow> float64" where
  "maxOfAll xs = foldl (\<lambda>m x. if flt m x then x else m) (Inf True) xs"

definition HasConverged :: "AcceptanceState \<Rightarrow> float64 \<Rightarrow> bool" where
  "HasConverged state epsilon \<longleftrightarrow> length (ac_Scores state) \<le> 1
     \<or> fle (fsub (maxOfAll (map snd (ac_Scores state))) (minOf (map snd (ac_Scores state)))) epsilon"

end
