(* ===== verification/Arbitrage.thy ===== *)
theory Arbitrage
  imports Exchange "HOL-Library.Product_Lexorder"
begin

text \<open>
  What the sorted identifier lists of the simulation are, and what \<open>FindArbitrage\<close> finds: all
  opportunities and no others, the best first.
\<close>

section \<open>Sorted identifiers\<close>

lemma sortedUnique_fold:
  fixes out xs :: "string list"
  assumes "sorted (out @ xs)" "distinct out"
  defines "r \<equiv> foldl (\<lambda>out i. if out = [] \<or> last out \<noteq> i then out @ [i] else out) out xs"
  shows "sorted r \<and> distinct r \<and> set r = set out \<union> set xs"
  using assms(1,2) unfolding r_def
proof (induction xs arbitrary: out)
  case (Cons x xs)
  show ?case
  proof (cases "out = [] \<or> last out \<noteq> x")
    case True
    have "x \<notin> set out"
    proof
      assume x: "x \<in> set out"
      then have ne: "out \<noteq> []" by auto
      have "sorted (butlast out @ [last out])" using Cons.prems(1) ne by (simp add: sorted_append)
      moreover have "x \<in> set (butlast out @ [last out])" using x ne by simp
      ultimately have "x \<le> last out" by (auto simp: sorted_append)
      moreover have "last out \<le> x" using Cons.prems(1) ne by (simp add: sorted_append)
      ultimately show False using True ne by simp
    qed
    then show ?thesis using Cons.IH [of "out @ [x]"] Cons.prems True by auto
  next
    case False
    then have "x \<in> set out" using last_in_set [of out] by auto
    then show ?thesis using Cons.IH [of out] Cons.prems False by (auto simp: sorted_append)
  qed
qed simp

lemma sortedUnique_sorted [simp]: "sorted (sortedUnique ids)"
  and sortedUnique_distinct [simp]: "distinct (sortedUnique ids)"
  and set_sortedUnique [simp]: "set (sortedUnique ids) = set ids"
  using sortedUnique_fold [of "[]" "sort ids"] by (simp_all add: sortedUnique_def)

lemma sortedUnique_set_cong: "set ids = set ids' \<Longrightarrow> sortedUnique ids = sortedUnique ids'"
  by (rule sorted_distinct_set_unique) simp_all

section \<open>Sorting by a comparison\<close>

lemma mset_insert_by [simp]: "mset (insert_by lt x xs) = add_mset x (mset xs)"
  by (induction xs) auto

lemma set_insert_by [simp]: "set (insert_by lt x xs) = insert x (set xs)"
  by (induction xs) auto

lemma set_sort_by [simp]: "set (sort_by lt xs) = set xs"
  by (induction xs) (simp_all add: sort_by_def)

lemma sorted_insert_by:
  assumes "transp_on (insert x (set xs)) lt" "\<And>y. y \<in> set xs \<Longrightarrow> \<not> lt x y \<Longrightarrow> lt y x" "sorted_wrt lt xs"
  shows "sorted_wrt lt (insert_by lt x xs)"
  using assms
proof (induction xs)
  case (Cons y ys)
  show ?case
  proof (cases "lt x y")
    case True
    have "lt x z" if "z \<in> set ys" for z
      using transp_onD [OF Cons.prems(1), of x y z] True that Cons.prems(3) by simp
    then show ?thesis using Cons.prems(3) True by simp
  next
    case False
    have "transp_on (insert x (set ys)) lt"
      using Cons.prems(1) by (rule transp_on_subset) auto
    then have "sorted_wrt lt (insert_by lt x ys)" using Cons.IH Cons.prems(2,3) by simp
    then show ?thesis using False Cons.prems(2) [of y] Cons.prems(3) by simp
  qed
qed simp

lemma sort_by_sorted:
  assumes "transp_on (set xs) lt" "distinct xs"
    and "\<And>x y. x \<in> set xs \<Longrightarrow> y \<in> set xs \<Longrightarrow> x \<noteq> y \<Longrightarrow> lt x y \<or> lt y x"
  shows "sorted_wrt lt (sort_by lt xs)"
  using assms
proof (induction xs)
  case (Cons x xs)
  have "transp_on (set xs) lt" using Cons.prems(1) by (rule transp_on_subset) auto
  then have "sorted_wrt lt (sort_by lt xs)" using Cons.IH Cons.prems(2,3) by simp
  moreover have "lt y x" if "y \<in> set xs" "\<not> lt x y" for y
    using Cons.prems(2) Cons.prems(3) [of x y] that by auto
  ultimately have "sorted_wrt lt (insert_by lt x (sort_by lt xs))"
    using Cons.prems(1) by (intro sorted_insert_by) simp_all
  then show ?case by (simp add: sort_by_def)
qed (simp add: sort_by_def)

section \<open>Opportunities\<close>

text \<open>An opportunity that the prices offer.\<close>

definition offered :: "PriceTable \<Rightarrow> string \<Rightarrow> float64 \<Rightarrow> ArbitrageOpportunity \<Rightarrow> bool" where
  "offered pt assetID minProfit opp \<longleftrightarrow>
     op_BuyFrom opp \<noteq> op_SellTo opp \<and> op_AssetID opp = assetID
     \<and> PriceTable_Get pt (op_BuyFrom opp) assetID = Some (op_BuyPrice opp)
     \<and> PriceTable_Get pt (op_SellTo opp) assetID = Some (op_SellPrice opp)
     \<and> op_Profit opp = fsub (op_SellPrice opp) (op_BuyPrice opp) \<and> fle (max0 minProfit) (op_Profit opp)"

lemma in_opportunity: "opp \<in> set (opportunity pt a mp x y) \<longleftrightarrow>
    op_BuyFrom opp = x \<and> op_SellTo opp = y \<and> x \<noteq> y \<and> op_AssetID opp = a
    \<and> PriceTable_Get pt x a = Some (op_BuyPrice opp) \<and> PriceTable_Get pt y a = Some (op_SellPrice opp)
    \<and> op_Profit opp = fsub (op_SellPrice opp) (op_BuyPrice opp) \<and> fle mp (op_Profit opp)"
  by (cases opp) (auto simp: opportunity_def Let_def split: option.splits)

lemma opportunity_short: "opportunity pt a mp x y = [] \<or> (\<exists>opp. opportunity pt a mp x y = [opp])"
  by (auto simp: opportunity_def Let_def split: option.splits)

lemma PriceTable_Get_node: "PriceTable_Get pt n a = Some p \<Longrightarrow> n \<in> set (priceNodeIDs pt)"
  by (force simp: PriceTable_Get_def priceNodeIDs_def keys_def gm_get_def split: option.splits dest: map_of_SomeD)

lemma set_FindArbitrage: "set (FindArbitrage pt a mp) = {opp. offered pt a mp opp}"
  by (auto simp: FindArbitrage_def Let_def in_opportunity offered_def max0_def intro!: PriceTable_Get_node)

text \<open>On numbers, \<open>better\<close> is a strict order that compares any two different pairs of nodes.\<close>

lemma flt_feq_trans: "flt x y \<Longrightarrow> feq y z \<Longrightarrow> flt x z" and feq_flt_trans: "feq x y \<Longrightarrow> flt y z \<Longrightarrow> flt x z"
  and feq_trans: "feq x y \<Longrightarrow> feq y z \<Longrightarrow> feq x z" and feq_sym: "feq x y \<Longrightarrow> feq y x"
  by (cases x; cases y; cases z; auto)+

lemma feq_flt_linear: "\<not> fisnan x \<Longrightarrow> \<not> fisnan y \<Longrightarrow> \<not> feq x y \<Longrightarrow> flt x y \<or> flt y x"
  by (cases x; cases y) auto

lemma flt_not_feq: "flt x y \<Longrightarrow> \<not> feq x y \<and> \<not> feq y x"
  by (cases x; cases y) auto

lemma better_iff:
  assumes "\<not> fisnan (op_Profit a)" "\<not> fisnan (op_Profit b)"
  shows "better a b \<longleftrightarrow> flt (op_Profit b) (op_Profit a)
    \<or> feq (op_Profit a) (op_Profit b) \<and> (op_BuyFrom a, op_SellTo a) < (op_BuyFrom b, op_SellTo b)"
  using flt_not_feq [of "op_Profit b" "op_Profit a"] by (auto simp: better_def less_prod_simp)

lemma transp_better:
  assumes "\<And>opp. opp \<in> S \<Longrightarrow> \<not> fisnan (op_Profit opp)"
  shows "transp_on S better"
proof (rule transp_onI)
  fix a b c assume S: "a \<in> S" "b \<in> S" "c \<in> S" and l: "better a b" "better b c"
  show "better a c" using l unfolding better_iff [OF assms assms, OF S(1,2)] better_iff [OF assms assms, OF S(2,3)]
      better_iff [OF assms assms, OF S(1,3)]
    by (meson flt_trans flt_feq_trans feq_flt_trans feq_trans feq_sym order_less_trans)
qed

lemma fle_number: "fle x y \<Longrightarrow> \<not> fisnan x \<and> \<not> fisnan y"
  by (cases x; cases y) (auto simp: fle_def)

lemma not_nan_offered: "offered pt a mp opp \<Longrightarrow> \<not> fisnan (op_Profit opp)"
  using fle_number [of "max0 mp" "op_Profit opp"] by (auto simp: offered_def)

lemma distinct_opportunities:
  assumes "distinct ys"
  shows "distinct (concat (map (opportunity pt a mp x) ys))"
  using assms
proof (induction ys)
  case (Cons y ys)
  have "set (opportunity pt a mp x y) \<inter> set (concat (map (opportunity pt a mp x) ys)) = {}"
    using Cons.prems by (auto simp: in_opportunity)
  moreover have "distinct (opportunity pt a mp x y)" using opportunity_short [of pt a mp x y] by auto
  ultimately show ?case using Cons by (simp del: set_concat)
qed simp

lemma distinct_all_opportunities:
  assumes "distinct xs" "distinct ys"
  shows "distinct (concat (map (\<lambda>x. concat (map (opportunity pt a mp x) ys)) xs))"
  using assms
proof (induction xs)
  case (Cons x xs)
  then show ?case using distinct_opportunities [OF assms(2)] by (auto simp: in_opportunity)
qed simp

lemma offered_unique:
  assumes "offered pt a mp x" "offered pt a mp y" "op_BuyFrom x = op_BuyFrom y" "op_SellTo x = op_SellTo y"
  shows "x = y"
  using assms by (cases x; cases y) (auto simp: offered_def)

lemma FindArbitrage_sorted: "sorted_wrt better (FindArbitrage pt a mp)"
proof -
  let ?n = "priceNodeIDs pt"
  let ?xs = "concat (map (\<lambda>x. concat (map (opportunity pt a (max0 mp) x) ?n)) ?n)"
  have F: "FindArbitrage pt a mp = sort_by better ?xs" by (simp add: FindArbitrage_def max0_def Let_def)
  then have S: "set ?xs = {opp. offered pt a mp opp}" using set_FindArbitrage [of pt a mp] by simp
  have "sorted_wrt better (sort_by better ?xs)"
  proof (rule sort_by_sorted)
    show "transp_on (set ?xs) better" unfolding S by (rule transp_better) (simp add: not_nan_offered)
    show "distinct ?xs" by (intro distinct_all_opportunities) (simp_all add: priceNodeIDs_def)
    fix x y assume "x \<in> set ?xs" "y \<in> set ?xs" "x \<noteq> y"
    then have o: "offered pt a mp x" "offered pt a mp y" unfolding S by simp_all
    note n = not_nan_offered [OF o(1)] not_nan_offered [OF o(2)]
    have "(op_BuyFrom x, op_SellTo x) \<noteq> (op_BuyFrom y, op_SellTo y)" using offered_unique [OF o] \<open>x \<noteq> y\<close> by auto
    then show "better x y \<or> better y x"
      unfolding better_iff [OF n] better_iff [OF n(2,1)]
      using feq_flt_linear [OF n] feq_sym by (metis linorder_less_linear)
  qed
  then show ?thesis by (simp add: F)
qed

end
