(* ===== verification/Market.thy ===== *)
theory Market
  imports Exchange
begin

text \<open>
  The market simulation of one asset (\<open>core/sim/market.go\<close>). Random numbers come from the field
  \<open>rand_Float64\<close> of the environment: draw number \<open>k\<close> of the source with a seed. Constants are the
  nearest floats, and no multiplication is fused with an addition, as on amd64. Go's \<open>int\<close> is \<open>int\<close>:
  steps and counts.
\<close>

section \<open>Configuration and results\<close>

record senv = env +
  rand_Float64 :: "int64 \<Rightarrow> nat \<Rightarrow> float64"

definition MarketAssetID :: string where "MarketAssetID = ''market-asset''"
definition PriceModelAcceptance :: string where "PriceModelAcceptance = ''acceptance''"
definition PriceModelPipeline :: string where "PriceModelPipeline = ''pipeline''"

record MarketConfig =
  mc_Scenario :: string
  mc_Topology :: string
  mc_Steps :: int
  mc_Alpha :: float64
  mc_Spread :: float64
  mc_MinProfit :: float64
  mc_Seed :: int64
  mc_TradesPerStep :: int
  mc_EnableDemand :: bool
  mc_MaxQty :: float64
  mc_EnableCycle :: bool
  mc_EnableSubstitution :: bool
  mc_UtilityMode :: string
  mc_PriceModel :: string
  mc_ConsumptionRate :: float64
  mc_ProductionRate :: float64

record MarketStepMetrics =
  sm_Step :: int
  sm_MeanPrice :: float64
  sm_MinPrice :: float64
  sm_MaxPrice :: float64
  sm_PriceSpread :: float64
  sm_PriceVariance :: float64
  sm_ExecutedTrades :: int
  sm_DemandTrades :: int
  sm_ArbitrageTrades :: int
  sm_TotalVolume :: float64
  sm_ProducedVolume :: float64
  sm_ConsumedVolume :: float64
  sm_AvailableArbitrageCount :: int
  sm_MaxArbitrageProfit :: float64
  sm_LiquidityScore :: float64
  sm_GlobalMeanAcceptance :: float64
  sm_UnmetDemand :: float64
  sm_TotalSurplus :: float64
  sm_ClusterMeans :: row

record MarketSummary =
  su_InitialPriceSpread :: float64
  su_FinalPriceSpread :: float64
  su_InitialMeanPrice :: float64
  su_FinalMeanPrice :: float64
  su_TotalTrades :: int
  su_DemandTrades :: int
  su_ArbitrageTrades :: int
  su_TotalVolume :: float64
  su_TotalProduced :: float64
  su_TotalConsumed :: float64
  su_AverageTradesPerStep :: float64
  su_AverageVolumePerStep :: float64
  su_AverageUnmetDemand :: float64
  su_FinalLiquidityScore :: float64
  su_FinalUnmetDemand :: float64
  su_FinalTotalSurplus :: float64
  su_PriceSpreadDecreased :: bool
  su_Converged :: bool
  su_Fragmented :: bool
  su_Collapsed :: bool
  su_Liquid :: bool

record MarketResult =
  mr_Config :: MarketConfig
  mr_Initial :: AcceptanceState
  mr_Final :: AcceptanceState
  mr_Metrics :: "MarketStepMetrics list"
  mr_Summary :: MarketSummary

definition DefaultMarketConfig :: MarketConfig where
  "DefaultMarketConfig = \<lparr>mc_Scenario = ''split'', mc_Topology = ''full'', mc_Steps = 1000, mc_Alpha = rnd (1/5),
     mc_Spread = rnd (1/100), mc_MinProfit = rnd (5/100), mc_Seed = 1, mc_TradesPerStep = 0, mc_EnableDemand = False,
     mc_MaxQty = Fin 1, mc_EnableCycle = False, mc_EnableSubstitution = False, mc_UtilityMode = '''',
     mc_PriceModel = PriceModelAcceptance, mc_ConsumptionRate = Fin 0, mc_ProductionRate = Fin 0\<rparr>"

definition marketScenarios :: "string list" where
  "marketScenarios = [''split'', ''clustered'', ''random'', ''collapse'', ''high-liquidity'', ''fragmented'', ''demand-basic'',
     ''demand-fragmented'', ''demand-random'', ''cycle-basic'', ''cycle-fragmented'', ''cycle-random'']"

definition ValidateMarketConfig :: "MarketConfig \<Rightarrow> err + unit" where
  "ValidateMarketConfig cfg =
     guard (mc_Scenario cfg \<notin> set marketScenarios) (errorfs [''unknown market scenario '', go_quote (mc_Scenario cfg)])
     (guard (mc_Topology cfg \<notin> {''full'', ''chain'', ''clustered''}) (errorfs [''unknown market topology '', go_quote (mc_Topology cfg)])
     (guard (mc_Steps cfg < 0) (errorf ''steps must be >= 0'')
     (guard (flt (mc_Alpha cfg) (Fin 0) \<or> flt (Fin 1) (mc_Alpha cfg)) (errorf ''alpha must be in [0,1]'')
     (guard (flt (mc_Spread cfg) (Fin 0)) (errorf ''spread must be >= 0'')
     (guard (flt (mc_MinProfit cfg) (Fin 0)) (errorf ''min-profit must be >= 0'')
     (guard (mc_TradesPerStep cfg < 0) (errorf ''trades-per-step must be >= 0'')
     (guard (fle (mc_MaxQty cfg) (Fin 0)) (errorf ''max-qty must be > 0'')
     (guard (flt (mc_ConsumptionRate cfg) (Fin 0)) (errorf ''consumption-rate must be >= 0'')
     (guard (flt (mc_ProductionRate cfg) (Fin 0)) (errorf ''production-rate must be >= 0'')
     (guard (mc_PriceModel cfg \<notin> {'''', PriceModelAcceptance, PriceModelPipeline})
        (errorfs [''unknown price model '', go_quote (mc_PriceModel cfg)])
     (Inr ())))))))))))"

section \<open>Scenarios\<close>

definition sixNodes :: "string list" where
  "sixNodes = [''A'', ''B'', ''C'', ''D'', ''E'', ''F'']"

text \<open>The nodes in turn, with the number of their draw.\<close>

definition drawn :: "(nat \<Rightarrow> float64) \<Rightarrow> string list \<Rightarrow> row" where
  "drawn f ids = map (\<lambda>(k, nodeID). (nodeID, f k)) (enumerate 0 ids)"

definition MarketScenarioState :: "'x senv_scheme \<Rightarrow> string \<Rightarrow> int64 \<Rightarrow> err + AcceptanceState" where
  "MarketScenarioState E name seed =
     (let rng = rand_Float64 E seed; scores = (\<lambda>m. Inr \<lparr>ac_Scores = m\<rparr>) in
      if name = ''split'' then scores [(''A'', Fin 1), (''B'', Fin 0), (''C'', Fin 1), (''D'', Fin 0)]
      else if name = ''clustered'' then
        scores [(''A'', rnd (9/10)), (''B'', rnd (85/100)), (''C'', rnd (15/100)), (''D'', rnd (1/10))]
      else if name = ''collapse'' then
        scores [(''A'', rnd (4/100)), (''B'', rnd (3/100)), (''C'', rnd (2/100)), (''D'', rnd (1/100))]
      else if name = ''high-liquidity'' then
        scores [(''A'', rnd (65/100)), (''B'', rnd (55/100)), (''C'', rnd (45/100)), (''D'', rnd (35/100)),
                (''E'', Fin (3/4)), (''F'', Fin (1/4))]
      else if name = ''fragmented'' then
        scores [(''A'', rnd (95/100)), (''B'', rnd (9/10)), (''C'', rnd (85/100)), (''D'', rnd (15/100)),
                (''E'', rnd (1/10)), (''F'', rnd (5/100))]
      else if name = ''random'' then scores (drawn rng (sixNodes @ [''G'', ''H'']))
      else if name = ''demand-basic'' \<or> name = ''cycle-basic'' then
        scores [(''A'', Fin (1/4)), (''B'', rnd (85/100)), (''C'', rnd (8/10)), (''D'', Fin (3/4))]
      else if name = ''demand-fragmented'' then
        scores [(''A'', rnd (9/10)), (''B'', rnd (85/100)), (''C'', rnd (3/10)), (''D'', Fin (1/4))]
      else if name = ''demand-random'' then
        scores (drawn (\<lambda>k. fadd (Fin (1/4)) (fmul (rnd (65/100)) (rng k))) sixNodes)
      else if name = ''cycle-fragmented'' then
        scores [(''A'', rnd (9/10)), (''B'', rnd (85/100)), (''C'', rnd (35/100)), (''D'', rnd (3/10))]
      else if name = ''cycle-random'' then
        scores (drawn (\<lambda>k. fadd (rnd (2/10)) (fmul (rnd (7/10)) (rng k))) sixNodes)
      else Inl (errorfs [''unknown market scenario '', go_quote name]))"

definition setInventoryDemand ::
    "string \<Rightarrow> float64 \<Rightarrow> float64 \<Rightarrow> simInventoryState \<times> DemandState \<Rightarrow> simInventoryState \<times> DemandState" where
  "setInventoryDemand nodeID holding target = (\<lambda>(inventory, demand).
     (simInventoryState_Set inventory nodeID MarketAssetID holding, DemandState_SetTarget demand nodeID MarketAssetID target))"

definition MarketInventoryDemandState :: "'x senv_scheme \<Rightarrow> string \<Rightarrow> int64 \<Rightarrow> simInventoryState \<times> DemandState" where
  "MarketInventoryDemandState E scenario seed =
     (let new = (sim_NewInventoryState, NewDemandState); setAll = foldl (\<lambda>s (nodeID, h, t). setInventoryDemand nodeID h t s) new in
      if scenario = ''demand-basic'' \<or> scenario = ''cycle-basic'' then
        setAll [(''A'', Fin 10, Fin 2), (''B'', Fin 0, Fin 3), (''C'', Fin 0, Fin 3), (''D'', Fin 0, Fin 2)]
      else if scenario = ''demand-fragmented'' \<or> scenario = ''cycle-fragmented'' then
        setAll [(''A'', Fin 8, Fin 2), (''B'', Fin 7, Fin 2), (''C'', Fin 0, Fin 5), (''D'', Fin 0, Fin 4)]
      else if scenario = ''demand-random'' \<or> scenario = ''cycle-random'' then
        let rng = rand_Float64 E (seed + 1000) in
        setAll (map (\<lambda>(k, nodeID). (nodeID, fmul (Fin 5) (rng (2 * k)), fadd (Fin 1) (fmul (Fin 5) (rng (2 * k + 1)))))
                  (enumerate 0 sixNodes))
      else new)"

definition MarketCycleState ::
    "'x senv_scheme \<Rightarrow> string \<Rightarrow> int64 \<Rightarrow> float64 \<Rightarrow> float64 \<Rightarrow> ConsumptionState \<times> ProductionState" where
  "MarketCycleState E scenario seed consumptionRate productionRate =
     (let orElse = (\<lambda>rate d. if feq rate (Fin 0) then d else rate);
          consume = foldl (\<lambda>c (nodeID, rate). ConsumptionState_SetRate c nodeID MarketAssetID rate) NewConsumptionState;
          produce = foldl (\<lambda>p (nodeID, rate). ProductionState_SetRate p nodeID MarketAssetID rate) NewProductionState in
      if scenario = ''cycle-basic'' then
        let consumerRate = orElse consumptionRate (rnd (1/10)); producerRate = orElse productionRate (rnd (3/10)) in
        (consume [(''B'', consumerRate), (''C'', consumerRate), (''D'', consumerRate)], produce [(''A'', producerRate)])
      else if scenario = ''cycle-fragmented'' then
        let consumerRate = orElse consumptionRate (rnd (1/10)); producerRate = orElse productionRate (Fin (1/4)) in
        (consume [(''C'', consumerRate), (''D'', consumerRate)], produce [(''A'', producerRate), (''B'', producerRate)])
      else if scenario = ''cycle-random'' then
        let rng = rand_Float64 E (seed + 2000) in
        (consume (drawn (\<lambda>k. fmul consumptionRate (rng (2 * k))) sixNodes),
         produce (drawn (\<lambda>k. fmul productionRate (rng (2 * k + 1))) sixNodes))
      else (NewConsumptionState, NewProductionState))"

definition halves :: "string list \<Rightarrow> string list list" where
  "halves nodeIDs = (if length nodeIDs \<le> 1 then [nodeIDs]
     else let mid = length nodeIDs div 2 in [take mid nodeIDs, drop mid nodeIDs])"

definition marketClusters :: "string \<Rightarrow> string list \<Rightarrow> string list list" where
  "marketClusters scenario nodeIDs =
     (if scenario = ''split'' then [[''A'', ''C''], [''B'', ''D'']]
      else if scenario = ''clustered'' then [[''A'', ''B''], [''C'', ''D'']]
      else if scenario \<in> {''fragmented'', ''high-liquidity''} then [[''A'', ''B'', ''C''], [''D'', ''E'', ''F'']]
      else if scenario = ''random'' then halves nodeIDs
      else if scenario \<in> {''demand-basic'', ''cycle-basic''} then [[''A'', ''B'', ''C'', ''D'']]
      else if scenario \<in> {''demand-fragmented'', ''cycle-fragmented''} then [[''A'', ''B''], [''C'', ''D'']]
      else if scenario = ''multi-fragmented'' then [[''A'', ''B''], [''C'', ''D'']]
      else if scenario = ''multi-basic'' then [[''A'', ''B'', ''C'', ''D'']]
      else if scenario \<in> {''multi-compete'', ''multi-flight''} then [[''A'', ''B'', ''C''], [''D'', ''E'', ''F'']]
      else if scenario \<in> {''demand-random'', ''cycle-random''} then halves nodeIDs
      else [nodeIDs])"

definition MarketTopology :: "string \<Rightarrow> string \<Rightarrow> string list \<Rightarrow> err + Topology \<times> string list list" where
  "MarketTopology name scenario nodeIDs =
     (let clusters = marketClusters scenario nodeIDs in
      if name = ''full'' then Inr (FullMeshTopology nodeIDs, clusters)
      else if name = ''chain'' then Inr (ChainTopology nodeIDs, clusters)
      else if name = ''clustered'' then Inr (ClusteredTopology clusters, clusters)
      else Inl (errorfs [''unknown market topology '', go_quote name]))"

definition marketPairConnected :: "Topology \<Rightarrow> string \<Rightarrow> string \<Rightarrow> bool" where
  "marketPairConnected topology a b \<longleftrightarrow> list_ex (\<lambda>neighborID. neighborID = b) (Topology_Neighborhood topology a False)"


section \<open>Steps\<close>

text \<open>The pull of need and surplus on a score: the same in both simulations.\<close>

definition demandPressure :: "float64 \<Rightarrow> simInventoryState \<Rightarrow> DemandState \<Rightarrow> string \<Rightarrow> string \<Rightarrow> float64 \<Rightarrow> float64" where
  "demandPressure alpha inventory demand nodeID assetID score =
     (let need = DemandState_Need demand nodeID assetID inventory;
          surplus = DemandState_Surplus demand nodeID assetID inventory;
          target = DemandState_Target demand nodeID assetID;
          holding = simInventoryState_Get inventory nodeID assetID;
          atMostOne = (\<lambda>p. if flt (Fin 1) p then Fin 1 else p);
          score = (if flt (Fin 0) need
                   then fadd score (fmul (fmul alpha (atMostOne (fdiv need (fadd target (Fin 1))))) (fsub (Fin 1) score))
                   else score);
          score = (if flt (Fin 0) surplus
                   then fsub score (fmul (fmul alpha (atMostOne (fdiv surplus (fadd (fadd holding target) (Fin 1))))) score)
                   else score) in
      sim_clamp01 score)"

definition StepDemandPricePressure :: "AcceptanceState \<Rightarrow> simInventoryState \<Rightarrow> DemandState \<Rightarrow> float64 \<Rightarrow> AcceptanceState" where
  "StepDemandPricePressure state inventory demand alpha =
     \<lparr>ac_Scores = foldl (\<lambda>m nodeID. gm_put m nodeID
        (demandPressure (sim_clamp01 alpha) inventory demand nodeID MarketAssetID (score_of state nodeID)))
        (ac_Scores state) (stateNodeIDs state)\<rparr>"

definition StepMarketTopology :: "AcceptanceState \<Rightarrow> Topology \<Rightarrow> float64 \<Rightarrow> AcceptanceState" where
  "StepMarketTopology state topology alpha =
     (let alpha = sim_clamp01 alpha in
      \<lparr>ac_Scores = map (\<lambda>nodeID.
         let score = score_of state nodeID;
             known = List.map_filter (\<lambda>i. map_of (ac_Scores state) i) (Topology_Neighborhood topology nodeID True) in
         (nodeID,
          if known = [] then sim_clamp01 score
          else let localMean = fdiv (foldl fadd (Fin 0) known) (of_count (length known)) in
               sim_clamp01 (fadd score (fmul alpha (fsub localMean score))))) (stateNodeIDs state)\<rparr>)"

definition fabs :: "float64 \<Rightarrow> float64" where
  "fabs x = (if fsign x then fneg x else x)"

text \<open>\<open>modelcore.FromFloat(10)\<close> is ten million.\<close>

definition pipelinePriceConfig :: PriceConfig where
  "pipelinePriceConfig = \<lparr>pc_BasePrice = Fin 1,
     pc_Weights = \<lparr>fw_Cost = Fin 1, fw_Age = Fin (1/4), fw_Stability = Fin (1/4)\<rparr>,
     pc_VolumeThreshold = 10000000, pc_DecayK = rnd (1/1000)\<rparr>"

lemma pipeline_threshold: "FromFloat (Fin 10) = Inr (pc_VolumeThreshold pipelinePriceConfig)"
  by code_simp

definition of_int_float :: "int \<Rightarrow> float64" where
  "of_int_float n = rnd (of_int n)"

definition marketPriceTable ::
    "'x env_scheme \<Rightarrow> string \<Rightarrow> string \<Rightarrow> AcceptanceState \<Rightarrow> TradeObservation list \<Rightarrow> amount \<Rightarrow> int \<Rightarrow> int \<Rightarrow> PriceTable" where
  "marketPriceTable E priceModel assetID state trades settledVolume lastTradeStep step =
     (if priceModel = '''' \<or> priceModel = PriceModelAcceptance then PriceTableFromAcceptance assetID state
      else
        let mean = AcceptanceMean state; age = sim_clamp01 (fdiv (of_int_float step) (Fin 1000)) in
        foldl (\<lambda>pt nodeID.
          let score = sim_clamp01 (score_of state nodeID);
              features = \<lparr>af_Cost = score, af_Age = age, af_Stability = fsub (Fin 1) (fabs (fsub score mean))\<rparr>;
              result = ComputePrice E features trades settledVolume (of_int lastTradeStep) (of_int step) pipelinePriceConfig in
          PriceTable_Set pt nodeID assetID (pr_FinalPrice result)) NewPriceTable (stateNodeIDs state))"

definition tradeObservationWeight :: "AcceptanceState \<Rightarrow> string \<Rightarrow> string \<Rightarrow> float64" where
  "tradeObservationWeight state a b =
     (let weight = fdiv (fadd (sim_clamp01 (score_of state a)) (sim_clamp01 (score_of state b))) (Fin 2) in
      if fle weight (Fin 0) then Fin 1 else weight)"

section \<open>Metrics\<close>

definition TotalUnmetDemand :: "DemandState \<Rightarrow> simInventoryState \<Rightarrow> string \<Rightarrow> float64" where
  "TotalUnmetDemand demand inventory assetID =
     foldl (\<lambda>total nodeID. fadd total (DemandState_Need demand nodeID assetID inventory)) (Fin 0) (keys (de_Targets demand))"

definition TotalDemandSurplus :: "DemandState \<Rightarrow> simInventoryState \<Rightarrow> string \<Rightarrow> float64" where
  "TotalDemandSurplus demand inventory assetID =
     foldl (\<lambda>total nodeID. fadd total (DemandState_Surplus demand nodeID assetID inventory)) (Fin 0) (keys (de_Targets demand))"

definition liquidityScore :: "int \<Rightarrow> int \<Rightarrow> float64" where
  "liquidityScore executedTrades nodeCount =
     (let possiblePairs = nodeCount * (nodeCount - 1) in
      if possiblePairs = 0 then Fin 0 else fdiv (of_int_float executedTrades) (of_int_float possiblePairs))"

definition clusterMeans :: "AcceptanceState \<Rightarrow> string list list \<Rightarrow> row" where
  "clusterMeans state clusters =
     foldl (\<lambda>means (i, cluster).
       let scores = List.map_filter (\<lambda>nodeID. map_of (ac_Scores state) nodeID) cluster in
       if scores = [] then means
       else gm_put means (''cluster_'' @ dec_nat (i + 1))
         (fdiv (foldl (\<lambda>sum score. fadd sum (sim_PriceFromAcceptance score)) (Fin 0) scores) (of_count (length scores))))
     [] (enumerate 0 clusters)"

definition clusterSpread :: "row \<Rightarrow> float64" where
  "clusterSpread means = (if length means \<le> 1 then Fin 0 else fsub (maxOfAll (map snd means)) (minOf (map snd means)))"

definition MarketMetrics ::
    "int \<Rightarrow> AcceptanceState \<Rightarrow> simInventoryState \<Rightarrow> DemandState \<Rightarrow> ArbitrageOpportunity list \<Rightarrow> int \<Rightarrow> int \<Rightarrow> int
      \<Rightarrow> float64 \<Rightarrow> float64 \<Rightarrow> float64 \<Rightarrow> string list list \<Rightarrow> PriceTable \<Rightarrow> MarketStepMetrics" where
  "MarketMetrics step state inventory demand arbitrage executedTrades demandTrades arbitrageTrades
       totalVolume producedVolume consumedVolume clusters pt =
     (let nodeIDs = stateNodeIDs state;
          metrics = \<lparr>sm_Step = step, sm_MeanPrice = Fin 0, sm_MinPrice = Fin 0, sm_MaxPrice = Fin 0, sm_PriceSpread = Fin 0,
            sm_PriceVariance = Fin 0, sm_ExecutedTrades = executedTrades, sm_DemandTrades = demandTrades,
            sm_ArbitrageTrades = arbitrageTrades, sm_TotalVolume = totalVolume, sm_ProducedVolume = producedVolume,
            sm_ConsumedVolume = consumedVolume, sm_AvailableArbitrageCount = int (length arbitrage),
            sm_MaxArbitrageProfit = (case arbitrage of [] \<Rightarrow> Fin 0 | best # _ \<Rightarrow> op_Profit best),
            sm_LiquidityScore = Fin 0, sm_GlobalMeanAcceptance = AcceptanceMean state,
            sm_UnmetDemand = TotalUnmetDemand demand inventory MarketAssetID,
            sm_TotalSurplus = TotalDemandSurplus demand inventory MarketAssetID,
            sm_ClusterMeans = clusterMeans state clusters\<rparr>;
          prices = List.map_filter (\<lambda>nodeID. PriceTable_Get pt nodeID MarketAssetID) nodeIDs in
      if prices = [] then metrics
      else
        let n = of_count (length prices); mean = fdiv (foldl fadd (Fin 0) prices) n;
            low = minOf prices; high = maxOfAll prices;
            squares = foldl (\<lambda>v price. let delta = fsub price mean in fadd v (fmul delta delta)) (Fin 0) prices in
        metrics\<lparr>sm_MeanPrice := mean, sm_MinPrice := low, sm_MaxPrice := high, sm_PriceVariance := fdiv squares n,
          sm_PriceSpread := fsub high low, sm_LiquidityScore := liquidityScore executedTrades (int (length nodeIDs))\<rparr>)"

definition averageUnmetDemand :: "MarketStepMetrics list \<Rightarrow> float64" where
  "averageUnmetDemand metrics = (if metrics = [] then Fin 0
     else fdiv (foldl (\<lambda>total m. fadd total (sm_UnmetDemand m)) (Fin 0) metrics) (of_count (length metrics)))"

definition emptySummary :: MarketSummary where
  "emptySummary = \<lparr>su_InitialPriceSpread = Fin 0, su_FinalPriceSpread = Fin 0, su_InitialMeanPrice = Fin 0,
     su_FinalMeanPrice = Fin 0, su_TotalTrades = 0, su_DemandTrades = 0, su_ArbitrageTrades = 0, su_TotalVolume = Fin 0,
     su_TotalProduced = Fin 0, su_TotalConsumed = Fin 0, su_AverageTradesPerStep = Fin 0, su_AverageVolumePerStep = Fin 0,
     su_AverageUnmetDemand = Fin 0, su_FinalLiquidityScore = Fin 0, su_FinalUnmetDemand = Fin 0, su_FinalTotalSurplus = Fin 0,
     su_PriceSpreadDecreased = False, su_Converged = False, su_Fragmented = False, su_Collapsed = False, su_Liquid = False\<rparr>"

definition MarketSummaryFromMetrics ::
    "MarketStepMetrics list \<Rightarrow> int \<Rightarrow> int \<Rightarrow> int \<Rightarrow> float64 \<Rightarrow> float64 \<Rightarrow> float64 \<Rightarrow> int \<Rightarrow> int \<Rightarrow> MarketSummary" where
  "MarketSummaryFromMetrics metrics totalTrades demandTrades arbitrageTrades totalVolume totalProduced totalConsumed nodeCount steps =
     (if metrics = [] then emptySummary
      else
        let initial = hd metrics; final = last metrics; possiblePairs = nodeCount * (nodeCount - 1);
            summary = emptySummary\<lparr>su_InitialPriceSpread := sm_PriceSpread initial, su_FinalPriceSpread := sm_PriceSpread final,
              su_InitialMeanPrice := sm_MeanPrice initial, su_FinalMeanPrice := sm_MeanPrice final, su_TotalTrades := totalTrades,
              su_DemandTrades := demandTrades, su_ArbitrageTrades := arbitrageTrades, su_TotalVolume := totalVolume,
              su_TotalProduced := totalProduced, su_TotalConsumed := totalConsumed,
              su_FinalLiquidityScore := sm_LiquidityScore final, su_FinalUnmetDemand := sm_UnmetDemand final,
              su_FinalTotalSurplus := sm_TotalSurplus final,
              su_PriceSpreadDecreased := flt (sm_PriceSpread final) (sm_PriceSpread initial),
              su_Converged := flt (sm_PriceSpread final) (rnd (5/100)),
              su_Fragmented := flt (rnd (2/10)) (clusterSpread (sm_ClusterMeans final)),
              su_Collapsed := flt (sm_MeanPrice final) (rnd (5/100))\<rparr>;
            summary = (if 0 < steps
              then summary\<lparr>su_AverageTradesPerStep := fdiv (of_int_float totalTrades) (of_int_float steps),
                     su_AverageVolumePerStep := fdiv totalVolume (of_int_float steps),
                     su_AverageUnmetDemand := averageUnmetDemand metrics\<rparr>
              else summary) in
        if 0 < possiblePairs
        then summary\<lparr>su_Liquid := flt (fmul (rnd (1/10)) (of_int_float possiblePairs)) (su_AverageTradesPerStep summary)\<rparr>
        else summary)"


section \<open>The simulation\<close>

text \<open>The variables of one step, and those that live over the steps.\<close>

record market =
  mk_next :: AcceptanceState
  mk_inventory :: simInventoryState
  mk_demandTrades :: int
  mk_arbitrageTrades :: int
  mk_volume :: float64
  mk_trades :: "TradeObservation list"
  mk_settled :: amount
  mk_lastTradeStep :: int

record marketRun =
  rn_current :: AcceptanceState
  rn_inventory :: simInventoryState
  rn_metrics :: "MarketStepMetrics list"
  rn_totalTrades :: int
  rn_totalDemand :: int
  rn_totalArbitrage :: int
  rn_totalVolume :: float64
  rn_totalProduced :: float64
  rn_totalConsumed :: float64
  rn_observations :: "TradeObservation list"
  rn_settledVolume :: amount
  rn_lastStep :: int

definition observeTrade :: "int \<Rightarrow> float64 \<Rightarrow> string \<Rightarrow> string \<Rightarrow> amount \<Rightarrow> market \<Rightarrow> err + market" where
  "observeTrade step price a b volume m =
     attempt (Add (mk_settled m) volume) (\<lambda>settled.
     Inr (m\<lparr>mk_trades := mk_trades m @ [\<lparr>ob_Price = price, ob_Volume = volume,
                ob_Weight = tradeObservationWeight (mk_next m) a b, ob_TimeUnix = of_int step\<rparr>],
            mk_settled := settled, mk_lastTradeStep := step\<rparr>))"

definition demandTrade ::
    "MarketConfig \<Rightarrow> Topology \<Rightarrow> DemandState \<Rightarrow> PriceTable \<Rightarrow> int \<Rightarrow> string \<Rightarrow> string \<Rightarrow> market \<Rightarrow> err + market" where
  "demandTrade cfg topology demand pt step sellerID buyerID m =
     (if mc_TradesPerStep cfg \<le> mk_demandTrades m + mk_arbitrageTrades m then Inr m
      else if sellerID = buyerID \<or> \<not> marketPairConnected topology sellerID buyerID then Inr m
      else
        let quote = QuoteDemandTrade pt (mk_inventory m) demand sellerID buyerID MarketAssetID (mc_MaxQty cfg) (mc_Spread cfg) in
        if \<not> dq_Executable quote then Inr m
        else
          let (iv, next) = ApplyDemandTrade (mk_inventory m) (mk_next m) quote (mc_Alpha cfg);
              m = m\<lparr>mk_inventory := iv, mk_next := next, mk_demandTrades := mk_demandTrades m + 1,
                     mk_volume := fadd (mk_volume m) (dq_Quantity quote)\<rparr> in
          attempt (FromFloat (dq_Quantity quote)) (\<lambda>volume.
          if 0 <s volume then observeTrade step (dq_ClearingPrice quote) (dq_Seller quote) (dq_Buyer quote) volume m
          else Inr m))"

text \<open>\<open>modelcore.FromFloat(1)\<close> is one million.\<close>

definition arbitrageTrade :: "MarketConfig \<Rightarrow> Topology \<Rightarrow> PriceTable \<Rightarrow> int \<Rightarrow> ArbitrageOpportunity \<Rightarrow> market \<Rightarrow> err + market" where
  "arbitrageTrade cfg topology pt step opp m =
     (if mc_TradesPerStep cfg \<le> mk_demandTrades m + mk_arbitrageTrades m then Inr m
      else if \<not> marketPairConnected topology (op_BuyFrom opp) (op_SellTo opp) then Inr m
      else
        let quote = sim_QuoteTrade pt (op_BuyFrom opp) (op_SellTo opp) MarketAssetID (mc_Spread cfg) in
        if \<not> tq_Executable quote then Inr m
        else
          let m = m\<lparr>mk_next := ApplyTradeFeedback (mk_next m) quote (mc_Alpha cfg),
                     mk_arbitrageTrades := mk_arbitrageTrades m + 1\<rparr> in
          attempt (FromFloat (Fin 1)) (\<lambda>volume.
          observeTrade step (tq_ClearingPrice quote) (tq_Seller quote) (tq_Buyer quote) volume m))"

definition marketTrades ::
    "MarketConfig \<Rightarrow> Topology \<Rightarrow> DemandState \<Rightarrow> string list \<Rightarrow> PriceTable \<Rightarrow> ArbitrageOpportunity list \<Rightarrow> int \<Rightarrow> market
      \<Rightarrow> err + market" where
  "marketTrades cfg topology demand nodeIDs pt arbitrage step m =
     attempt (if mc_EnableDemand cfg
              then each (\<lambda>_ sellerID. each (\<lambda>_ buyerID. demandTrade cfg topology demand pt step sellerID buyerID) 0 nodeIDs) 0 nodeIDs m
              else Inr m) (\<lambda>m.
     each (\<lambda>_ opp. arbitrageTrade cfg topology pt step opp) 0 arbitrage m)"

definition marketStep ::
    "'x env_scheme \<Rightarrow> MarketConfig \<Rightarrow> Topology \<Rightarrow> string list list \<Rightarrow> DemandState \<Rightarrow> ConsumptionState \<Rightarrow> ProductionState
      \<Rightarrow> string list \<Rightarrow> int \<Rightarrow> marketRun \<Rightarrow> err + marketRun" where
  "marketStep E cfg topology clusters demand consumption production nodeIDs step r =
     (let cycle = (mc_EnableDemand cfg \<and> mc_EnableCycle cfg);
          (iv, consumed) = (if cycle then ConsumptionState_ApplyWithVolume consumption (rn_inventory r) else (rn_inventory r, Fin 0));
          (iv, produced) = (if cycle then ProductionState_ApplyWithVolume production iv else (iv, Fin 0));
          next = (if cycle then StepDemandPricePressure (rn_current r) iv demand (mc_Alpha cfg) else rn_current r);
          pt = marketPriceTable E (mc_PriceModel cfg) MarketAssetID next (rn_observations r) (rn_settledVolume r) (rn_lastStep r) step;
          arbitrage = FindArbitrage pt MarketAssetID (mc_MinProfit cfg);
          m = \<lparr>mk_next = next, mk_inventory = iv, mk_demandTrades = 0, mk_arbitrageTrades = 0, mk_volume = Fin 0,
               mk_trades = rn_observations r, mk_settled = rn_settledVolume r, mk_lastTradeStep = rn_lastStep r\<rparr> in
      attempt (marketTrades cfg topology demand nodeIDs pt arbitrage step m) (\<lambda>m.
      let current = StepMarketTopology (mk_next m) topology (mc_Alpha cfg);
          executed = mk_demandTrades m + mk_arbitrageTrades m in
      Inr \<lparr>rn_current = current, rn_inventory = mk_inventory m,
           rn_metrics = rn_metrics r @ [MarketMetrics step current (mk_inventory m) demand arbitrage executed (mk_demandTrades m)
             (mk_arbitrageTrades m) (mk_volume m) produced consumed clusters
             (marketPriceTable E (mc_PriceModel cfg) MarketAssetID current (mk_trades m) (mk_settled m) (mk_lastTradeStep m) step)],
           rn_totalTrades = rn_totalTrades r + executed, rn_totalDemand = rn_totalDemand r + mk_demandTrades m,
           rn_totalArbitrage = rn_totalArbitrage r + mk_arbitrageTrades m,
           rn_totalVolume = fadd (rn_totalVolume r) (mk_volume m), rn_totalProduced = fadd (rn_totalProduced r) produced,
           rn_totalConsumed = fadd (rn_totalConsumed r) consumed, rn_observations = mk_trades m,
           rn_settledVolume = mk_settled m, rn_lastStep = mk_lastTradeStep m\<rparr>))"

definition RunMarketSimulation :: "'x senv_scheme \<Rightarrow> MarketConfig \<Rightarrow> err + MarketResult" where
  "RunMarketSimulation E cfg =
     attempt (ValidateMarketConfig cfg) (\<lambda>_.
     attempt (MarketScenarioState E (mc_Scenario cfg) (mc_Seed cfg)) (\<lambda>initial.
     let (inventory, demand) = MarketInventoryDemandState E (mc_Scenario cfg) (mc_Seed cfg);
         (consumption, production) = MarketCycleState E (mc_Scenario cfg) (mc_Seed cfg) (mc_ConsumptionRate cfg) (mc_ProductionRate cfg);
         nodeIDs = stateNodeIDs initial;
         cfg = (if mc_TradesPerStep cfg = 0 then cfg\<lparr>mc_TradesPerStep := int (length nodeIDs)\<rparr> else cfg) in
     attempt (MarketTopology (mc_Topology cfg) (mc_Scenario cfg) nodeIDs) (\<lambda>(topology, clusters).
     let start = \<lparr>rn_current = initial, rn_inventory = inventory,
           rn_metrics = [MarketMetrics 0 initial inventory demand [] 0 0 0 (Fin 0) (Fin 0) (Fin 0) clusters
             (marketPriceTable E (mc_PriceModel cfg) MarketAssetID initial [] 0 0 0)],
           rn_totalTrades = 0, rn_totalDemand = 0, rn_totalArbitrage = 0, rn_totalVolume = Fin 0, rn_totalProduced = Fin 0,
           rn_totalConsumed = Fin 0, rn_observations = [], rn_settledVolume = 0, rn_lastStep = 0\<rparr> in
     attempt (each (\<lambda>i _. marketStep E cfg topology clusters demand consumption production nodeIDs (int i + 1)) 0
                (replicate (nat (mc_Steps cfg)) ()) start) (\<lambda>r.
     Inr \<lparr>mr_Config = cfg, mr_Initial = initial, mr_Final = rn_current r, mr_Metrics = rn_metrics r,
          mr_Summary = MarketSummaryFromMetrics (rn_metrics r) (rn_totalTrades r) (rn_totalDemand r) (rn_totalArbitrage r)
            (rn_totalVolume r) (rn_totalProduced r) (rn_totalConsumed r) (int (length nodeIDs)) (mc_Steps cfg)\<rparr>))))"

end
