(* ===== verification/MarketRun.thy ===== *)
theory MarketRun
  imports Arbitrage Market
begin

text \<open>
  What every run of the market simulation keeps: the nodes, the limit on the trades of a step, the sums
  of the summary, and, with acceptance prices, scores in the unit interval.
\<close>

section \<open>Bounds on floats\<close>

text \<open>Finite, and at most \<open>2 ^ k\<close> in magnitude.\<close>

definition fbound :: "nat \<Rightarrow> float64 \<Rightarrow> bool" where
  "fbound k x \<longleftrightarrow> is_fin x \<and> \<bar>fval x\<bar> \<le> 2 ^ k"

lemma fbound_mono: "fbound j x \<Longrightarrow> j \<le> k \<Longrightarrow> fbound k x"
  unfolding fbound_def using power_increasing [of j k "2 :: rat"] by (meson order_trans one_le_numeral)

lemma fbound_number: "fbound k x \<Longrightarrow> \<not> fisnan x"
  by (cases x) (auto simp: fbound_def)

lemma rnd_pos_bound:
  assumes "v \<le> 2 ^ k" "k \<le> 1023"
  shows "\<exists>r \<ge> 0. rnd_pos v = Fin r \<and> r \<le> 2 ^ k"
proof -
  have p: "(2 ^ k :: rat) = pow2 (int k)" by (simp add: pow2_def)
  have "rne v \<le> rne (2 ^ k)" using assms(1) by (rule rne_mono)
  then have le: "rne v \<le> 2 ^ k" by (simp only: p rne_pow2)
  also have "\<dots> \<le> (2 :: rat) ^ 1023" using assms(2) by (intro power_increasing) simp_all
  also have "\<dots> < 2 ^ 1024" by simp
  finally show ?thesis using le by (simp add: rnd_pos_alt not_le)
qed

lemma fbound_rnd:
  assumes "\<bar>v\<bar> \<le> 2 ^ k" "k \<le> 1023"
  shows "fbound k (rnd v)"
proof -
  have "\<exists>r \<ge> 0. rnd_pos \<bar>v\<bar> = Fin r \<and> r \<le> 2 ^ k" using assms by (intro rnd_pos_bound)
  then show ?thesis by (auto simp: rnd_def fbound_def abs_if split: if_splits)
qed

lemma fbound_simps [simp]: "\<not> fbound k NaN" "\<not> fbound k (Inf s)" "fbound k NegZero" "fbound k (Fin r) \<longleftrightarrow> \<bar>r\<bar> \<le> 2 ^ k"
  by (simp_all add: fbound_def)

lemma fbound_fadd: "fbound k x \<Longrightarrow> fbound k y \<Longrightarrow> k \<le> 1022 \<Longrightarrow> fbound (Suc k) (fadd x y)"
  by (cases "(x, y)" rule: fadd.cases) (auto intro!: fbound_rnd simp: abs_le_iff)

lemma fbound_fneg [simp]: "fbound k (fneg x) \<longleftrightarrow> fbound k x"
  by (cases x) (auto simp: fbound_def)

lemma fbound_fsub: "fbound k x \<Longrightarrow> fbound k y \<Longrightarrow> k \<le> 1022 \<Longrightarrow> fbound (Suc k) (fsub x y)"
  by (simp add: fsub_def fbound_fadd)

lemma fbound_fmul:
  assumes "funit a" "fbound k x" "k \<le> 1023"
  shows "fbound k (fmul a x)"
proof -
  have "fbound k (rnd (r * t))" if "0 \<le> r" "r \<le> 1" "\<bar>t\<bar> \<le> 2 ^ k" for r t
  proof (rule fbound_rnd)
    have "\<bar>r * t\<bar> \<le> 1 * \<bar>t\<bar>" using that by (simp only: abs_mult) (intro mult_right_mono; simp)
    then show "\<bar>r * t\<bar> \<le> 2 ^ k" using that by simp
  qed (fact assms(3))
  moreover have "fbound k (fzero s)" for s by (simp add: fzero_def)
  ultimately show ?thesis using funit_cases [OF assms(1)] assms(2)
    by (cases x) (auto simp: Let_def)
qed

lemma funit_fbound: "funit x \<Longrightarrow> fbound 0 x"
  by (drule funit_cases) (auto simp: fbound_def)

lemma funit_Fin [simp]: "funit (Fin r) \<longleftrightarrow> 0 \<le> r \<and> r \<le> 1" and funit_NegZero [simp]: "funit NegZero"
  and funit_others [simp]: "\<not> funit NaN" "\<not> funit (Inf s)"
  by (auto simp: funit_def)

lemma funit_rnd: "0 \<le> v \<Longrightarrow> v \<le> 1 \<Longrightarrow> funit (rnd v)"
  using rnd_pos_bound [of v 0] by (auto simp: rnd_def)

lemma funit_clamp: "\<not> fisnan v \<Longrightarrow> funit (sim_clamp01 v)"
  by (cases v) (auto simp: sim_clamp01_def)

lemma sim_clamp01_id: "funit v \<Longrightarrow> sim_clamp01 v = v"
  by (cases v) (auto simp: sim_clamp01_def)

text \<open>The step from a score towards a target.\<close>

lemma funit_nudge:
  assumes "funit score" "funit alpha" "fbound 60 target"
  shows "funit (sim_clamp01 (fadd score (fmul alpha (fsub target score))))"
proof (rule funit_clamp)
  have s: "fbound 60 score" using funit_fbound [OF assms(1)] by (rule fbound_mono) simp
  have "fbound 61 (fmul alpha (fsub target score))"
    using fbound_fsub [OF assms(3) s] by (intro fbound_fmul [OF assms(2)]) (simp_all add: numeral_eq_Suc)
  then have "fbound (Suc 61) (fadd score (fmul alpha (fsub target score)))"
    using fbound_mono [OF s] by (intro fbound_fadd) simp_all
  then show "\<not> fisnan (fadd score (fmul alpha (fsub target score)))" by (rule fbound_number)
qed

text \<open>The middle of two prices.\<close>

lemma funit_half: "funit x \<Longrightarrow> funit y \<Longrightarrow> funit (fdiv (fadd x y) (Fin 2))"
proof -
  have h: "funit (fdiv (rnd v) (Fin 2))" if v: "0 \<le> v" "v \<le> 2" for v
  proof -
    obtain r where "rnd v = Fin r" "0 \<le> r" "r \<le> 2" using rnd_pos_bound [of v 1] v by (auto simp: rnd_def)
    then show ?thesis by (auto simp: Let_def fzero_def intro: funit_rnd)
  qed
  assume "funit x" "funit y"
  then show ?thesis using h [of "fval x + fval y"] by (auto dest!: funit_cases simp: fzero_def)
qed

text \<open>A sum of scores stays at \<open>2 ^ 53\<close>, which plus one is rounded to itself.\<close>

lemma rne_stuck: "rne (2 ^ 53 + 1) = 2 ^ 53"
  by code_simp

lemma sum_bound:
  assumes "\<forall>x \<in> set xs. funit x" "fposfin s" "fval s \<le> 2 ^ 53"
  shows "fposfin (foldl fadd s xs) \<and> fval (foldl fadd s xs) \<le> 2 ^ 53"
  using assms
proof (induction xs arbitrary: s)
  case (Cons x xs)
  have r: "fposfin (rnd v) \<and> fval (rnd v) \<le> 2 ^ 53" if "0 \<le> v" "v \<le> 2 ^ 53 + 1" for v
  proof -
    have "rne v \<le> 2 ^ 53" using rne_mono [OF that(2)] by (simp only: rne_stuck)
    also have "\<dots> < (2 :: rat) ^ 1024" by simp
    finally have "rne v < 2 ^ 1024" .
    with \<open>rne v \<le> 2 ^ 53\<close> show ?thesis using that(1) by (simp add: rnd_def rnd_pos_alt)
  qed
  have "fposfin (fadd s x) \<and> fval (fadd s x) \<le> 2 ^ 53"
    using fposfin_cases [OF Cons.prems(2)] funit_cases [of x] Cons.prems r [of "fval s + fval x"] by auto
  then show ?case using Cons by simp
qed simp

lemma of_count_cases: "0 < n \<Longrightarrow> of_count n = Inf False \<or> (\<exists>r \<ge> 1. of_count n = Fin r)"
proof -
  assume "0 < n"
  then have "(1 :: rat) \<le> of_nat n" by simp
  then have "rne 1 \<le> rne (of_nat n)" by (rule rne_mono)
  then show ?thesis by (auto simp: of_count_def rnd_def rnd_pos_alt)
qed

lemma mean_bound:
  assumes "\<forall>x \<in> set xs. funit x" "xs \<noteq> []"
  shows "fbound 60 (fdiv (foldl fadd (Fin 0) xs) (of_count (length xs)))"
proof -
  have z: "fposfin (foldl fadd (Fin 0) xs)" "fval (foldl fadd (Fin 0) xs) \<le> 2 ^ 53"
    using sum_bound [OF assms(1), of "Fin 0"] by simp_all
  obtain r where r: "foldl fadd (Fin 0) xs = NegZero \<or> foldl fadd (Fin 0) xs = Fin r" "0 \<le> r" "r \<le> 2 ^ 53"
    using fposfin_cases [OF z(1)] z(2) by force
  have "fbound 60 (rnd (r / n))" if "1 \<le> n" for n
  proof (rule fbound_rnd)
    have "r / n \<le> r / 1" using that r(2) by (intro divide_left_mono) simp_all
    also have "\<dots> \<le> 2 ^ 60" using r(3) by (simp add: order_trans)
    finally show "\<bar>r / n\<bar> \<le> 2 ^ 60" using that r(2) by simp
  qed simp
  then show ?thesis using r(1) of_count_cases [of "length xs"] assms(2)
    by (auto simp: Let_def fzero_def)
qed

section \<open>Scores\<close>

definition units :: "AcceptanceState \<Rightarrow> bool" where
  "units state \<longleftrightarrow> (\<forall>s \<in> snd ` set (ac_Scores state). funit s)"

definition nodes :: "AcceptanceState \<Rightarrow> string set" where
  "nodes state = fst ` set (ac_Scores state)"

lemma same_scores [simp]: "units \<lparr>ac_Scores = ac_Scores state\<rparr> \<longleftrightarrow> units state"
    "nodes \<lparr>ac_Scores = ac_Scores state\<rparr> = nodes state"
  by (simp_all add: units_def nodes_def)

named_theorems scores "what the operations do to the nodes and scores"

lemma gm_put_subset: "set (gm_put m k v) \<subseteq> insert (k, v) (set m)"
  by (induction m) (auto simp: gm_put_def)

lemma units_put [intro]: "units \<lparr>ac_Scores = m\<rparr> \<Longrightarrow> funit s \<Longrightarrow> units \<lparr>ac_Scores = gm_put m n s\<rparr>"
  using gm_put_subset [of m n s] by (auto simp: units_def)

lemma nodes_put [scores]: "nodes \<lparr>ac_Scores = gm_put m n s\<rparr> = insert n (nodes \<lparr>ac_Scores = m\<rparr>)"
  by (simp add: nodes_def gm_put_def dom_update [symmetric] dom_map_of_conv_image_fst [symmetric])
    (auto simp: update_conv')

lemma stateNodeIDs_nodes: "set (stateNodeIDs state) = nodes state"
  by (simp add: stateNodeIDs_def nodes_def keys_def)

lemma stateNodeIDs_cong: "nodes s = nodes t \<Longrightarrow> stateNodeIDs s = stateNodeIDs t"
  by (simp add: stateNodeIDs_def nodes_def keys_def sortedUnique_set_cong)

lemma map_of_units: "units state \<Longrightarrow> map_of (ac_Scores state) n = Some s \<Longrightarrow> funit s"
  by (force simp: units_def dest: map_of_SomeD)

lemma map_of_nodes: "map_of (ac_Scores state) n = Some s \<Longrightarrow> n \<in> nodes state"
  by (force simp: nodes_def dest: map_of_SomeD)

lemma score_of_units: "units state \<Longrightarrow> funit (score_of state n)"
  by (auto simp: score_of_def gm_get_def split: option.splits dest: map_of_units)

section \<open>Prices\<close>

definition unit_prices :: "PriceTable \<Rightarrow> bool" where
  "unit_prices pt \<longleftrightarrow> (\<forall>n a p. PriceTable_Get pt n a = Some p \<longrightarrow> funit p)"

lemma PriceTable_Get_Set: "PriceTable_Get (PriceTable_Set pt n a p) n' a'
    = (if n' = n \<and> a' = a then Some p else PriceTable_Get pt n' a')"
  by (simp add: PriceTable_Get_def PriceTable_Set_def table_set_def)

lemma unit_prices_fold:
  assumes "\<forall>s \<in> snd ` set xs. funit s" "unit_prices pt"
  shows "unit_prices (foldl (\<lambda>pt (n, s). PriceTable_Set pt n a (sim_PriceFromAcceptance s)) pt xs)"
  using assms
proof (induction xs arbitrary: pt)
  case (Cons x xs)
  obtain n s where x: "x = (n, s)" by (cases x)
  have "unit_prices (PriceTable_Set pt n a (sim_PriceFromAcceptance s))"
    using Cons.prems by (auto simp: unit_prices_def PriceTable_Get_Set sim_PriceFromAcceptance_def sim_clamp01_id x)
  then show ?case using Cons.IH Cons.prems by (simp add: x)
qed simp

lemma acceptance_prices:
  assumes "model = '''' \<or> model = PriceModelAcceptance" "units state"
  shows "unit_prices (marketPriceTable E model a state trades settled t0 t1)"
proof -
  have "unit_prices NewPriceTable" by (simp add: unit_prices_def NewPriceTable_def PriceTable_Get_def)
  then show ?thesis using assms unit_prices_fold [of "ac_Scores state" NewPriceTable a]
    by (simp add: marketPriceTable_def PriceTableFromAcceptance_def units_def)
qed

section \<open>What a trade does to the scores\<close>

lemma feedback_nodes [scores]: "nodes (ApplyTradeFeedback state quote alpha) = nodes state"
  by (auto simp: ApplyTradeFeedback_def Let_def scores dest: map_of_nodes split: option.splits)

lemma feedback_alt: "tq_Executable quote \<Longrightarrow> ApplyTradeFeedback state quote alpha =
    (let nudge = (\<lambda>n m. case map_of (ac_Scores state) n of None \<Rightarrow> m
       | Some s \<Rightarrow> gm_put m n (sim_clamp01 (fadd s (fmul (sim_clamp01 alpha) (fsub (tq_ClearingPrice quote) s))))) in
     \<lparr>ac_Scores = nudge (tq_Buyer quote) (nudge (tq_Seller quote) (ac_Scores state))\<rparr>)"
proof -
  have a: "(if flt (Fin 1) (if flt alpha (Fin 0) then Fin 0 else alpha) then Fin 1
      else if flt alpha (Fin 0) then Fin 0 else alpha) = sim_clamp01 alpha"
    by (auto simp: sim_clamp01_def)
  assume "tq_Executable quote"
  then show ?thesis unfolding ApplyTradeFeedback_def Let_def a by simp
qed

lemma feedback_units:
  assumes "units state" "\<not> fisnan alpha" "tq_Executable quote \<Longrightarrow> funit (tq_ClearingPrice quote)"
  shows "units (ApplyTradeFeedback state quote alpha)"
proof (cases "tq_Executable quote")
  case True
  have "funit (sim_clamp01 (fadd s (fmul (sim_clamp01 alpha) (fsub (tq_ClearingPrice quote) s))))"
    if "map_of (ac_Scores state) n = Some s" for n s
    using funit_nudge [OF map_of_units [OF assms(1) that] funit_clamp [OF assms(2)]
      fbound_mono [OF funit_fbound [OF assms(3) [OF True]]]] by simp
  then show ?thesis using assms(1)
    by (auto simp: feedback_alt [OF True] Let_def split: option.split intro!: units_put)
qed (use assms(1) in \<open>simp add: ApplyTradeFeedback_def\<close>)

lemma demand_feedback: "\<exists>quote'. snd (ApplyDemandTrade iv state quote alpha) = state
    \<or> snd (ApplyDemandTrade iv state quote alpha) = ApplyTradeFeedback state quote' alpha
      \<and> tq_ClearingPrice quote' = dq_ClearingPrice quote \<and> dq_Executable quote"
  by (auto simp: ApplyDemandTrade_def Let_def)

lemma demand_trade_nodes [scores]: "nodes (snd (ApplyDemandTrade iv state quote alpha)) = nodes state"
  using demand_feedback [of iv state quote alpha] by (auto simp: scores)

lemma demand_trade_units:
  assumes "units state" "\<not> fisnan alpha" "dq_Executable quote \<Longrightarrow> funit (dq_ClearingPrice quote)"
  shows "units (snd (ApplyDemandTrade iv state quote alpha))"
  using demand_feedback [of iv state quote alpha] feedback_units [OF assms(1,2)] assms by fastforce

lemma demand_quote_price:
  assumes "unit_prices pt" "dq_Executable (QuoteDemandTrade pt iv demand seller buyer a qty spread)"
  shows "funit (dq_ClearingPrice (QuoteDemandTrade pt iv demand seller buyer a qty spread))"
  using assms by (auto simp: QuoteDemandTrade_def unit_prices_def Let_def intro!: funit_half split: if_splits option.splits)

lemma quote_price:
  assumes "unit_prices pt" "tq_Executable (sim_QuoteTrade pt seller buyer a spread)"
  shows "funit (tq_ClearingPrice (sim_QuoteTrade pt seller buyer a spread))"
  using assms by (auto simp: sim_QuoteTrade_def unit_prices_def Let_def intro!: funit_half split: if_splits option.splits)

section \<open>The pull of the neighbours\<close>

lemma topology_nodes [scores]: "nodes (StepMarketTopology state topology alpha) = nodes state"
  using stateNodeIDs_nodes [of state] by (simp add: StepMarketTopology_def nodes_def Let_def image_image)

lemma topology_units:
  assumes "units state" "\<not> fisnan alpha"
  shows "units (StepMarketTopology state topology alpha)"
proof -
  have "funit (sim_clamp01 (fadd (score_of state n) (fmul (sim_clamp01 alpha)
      (fsub (fdiv (foldl fadd (Fin 0) xs) (of_count (length xs))) (score_of state n)))))"
    if "xs = List.map_filter (map_of (ac_Scores state)) ids" "xs \<noteq> []" for n xs ids
  proof (intro funit_nudge mean_bound)
    show "\<forall>x \<in> set xs. funit x" using assms(1) by (auto simp: that(1) map_filter_def dest: map_of_units)
  qed (use assms that(2) in \<open>simp_all add: score_of_units funit_clamp\<close>)
  then show ?thesis using assms score_of_units [OF assms(1)]
    by (auto simp: StepMarketTopology_def units_def Let_def sim_clamp01_id)
qed

lemma demand_pressure_nodes [scores]: "nodes (StepDemandPricePressure state iv demand alpha) = nodes state"
proof -
  have "nodes \<lparr>ac_Scores = foldl (\<lambda>m n. gm_put m n (f n)) m ids\<rparr> = set ids \<union> nodes \<lparr>ac_Scores = m\<rparr>" for f ids m
    by (induction ids arbitrary: m) (auto simp: scores)
  then show ?thesis by (simp add: StepDemandPricePressure_def stateNodeIDs_nodes)
qed

section \<open>A step\<close>

text \<open>
  What the trades of a step keep: the nodes \<open>N\<close>, the limit, and, if \<open>u\<close>, scores in the unit interval.
\<close>

definition kept :: "string set \<Rightarrow> int \<Rightarrow> bool \<Rightarrow> market \<Rightarrow> bool" where
  "kept N limit u m \<longleftrightarrow> nodes (mk_next m) = N \<and> 0 \<le> mk_demandTrades m \<and> 0 \<le> mk_arbitrageTrades m
     \<and> mk_demandTrades m + mk_arbitrageTrades m \<le> limit \<and> (u \<longrightarrow> units (mk_next m))"

lemma observeTrade_kept: "observeTrade step price a b volume m = Inr m' \<Longrightarrow> kept N limit u m' \<longleftrightarrow> kept N limit u m"
  by (auto simp: observeTrade_def kept_def)

lemma demandTrade_kept:
  assumes "demandTrade cfg topology demand pt step seller buyer m = Inr m'"
    and "kept N (mc_TradesPerStep cfg) u m" "u \<Longrightarrow> unit_prices pt \<and> \<not> fisnan (mc_Alpha cfg)"
  shows "kept N (mc_TradesPerStep cfg) u m'"
proof -
  define quote where "quote = QuoteDemandTrade pt (mk_inventory m) demand seller buyer MarketAssetID (mc_MaxQty cfg) (mc_Spread cfg)"
  define a where "a = ApplyDemandTrade (mk_inventory m) (mk_next m) quote (mc_Alpha cfg)"
  define n where "n = m\<lparr>mk_inventory := fst a, mk_next := snd a, mk_demandTrades := mk_demandTrades m + 1,
    mk_volume := fadd (mk_volume m) (dq_Quantity quote)\<rparr>"
  consider "m' = m" | "mk_demandTrades m + mk_arbitrageTrades m < mc_TradesPerStep cfg" "dq_Executable quote"
      "m' = n \<or> (\<exists>volume. observeTrade step (dq_ClearingPrice quote) (dq_Seller quote) (dq_Buyer quote) volume n = Inr m')"
    using assms(1) by (auto simp: demandTrade_def Let_def quote_def [symmetric] a_def [symmetric] n_def case_prod_unfold
        split: if_splits)
  then show ?thesis
  proof cases
    case 2
    have "u \<Longrightarrow> units (snd a)" unfolding a_def
      using assms(2,3) demand_quote_price [of pt] by (intro demand_trade_units) (auto simp: kept_def quote_def)
    then have "kept N (mc_TradesPerStep cfg) u n" using assms(2) 2(1) by (simp add: kept_def n_def a_def scores)
    then show ?thesis using 2(3) observeTrade_kept by blast
  qed (use assms(2) in simp)
qed

lemma arbitrageTrade_kept:
  assumes "arbitrageTrade cfg topology pt step opp m = Inr m'"
    and "kept N (mc_TradesPerStep cfg) u m" "u \<Longrightarrow> unit_prices pt \<and> \<not> fisnan (mc_Alpha cfg)"
  shows "kept N (mc_TradesPerStep cfg) u m'"
proof -
  define quote where "quote = sim_QuoteTrade pt (op_BuyFrom opp) (op_SellTo opp) MarketAssetID (mc_Spread cfg)"
  define n where "n = m\<lparr>mk_next := ApplyTradeFeedback (mk_next m) quote (mc_Alpha cfg), mk_arbitrageTrades := mk_arbitrageTrades m + 1\<rparr>"
  let ?stop = "mc_TradesPerStep cfg \<le> mk_demandTrades m + mk_arbitrageTrades m
    \<or> \<not> marketPairConnected topology (op_BuyFrom opp) (op_SellTo opp) \<or> \<not> tq_Executable quote"
  show ?thesis
  proof (cases ?stop)
    case True
    then have "m' = m" using assms(1) by (auto simp: arbitrageTrade_def Let_def quote_def split: if_splits)
    then show ?thesis using assms(2) by simp
  next
    case False
    then have "arbitrageTrade cfg topology pt step opp m = attempt (FromFloat (Fin 1)) (\<lambda>volume.
        observeTrade step (tq_ClearingPrice quote) (tq_Seller quote) (tq_Buyer quote) volume n)"
      by (simp add: arbitrageTrade_def quote_def n_def Let_def)
    then obtain volume where "observeTrade step (tq_ClearingPrice quote) (tq_Seller quote) (tq_Buyer quote) volume n = Inr m'"
      using assms(1) by (metis attempt_Inr)
    moreover have "u \<Longrightarrow> units (ApplyTradeFeedback (mk_next m) quote (mc_Alpha cfg))"
      using assms(2,3) quote_price [of pt] by (intro feedback_units) (auto simp: kept_def quote_def)
    then have "kept N (mc_TradesPerStep cfg) u n" using assms(2) False by (simp add: kept_def n_def scores)
    ultimately show ?thesis using observeTrade_kept by blast
  qed
qed

lemma marketTrades_kept:
  assumes "marketTrades cfg topology demand ids pt opps step m = Inr m'"
    and "kept N (mc_TradesPerStep cfg) u m" "u \<Longrightarrow> unit_prices pt \<and> \<not> fisnan (mc_Alpha cfg)"
  shows "kept N (mc_TradesPerStep cfg) u m'"
proof -
  let ?P = "kept N (mc_TradesPerStep cfg) u"
  let ?buyers = "\<lambda>_ seller. each (\<lambda>_ buyer. demandTrade cfg topology demand pt step seller buyer) 0 ids"
  obtain m1 where m1: "(if mc_EnableDemand cfg then each ?buyers 0 ids m else Inr m) = Inr m1"
    and m': "each (\<lambda>_ opp. arbitrageTrade cfg topology pt step opp) 0 opps m1 = Inr m'"
    using assms(1) by (auto simp: marketTrades_def)
  have b: "?P s'" if "?buyers j seller s = Inr s'" "?P s" for j seller s s'
    using that by (rule each_invariant [where P = ?P]) (rule demandTrade_kept [OF _ _ assms(3)])
  have "?P m1"
  proof (cases "mc_EnableDemand cfg")
    case True
    then have "each ?buyers 0 ids m = Inr m1" using m1 by simp
    then show ?thesis using assms(2) by (rule each_invariant [where P = ?P]) (rule b)
  qed (use m1 assms(2) in simp)
  with m' show ?thesis by (rule each_invariant [where P = ?P]) (rule arbitrageTrade_kept [OF _ _ assms(3)])
qed

text \<open>The numbers of trades in the metrics of a step.\<close>

definition counted :: "int \<Rightarrow> MarketStepMetrics \<Rightarrow> bool" where
  "counted limit m \<longleftrightarrow> 0 \<le> sm_DemandTrades m \<and> 0 \<le> sm_ArbitrageTrades m
     \<and> sm_ExecutedTrades m = sm_DemandTrades m + sm_ArbitrageTrades m \<and> sm_ExecutedTrades m \<le> limit"

lemma MarketMetrics_counts [simp]:
  "sm_Step (MarketMetrics step state iv demand opps n d a v p c clusters pt) = step"
  "sm_ExecutedTrades (MarketMetrics step state iv demand opps n d a v p c clusters pt) = n"
  "sm_DemandTrades (MarketMetrics step state iv demand opps n d a v p c clusters pt) = d"
  "sm_ArbitrageTrades (MarketMetrics step state iv demand opps n d a v p c clusters pt) = a"
  by (simp_all add: MarketMetrics_def Let_def)

text \<open>The state of a run after \<open>k\<close> steps.\<close>

definition run_ok :: "MarketConfig \<Rightarrow> string set \<Rightarrow> bool \<Rightarrow> nat \<Rightarrow> marketRun \<Rightarrow> bool" where
  "run_ok cfg N u k r \<longleftrightarrow> nodes (rn_current r) = N \<and> (u \<longrightarrow> units (rn_current r))
     \<and> map sm_Step (rn_metrics r) = map int [0..<Suc k] \<and> (\<forall>m \<in> set (rn_metrics r). counted (mc_TradesPerStep cfg) m)
     \<and> rn_totalTrades r = sum_list (map sm_ExecutedTrades (rn_metrics r))
     \<and> rn_totalDemand r = sum_list (map sm_DemandTrades (rn_metrics r))
     \<and> rn_totalArbitrage r = sum_list (map sm_ArbitrageTrades (rn_metrics r))"

text \<open>Runs whose scores stay in the unit interval.\<close>

definition tame :: "MarketConfig \<Rightarrow> bool" where
  "tame cfg \<longleftrightarrow> mc_PriceModel cfg \<in> {'''', PriceModelAcceptance} \<and> \<not> fisnan (mc_Alpha cfg)
     \<and> \<not> (mc_EnableDemand cfg \<and> mc_EnableCycle cfg)"

lemma marketStep_ok:
  assumes "marketStep E cfg topology clusters demand consumption production ids (int (Suc k)) r = Inr r'"
    and "run_ok cfg N u k r" "u \<Longrightarrow> tame cfg" "0 \<le> mc_TradesPerStep cfg"
  shows "run_ok cfg N u (Suc k) r'"
proof -
  let ?cycle = "mc_EnableDemand cfg \<and> mc_EnableCycle cfg"
  define iv where "iv = (if ?cycle then fst (ProductionState_ApplyWithVolume production
      (fst (ConsumptionState_ApplyWithVolume consumption (rn_inventory r)))) else rn_inventory r)"
  define nx where "nx = (if ?cycle then StepDemandPricePressure (rn_current r) iv demand (mc_Alpha cfg) else rn_current r)"
  define pt where "pt = marketPriceTable E (mc_PriceModel cfg) MarketAssetID nx (rn_observations r) (rn_settledVolume r)
      (rn_lastStep r) (int (Suc k))"
  define m where "m = \<lparr>mk_next = nx, mk_inventory = iv, mk_demandTrades = 0, mk_arbitrageTrades = 0, mk_volume = Fin 0,
      mk_trades = rn_observations r, mk_settled = rn_settledVolume r, mk_lastTradeStep = rn_lastStep r\<rparr>"
  obtain m' v p c pt' where t: "marketTrades cfg topology demand ids pt (FindArbitrage pt MarketAssetID (mc_MinProfit cfg)) (int (Suc k)) m = Inr m'"
    and r': "rn_current r' = StepMarketTopology (mk_next m') topology (mc_Alpha cfg)"
      "rn_metrics r' = rn_metrics r @ [MarketMetrics (int (Suc k)) (rn_current r') (mk_inventory m') demand
         (FindArbitrage pt MarketAssetID (mc_MinProfit cfg))
         (mk_demandTrades m' + mk_arbitrageTrades m') (mk_demandTrades m') (mk_arbitrageTrades m') v p c clusters pt']"
      "rn_totalTrades r' = rn_totalTrades r + (mk_demandTrades m' + mk_arbitrageTrades m')"
      "rn_totalDemand r' = rn_totalDemand r + mk_demandTrades m'" "rn_totalArbitrage r' = rn_totalArbitrage r + mk_arbitrageTrades m'"
    using assms(1) unfolding iv_def nx_def pt_def m_def
    by (cases ?cycle) (simp_all add: marketStep_def Let_def case_prod_unfold del: of_nat_Suc, (elim exE conjE; force)+)
  have n: "nodes nx = N" "u \<Longrightarrow> units nx" using assms(2,3) by (auto simp: nx_def run_ok_def tame_def scores)
  have "unit_prices pt" if u using assms(3) [OF that] n(2) [OF that] by (auto simp: pt_def tame_def intro: acceptance_prices)
  then have w: "kept N (mc_TradesPerStep cfg) u m'"
    using n assms(3,4) by (intro marketTrades_kept [OF t]) (auto simp: kept_def m_def tame_def)
  moreover have "u \<Longrightarrow> units (rn_current r')"
    using w assms(3) unfolding r'(1) by (intro topology_units) (auto simp: kept_def tame_def)
  ultimately show ?thesis using r' assms(2) by (auto simp: run_ok_def kept_def counted_def scores)
qed

section \<open>A run\<close>

lemma each_counted:
  assumes "each f i xs s = Inr t" "P i s"
    and "\<And>j x s s'. P j s \<Longrightarrow> f j x s = Inr s' \<Longrightarrow> P (Suc j) s'"
  shows "P (i + length xs) t"
  using assms(1,2)
proof (induction xs arbitrary: i s)
  case (Cons x xs)
  then obtain s' where "f i x s = Inr s'" "each f (i + 1) xs s' = Inr t" by auto
  then show ?case using Cons.IH [of "Suc i" s'] assms(3) Cons.prems(2) by simp
qed simp

text \<open>The draws of the random source are in the unit interval.\<close>

definition draws_unit :: "'x senv_scheme \<Rightarrow> bool" where
  "draws_unit E \<longleftrightarrow> (\<forall>seed k. funit (rand_Float64 E seed k))"

lemma funit_affine:
  assumes "0 \<le> a" "0 \<le> b" "a + b \<le> 1" "rne a = a" "rne b = b" "funit x" "0 \<le> a'" "a' \<le> a" "0 \<le> b'" "b' \<le> b"
  shows "funit (fadd (rnd a') (fmul (rnd b') x))"
proof -
  have bound: "\<exists>s. rnd v = Fin s \<and> 0 \<le> s \<and> s \<le> c" if "0 \<le> v" "v \<le> c" "c \<le> 1" "rne c = c" for v c
  proof -
    have "rne v \<le> c" using rne_mono [OF that(2)] that(4) by simp
    then have "rne v < 2 ^ 1024" using that(3) by (rule_tac order.strict_trans1 [of _ 1]) simp_all
    then show ?thesis using \<open>rne v \<le> c\<close> that(1) by (simp add: rnd_def rnd_pos_alt)
  qed
  obtain s where s: "rnd a' = Fin s" "0 \<le> s" "s \<le> a" using bound [of a' a] assms by auto
  obtain t where t: "rnd b' = Fin t" "0 \<le> t" "t \<le> b" using bound [of b' b] assms by auto
  have "\<exists>w. fmul (Fin t) x = NegZero \<or> fmul (Fin t) x = Fin w \<and> 0 \<le> w \<and> w \<le> b"
  proof -
    consider "x = NegZero" | r where "x = Fin r" "0 \<le> r" "r \<le> 1" using funit_cases [OF assms(6)] by auto
    then show ?thesis
    proof cases
      case 2
      have "t * r \<le> b * 1" using t 2 assms by (intro mult_mono) simp_all
      then show ?thesis using bound [of "t * r" b] t 2 assms by (auto simp: Let_def fzero_def)
    qed (use assms(2) in \<open>auto simp: Let_def fzero_def\<close>)
  qed
  moreover have "s \<le> 1" using s assms(2,3) by linarith
  ultimately show ?thesis using s t(1) assms(3) by (auto intro!: funit_rnd)
qed

lemma drawn_units: "(\<And>k. funit (f k)) \<Longrightarrow> units \<lparr>ac_Scores = drawn f ids\<rparr>"
  by (auto simp: units_def drawn_def)

lemma if_either: "(if b then x else y) = z \<Longrightarrow> (x = z \<Longrightarrow> P) \<Longrightarrow> (y = z \<Longrightarrow> P) \<Longrightarrow> P"
  by (cases b) simp_all

lemma scenario_units:
  assumes "draws_unit E" "MarketScenarioState E name seed = Inr state"
  shows "units state"
proof -
  have h: "rne (1/4) = 1/4" "rne (3/4) = 3/4" "rnd (1/4) = Fin (1/4)" by code_simp+
  have r: "funit (rand_Float64 E seed k)" for k using assms(1) by (simp add: draws_unit_def)
  have "funit (fadd (Fin (1/4)) (fmul (rnd (65/100)) x))" if "funit x" for x
    using funit_affine [of "1/4" "3/4" x "1/4" "65/100"] h that by simp
  moreover have "funit (fadd (rnd (2/10)) (fmul (rnd (7/10)) x))" if "funit x" for x
    using funit_affine [of "1/4" "3/4" x "2/10" "7/10"] h that by simp
  ultimately show ?thesis using assms(2) r unfolding MarketScenarioState_def Let_def
    by (elim if_either) (auto simp: units_def drawn_def intro!: funit_rnd)
qed

text \<open>A run starts with the metrics of step zero and adds those of each step.\<close>

lemma tame_limit [simp]: "tame (cfg\<lparr>mc_TradesPerStep := n\<rparr>) \<longleftrightarrow> tame cfg"
  by (simp add: tame_def)

lemma summary_totals:
  assumes "metrics \<noteq> []"
  shows "su_TotalTrades (MarketSummaryFromMetrics metrics t d a v p c n steps) = t"
    "su_DemandTrades (MarketSummaryFromMetrics metrics t d a v p c n steps) = d"
    "su_ArbitrageTrades (MarketSummaryFromMetrics metrics t d a v p c n steps) = a"
  using assms by (simp_all add: MarketSummaryFromMetrics_def emptySummary_def Let_def)

lemma RunMarketSimulation_ok:
  assumes run: "RunMarketSimulation E cfg = Inr res" and u: "u \<Longrightarrow> tame cfg \<and> draws_unit E"
  obtains r where "run_ok (mr_Config res) (nodes (mr_Initial res)) u (nat (mc_Steps cfg)) r"
    "mr_Final res = rn_current r" "mr_Metrics res = rn_metrics r"
    "su_TotalTrades (mr_Summary res) = rn_totalTrades r" "su_DemandTrades (mr_Summary res) = rn_totalDemand r"
    "su_ArbitrageTrades (mr_Summary res) = rn_totalArbitrage r"
proof -
  have valid: "ValidateMarketConfig cfg = Inr ()" using run by (simp add: RunMarketSimulation_def)
  obtain initial where i: "MarketScenarioState E (mc_Scenario cfg) (mc_Seed cfg) = Inr initial"
    using run valid by (auto simp: RunMarketSimulation_def)
  define ids where "ids = stateNodeIDs initial"
  define cfg' where "cfg' = (if mc_TradesPerStep cfg = 0 then cfg\<lparr>mc_TradesPerStep := int (length ids)\<rparr> else cfg)"
  obtain iv demand where q: "MarketInventoryDemandState E (mc_Scenario cfg) (mc_Seed cfg) = (iv, demand)" by fastforce
  obtain consumption production where c: "MarketCycleState E (mc_Scenario cfg) (mc_Seed cfg) (mc_ConsumptionRate cfg)
      (mc_ProductionRate cfg) = (consumption, production)" by fastforce
  note run' = run [unfolded RunMarketSimulation_def Let_def valid i attempt_simps q c prod.case, folded ids_def, folded cfg'_def]
  obtain topology clusters where t: "MarketTopology (mc_Topology cfg') (mc_Scenario cfg') ids = Inr (topology, clusters)"
    using run' by fastforce
  define start where "start = \<lparr>rn_current = initial, rn_inventory = iv,
    rn_metrics = [MarketMetrics 0 initial iv demand [] 0 0 0 (Fin 0) (Fin 0) (Fin 0) clusters
      (marketPriceTable E (mc_PriceModel cfg') MarketAssetID initial [] 0 0 0)],
    rn_totalTrades = 0, rn_totalDemand = 0, rn_totalArbitrage = 0, rn_totalVolume = Fin 0, rn_totalProduced = Fin 0,
    rn_totalConsumed = Fin 0, rn_observations = [], rn_settledVolume = 0, rn_lastStep = 0\<rparr>"
  obtain r where e: "each (\<lambda>i _. marketStep E cfg' topology clusters demand consumption production ids (int i + 1)) 0
        (replicate (nat (mc_Steps cfg')) ()) start = Inr r"
    and res: "res = \<lparr>mr_Config = cfg', mr_Initial = initial, mr_Final = rn_current r, mr_Metrics = rn_metrics r,
      mr_Summary = MarketSummaryFromMetrics (rn_metrics r) (rn_totalTrades r) (rn_totalDemand r) (rn_totalArbitrage r)
        (rn_totalVolume r) (rn_totalProduced r) (rn_totalConsumed r) (int (length ids)) (mc_Steps cfg')\<rparr>"
    using run' [unfolded t attempt_simps prod.case, folded start_def] by fastforce
  have limit: "0 \<le> mc_TradesPerStep cfg'" using valid by (auto simp: ValidateMarketConfig_def cfg'_def guard_def split: if_splits)
  have "run_ok cfg' (nodes initial) u 0 start"
    using scenario_units [OF _ i] u limit by (auto simp: run_ok_def counted_def start_def)
  then have "run_ok cfg' (nodes initial) u (0 + length (replicate (nat (mc_Steps cfg')) ())) r"
  proof (rule each_counted [OF e, where P = "run_ok cfg' (nodes initial) u"])
    fix j x s s' assume "run_ok cfg' (nodes initial) u j s"
      "marketStep E cfg' topology clusters demand consumption production ids (int j + 1) s = Inr s'"
    then show "run_ok cfg' (nodes initial) u (Suc j) s'"
      using u limit by (intro marketStep_ok [of E cfg']) (auto simp: cfg'_def add.commute)
  qed
  then have ok: "run_ok cfg' (nodes initial) u (nat (mc_Steps cfg)) r" by (simp add: cfg'_def split: if_splits)
  then have "rn_metrics r \<noteq> []" by (auto simp: run_ok_def)
  then show thesis using that [of r] ok res by (auto simp: summary_totals)
qed

section \<open>A run without demand returns\<close>

lemma each_returns:
  assumes "P i s" "\<And>j x s. i \<le> j \<Longrightarrow> j < i + length xs \<Longrightarrow> P j s \<Longrightarrow> \<exists>s'. f j x s = Inr s' \<and> P (Suc j) s'"
  shows "\<exists>t. each f i xs s = Inr t \<and> P (i + length xs) t"
  using assms
proof (induction xs arbitrary: i s)
  case (Cons x xs)
  obtain s' where s': "f i x s = Inr s'" "P (Suc i) s'" using Cons.prems by force
  then show ?case using Cons.IH [of "Suc i" s'] Cons.prems(2) by force
qed simp

lemma FromFloat_1: "FromFloat (Fin 1) = Inr 1000000"
  by code_simp

text \<open>The settled volume, which grows by a million with each arbitrage trade.\<close>

definition leeway :: "int \<Rightarrow> int \<Rightarrow> market \<Rightarrow> bool" where
  "leeway b limit m \<longleftrightarrow> mk_demandTrades m = 0 \<and> 0 \<le> mk_arbitrageTrades m \<and> mk_arbitrageTrades m \<le> limit
     \<and> 0 \<le> sint (mk_settled m) \<and> sint (mk_settled m) \<le> b + 1000000 * mk_arbitrageTrades m"

lemma Add_returns: "0 \<le> sint a \<Longrightarrow> sint a + sint b < 2 ^ 63 \<Longrightarrow> 0 \<le> sint b \<Longrightarrow> \<exists>c. Add a b = Inr c \<and> sint c = sint a + sint b"
  by (intro exI [of _ "a + b"]) (simp add: Add_def CheckedAdd_def add_overflows_iff sint_add64)

lemma arbitrageTrade_returns:
  assumes "leeway b (mc_TradesPerStep cfg) m" "b + 1000000 * mc_TradesPerStep cfg < 2 ^ 63"
  shows "\<exists>m'. arbitrageTrade cfg topology pt step opp m = Inr m' \<and> leeway b (mc_TradesPerStep cfg) m'"
proof -
  define quote where "quote = sim_QuoteTrade pt (op_BuyFrom opp) (op_SellTo opp) MarketAssetID (mc_Spread cfg)"
  show ?thesis
  proof (cases "mc_TradesPerStep cfg \<le> mk_demandTrades m + mk_arbitrageTrades m
    \<or> \<not> marketPairConnected topology (op_BuyFrom opp) (op_SellTo opp) \<or> \<not> tq_Executable quote")
    case True
    then have "arbitrageTrade cfg topology pt step opp m = Inr m" by (auto simp: arbitrageTrade_def Let_def quote_def)
    then show ?thesis using assms(1) by simp
  next
    case False
    then have "sint (mk_settled m) + sint (1000000 :: amount) < 2 ^ 63" using assms by (simp add: leeway_def)
    then obtain c where c: "Add (mk_settled m) 1000000 = Inr c" "sint c = sint (mk_settled m) + 1000000"
      using Add_returns [of "mk_settled m" 1000000] assms(1) by (auto simp: leeway_def)
    show ?thesis using False assms(1) c
      by (simp add: arbitrageTrade_def quote_def Let_def FromFloat_1 observeTrade_def leeway_def)
  qed
qed

lemma marketStep_returns:
  assumes "\<not> mc_EnableDemand cfg" "0 \<le> mc_TradesPerStep cfg" "0 \<le> sint (rn_settledVolume r)" "sint (rn_settledVolume r) \<le> b"
    and "b + 1000000 * mc_TradesPerStep cfg < 2 ^ 63"
  shows "\<exists>r'. marketStep E cfg topology clusters demand consumption production ids step r = Inr r'
    \<and> 0 \<le> sint (rn_settledVolume r') \<and> sint (rn_settledVolume r') \<le> b + 1000000 * mc_TradesPerStep cfg"
proof -
  have "\<exists>m'. marketTrades cfg topology demand ids pt opps step m = Inr m' \<and> leeway b (mc_TradesPerStep cfg) m'"
    if "leeway b (mc_TradesPerStep cfg) m" for pt opps m
    using each_returns [where P = "\<lambda>_. leeway b (mc_TradesPerStep cfg)", OF that arbitrageTrade_returns [OF _ assms(5)]] assms(1)
    by (simp add: marketTrades_def)
  from this [of "\<lparr>mk_next = rn_current r, mk_inventory = rn_inventory r, mk_demandTrades = 0, mk_arbitrageTrades = 0,
      mk_volume = Fin 0, mk_trades = rn_observations r, mk_settled = rn_settledVolume r, mk_lastTradeStep = rn_lastStep r\<rparr>"]
  show ?thesis using assms by (fastforce simp: marketStep_def Let_def leeway_def)
qed

text \<open>The number of trades for which there is room, and the runs that keep to it.\<close>

definition roomy :: "MarketConfig \<Rightarrow> AcceptanceState \<Rightarrow> bool" where
  "roomy cfg initial \<longleftrightarrow> \<not> mc_EnableDemand cfg
     \<and> mc_Steps cfg * (if mc_TradesPerStep cfg = 0 then int (length (stateNodeIDs initial)) else mc_TradesPerStep cfg) < 9000000000000"

lemma scenario_known: "mc_Scenario cfg \<in> set marketScenarios \<Longrightarrow> \<exists>initial. MarketScenarioState E (mc_Scenario cfg) seed = Inr initial"
  by (auto simp: MarketScenarioState_def marketScenarios_def Let_def)

lemma attempt_returns: "\<exists>r. m = Inr r \<Longrightarrow> \<exists>res. attempt m (\<lambda>r. Inr (g r)) = Inr res"
  by auto

lemma RunMarketSimulation_returns:
  assumes "ValidateMarketConfig cfg = Inr ()" "MarketScenarioState E (mc_Scenario cfg) (mc_Seed cfg) = Inr initial"
    and "roomy cfg initial"
  shows "\<exists>res. RunMarketSimulation E cfg = Inr res"
proof -
  define ids where "ids = stateNodeIDs initial"
  define cfg' where "cfg' = (if mc_TradesPerStep cfg = 0 then cfg\<lparr>mc_TradesPerStep := int (length ids)\<rparr> else cfg)"
  have valid: "mc_Topology cfg' \<in> {''full'', ''chain'', ''clustered''}" "0 \<le> mc_TradesPerStep cfg'" "0 \<le> mc_Steps cfg'"
    using assms(1) by (auto simp: ValidateMarketConfig_def guard_def cfg'_def split: if_splits)
  then obtain topology clusters where t: "MarketTopology (mc_Topology cfg') (mc_Scenario cfg') ids = Inr (topology, clusters)"
    by (auto simp: MarketTopology_def Let_def)
  obtain iv demand where q: "MarketInventoryDemandState E (mc_Scenario cfg) (mc_Seed cfg) = (iv, demand)" by fastforce
  obtain consumption production where c: "MarketCycleState E (mc_Scenario cfg) (mc_Seed cfg) (mc_ConsumptionRate cfg)
      (mc_ProductionRate cfg) = (consumption, production)" by fastforce
  define P :: "nat \<Rightarrow> marketRun \<Rightarrow> bool" where "P k r \<longleftrightarrow> 0 \<le> sint (rn_settledVolume r)
     \<and> sint (rn_settledVolume r) \<le> int k * (1000000 * mc_TradesPerStep cfg')" for k r
  have d: "\<not> mc_EnableDemand cfg'" "mc_Steps cfg' * mc_TradesPerStep cfg' < 9000000000000"
    using assms(3) by (auto simp: roomy_def cfg'_def ids_def split: if_splits)
  have step: "\<exists>r'. marketStep E cfg' topology clusters demand consumption production ids (int j + 1) r = Inr r' \<and> P (Suc j) r'"
    if "j < nat (mc_Steps cfg')" "P j r" for j r
  proof -
    have "(int j + 1) * mc_TradesPerStep cfg' \<le> mc_Steps cfg' * mc_TradesPerStep cfg'"
      using that(1) valid(2) by (intro mult_right_mono) simp_all
    then have "int j * (1000000 * mc_TradesPerStep cfg') + 1000000 * mc_TradesPerStep cfg' < 2 ^ 63"
      using d(2) by (simp add: algebra_simps)
    then show ?thesis using marketStep_returns [OF d(1) valid(2), of r "int j * (1000000 * mc_TradesPerStep cfg')"] that(2)
      by (simp add: P_def algebra_simps)
  qed
  have run: "\<exists>r. each (\<lambda>i _. marketStep E cfg' topology clusters demand consumption production ids (int i + 1)) 0
      (replicate (nat (mc_Steps cfg')) ()) start = Inr r" if "P 0 start" for start
  proof -
    let ?step = "\<lambda>i _. marketStep E cfg' topology clusters demand consumption production ids (int i + 1)"
    have "\<exists>r. each ?step 0 (replicate (nat (mc_Steps cfg')) ()) start = Inr r
        \<and> P (0 + length (replicate (nat (mc_Steps cfg')) ())) r"
      by (rule each_returns [where P = P, OF that]) (rule step, simp_all)
    then show ?thesis by blast
  qed
  show ?thesis
    unfolding RunMarketSimulation_def assms(1,2) attempt_simps Let_def q c prod.case ids_def [symmetric] cfg'_def [symmetric] t
    by (rule attempt_returns, rule run) (simp add: P_def)
qed

end
