(* ===== verification/MultiMarket.thy ===== *)
theory MultiMarket
  imports Market
begin

text \<open>
  The market simulation of several assets (\<open>core/sim/multi_price.go\<close>, \<open>multi_market.go\<close>).
\<close>

section \<open>Prices of several assets\<close>

record MultiPriceState =
  mp_Features :: "(UnitID, AssetFeatures) gomap"
  mp_Trades :: "(UnitID, TradeObservation list) gomap"
  mp_SettledVolume :: "(UnitID, amount) gomap"
  mp_LastTradeUnix :: "(UnitID, int64) gomap"
  mp_WeightedPriceVolume :: "(UnitID, float64) gomap"
  mp_WeightedVolume :: "(UnitID, float64) gomap"

definition UnitIDForAsset :: "'x env_scheme \<Rightarrow> string \<Rightarrow> UnitID" where
  "UnitIDForAsset E assetID = UnitID (HashBytes E (str_bytes (''web4-sim-asset:'' @ assetID)))"

definition assetSpread :: "AcceptanceState \<Rightarrow> float64" where
  "assetSpread state = (if ac_Scores state = [] then Fin 0
     else fsub (maxOfAll (map snd (ac_Scores state))) (minOf (map snd (ac_Scores state))))"

definition NewMultiPriceState :: "'x env_scheme \<Rightarrow> AssetUniverse \<Rightarrow> MultiAcceptanceState \<Rightarrow> MultiPriceState" where
  "NewMultiPriceState E universe state =
     foldl (\<lambda>ps assetID.
       let unit = UnitIDForAsset E assetID; assetState = MultiAcceptanceState_AssetState state assetID in
       ps\<lparr>mp_Features := gm_put (mp_Features ps) unit
            \<lparr>af_Cost = AcceptanceMean assetState, af_Age = Fin 1, af_Stability = fsub (Fin 1) (assetSpread assetState)\<rparr>,
          mp_Trades := gm_put (mp_Trades ps) unit [], mp_SettledVolume := gm_put (mp_SettledVolume ps) unit 0,
          mp_LastTradeUnix := gm_put (mp_LastTradeUnix ps) unit 0\<rparr>)
     \<lparr>mp_Features = [], mp_Trades = [], mp_SettledVolume = [], mp_LastTradeUnix = [], mp_WeightedPriceVolume = [], mp_WeightedVolume = []\<rparr>
     (au_AssetIDs universe)"

definition PriceTableFromMultiPipeline ::
    "'x env_scheme \<Rightarrow> MultiPriceState \<Rightarrow> PriceConfig \<Rightarrow> int64 \<Rightarrow> err + (UnitID, float64) gomap" where
  "PriceTableFromMultiPipeline E state cfg nowUnix =
     each (\<lambda>_ (unit, features) out.
       let weighted = gm_get (Fin 0) (mp_WeightedVolume state) unit in
       attempt (if flt (Fin 0) weighted
                then attempt (FromFloat weighted) (\<lambda>volume.
                  Inr [\<lparr>ob_Price = fdiv (gm_get (Fin 0) (mp_WeightedPriceVolume state) unit) weighted, ob_Volume = volume,
                        ob_Weight = Fin 1, ob_TimeUnix = 0\<rparr>])
                else Inr (gm_get [] (mp_Trades state) unit)) (\<lambda>trades.
       Inr (gm_put out unit (pr_FinalPrice (ComputePrice E features trades (gm_get 0 (mp_SettledVolume state) unit)
              (gm_get 0 (mp_LastTradeUnix state) unit) nowUnix cfg))))) 0 (mp_Features state) []"

definition inventoryPressureMultiplier :: "simInventoryState \<Rightarrow> DemandState \<Rightarrow> string \<Rightarrow> string \<Rightarrow> float64" where
  "inventoryPressureMultiplier iv demand nodeID assetID =
     (let need = DemandState_Need demand nodeID assetID iv;
          surplus = DemandState_Surplus demand nodeID assetID iv;
          target = DemandState_Target demand nodeID assetID;
          holding = simInventoryState_Get iv nodeID assetID in
      if flt (Fin 0) need then fadd (Fin 1) (fmul (Fin (1/2)) (sim_clamp01 (fdiv need (fadd target (Fin 1)))))
      else if flt (Fin 0) surplus
      then fsub (Fin 1) (fmul (Fin (1/2)) (sim_clamp01 (fdiv surplus (fadd (fadd holding target) (Fin 1)))))
      else Fin 1)"

definition priceTableFromMultiPipelineForNodes ::
    "'x env_scheme \<Rightarrow> MultiPriceState \<Rightarrow> PriceConfig \<Rightarrow> AssetUniverse \<Rightarrow> simInventoryState \<Rightarrow> DemandState \<Rightarrow> string list \<Rightarrow> int64
      \<Rightarrow> err + PriceTable" where
  "priceTableFromMultiPipelineForNodes E ps cfg universe iv demand nodeIDs nowUnix =
     attempt (PriceTableFromMultiPipeline E ps cfg nowUnix) (\<lambda>assetPrices.
     Inr (foldl (\<lambda>pt nodeID. foldl (\<lambda>pt assetID.
         PriceTable_Set pt nodeID assetID (fmul (gm_get (Fin 0) assetPrices (UnitIDForAsset E assetID))
           (inventoryPressureMultiplier iv demand nodeID assetID))) pt (au_AssetIDs universe)) NewPriceTable nodeIDs))"

definition nonZeroWeight :: "float64 \<Rightarrow> float64" where
  "nonZeroWeight weight = (if fle weight (Fin 0) then Fin 1 else weight)"

definition recordSameAssetObservation ::
    "'x env_scheme \<Rightarrow> MultiPriceState \<Rightarrow> string \<Rightarrow> float64 \<Rightarrow> float64 \<Rightarrow> float64 \<Rightarrow> int64 \<Rightarrow> err + MultiPriceState" where
  "recordSameAssetObservation E ps assetID price volume weight nowUnix =
     attempt (FromFloat volume) (\<lambda>amount.
     if amount \<le>s 0 then Inr ps
     else
       let unit = UnitIDForAsset E assetID;
           observation = \<lparr>ob_Price = price, ob_Volume = amount, ob_Weight = nonZeroWeight weight, ob_TimeUnix = nowUnix\<rparr>;
           ps = (if length (gm_get [] (mp_Trades ps) unit) < 1024
                 then ps\<lparr>mp_Trades := gm_put (mp_Trades ps) unit (gm_get [] (mp_Trades ps) unit @ [observation])\<rparr> else ps);
           weightedVolume = fmul (ToFloat amount) (ob_Weight observation);
           ps = ps\<lparr>mp_WeightedPriceVolume := gm_put (mp_WeightedPriceVolume ps) unit
                     (fadd (gm_get (Fin 0) (mp_WeightedPriceVolume ps) unit) (fmul (ob_Price observation) weightedVolume)),
                   mp_WeightedVolume := gm_put (mp_WeightedVolume ps) unit
                     (fadd (gm_get (Fin 0) (mp_WeightedVolume ps) unit) weightedVolume)\<rparr> in
       attempt (Add (gm_get 0 (mp_SettledVolume ps) unit) amount) (\<lambda>settled.
       Inr (ps\<lparr>mp_SettledVolume := gm_put (mp_SettledVolume ps) unit settled,
               mp_LastTradeUnix := gm_put (mp_LastTradeUnix ps) unit nowUnix\<rparr>)))"

definition recordCrossAssetObservations ::
    "'x env_scheme \<Rightarrow> MultiPriceState \<Rightarrow> CrossAssetTradeQuote \<Rightarrow> float64 \<Rightarrow> float64 \<Rightarrow> int64 \<Rightarrow> err + MultiPriceState" where
  "recordCrossAssetObservations E ps quote sellWeight buyWeight nowUnix =
     (if \<not> xq_Executable quote \<or> fle (xq_SellQty quote) (Fin 0) \<or> fle (xq_BuyQty quote) (Fin 0) then Inr ps
      else attempt (recordSameAssetObservation E ps (xq_SellAsset quote) (fdiv (xq_BuyQty quote) (xq_SellQty quote))
                      (xq_SellQty quote) sellWeight nowUnix) (\<lambda>ps.
           recordSameAssetObservation E ps (xq_BuyAsset quote) (fdiv (xq_SellQty quote) (xq_BuyQty quote)) (xq_BuyQty quote) buyWeight nowUnix))"

definition sameAssetObservationWeight :: "MultiAcceptanceState \<Rightarrow> string \<Rightarrow> string \<Rightarrow> string \<Rightarrow> float64" where
  "sameAssetObservationWeight state assetID sellerID buyerID =
     fdiv (fadd (sim_clamp01 (MultiAcceptanceState_Get state sellerID assetID)) (sim_clamp01 (MultiAcceptanceState_Get state buyerID assetID))) (Fin 2)"

definition crossAssetObservationWeight :: "MultiAcceptanceState \<Rightarrow> string \<Rightarrow> string \<Rightarrow> string \<Rightarrow> float64" where
  "crossAssetObservationWeight state assetID sellerID buyerID =
     fdiv (fadd (sim_clamp01 (MultiAcceptanceState_Get state sellerID assetID)) (sim_clamp01 (MultiAcceptanceState_Get state buyerID assetID))) (Fin 2)"

definition defaultMultiPipelinePriceConfig :: PriceConfig where
  "defaultMultiPipelinePriceConfig = pipelinePriceConfig"

section \<open>Configuration and results\<close>

record MultiMarketConfig =
  mm_Scenario :: string
  mm_Topology :: string
  mm_Universe :: AssetUniverse
  mm_Steps :: int
  mm_Alpha :: float64
  mm_Spread :: float64
  mm_TradesPerStep :: int
  mm_Seed :: int64
  mm_EnableDemand :: bool
  mm_EnableCycle :: bool
  mm_EnableSubstitution :: bool
  mm_UtilityMode :: string
  mm_PriceModel :: string
  mm_MaxQty :: float64

record MultiMarketMetrics =
  mx_Step :: int
  mx_AssetMeans :: row
  mx_AssetSpreads :: row
  mx_ExchangeRates :: row
  mx_AssetShares :: row
  mx_FlowShares :: row
  mx_Flows :: AssetFlowMetrics
  mx_ExecutedTrades :: int
  mx_CrossAssetTrades :: int
  mx_SwitchCount :: int
  mx_TotalVolume :: float64
  mx_DominantAsset :: string
  mx_DominantAssetByFlow :: string
  mx_FlowConcentration :: float64

record MultiMarketSummary =
  ms_FinalAssetMeans :: row
  ms_FinalAssetSpreads :: row
  ms_FinalAssetShares :: row
  ms_DominantAsset :: string
  ms_DominantAssetByHoldings :: string
  ms_DominantAssetByFlow :: string
  ms_FlowConcentration :: float64
  ms_FlowShares :: row
  ms_TradeFlow :: row
  ms_PaymentFlow :: row
  ms_ConsumptionFlow :: row
  ms_DemandFulfilled :: row
  ms_TotalTradeFlow :: float64
  ms_TotalPaymentFlow :: float64
  ms_TotalConsumptionFlow :: float64
  ms_TotalDemandFulfilled :: float64
  ms_TotalTrades :: int
  ms_TotalCrossAssetTrades :: int
  ms_TotalSwitchCount :: int
  ms_TotalVolume :: float64
  ms_ExampleExchangeRate :: float64

record MultiMarketResult =
  mu_Config :: MultiMarketConfig
  mu_Final :: MultiAcceptanceState
  mu_Metrics :: "MultiMarketMetrics list"
  mu_Summary :: MultiMarketSummary

definition DefaultMultiMarketConfig :: MultiMarketConfig where
  "DefaultMultiMarketConfig = \<lparr>mm_Scenario = ''multi-basic'', mm_Topology = ''full'',
     mm_Universe = NewAssetUniverse [''SKUG'', ''WEB4''], mm_Steps = 1000, mm_Alpha = rnd (1/5), mm_Spread = rnd (1/100),
     mm_TradesPerStep = 0, mm_Seed = 1, mm_EnableDemand = True, mm_EnableCycle = True, mm_EnableSubstitution = False,
     mm_UtilityMode = ''fixed'', mm_PriceModel = PriceModelAcceptance, mm_MaxQty = Fin 1\<rparr>"

definition ValidateMultiMarketConfig :: "MultiMarketConfig \<Rightarrow> err + unit" where
  "ValidateMultiMarketConfig cfg =
     attempt (AssetUniverse_Validate (mm_Universe cfg)) (\<lambda>_.
     guard (mm_Scenario cfg \<notin> {''multi-basic'', ''multi-compete'', ''multi-fragmented'', ''multi-flight'', ''multi-coexist''})
       (errorfs [''unknown multi-market scenario '', go_quote (mm_Scenario cfg)])
     (guard (mm_Steps cfg < 0) (errorf ''steps must be >= 0'')
     (guard (flt (mm_Alpha cfg) (Fin 0) \<or> flt (Fin 1) (mm_Alpha cfg)) (errorf ''alpha must be in [0,1]'')
     (guard (flt (mm_Spread cfg) (Fin 0)) (errorf ''spread must be >= 0'')
     (guard (mm_TradesPerStep cfg < 0) (errorf ''trades-per-step must be >= 0'')
     (guard (fle (mm_MaxQty cfg) (Fin 0)) (errorf ''max-qty must be > 0'')
     (guard (mm_UtilityMode cfg \<notin> {'''', ''fixed'', ''random'', ''clustered''})
       (errorfs [''unknown utility mode '', go_quote (mm_UtilityMode cfg)])
     (guard (mm_Topology cfg \<notin> {''full'', ''chain'', ''clustered''}) (errorfs [''unknown market topology '', go_quote (mm_Topology cfg)])
     (guard (mm_PriceModel cfg \<notin> {'''', PriceModelAcceptance, PriceModelPipeline})
       (errorfs [''unknown price model '', go_quote (mm_PriceModel cfg)])
     (Inr ()))))))))))"


section \<open>Scenarios\<close>

record multiScenario =
  sc_state :: MultiAcceptanceState
  sc_inventory :: simInventoryState
  sc_demand :: DemandState
  sc_consumption :: ConsumptionState
  sc_production :: ProductionState
  sc_preference :: PortfolioPreference
  sc_valueDemand :: ValueDemand

definition setMultiNode :: "string \<Rightarrow> string \<Rightarrow> float64 \<Rightarrow> float64 \<Rightarrow> float64 \<Rightarrow> multiScenario \<Rightarrow> multiScenario" where
  "setMultiNode nodeID assetID score holding target s =
     s\<lparr>sc_state := MultiAcceptanceState_Set (sc_state s) nodeID assetID score,
       sc_inventory := simInventoryState_Set (sc_inventory s) nodeID assetID holding,
       sc_demand := DemandState_SetTarget (sc_demand s) nodeID assetID target\<rparr>"

definition setProduction :: "string \<Rightarrow> string \<Rightarrow> float64 \<Rightarrow> multiScenario \<Rightarrow> multiScenario" where
  "setProduction nodeID assetID rate s = s\<lparr>sc_production := ProductionState_SetRate (sc_production s) nodeID assetID rate\<rparr>"

definition setConsumption :: "string \<Rightarrow> string \<Rightarrow> float64 \<Rightarrow> multiScenario \<Rightarrow> multiScenario" where
  "setConsumption nodeID assetID rate s = s\<lparr>sc_consumption := ConsumptionState_SetRate (sc_consumption s) nodeID assetID rate\<rparr>"

definition setValueDemand :: "string \<Rightarrow> float64 \<Rightarrow> multiScenario \<Rightarrow> multiScenario" where
  "setValueDemand nodeID target s = s\<lparr>sc_valueDemand := ValueDemand_SetTarget (sc_valueDemand s) nodeID target\<rparr>"

text \<open>The weight of asset \<open>j\<close> for node \<open>i\<close> of \<open>n\<close>; \<open>k\<close> is the number of the draw.\<close>

definition scenarioWeight :: "'x senv_scheme \<Rightarrow> MultiMarketConfig \<Rightarrow> nat \<Rightarrow> nat \<Rightarrow> nat \<Rightarrow> nat \<Rightarrow> float64" where
  "scenarioWeight E cfg n i j k =
     (let own = ((i < n div 2 \<and> j = 0) \<or> (n div 2 \<le> i \<and> j = 1)) in
      if mm_UtilityMode cfg = ''random''
      then fadd (rnd (8/10)) (fmul (rnd (6/10)) (rand_Float64 E (mm_Seed cfg + 3000) k))
      else if mm_UtilityMode cfg = ''clustered'' then (if own then Fin (3/2) else Fin (3/4))
      else if mm_Scenario cfg = ''multi-compete'' then (if j = 0 then rnd (16/10) else rnd (9/10))
      else if mm_Scenario cfg = ''multi-flight'' then (if j = 0 then rnd (55/100) else rnd (17/10))
      else if mm_Scenario cfg \<in> {''multi-coexist'', ''multi-fragmented''} then (if own then rnd (16/10) else rnd (8/10))
      else Fin 1)"

definition setScenarioPreferences ::
    "'x senv_scheme \<Rightarrow> MultiMarketConfig \<Rightarrow> string list \<Rightarrow> string list \<Rightarrow> PortfolioPreference \<Rightarrow> PortfolioPreference" where
  "setScenarioPreferences E cfg nodeIDs assets pref =
     foldl (\<lambda>p (i, nodeID). foldl (\<lambda>p (j, assetID).
         PortfolioPreference_SetWeight p nodeID assetID
           (scenarioWeight E cfg (length nodeIDs) i j (i * length assets + j))) p (enumerate 0 assets))
       pref (enumerate 0 nodeIDs)"

text \<open>The score that a scenario gives asset \<open>i\<close> of a node, from the score that was drawn.\<close>

definition scenarioScore :: "string \<Rightarrow> string \<Rightarrow> nat \<Rightarrow> float64 \<Rightarrow> float64" where
  "scenarioScore scenario nodeID i score =
     (let ab = (nodeID = ''A'' \<or> nodeID = ''B''); cd = (nodeID = ''C'' \<or> nodeID = ''D'') in
      if scenario = ''multi-compete'' then (if i = 0 then fadd score (Fin (1/4)) else score)
      else if scenario = ''multi-fragmented'' then
        (if cd \<and> i = 0 then rnd (35/100) else if ab \<and> i = 1 then rnd (35/100)
         else if cd \<and> i = 1 then rnd (85/100) else if ab \<and> i = 0 then rnd (85/100) else score)
      else if scenario = ''multi-flight'' then (if i = 0 then Fin (1/4) else rnd (85/100))
      else score)"

definition basicScenario :: "string \<Rightarrow> string \<Rightarrow> string list \<Rightarrow> multiScenario \<Rightarrow> multiScenario" where
  "basicScenario a b nodeIDs s =
     (let s = foldl (\<lambda>s (nodeID, assetID, score, holding, target). setMultiNode nodeID assetID score holding target s) s
        [(''A'', a, rnd (8/10), Fin 8, Fin 2), (''A'', b, rnd (45/100), Fin 0, Fin 3),
         (''B'', a, Fin (3/4), Fin 0, Fin 3), (''B'', b, rnd (7/10), Fin 8, Fin 2),
         (''C'', a, rnd (65/100), Fin 1, Fin 3), (''C'', b, Fin (3/4), Fin 1, Fin 3),
         (''D'', a, rnd (6/10), Fin 0, Fin 2), (''D'', b, rnd (65/100), Fin 0, Fin 2)];
          s = setProduction ''B'' b (rnd (2/10)) (setProduction ''A'' a (rnd (2/10)) s) in
      foldl (\<lambda>s nodeID. setValueDemand nodeID (Fin 3)
          (setConsumption nodeID b (rnd (3/100)) (setConsumption nodeID a (rnd (3/100)) s))) s nodeIDs)"

definition drawnScenario :: "'x senv_scheme \<Rightarrow> MultiMarketConfig \<Rightarrow> string list \<Rightarrow> string list \<Rightarrow> multiScenario \<Rightarrow> multiScenario" where
  "drawnScenario E cfg nodeIDs assets s =
     (let rng = rand_Float64 E (mm_Seed cfg);
          s = foldl (\<lambda>s (n, nodeID). setValueDemand nodeID (Fin 4) (foldl (\<lambda>s (i, assetID).
              let k = 3 * (n * length assets + i);
                  score = fadd (rnd (45/100)) (fmul (rnd (2/10)) (rng k));
                  holding = fmul (Fin 2) (rng (k + 1));
                  target = fadd (Fin 2) (rng (k + 2)) in
              setConsumption nodeID assetID (rnd (2/100))
                (setMultiNode nodeID assetID (scenarioScore (mm_Scenario cfg) nodeID i score) holding target s))
            s (enumerate 0 assets))) s (enumerate 0 nodeIDs) in
      foldl (\<lambda>s (i, assetID).
        let producer = nodeIDs ! (i mod length nodeIDs); s = setProduction producer assetID (rnd (15/100)) s in
        s\<lparr>sc_inventory := simInventoryState_Set (sc_inventory s) producer assetID
             (fadd (simInventoryState_Get (sc_inventory s) producer assetID) (Fin 5))\<rparr>) s (enumerate 0 assets))"

definition MultiMarketScenario :: "'x senv_scheme \<Rightarrow> MultiMarketConfig \<Rightarrow> err + multiScenario" where
  "MultiMarketScenario E cfg =
     (let assets = au_AssetIDs (mm_Universe cfg);
          nodeIDs = (if mm_Scenario cfg \<in> {''multi-flight'', ''multi-compete''} then sixNodes else [''A'', ''B'', ''C'', ''D'']);
          new = \<lparr>sc_state = NewMultiAcceptanceState, sc_inventory = sim_NewInventoryState, sc_demand = NewDemandState,
                 sc_consumption = NewConsumptionState, sc_production = NewProductionState,
                 sc_preference = NewPortfolioPreference, sc_valueDemand = NewValueDemand\<rparr> in
      guard (length assets < 2) (errorf ''multi-asset simulation requires at least two assets'')
      (let s = (if mm_Scenario cfg = ''multi-basic'' then basicScenario (assets ! 0) (assets ! 1) nodeIDs new
                else drawnScenario E cfg nodeIDs assets new) in
       Inr (s\<lparr>sc_preference := setScenarioPreferences E cfg nodeIDs assets (sc_preference s)\<rparr>)))"

section \<open>Steps and metrics\<close>

definition multiMarketPriceTable ::
    "'x env_scheme \<Rightarrow> MultiMarketConfig \<Rightarrow> MultiAcceptanceState \<Rightarrow> simInventoryState \<Rightarrow> DemandState \<Rightarrow> MultiPriceState \<Rightarrow> PriceConfig
      \<Rightarrow> string list \<Rightarrow> int64 \<Rightarrow> err + PriceTable" where
  "multiMarketPriceTable E cfg state iv demand ps priceCfg nodeIDs nowUnix =
     (if mm_PriceModel cfg = '''' \<or> mm_PriceModel cfg = PriceModelAcceptance then Inr (PriceTableFromMultiAcceptance state)
      else priceTableFromMultiPipelineForNodes E ps priceCfg (mm_Universe cfg) iv demand nodeIDs nowUnix)"

definition StepSubstitutionPressure ::
    "MultiAcceptanceState \<Rightarrow> simInventoryState \<Rightarrow> PortfolioPreference \<Rightarrow> AssetUniverse \<Rightarrow> float64 \<Rightarrow> PriceTable \<Rightarrow> MultiAcceptanceState" where
  "StepSubstitutionPressure state iv pref universe alpha pt =
     foldl (\<lambda>next nodeID.
       let preferred = PreferredAsset pt pref nodeID universe in
       foldl (\<lambda>next assetID.
         let score = MultiAcceptanceState_Get state nodeID assetID; rate = fmul alpha (rnd (1/10)) in
         MultiAcceptanceState_Set next nodeID assetID
           (if assetID = preferred then fadd score (fmul rate (fsub (Fin 1) score))
            else if flt (Fin 0) (simInventoryState_Get iv nodeID assetID) then fsub score (fmul rate score) else score))
         next (au_AssetIDs universe)) state (multiNodeIDs state)"

definition StepMultiDemandPricePressure ::
    "MultiAcceptanceState \<Rightarrow> simInventoryState \<Rightarrow> DemandState \<Rightarrow> AssetUniverse \<Rightarrow> float64 \<Rightarrow> MultiAcceptanceState" where
  "StepMultiDemandPricePressure state inventory demand universe alpha =
     foldl (\<lambda>next assetID.
       let assetState = MultiAcceptanceState_AssetState next assetID in
       MultiAcceptanceState_SetAssetState next assetID \<lparr>ac_Scores = foldl (\<lambda>m nodeID. gm_put m nodeID
         (demandPressure (sim_clamp01 alpha) inventory demand nodeID assetID (score_of assetState nodeID)))
         (ac_Scores assetState) (stateNodeIDs assetState)\<rparr>) state (au_AssetIDs universe)"

definition assetPriceMeanSpread :: "PriceTable \<Rightarrow> MultiAcceptanceState \<Rightarrow> string \<Rightarrow> float64 \<times> float64" where
  "assetPriceMeanSpread pt state assetID =
     (let prices = List.map_filter (\<lambda>nodeID. PriceTable_Get pt nodeID assetID) (multiNodeIDs state) in
      if prices = [] then (Fin 0, Fin 0)
      else (fdiv (foldl fadd (Fin 0) prices) (of_count (length prices)), fsub (maxOfAll prices) (minOf prices)))"

definition substitutionSellerCanSwitch ::
    "PriceTable \<Rightarrow> simInventoryState \<Rightarrow> PortfolioPreference \<Rightarrow> AssetUniverse \<Rightarrow> string \<Rightarrow> string \<Rightarrow> string \<Rightarrow> bool" where
  "substitutionSellerCanSwitch pt iv pref universe nodeID sellAsset buyAsset \<longleftrightarrow>
     \<not> fle (simInventoryState_Get iv nodeID sellAsset) (Fin 0)
     \<and> PreferredAsset pt pref nodeID universe = buyAsset
     \<and> flt (sim_EffectiveValue pt pref nodeID sellAsset) (sim_EffectiveValue pt pref nodeID buyAsset)"

definition assetInventoryShares :: "simInventoryState \<Rightarrow> AssetUniverse \<Rightarrow> row" where
  "assetInventoryShares iv universe =
     (let (totals, total) = foldl (\<lambda>s (nodeID, assets). foldl (\<lambda>(totals, total) assetID.
            let qty = gm_get (Fin 0) assets assetID in
            (gm_put totals assetID (fadd (gm_get (Fin 0) totals assetID) qty), fadd total qty)) s (au_AssetIDs universe))
          ([], Fin 0) (si_Holdings iv) in
      if feq total (Fin 0) then totals
      else foldl (\<lambda>m assetID. gm_put m assetID (fdiv (gm_get (Fin 0) m assetID) total)) totals (au_AssetIDs universe))"

definition dominantAsset :: "row \<Rightarrow> string" where
  "dominantAsset means =
     fst (foldl (\<lambda>(best, bestMean) assetID. if flt bestMean (gm_get (Fin 0) means assetID)
       then (assetID, gm_get (Fin 0) means assetID) else (best, bestMean)) ('''', Inf True) (sortedUnique (keys means)))"

definition MultiMarketStepMetrics ::
    "int \<Rightarrow> MultiAcceptanceState \<Rightarrow> simInventoryState \<Rightarrow> AssetUniverse \<Rightarrow> AssetFlowMetrics \<Rightarrow> int \<Rightarrow> int \<Rightarrow> int \<Rightarrow> float64
      \<Rightarrow> PriceTable \<Rightarrow> MultiMarketMetrics" where
  "MultiMarketStepMetrics step state iv universe flows executedTrades crossTrades switchCount volume pt =
     (let ids = au_AssetIDs universe; assetShares = assetInventoryShares iv universe;
          rates = (if length ids < 2 then []
            else List.map_filter (\<lambda>nodeID. let quote = QuoteExchange pt nodeID (ids ! 0) (ids ! 1) in
                   if eq_Valid quote then Some (eq_Rate quote) else None) (multiNodeIDs state)) in
      \<lparr>mx_Step = step,
       mx_AssetMeans = foldl (\<lambda>m assetID. gm_put m assetID (fst (assetPriceMeanSpread pt state assetID))) [] ids,
       mx_AssetSpreads = foldl (\<lambda>m assetID. gm_put m assetID (snd (assetPriceMeanSpread pt state assetID))) [] ids,
       mx_ExchangeRates = (if rates = [] then []
         else [(ids ! 0 @ ''/'' @ ids ! 1, fdiv (foldl fadd (Fin 0) rates) (of_count (length rates)))]),
       mx_AssetShares = assetShares, mx_FlowShares = FlowShare (fm_TradeVolume flows), mx_Flows = flows,
       mx_ExecutedTrades = executedTrades, mx_CrossAssetTrades = crossTrades, mx_SwitchCount = switchCount,
       mx_TotalVolume = volume, mx_DominantAsset = dominantAsset assetShares,
       mx_DominantAssetByFlow = DominantByFlow (fm_TradeVolume flows),
       mx_FlowConcentration = FlowConcentration (fm_TradeVolume flows)\<rparr>)"


definition MultiMarketSummaryFromMetrics ::
    "MultiMarketMetrics list \<Rightarrow> AssetFlowMetrics \<Rightarrow> int \<Rightarrow> int \<Rightarrow> int \<Rightarrow> float64 \<Rightarrow> AssetUniverse \<Rightarrow> MultiMarketSummary" where
  "MultiMarketSummaryFromMetrics metrics flows totalTrades totalCrossTrades totalSwitches totalVolume universe =
     (let empty = \<lparr>ms_FinalAssetMeans = [], ms_FinalAssetSpreads = [], ms_FinalAssetShares = [], ms_DominantAsset = '''',
            ms_DominantAssetByHoldings = '''', ms_DominantAssetByFlow = '''', ms_FlowConcentration = Fin 0, ms_FlowShares = [],
            ms_TradeFlow = [], ms_PaymentFlow = [], ms_ConsumptionFlow = [], ms_DemandFulfilled = [], ms_TotalTradeFlow = Fin 0,
            ms_TotalPaymentFlow = Fin 0, ms_TotalConsumptionFlow = Fin 0, ms_TotalDemandFulfilled = Fin 0, ms_TotalTrades = 0,
            ms_TotalCrossAssetTrades = 0, ms_TotalSwitchCount = 0, ms_TotalVolume = Fin 0, ms_ExampleExchangeRate = Fin 0\<rparr> in
      if metrics = [] then empty
      else
        let final = last metrics; ids = au_AssetIDs universe in
        \<lparr>ms_FinalAssetMeans = mx_AssetMeans final, ms_FinalAssetSpreads = mx_AssetSpreads final,
         ms_FinalAssetShares = mx_AssetShares final, ms_DominantAsset = mx_DominantAsset final,
         ms_DominantAssetByHoldings = mx_DominantAsset final, ms_DominantAssetByFlow = DominantByFlow (fm_TradeVolume flows),
         ms_FlowConcentration = FlowConcentration (fm_TradeVolume flows), ms_FlowShares = FlowShare (fm_TradeVolume flows),
         ms_TradeFlow = fm_TradeVolume flows, ms_PaymentFlow = fm_PaymentVolume flows,
         ms_ConsumptionFlow = fm_ConsumptionVolume flows, ms_DemandFulfilled = fm_DemandFulfilled flows,
         ms_TotalTradeFlow = sumVolumes (fm_TradeVolume flows), ms_TotalPaymentFlow = sumVolumes (fm_PaymentVolume flows),
         ms_TotalConsumptionFlow = sumVolumes (fm_ConsumptionVolume flows),
         ms_TotalDemandFulfilled = sumVolumes (fm_DemandFulfilled flows), ms_TotalTrades = totalTrades,
         ms_TotalCrossAssetTrades = totalCrossTrades, ms_TotalSwitchCount = totalSwitches, ms_TotalVolume = totalVolume,
         ms_ExampleExchangeRate =
           (if 2 \<le> length ids then gm_get (Fin 0) (mx_ExchangeRates final) (ids ! 0 @ ''/'' @ ids ! 1) else Fin 0)\<rparr>)"

section \<open>The simulation\<close>

text \<open>The variables of one step, and those that live over the steps.\<close>

record multiMarket =
  mw_current :: MultiAcceptanceState
  mw_inventory :: simInventoryState
  mw_prices :: MultiPriceState
  mw_executed :: int
  mw_cross :: int
  mw_switches :: int
  mw_volume :: float64
  mw_flows :: AssetFlowMetrics

record multiRun =
  ru_current :: MultiAcceptanceState
  ru_inventory :: simInventoryState
  ru_prices :: MultiPriceState
  ru_metrics :: "MultiMarketMetrics list"
  ru_totalTrades :: int
  ru_totalCross :: int
  ru_totalSwitches :: int
  ru_totalVolume :: float64
  ru_totalFlows :: AssetFlowMetrics

definition sameAssetTrade ::
    "'x env_scheme \<Rightarrow> MultiMarketConfig \<Rightarrow> Topology \<Rightarrow> DemandState \<Rightarrow> PriceTable \<Rightarrow> int \<Rightarrow> string \<Rightarrow> string \<Rightarrow> string
      \<Rightarrow> multiMarket \<Rightarrow> err + multiMarket" where
  "sameAssetTrade E cfg topology demand pt step assetID sellerID buyerID m =
     (if mm_TradesPerStep cfg \<le> mw_executed m then Inr m
      else if sellerID = buyerID \<or> \<not> marketPairConnected topology sellerID buyerID then Inr m
      else
        let quote = QuoteDemandTrade pt (mw_inventory m) demand sellerID buyerID assetID (mm_MaxQty cfg) (mm_Spread cfg) in
        if \<not> dq_Executable quote then Inr m
        else
          let (iv, assetState) = ApplyDemandTrade (mw_inventory m) (MultiAcceptanceState_AssetState (mw_current m) assetID) quote (mm_Alpha cfg);
              current = MultiAcceptanceState_SetAssetState (mw_current m) assetID assetState;
              flows = AssetFlowMetrics_AddDemandFulfilled (AssetFlowMetrics_AddTrade (mw_flows m) assetID (dq_Quantity quote))
                        assetID (dq_Quantity quote) in
          attempt (recordSameAssetObservation E (mw_prices m) assetID (dq_ClearingPrice quote) (dq_Quantity quote)
                     (sameAssetObservationWeight current assetID (dq_Seller quote) (dq_Buyer quote)) (of_int step)) (\<lambda>prices.
          Inr (m\<lparr>mw_inventory := iv, mw_current := current, mw_prices := prices, mw_executed := mw_executed m + 1,
                 mw_volume := fadd (mw_volume m) (dq_Quantity quote), mw_flows := flows\<rparr>)))"

definition crossAssetTrade ::
    "'x env_scheme \<Rightarrow> MultiMarketConfig \<Rightarrow> Topology \<Rightarrow> DemandState \<Rightarrow> PortfolioPreference \<Rightarrow> PriceTable \<Rightarrow> int \<Rightarrow> string \<Rightarrow> string
      \<Rightarrow> string \<Rightarrow> string \<Rightarrow> multiMarket \<Rightarrow> err + multiMarket" where
  "crossAssetTrade E cfg topology demand pref pt step sellAsset buyAsset sellerID buyerID m =
     (if mm_TradesPerStep cfg \<le> mw_executed m then Inr m
      else if sellerID = buyerID \<or> \<not> marketPairConnected topology sellerID buyerID then Inr m
      else
        let iv = mw_inventory m; subst = mm_EnableSubstitution cfg;
            wants = (\<lambda>nodeID gives takes. flt (Fin 0) (DemandState_Surplus demand nodeID gives iv)
                       \<and> flt (Fin 0) (DemandState_Need demand nodeID takes iv));
            switches = (\<lambda>nodeID gives takes. subst \<and> substitutionSellerCanSwitch pt iv pref (mm_Universe cfg) nodeID gives takes);
            sellerOK = (wants sellerID sellAsset buyAsset \<or> switches sellerID sellAsset buyAsset);
            buyerOK = (wants buyerID buyAsset sellAsset \<or> switches buyerID buyAsset sellAsset) in
        if \<not> sellerOK \<or> \<not> buyerOK then Inr m
        else
          let quote = QuoteCrossAssetTrade pt iv sellerID buyerID sellAsset buyAsset (mm_MaxQty cfg) (mm_Spread cfg);
              quote = (if \<not> xq_Executable quote \<and> subst
                then QuoteSubstitutionSwitch pt iv sellerID buyerID sellAsset buyAsset (mm_MaxQty cfg) (mm_Spread cfg) else quote) in
          if \<not> xq_Executable quote then Inr m
          else
            let (iv, current) = ApplyCrossAssetTrade iv (mw_current m) quote (mm_Alpha cfg);
                flows = AssetFlowMetrics_AddTrade (mw_flows m) (xq_SellAsset quote) (xq_SellQty quote);
                flows = AssetFlowMetrics_AddTrade flows (xq_BuyAsset quote) (xq_BuyQty quote);
                flows = AssetFlowMetrics_AddPayment flows (xq_BuyAsset quote) (xq_BuyQty quote) in
            attempt (recordCrossAssetObservations E (mw_prices m) quote
                (crossAssetObservationWeight current (xq_SellAsset quote) (xq_Seller quote) (xq_Buyer quote))
                (crossAssetObservationWeight current (xq_BuyAsset quote) (xq_Seller quote) (xq_Buyer quote)) (of_int step)) (\<lambda>prices.
            Inr (m\<lparr>mw_inventory := iv, mw_current := current, mw_prices := prices, mw_executed := mw_executed m + 1,
                   mw_cross := mw_cross m + 1, mw_switches := (if subst then mw_switches m + 1 else mw_switches m),
                   mw_volume := fadd (mw_volume m) (xq_SellQty quote), mw_flows := flows\<rparr>)))"

definition sameAssetTrades ::
    "'x env_scheme \<Rightarrow> MultiMarketConfig \<Rightarrow> Topology \<Rightarrow> DemandState \<Rightarrow> PriceTable \<Rightarrow> int \<Rightarrow> string list \<Rightarrow> multiMarket \<Rightarrow> err + multiMarket" where
  "sameAssetTrades E cfg topology demand pt step nodeIDs =
     each (\<lambda>_ assetID. each (\<lambda>_ sellerID. each (\<lambda>_ buyerID.
       sameAssetTrade E cfg topology demand pt step assetID sellerID buyerID) 0 nodeIDs) 0 nodeIDs) 0 (au_AssetIDs (mm_Universe cfg))"

definition crossAssetTrades ::
    "'x env_scheme \<Rightarrow> MultiMarketConfig \<Rightarrow> Topology \<Rightarrow> DemandState \<Rightarrow> PortfolioPreference \<Rightarrow> PriceTable \<Rightarrow> int \<Rightarrow> string list
      \<Rightarrow> multiMarket \<Rightarrow> err + multiMarket" where
  "crossAssetTrades E cfg topology demand pref pt step nodeIDs =
     (let ids = au_AssetIDs (mm_Universe cfg) in
      each (\<lambda>_ sellAsset. each (\<lambda>_ buyAsset m.
        if sellAsset = buyAsset then Inr m
        else each (\<lambda>_ sellerID. each (\<lambda>_ buyerID.
          crossAssetTrade E cfg topology demand pref pt step sellAsset buyAsset sellerID buyerID) 0 nodeIDs) 0 nodeIDs m) 0 ids) 0 ids)"

definition multiTrades ::
    "'x env_scheme \<Rightarrow> MultiMarketConfig \<Rightarrow> Topology \<Rightarrow> multiScenario \<Rightarrow> string list \<Rightarrow> PriceTable \<Rightarrow> int \<Rightarrow> multiMarket \<Rightarrow> err + multiMarket" where
  "multiTrades E cfg topology sc nodeIDs pt step m =
     attempt (if mm_EnableSubstitution cfg
              then let current = StepSubstitutionPressure (mw_current m) (mw_inventory m) (sc_preference sc) (mm_Universe cfg) (mm_Alpha cfg) pt in
                   attempt (multiMarketPriceTable E cfg current (mw_inventory m) (sc_demand sc) (mw_prices m) defaultMultiPipelinePriceConfig
                              nodeIDs (of_int step)) (\<lambda>pt. Inr (m\<lparr>mw_current := current\<rparr>, pt))
              else Inr (m, pt)) (\<lambda>(m, pt).
     attempt (sameAssetTrades E cfg topology (sc_demand sc) pt step nodeIDs m)
       (crossAssetTrades E cfg topology (sc_demand sc) (sc_preference sc) pt step nodeIDs))"

definition multiStep ::
    "'x env_scheme \<Rightarrow> MultiMarketConfig \<Rightarrow> Topology \<Rightarrow> multiScenario \<Rightarrow> string list \<Rightarrow> int \<Rightarrow> multiRun \<Rightarrow> err + multiRun" where
  "multiStep E cfg topology sc nodeIDs step r =
     (let universe = mm_Universe cfg; flows = NewAssetFlowMetrics (au_AssetIDs universe);
          (iv, current, flows) =
            (if mm_EnableCycle cfg
             then let (iv, consumed) = ApplyConsumptionWithFlow (sc_consumption sc) (ru_inventory r) universe;
                      iv = ProductionState_Apply (sc_production sc) iv in
                  (iv, StepMultiDemandPricePressure (ru_current r) iv (sc_demand sc) universe (mm_Alpha cfg), addAssetFlows flows consumed)
             else (ru_inventory r, ru_current r, flows)) in
      attempt (multiMarketPriceTable E cfg current iv (sc_demand sc) (ru_prices r) defaultMultiPipelinePriceConfig nodeIDs (of_int step)) (\<lambda>pt.
      let m = \<lparr>mw_current = current, mw_inventory = iv, mw_prices = ru_prices r, mw_executed = 0, mw_cross = 0,
               mw_switches = ru_totalSwitches r, mw_volume = Fin 0, mw_flows = flows\<rparr> in
      attempt (if mm_EnableDemand cfg then multiTrades E cfg topology sc nodeIDs pt step m else Inr m) (\<lambda>m.
      let current = foldl (\<lambda>s assetID. MultiAcceptanceState_SetAssetState s assetID
            (StepMarketTopology (MultiAcceptanceState_AssetState s assetID) topology (mm_Alpha cfg))) (mw_current m) (au_AssetIDs universe) in
      attempt (multiMarketPriceTable E cfg current (mw_inventory m) (sc_demand sc) (mw_prices m) defaultMultiPipelinePriceConfig
                 nodeIDs (of_int step)) (\<lambda>pt.
      Inr \<lparr>ru_current = current, ru_inventory = mw_inventory m, ru_prices = mw_prices m,
           ru_metrics = ru_metrics r @ [MultiMarketStepMetrics step current (mw_inventory m) universe (mw_flows m)
             (mw_executed m) (mw_cross m) (mw_switches m) (mw_volume m) pt],
           ru_totalTrades = ru_totalTrades r + mw_executed m, ru_totalCross = ru_totalCross r + mw_cross m,
           ru_totalSwitches = mw_switches m, ru_totalVolume = fadd (ru_totalVolume r) (mw_volume m),
           ru_totalFlows = addAssetFlows (ru_totalFlows r) (mw_flows m)\<rparr>))))"

definition RunMultiMarketSimulation :: "'x senv_scheme \<Rightarrow> MultiMarketConfig \<Rightarrow> err + MultiMarketResult" where
  "RunMultiMarketSimulation E cfg =
     attempt (ValidateMultiMarketConfig cfg) (\<lambda>_.
     attempt (MultiMarketScenario E cfg) (\<lambda>sc.
     let nodeIDs = multiNodeIDs (sc_state sc); ids = au_AssetIDs (mm_Universe cfg);
         cfg = (if mm_TradesPerStep cfg = 0 then cfg\<lparr>mm_TradesPerStep := int (length nodeIDs * length ids)\<rparr> else cfg) in
     attempt (MarketTopology (mm_Topology cfg) (mm_Scenario cfg) nodeIDs) (\<lambda>(topology, _).
     let prices = NewMultiPriceState E (mm_Universe cfg) (sc_state sc); flows = NewAssetFlowMetrics ids in
     attempt (multiMarketPriceTable E cfg (sc_state sc) (sc_inventory sc) (sc_demand sc) prices defaultMultiPipelinePriceConfig nodeIDs 0) (\<lambda>pt.
     let start = \<lparr>ru_current = sc_state sc, ru_inventory = sc_inventory sc, ru_prices = prices,
           ru_metrics = [MultiMarketStepMetrics 0 (sc_state sc) (sc_inventory sc) (mm_Universe cfg) flows 0 0 0 (Fin 0) pt],
           ru_totalTrades = 0, ru_totalCross = 0, ru_totalSwitches = 0, ru_totalVolume = Fin 0, ru_totalFlows = flows\<rparr> in
     attempt (each (\<lambda>i _. multiStep E cfg topology sc nodeIDs (int i + 1)) 0 (replicate (nat (mm_Steps cfg)) ()) start) (\<lambda>r.
     Inr \<lparr>mu_Config = cfg, mu_Final = ru_current r, mu_Metrics = ru_metrics r,
          mu_Summary = MultiMarketSummaryFromMetrics (ru_metrics r) (ru_totalFlows r) (ru_totalTrades r) (ru_totalCross r)
            (ru_totalSwitches r) (ru_totalVolume r) (mm_Universe cfg)\<rparr>)))))"

end
