(* ===== verification/MultiRun.thy ===== *)
theory MultiRun
  imports MarketRun MultiMarket
begin

text \<open>
  How the simulation of several assets counts its trades: the limit of a step, the sums of the summary,
  and the switches, which add up over the steps.
\<close>

section \<open>The trades of a step\<close>

text \<open>At most \<open>limit\<close> trades, of which some are between two assets; \<open>b\<close> switches before the step.\<close>

definition tallied :: "MultiMarketConfig \<Rightarrow> int \<Rightarrow> multiMarket \<Rightarrow> bool" where
  "tallied cfg b m \<longleftrightarrow> 0 \<le> mw_cross m \<and> mw_cross m \<le> mw_executed m \<and> mw_executed m \<le> mm_TradesPerStep cfg
     \<and> mw_switches m = b + (if mm_EnableSubstitution cfg then mw_cross m else 0)"

lemma sameAssetTrade_tallied:
  assumes "sameAssetTrade E cfg topology demand pt step assetID seller buyer m = Inr m'" "tallied cfg b m"
  shows "tallied cfg b m'"
proof (cases "mm_TradesPerStep cfg \<le> mw_executed m")
  case True
  then show ?thesis using assms by (simp add: sameAssetTrade_def)
next
  case False
  then show ?thesis using assms unfolding sameAssetTrade_def Let_def
    by (elim if_either) (auto simp: tallied_def case_prod_unfold)
qed

lemma crossAssetTrade_tallied:
  assumes "crossAssetTrade E cfg topology demand pref pt step sellAsset buyAsset seller buyer m = Inr m'" "tallied cfg b m"
  shows "tallied cfg b m'"
proof (cases "mm_TradesPerStep cfg \<le> mw_executed m")
  case True
  then show ?thesis using assms by (simp add: crossAssetTrade_def)
next
  case False
  then show ?thesis using assms unfolding crossAssetTrade_def Let_def
    by (elim if_either) (auto simp: tallied_def case_prod_unfold split: if_splits)
qed

lemma each_keeps:
  assumes "\<And>j x s s'. f j x s = Inr s' \<Longrightarrow> P s \<Longrightarrow> P s'" "each f i xs s = Inr t" "P s"
  shows "P t"
  using assms(2,3) by (rule each_invariant [where P = P]) (rule assms(1))

lemma sameAssetTrades_tallied:
  assumes "sameAssetTrades E cfg topology demand pt step ids m = Inr m'" "tallied cfg b m"
  shows "tallied cfg b m'"
  using assms unfolding sameAssetTrades_def
  by (elim each_keeps [where P = "tallied cfg b", rotated -2]) (auto intro: sameAssetTrade_tallied)

lemma crossAssetTrades_tallied:
  assumes "crossAssetTrades E cfg topology demand pref pt step ids m = Inr m'" "tallied cfg b m"
  shows "tallied cfg b m'"
  using assms unfolding crossAssetTrades_def Let_def
  by (elim each_keeps [where P = "tallied cfg b", rotated -2] if_either) (auto intro: crossAssetTrade_tallied)

lemma multiTrades_tallied:
  assumes "multiTrades E cfg topology sc ids pt step m = Inr m'" "tallied cfg b m"
  shows "tallied cfg b m'"
  using assms sameAssetTrades_tallied crossAssetTrades_tallied
  by (cases "mm_EnableSubstitution cfg") (fastforce simp: multiTrades_def Let_def tallied_def)+

section \<open>A run\<close>

definition cross_sum :: "MultiMarketConfig \<Rightarrow> MultiMarketMetrics list \<Rightarrow> int" where
  "cross_sum cfg metrics = (if mm_EnableSubstitution cfg then sum_list (map mx_CrossAssetTrades metrics) else 0)"

definition multi_ok :: "MultiMarketConfig \<Rightarrow> nat \<Rightarrow> multiRun \<Rightarrow> bool" where
  "multi_ok cfg k r \<longleftrightarrow> map mx_Step (ru_metrics r) = map int [0..<Suc k]
     \<and> (\<forall>m \<in> set (ru_metrics r). 0 \<le> mx_CrossAssetTrades m \<and> mx_CrossAssetTrades m \<le> mx_ExecutedTrades m
          \<and> mx_ExecutedTrades m \<le> mm_TradesPerStep cfg)
     \<and> ru_totalTrades r = sum_list (map mx_ExecutedTrades (ru_metrics r))
     \<and> ru_totalCross r = sum_list (map mx_CrossAssetTrades (ru_metrics r))
     \<and> ru_totalSwitches r = cross_sum cfg (ru_metrics r)
     \<and> map mx_SwitchCount (ru_metrics r) = map (\<lambda>i. cross_sum cfg (take (Suc i) (ru_metrics r))) [0..<Suc k]"

lemma MultiMarketStepMetrics_counts [simp]:
  "mx_Step (MultiMarketStepMetrics step state iv universe flows e c s v pt) = step"
  "mx_ExecutedTrades (MultiMarketStepMetrics step state iv universe flows e c s v pt) = e"
  "mx_CrossAssetTrades (MultiMarketStepMetrics step state iv universe flows e c s v pt) = c"
  "mx_SwitchCount (MultiMarketStepMetrics step state iv universe flows e c s v pt) = s"
  by (simp_all add: MultiMarketStepMetrics_def Let_def)

lemma multi_ok_snoc:
  assumes "multi_ok cfg k r" "mx_Step m = int (Suc k)"
    and "0 \<le> mx_CrossAssetTrades m" "mx_CrossAssetTrades m \<le> mx_ExecutedTrades m" "mx_ExecutedTrades m \<le> mm_TradesPerStep cfg"
    and "mx_SwitchCount m = ru_totalSwitches r + (if mm_EnableSubstitution cfg then mx_CrossAssetTrades m else 0)"
    and "ru_metrics r' = ru_metrics r @ [m]" "ru_totalTrades r' = ru_totalTrades r + mx_ExecutedTrades m"
    and "ru_totalCross r' = ru_totalCross r + mx_CrossAssetTrades m" "ru_totalSwitches r' = mx_SwitchCount m"
  shows "multi_ok cfg (Suc k) r'"
proof -
  have "length (ru_metrics r) = Suc k" using assms(1) length_map [of mx_Step "ru_metrics r"] by (simp add: multi_ok_def)
  then have "map (\<lambda>i. cross_sum cfg (take (Suc i) (ru_metrics r @ [m]))) [0..<Suc k]
      = map (\<lambda>i. cross_sum cfg (take (Suc i) (ru_metrics r))) [0..<Suc k]"
    and "take (Suc (Suc k)) (ru_metrics r @ [m]) = ru_metrics r @ [m]" by simp_all
  then show ?thesis using assms by (simp add: multi_ok_def) (simp add: cross_sum_def)
qed

lemma multiStep_ok:
  assumes step: "multiStep E cfg topology sc ids (int (Suc k)) r = Inr r'"
    and "multi_ok cfg k r" "0 \<le> mm_TradesPerStep cfg"
  shows "multi_ok cfg (Suc k) r'"
proof -
  have "\<exists>m n pt.
      (if mm_EnableDemand cfg then multiTrades E cfg topology sc ids pt (int (Suc k)) m else Inr m) = Inr n
      \<and> mw_executed m = 0 \<and> mw_cross m = 0 \<and> mw_switches m = ru_totalSwitches r
      \<and> (\<exists>current iv universe flows v pt. ru_metrics r' = ru_metrics r @ [MultiMarketStepMetrics (int (Suc k)) current iv universe flows
           (mw_executed n) (mw_cross n) (mw_switches n) v pt])
      \<and> ru_totalTrades r' = ru_totalTrades r + mw_executed n \<and> ru_totalCross r' = ru_totalCross r + mw_cross n
      \<and> ru_totalSwitches r' = mw_switches n"
    using step unfolding multiStep_def Let_def case_prod_unfold attempt_Inr
    by (elim exE conjE) (intro exI conjI, assumption, auto)
  then obtain m n pt where t: "(if mm_EnableDemand cfg then multiTrades E cfg topology sc ids pt (int (Suc k)) m else Inr m) = Inr n"
      "mw_executed m = 0" "mw_cross m = 0" "mw_switches m = ru_totalSwitches r"
    and r': "\<exists>current iv universe flows v pt. ru_metrics r' = ru_metrics r @ [MultiMarketStepMetrics (int (Suc k)) current iv universe flows
           (mw_executed n) (mw_cross n) (mw_switches n) v pt]"
      "ru_totalTrades r' = ru_totalTrades r + mw_executed n" "ru_totalCross r' = ru_totalCross r + mw_cross n"
      "ru_totalSwitches r' = mw_switches n"
    by (elim exE conjE) (rule that, assumption+, intro exI, assumption+)
  have "tallied cfg (ru_totalSwitches r) m" using t assms(3) by (simp add: tallied_def)
  then have "tallied cfg (ru_totalSwitches r) n" using t(1) by (cases "mm_EnableDemand cfg") (auto intro: multiTrades_tallied)
  then show ?thesis using r' assms(2)
    by (elim exE) (rule multi_ok_snoc, auto simp: tallied_def)
qed

lemma multi_totals:
  assumes "metrics \<noteq> []"
  shows "ms_TotalTrades (MultiMarketSummaryFromMetrics metrics flows t c s v universe) = t"
    "ms_TotalCrossAssetTrades (MultiMarketSummaryFromMetrics metrics flows t c s v universe) = c"
    "ms_TotalSwitchCount (MultiMarketSummaryFromMetrics metrics flows t c s v universe) = s"
  using assms by (simp_all add: MultiMarketSummaryFromMetrics_def Let_def)

lemma RunMultiMarketSimulation_ok:
  assumes run: "RunMultiMarketSimulation E cfg = Inr res"
  obtains r where "multi_ok (mu_Config res) (nat (mm_Steps cfg)) r" "mu_Metrics res = ru_metrics r"
    "ms_TotalTrades (mu_Summary res) = ru_totalTrades r" "ms_TotalCrossAssetTrades (mu_Summary res) = ru_totalCross r"
    "ms_TotalSwitchCount (mu_Summary res) = ru_totalSwitches r"
    "mm_EnableSubstitution (mu_Config res) = mm_EnableSubstitution cfg"
proof -
  have valid: "ValidateMultiMarketConfig cfg = Inr ()" using run by (simp add: RunMultiMarketSimulation_def)
  obtain sc where sc: "MultiMarketScenario E cfg = Inr sc" using run valid by (auto simp: RunMultiMarketSimulation_def)
  define ids where "ids = multiNodeIDs (sc_state sc)"
  define cfg' where "cfg' = (if mm_TradesPerStep cfg = 0
    then cfg\<lparr>mm_TradesPerStep := int (length ids * length (au_AssetIDs (mm_Universe cfg)))\<rparr> else cfg)"
  note run' = run [unfolded RunMultiMarketSimulation_def Let_def valid sc attempt_simps, folded ids_def, folded cfg'_def]
  have limit: "0 \<le> mm_TradesPerStep cfg'" using valid by (auto simp: ValidateMultiMarketConfig_def cfg'_def guard_def split: if_splits)
  have "\<exists>topology start r pt.
      each (\<lambda>i _. multiStep E cfg' topology sc ids (int i + 1)) 0 (replicate (nat (mm_Steps cfg')) ()) start = Inr r
    \<and> ru_metrics start = [MultiMarketStepMetrics 0 (sc_state sc) (sc_inventory sc) (mm_Universe cfg')
        (NewAssetFlowMetrics (au_AssetIDs (mm_Universe cfg))) 0 0 0 (Fin 0) pt]
    \<and> ru_totalTrades start = 0 \<and> ru_totalCross start = 0 \<and> ru_totalSwitches start = 0
    \<and> res = \<lparr>mu_Config = cfg', mu_Final = ru_current r, mu_Metrics = ru_metrics r,
          mu_Summary = MultiMarketSummaryFromMetrics (ru_metrics r) (ru_totalFlows r) (ru_totalTrades r) (ru_totalCross r)
            (ru_totalSwitches r) (ru_totalVolume r) (mm_Universe cfg')\<rparr>"
    using run' unfolding attempt_Inr case_prod_unfold
    by (elim exE conjE) (intro exI conjI, assumption, auto)
  then obtain topology start r where e: "each (\<lambda>i _. multiStep E cfg' topology sc ids (int i + 1)) 0 (replicate (nat (mm_Steps cfg')) ()) start = Inr r"
    and start: "multi_ok cfg' 0 start"
    and res: "mu_Config res = cfg'" "mu_Metrics res = ru_metrics r" "mu_Summary res = MultiMarketSummaryFromMetrics (ru_metrics r)
        (ru_totalFlows r) (ru_totalTrades r) (ru_totalCross r) (ru_totalSwitches r) (ru_totalVolume r) (mm_Universe cfg')"
    using limit by (auto simp: multi_ok_def cross_sum_def)
  have "multi_ok cfg' (0 + length (replicate (nat (mm_Steps cfg')) ())) r"
    by (rule each_counted [where P = "multi_ok cfg'", OF e start]) (rule multiStep_ok [OF _ _ limit], simp_all add: add.commute)
  then have ok: "multi_ok cfg' (nat (mm_Steps cfg)) r" by (simp add: cfg'_def split: if_splits)
  then have "ru_metrics r \<noteq> []" by (auto simp: multi_ok_def)
  then show thesis using that [of r] ok res by (simp add: multi_totals) (simp add: cfg'_def)
qed

section \<open>A run without demand returns\<close>

lemma acceptance_price_table:
  "mm_PriceModel cfg \<in> {'''', PriceModelAcceptance} \<Longrightarrow> \<exists>pt. multiMarketPriceTable E cfg state iv demand ps pc ids now = Inr pt"
  by (auto simp: multiMarketPriceTable_def)

lemma multiStep_returns:
  assumes "\<not> mm_EnableDemand cfg" "mm_PriceModel cfg \<in> {'''', PriceModelAcceptance}"
  shows "\<exists>r'. multiStep E cfg topology sc ids step r = Inr r'"
  using assms by (cases "mm_EnableCycle cfg") (auto simp: multiStep_def multiMarketPriceTable_def Let_def case_prod_unfold)

lemma RunMultiMarketSimulation_returns:
  assumes "ValidateMultiMarketConfig cfg = Inr ()" "2 \<le> length (au_AssetIDs (mm_Universe cfg))"
    and "\<not> mm_EnableDemand cfg" "mm_PriceModel cfg \<in> {'''', PriceModelAcceptance}"
  shows "\<exists>res. RunMultiMarketSimulation E cfg = Inr res"
proof -
  obtain sc where sc: "MultiMarketScenario E cfg = Inr sc"
    using assms(2) by (simp add: MultiMarketScenario_def guard_def Let_def)
  define cfg' where "cfg' = (if mm_TradesPerStep cfg = 0
    then cfg\<lparr>mm_TradesPerStep := int (length (multiNodeIDs (sc_state sc)) * length (au_AssetIDs (mm_Universe cfg)))\<rparr> else cfg)"
  have d: "\<not> mm_EnableDemand cfg'" "mm_PriceModel cfg' \<in> {'''', PriceModelAcceptance}"
    using assms(3,4) by (auto simp: cfg'_def)
  have "mm_Topology cfg' \<in> {''full'', ''chain'', ''clustered''}"
    using assms(1) by (auto simp: ValidateMultiMarketConfig_def guard_def cfg'_def split: if_splits)
  then obtain topology clusters where t: "MarketTopology (mm_Topology cfg') (mm_Scenario cfg') (multiNodeIDs (sc_state sc)) = Inr (topology, clusters)"
    by (auto simp: MarketTopology_def Let_def)
  obtain pt where pt: "multiMarketPriceTable E cfg' (sc_state sc) (sc_inventory sc) (sc_demand sc)
      (NewMultiPriceState E (mm_Universe cfg') (sc_state sc)) defaultMultiPipelinePriceConfig (multiNodeIDs (sc_state sc)) 0 = Inr pt"
    using acceptance_price_table [OF d(2)] by blast
  have "\<exists>r. each (\<lambda>i _. multiStep E cfg' topology sc (multiNodeIDs (sc_state sc)) (int i + 1)) i xs start = Inr r" for i xs start
    using each_returns [where P = "\<lambda>_ _. True" and f = "\<lambda>i _. multiStep E cfg' topology sc (multiNodeIDs (sc_state sc)) (int i + 1)"]
      multiStep_returns [OF d] by blast
  then show ?thesis
    unfolding RunMultiMarketSimulation_def assms(1) sc attempt_simps Let_def cfg'_def [symmetric] t prod.case pt
    by (intro attempt_returns)
qed

end
