(* ===== verification/Command.thy ===== *)
theory Command
  imports MultiMarket
begin

text \<open>
  The command line (\<open>internal/cli/cli.go\<close>, \<open>cmd/web4/main.go\<close>): the commands that run the dynamics of
  acceptance and the market simulations, from their arguments to what they print.

  The algorithm of the package \<open>flag\<close> and the verbs of \<open>fmt\<close> are written out. The syntax of numbers
  (\<open>strconv.ParseInt\<close> with base 0, \<open>strconv.ParseFloat\<close>), the JSON encoder and the writing of a CSV file
  are fields of the environment. Errors of printing to the standard output are dropped, as \<open>Fprintf\<close>
  is called without a look at its results. A JSON output is written only when it could be encoded.
\<close>

section \<open>Text\<close>

definition nl :: string where "nl = [CHR 0x0A]"

definition show_bool :: "bool \<Rightarrow> string" where
  "show_bool b = (if b then ''true'' else ''false'')"

text \<open>\<open>%.nf\<close> and \<open>strconv.FormatFloat(v, 'f', n, 64)\<close>: the exact value, rounded to \<open>n\<close> places, ties to even.\<close>

definition fixed_pos :: "nat \<Rightarrow> rat \<Rightarrow> string" where
  "fixed_pos n r = (let k = nat (round_half_even (r * 10 ^ n)); t = dec_nat (k mod 10 ^ n) in
     dec_nat (k div 10 ^ n) @ ''.'' @ replicate (n - length t) (CHR ''0'') @ t)"

fun fixed :: "nat \<Rightarrow> float64 \<Rightarrow> string" where
  "fixed n NaN = ''NaN''"
| "fixed n (Inf s) = (if s then ''-Inf'' else ''+Inf'')"
| "fixed n NegZero = ''-'' @ fixed_pos n 0"
| "fixed n (Fin r) = (if r < 0 then ''-'' @ fixed_pos n (- r) else fixed_pos n r)"

definition formatFloat :: "float64 \<Rightarrow> string" where
  "formatFloat v = fixed 6 v"

text \<open>A line: a text, and one with a label.\<close>

definition line :: "string \<Rightarrow> string" where "line t = t @ nl"

definition field :: "string \<Rightarrow> string \<Rightarrow> string" where "field name v = name @ '': '' @ v @ nl"

text \<open>\<open>strings.Split\<close> at one byte, \<open>strings.Join\<close>, and \<open>strings.TrimSpace\<close>: the UTF-8 texts of Unicode's white space.\<close>

fun splitAt :: "char \<Rightarrow> string \<Rightarrow> string list" where
  "splitAt c [] = [[]]"
| "splitAt c (x # xs) = (if x = c then [] # splitAt c xs
     else (case splitAt c xs of [] \<Rightarrow> [[x]] | w # ws \<Rightarrow> (x # w) # ws))"

fun joinWith :: "string \<Rightarrow> string list \<Rightarrow> string" where
  "joinWith sep [] = []"
| "joinWith sep [w] = w"
| "joinWith sep (w # ws) = w @ sep @ joinWith sep ws"

definition spaceTexts :: "string list" where
  "spaceTexts = map (map (char_of :: nat \<Rightarrow> char))
     ([[9], [10], [11], [12], [13], [32], [0xC2, 0x85], [0xC2, 0xA0], [0xE1, 0x9A, 0x80]]
      @ map (\<lambda>n. [0xE2, 0x80, n]) ([0x80..<0x8B] @ [0xA8, 0xA9, 0xAF]) @ [[0xE2, 0x81, 0x9F], [0xE3, 0x80, 0x80]])"

definition strip1 :: "string list \<Rightarrow> string \<Rightarrow> string" where
  "strip1 ps s = (case find (\<lambda>p. take (length p) s = p) ps of None \<Rightarrow> s | Some p \<Rightarrow> drop (length p) s)"

definition TrimSpace :: "string \<Rightarrow> string" where
  "TrimSpace s = (let t = (strip1 spaceTexts ^^ length s) s in
     rev ((strip1 (map rev spaceTexts) ^^ length t) (rev t)))"

definition parseAssetIDs :: "string \<Rightarrow> string list" where
  "parseAssetIDs raw = filter (\<lambda>i. i \<noteq> '''') (map TrimSpace (splitAt (CHR '','') raw))"

section \<open>Options and outputs\<close>

record acceptanceOptions =
  ao_Scenario :: string
  ao_Alpha :: float64
  ao_Tau :: float64
  ao_Steps :: int
  ao_Epsilon :: float64
  ao_Topology :: string
  ao_NoSelf :: bool
  ao_JSON :: bool

record jsonState =
  js_Step :: nat
  js_Scores :: row
  js_Ratio :: float64
  js_Local :: "row option"
  js_Mean :: float64
  js_Converged :: bool

record jsonOutput =
  jo_Scenario :: string
  jo_Alpha :: float64
  jo_Tau :: float64
  jo_Steps :: int
  jo_Topology :: string
  jo_IncludeSelf :: bool
  jo_States :: "jsonState list"
  jo_FinalRatio :: float64
  jo_FinalMean :: float64
  jo_Survived :: bool
  jo_Converged :: bool

record marketOptions =
  mo_Config :: MarketConfig
  mo_JSON :: bool
  mo_JSONSteps :: bool
  mo_CSVPath :: string
  mo_MultiAsset :: bool
  mo_Assets :: string

record marketJSONOutput =
  mj_Scenario :: string
  mj_Topology :: string
  mj_Steps :: int
  mj_Alpha :: float64
  mj_Spread :: float64
  mj_MinProfit :: float64
  mj_Seed :: int64
  mj_EnableDemand :: bool
  mj_MaxQty :: float64
  mj_EnableCycle :: bool
  mj_ConsumptionRate :: float64
  mj_ProductionRate :: float64
  mj_PriceModel :: string
  mj_Summary :: MarketSummary
  mj_Metrics :: "MarketStepMetrics list option"

record multiMarketJSONOutput =
  xj_Scenario :: string
  xj_Topology :: string
  xj_Assets :: "string list"
  xj_Steps :: int
  xj_Alpha :: float64
  xj_Spread :: float64
  xj_Seed :: int64
  xj_EnableSubstitution :: bool
  xj_UtilityMode :: string
  xj_PriceModel :: string
  xj_Summary :: MultiMarketSummary
  xj_Metrics :: "MultiMarketMetrics list option"

datatype encodable = AcceptanceOut jsonOutput | MarketOut marketJSONOutput | MultiMarketOut multiMarketJSONOutput

text \<open>What \<open>strconv\<close> reports of a number.\<close>

datatype numError = SyntaxError | RangeError

record cenv = senv +
  strconv_ParseInt :: "string \<Rightarrow> numError + int64"
  strconv_ParseFloat :: "string \<Rightarrow> numError + float64"
  json_Encode :: "encodable \<Rightarrow> err + string"
  csv_WriteFile :: "string \<Rightarrow> string list list \<Rightarrow> err option"

section \<open>Flags\<close>

text \<open>The kinds of flags, each with what it sets in the options \<open>'o\<close>.\<close>

datatype 'o flag =
    StringVar "string \<Rightarrow> 'o \<Rightarrow> 'o"
  | IntVar "int \<Rightarrow> 'o \<Rightarrow> 'o"
  | Int64Var "int64 \<Rightarrow> 'o \<Rightarrow> 'o"
  | Float64Var "float64 \<Rightarrow> 'o \<Rightarrow> 'o"
  | BoolVar "bool \<Rightarrow> 'o \<Rightarrow> 'o"

definition numText :: "numError \<Rightarrow> string" where
  "numText e = (case e of SyntaxError \<Rightarrow> ''parse error'' | RangeError \<Rightarrow> ''value out of range'')"

definition ParseBool :: "string \<Rightarrow> numError + bool" where
  "ParseBool s =
     (if s \<in> {''1'', ''t'', ''T'', ''true'', ''TRUE'', ''True''} then Inr True
      else if s \<in> {''0'', ''f'', ''F'', ''false'', ''FALSE'', ''False''} then Inr False else Inl SyntaxError)"

text \<open>\<open>Value.Set\<close>; on 64 bits an \<open>int\<close> is an \<open>int64\<close>.\<close>

definition setFlag :: "'x cenv_scheme \<Rightarrow> 'o flag \<Rightarrow> string \<Rightarrow> 'o \<Rightarrow> numError + 'o" where
  "setFlag E fl v opts = (case fl of
     StringVar f \<Rightarrow> Inr (f v opts)
   | IntVar f \<Rightarrow> (case strconv_ParseInt E v of Inl e \<Rightarrow> Inl e | Inr n \<Rightarrow> Inr (f (sint n) opts))
   | Int64Var f \<Rightarrow> (case strconv_ParseInt E v of Inl e \<Rightarrow> Inl e | Inr n \<Rightarrow> Inr (f n opts))
   | Float64Var f \<Rightarrow> (case strconv_ParseFloat E v of Inl e \<Rightarrow> Inl e | Inr x \<Rightarrow> Inr (f x opts))
   | BoolVar f \<Rightarrow> (case ParseBool v of Inl e \<Rightarrow> Inl e | Inr b \<Rightarrow> Inr (f b opts)))"

definition splitFlag :: "string \<Rightarrow> string \<times> string option" where
  "splitFlag s = (takeWhile (\<lambda>c. c \<noteq> CHR ''='') s, case dropWhile (\<lambda>c. c \<noteq> CHR ''='') s of [] \<Rightarrow> None | _ # v \<Rightarrow> Some v)"

definition isBoolFlag :: "'o flag \<Rightarrow> bool" where
  "isBoolFlag fl = (case fl of BoolVar _ \<Rightarrow> True | _ \<Rightarrow> False)"

definition invalidValue :: "'o flag \<Rightarrow> string \<Rightarrow> string \<Rightarrow> numError \<Rightarrow> err" where
  "invalidValue fl name v e = errorfs (if isBoolFlag fl
     then [''invalid boolean value '', go_quote v, '' for -'', name, '': '', numText e]
     else [''invalid value '', go_quote v, '' for flag -'', name, '': '', numText e])"

text \<open>\<open>FlagSet.Parse\<close>: the options, and the arguments that are left.\<close>

fun parseFlags :: "'x cenv_scheme \<Rightarrow> (string \<rightharpoonup> 'o flag) \<Rightarrow> string list \<Rightarrow> 'o \<Rightarrow> err + 'o \<times> string list" where
  "parseFlags E formal [] opts = Inr (opts, [])"
| "parseFlags E formal (s # args) opts =
     (if length s < 2 \<or> hd s \<noteq> CHR ''-'' then Inr (opts, s # args)
      else if s = ''--'' then Inr (opts, args)
      else
        let (name, value) = splitFlag (if s ! 1 = CHR ''-'' then drop 2 s else drop 1 s) in
        if name = '''' \<or> hd name = CHR ''-'' then Inl (errorfs [''bad flag syntax: '', s])
        else case formal name of
          None \<Rightarrow> Inl (if name = ''help'' \<or> name = ''h'' then errorf ''flag: help requested''
                      else errorfs [''flag provided but not defined: -'', name])
        | Some fl \<Rightarrow> (case (if value = None \<and> isBoolFlag fl then Some ''true'' else value) of
            Some v \<Rightarrow> (case setFlag E fl v opts of
              Inl e \<Rightarrow> Inl (invalidValue fl name v e)
            | Inr opts \<Rightarrow> parseFlags E formal args opts)
          | None \<Rightarrow> (case args of
              [] \<Rightarrow> Inl (errorfs [''flag needs an argument: -'', name])
            | v # rest \<Rightarrow> (case setFlag E fl v opts of
                Inl e \<Rightarrow> Inl (invalidValue fl name v e)
              | Inr opts \<Rightarrow> parseFlags E formal rest opts))))"

definition MaxSteps :: int where "MaxSteps = 1000000"

definition validateCLISteps :: "int \<Rightarrow> err + unit" where
  "validateCLISteps steps =
     guard (steps < 0) (errorf ''steps must be >= 0'')
     (guard (MaxSteps < steps) (errorfs [''steps must be <= '', dec_int MaxSteps])
     (Inr ()))"

section \<open>The command \<open>sim acceptance\<close>\<close>

definition acceptanceDefaults :: acceptanceOptions where
  "acceptanceDefaults = \<lparr>ao_Scenario = ''partial'', ao_Alpha = Fin (1/2), ao_Tau = Fin (1/2), ao_Steps = 10,
     ao_Epsilon = rnd (1/100), ao_Topology = ''global'', ao_NoSelf = False, ao_JSON = False\<rparr>"

definition acceptanceFlags :: "string \<rightharpoonup> acceptanceOptions flag" where
  "acceptanceFlags = map_of
     [(''scenario'', StringVar (\<lambda>v p. p\<lparr>ao_Scenario := v\<rparr>)),
      (''alpha'', Float64Var (\<lambda>v p. p\<lparr>ao_Alpha := v\<rparr>)),
      (''tau'', Float64Var (\<lambda>v p. p\<lparr>ao_Tau := v\<rparr>)),
      (''steps'', IntVar (\<lambda>v p. p\<lparr>ao_Steps := v\<rparr>)),
      (''epsilon'', Float64Var (\<lambda>v p. p\<lparr>ao_Epsilon := v\<rparr>)),
      (''topology'', StringVar (\<lambda>v p. p\<lparr>ao_Topology := v\<rparr>)),
      (''no-self'', BoolVar (\<lambda>v p. p\<lparr>ao_NoSelf := v\<rparr>)),
      (''json'', BoolVar (\<lambda>v p. p\<lparr>ao_JSON := v\<rparr>))]"

definition parseAcceptanceOptions :: "'x cenv_scheme \<Rightarrow> string list \<Rightarrow> err + acceptanceOptions" where
  "parseAcceptanceOptions E args =
     attempt (parseFlags E acceptanceFlags args acceptanceDefaults) (\<lambda>(opts, rest).
     guard (rest \<noteq> []) (errorfs [''unexpected argument '', go_quote (hd rest)])
     (attempt (validateCLISteps (ao_Steps opts)) (\<lambda>_.
      guard (fle (ao_Epsilon opts) (Fin 0)) (errorf ''epsilon must be > 0'')
      (attempt (NewDynamicsConfig (ao_Alpha opts) (ao_Steps opts) (ao_Tau opts)) (\<lambda>_.
       guard (ao_Topology opts \<notin> {''global'', ''full'', ''chain'', ''clustered''})
         (errorfs [''unknown topology '', go_quote (ao_Topology opts)])
       (Inr opts))))))"

definition ScenarioState :: "string \<Rightarrow> err + AcceptanceState" where
  "ScenarioState name =
     (if name = ''partial'' then Inr \<lparr>ac_Scores = [(''A'', Fin 1), (''B'', Fin 1), (''C'', Fin 0)]\<rparr>
      else if name = ''unanimous'' then Inr \<lparr>ac_Scores = [(''A'', Fin 1), (''B'', Fin 1), (''C'', Fin 1)]\<rparr>
      else if name = ''collapse'' then
        Inr \<lparr>ac_Scores = [(''A'', rnd (4/10)), (''B'', rnd (3/10)), (''C'', rnd (2/10))]\<rparr>
      else if name = ''split'' then
        Inr \<lparr>ac_Scores = [(''A'', Fin 1), (''B'', Fin 0), (''C'', Fin 1), (''D'', Fin 0)]\<rparr>
      else Inl (errorfs [''unknown scenario '', go_quote name]))"

definition cli_stateNodeIDs :: "AcceptanceState \<Rightarrow> string list" where
  "cli_stateNodeIDs state = sort (keys (ac_Scores state))"

definition scenarioClusters :: "string \<Rightarrow> string list \<Rightarrow> string list list" where
  "scenarioClusters scenario nodeIDs =
     (if scenario = ''partial'' then [[''A'', ''B''], [''C'']]
      else if scenario = ''split'' then [[''A'', ''C''], [''B'', ''D'']]
      else [nodeIDs])"

definition ScenarioTopology :: "string \<Rightarrow> string \<Rightarrow> AcceptanceState \<Rightarrow> Topology" where
  "ScenarioTopology scenario topologyName state =
     (let nodeIDs = cli_stateNodeIDs state in
      if topologyName = ''full'' then FullMeshTopology nodeIDs
      else if topologyName = ''chain'' then ChainTopology nodeIDs
      else if topologyName = ''clustered'' then ClusteredTopology (scenarioClusters scenario nodeIDs)
      else \<lparr>tp_Neighbors = []\<rparr>)"

definition runScenarioDynamics :: "AcceptanceState \<Rightarrow> acceptanceOptions \<Rightarrow> err + AcceptanceState list \<times> Topology" where
  "runScenarioDynamics initial opts =
     (if ao_Topology opts = ''global'' then
        attempt (NewDynamicsConfig (ao_Alpha opts) (ao_Steps opts) (ao_Tau opts)) (\<lambda>cfg.
        attempt (RunDynamics initial cfg) (\<lambda>states. Inr (states, \<lparr>tp_Neighbors = []\<rparr>)))
      else
        attempt (NewLocalDynamicsConfig (ao_Alpha opts) (ao_Steps opts) (ao_Tau opts) (\<not> ao_NoSelf opts)) (\<lambda>cfg.
        let topology = ScenarioTopology (ao_Scenario opts) (ao_Topology opts) initial in
        attempt (RunLocalDynamics initial topology cfg) (\<lambda>states. Inr (states, topology))))"

definition localRatios :: "AcceptanceState \<Rightarrow> Topology \<Rightarrow> acceptanceOptions \<Rightarrow> row" where
  "localRatios state topology opts = foldl (\<lambda>ratios nodeID. gm_put ratios nodeID
     (LocalAcceptanceRatio state topology nodeID (ao_Tau opts) (\<not> ao_NoSelf opts))) [] (cli_stateNodeIDs state)"

definition formatScores :: "AcceptanceState \<Rightarrow> string" where
  "formatScores state = joinWith '' '' (map (\<lambda>key. key @ ''='' @ fixed 2 (score_of state key)) (sort (keys (ac_Scores state))))"

definition formatLocalRatios :: "AcceptanceState \<Rightarrow> Topology \<Rightarrow> acceptanceOptions \<Rightarrow> string" where
  "formatLocalRatios state topology opts = formatScores \<lparr>ac_Scores = localRatios state topology opts\<rparr>"

text \<open>There is always a last state: a run has at least its initial one.\<close>

definition writeText :: "acceptanceOptions \<Rightarrow> AcceptanceState list \<Rightarrow> Topology \<Rightarrow> string" where
  "writeText opts states topology =
     (let local = (ao_Topology opts \<noteq> ''global''); final = last states; finalRatio = BinaryAcceptanceRatio final (ao_Tau opts) in
      line ''Web4 acceptance simulation''
      @ field ''scenario'' (ao_Scenario opts)
      @ field ''alpha'' (fixed 2 (ao_Alpha opts))
      @ field ''tau'' (fixed 2 (ao_Tau opts))
      @ field ''topology'' (ao_Topology opts)
      @ (if local then field ''include_self'' (show_bool (\<not> ao_NoSelf opts)) else '''')
      @ field ''steps'' (dec_int (ao_Steps opts)) @ nl
      @ concat (map (\<lambda>(i, state).
          line (''step '' @ dec_nat i @ '':'')
          @ field ''scores'' (formatScores state)
          @ field ''global M'' (fixed 2 (BinaryAcceptanceRatio state (ao_Tau opts)))
          @ (if local then field ''local M'' (formatLocalRatios state topology opts) else '''')
          @ field ''mean'' (fixed 2 (AcceptanceMean state))
          @ field ''converged'' (show_bool (HasConverged state (ao_Epsilon opts))) @ nl) (enumerate 0 states))
      @ line ''final:''
      @ field ''global M'' (fixed 2 finalRatio)
      @ field ''mean'' (fixed 2 (AcceptanceMean final))
      @ field ''survived'' (show_bool (fle (ao_Tau opts) finalRatio))
      @ field ''converged'' (show_bool (HasConverged final (ao_Epsilon opts))))"

definition acceptanceOutput :: "acceptanceOptions \<Rightarrow> AcceptanceState list \<Rightarrow> Topology \<Rightarrow> jsonOutput" where
  "acceptanceOutput opts states topology =
     (let final = last states; finalRatio = BinaryAcceptanceRatio final (ao_Tau opts) in
      \<lparr>jo_Scenario = ao_Scenario opts, jo_Alpha = ao_Alpha opts, jo_Tau = ao_Tau opts, jo_Steps = ao_Steps opts,
       jo_Topology = ao_Topology opts, jo_IncludeSelf = (\<not> ao_NoSelf opts),
       jo_States = map (\<lambda>(i, state). \<lparr>js_Step = i, js_Scores = ac_Scores state, js_Ratio = BinaryAcceptanceRatio state (ao_Tau opts),
          js_Local = (if ao_Topology opts \<noteq> ''global'' then Some (localRatios state topology opts) else None),
          js_Mean = AcceptanceMean state, js_Converged = HasConverged state (ao_Epsilon opts)\<rparr>) (enumerate 0 states),
       jo_FinalRatio = finalRatio, jo_FinalMean = AcceptanceMean final, jo_Survived = fle (ao_Tau opts) finalRatio,
       jo_Converged = HasConverged final (ao_Epsilon opts)\<rparr>)"

definition writeJSON :: "'x cenv_scheme \<Rightarrow> acceptanceOptions \<Rightarrow> AcceptanceState list \<Rightarrow> Topology \<Rightarrow> err + string" where
  "writeJSON E opts states topology = json_Encode E (AcceptanceOut (acceptanceOutput opts states topology))"

definition runAcceptance :: "'x cenv_scheme \<Rightarrow> string list \<Rightarrow> err + string" where
  "runAcceptance E args =
     attempt (parseAcceptanceOptions E args) (\<lambda>opts.
     attempt (ScenarioState (ao_Scenario opts)) (\<lambda>initial.
     attempt (runScenarioDynamics initial opts) (\<lambda>(states, topology).
     if ao_JSON opts then writeJSON E opts states topology else Inr (writeText opts states topology))))"

section \<open>The command \<open>sim market\<close>\<close>

definition marketDefaults :: marketOptions where
  "marketDefaults = \<lparr>mo_Config = DefaultMarketConfig\<lparr>mc_UtilityMode := ''fixed''\<rparr>, mo_JSON = False, mo_JSONSteps = False,
     mo_CSVPath = '''', mo_MultiAsset = False, mo_Assets = ''SKUG,WEB4''\<rparr>"

definition onConfig :: "(MarketConfig \<Rightarrow> MarketConfig) \<Rightarrow> marketOptions \<Rightarrow> marketOptions" where
  "onConfig f p = p\<lparr>mo_Config := f (mo_Config p)\<rparr>"

definition marketFlags :: "string \<rightharpoonup> marketOptions flag" where
  "marketFlags = map_of
     [(''scenario'', StringVar (\<lambda>v. onConfig (\<lambda>c. c\<lparr>mc_Scenario := v\<rparr>))),
      (''topology'', StringVar (\<lambda>v. onConfig (\<lambda>c. c\<lparr>mc_Topology := v\<rparr>))),
      (''steps'', IntVar (\<lambda>v. onConfig (\<lambda>c. c\<lparr>mc_Steps := v\<rparr>))),
      (''alpha'', Float64Var (\<lambda>v. onConfig (\<lambda>c. c\<lparr>mc_Alpha := v\<rparr>))),
      (''spread'', Float64Var (\<lambda>v. onConfig (\<lambda>c. c\<lparr>mc_Spread := v\<rparr>))),
      (''min-profit'', Float64Var (\<lambda>v. onConfig (\<lambda>c. c\<lparr>mc_MinProfit := v\<rparr>))),
      (''seed'', Int64Var (\<lambda>v. onConfig (\<lambda>c. c\<lparr>mc_Seed := v\<rparr>))),
      (''trades-per-step'', IntVar (\<lambda>v. onConfig (\<lambda>c. c\<lparr>mc_TradesPerStep := v\<rparr>))),
      (''enable-demand'', BoolVar (\<lambda>v. onConfig (\<lambda>c. c\<lparr>mc_EnableDemand := v\<rparr>))),
      (''max-qty'', Float64Var (\<lambda>v. onConfig (\<lambda>c. c\<lparr>mc_MaxQty := v\<rparr>))),
      (''enable-cycle'', BoolVar (\<lambda>v. onConfig (\<lambda>c. c\<lparr>mc_EnableCycle := v\<rparr>))),
      (''consumption-rate'', Float64Var (\<lambda>v. onConfig (\<lambda>c. c\<lparr>mc_ConsumptionRate := v\<rparr>))),
      (''production-rate'', Float64Var (\<lambda>v. onConfig (\<lambda>c. c\<lparr>mc_ProductionRate := v\<rparr>))),
      (''price-model'', StringVar (\<lambda>v. onConfig (\<lambda>c. c\<lparr>mc_PriceModel := v\<rparr>))),
      (''multi-asset'', BoolVar (\<lambda>v p. p\<lparr>mo_MultiAsset := v\<rparr>)),
      (''assets'', StringVar (\<lambda>v p. p\<lparr>mo_Assets := v\<rparr>)),
      (''enable-substitution'', BoolVar (\<lambda>v. onConfig (\<lambda>c. c\<lparr>mc_EnableSubstitution := v\<rparr>))),
      (''utility-mode'', StringVar (\<lambda>v. onConfig (\<lambda>c. c\<lparr>mc_UtilityMode := v\<rparr>))),
      (''json'', BoolVar (\<lambda>v p. p\<lparr>mo_JSON := v\<rparr>)),
      (''json-steps'', BoolVar (\<lambda>v p. p\<lparr>mo_JSONSteps := v\<rparr>)),
      (''csv'', StringVar (\<lambda>v p. p\<lparr>mo_CSVPath := v\<rparr>))]"

text \<open>The configuration for several assets, which \<open>parseMarketOptions\<close> checks and \<open>runMultiMarket\<close> runs.\<close>

definition multiConfig :: "marketOptions \<Rightarrow> MultiMarketConfig" where
  "multiConfig opts = (let c = mo_Config opts in DefaultMultiMarketConfig\<lparr>
     mm_Scenario := mc_Scenario c, mm_Topology := mc_Topology c, mm_Steps := mc_Steps c, mm_Alpha := mc_Alpha c,
     mm_Spread := mc_Spread c, mm_Seed := mc_Seed c, mm_TradesPerStep := mc_TradesPerStep c,
     mm_EnableDemand := mc_EnableDemand c, mm_EnableCycle := mc_EnableCycle c,
     mm_EnableSubstitution := mc_EnableSubstitution c, mm_UtilityMode := mc_UtilityMode c, mm_PriceModel := mc_PriceModel c,
     mm_MaxQty := mc_MaxQty c, mm_Universe := NewAssetUniverse (parseAssetIDs (mo_Assets opts))\<rparr>)"

definition parseMarketOptions :: "'x cenv_scheme \<Rightarrow> string list \<Rightarrow> err + marketOptions" where
  "parseMarketOptions E args =
     attempt (parseFlags E marketFlags args marketDefaults) (\<lambda>(opts, rest).
     guard (rest \<noteq> []) (errorfs [''unexpected argument '', go_quote (hd rest)])
     (attempt (validateCLISteps (mc_Steps (mo_Config opts))) (\<lambda>_.
      attempt (if mo_MultiAsset opts then ValidateMultiMarketConfig (multiConfig opts) else ValidateMarketConfig (mo_Config opts)) (\<lambda>_.
      Inr opts))))"

definition writeMarketText :: "MarketResult \<Rightarrow> string" where
  "writeMarketText result = (let cfg = mr_Config result; summary = mr_Summary result in
     line ''Web4 market simulation''
     @ field ''scenario'' (mc_Scenario cfg)
     @ field ''topology'' (mc_Topology cfg)
     @ field ''steps'' (dec_int (mc_Steps cfg))
     @ field ''alpha'' (fixed 2 (mc_Alpha cfg))
     @ field ''spread'' (fixed 2 (mc_Spread cfg))
     @ field ''min_profit'' (fixed 2 (mc_MinProfit cfg))
     @ field ''enable_demand'' (show_bool (mc_EnableDemand cfg))
     @ field ''max_qty'' (fixed 2 (mc_MaxQty cfg))
     @ field ''enable_cycle'' (show_bool (mc_EnableCycle cfg))
     @ field ''consumption_rate'' (fixed 2 (mc_ConsumptionRate cfg))
     @ field ''production_rate'' (fixed 2 (mc_ProductionRate cfg))
     @ field ''price_model'' (mc_PriceModel cfg) @ nl
     @ line ''initial:''
     @ field ''mean_price'' (fixed 2 (su_InitialMeanPrice summary))
     @ field ''price_spread'' (fixed 2 (su_InitialPriceSpread summary)) @ nl
     @ line ''final:''
     @ field ''mean_price'' (fixed 2 (su_FinalMeanPrice summary))
     @ field ''price_spread'' (fixed 2 (su_FinalPriceSpread summary))
     @ field ''total_trades'' (dec_int (su_TotalTrades summary))
     @ field ''demand_trades'' (dec_int (su_DemandTrades summary))
     @ field ''arbitrage_trades'' (dec_int (su_ArbitrageTrades summary))
     @ field ''total_volume'' (fixed 2 (su_TotalVolume summary))
     @ field ''total_produced'' (fixed 2 (su_TotalProduced summary))
     @ field ''total_consumed'' (fixed 2 (su_TotalConsumed summary))
     @ field ''avg_trades_per_step'' (fixed 2 (su_AverageTradesPerStep summary))
     @ field ''avg_volume_per_step'' (fixed 2 (su_AverageVolumePerStep summary))
     @ field ''avg_unmet_demand'' (fixed 2 (su_AverageUnmetDemand summary))
     @ field ''final_unmet_demand'' (fixed 2 (su_FinalUnmetDemand summary))
     @ field ''final_total_surplus'' (fixed 2 (su_FinalTotalSurplus summary))
     @ field ''final_liquidity_score'' (fixed 4 (su_FinalLiquidityScore summary))
     @ field ''price_spread_decreased'' (show_bool (su_PriceSpreadDecreased summary))
     @ field ''converged'' (show_bool (su_Converged summary))
     @ field ''fragmented'' (show_bool (su_Fragmented summary))
     @ field ''collapsed'' (show_bool (su_Collapsed summary))
     @ field ''liquid'' (show_bool (su_Liquid summary)))"

definition writeMarketJSON :: "'x cenv_scheme \<Rightarrow> MarketResult \<Rightarrow> bool \<Rightarrow> err + string" where
  "writeMarketJSON E result includeSteps = (let cfg = mr_Config result in
     json_Encode E (MarketOut \<lparr>mj_Scenario = mc_Scenario cfg, mj_Topology = mc_Topology cfg, mj_Steps = mc_Steps cfg,
       mj_Alpha = mc_Alpha cfg, mj_Spread = mc_Spread cfg, mj_MinProfit = mc_MinProfit cfg, mj_Seed = mc_Seed cfg,
       mj_EnableDemand = mc_EnableDemand cfg, mj_MaxQty = mc_MaxQty cfg, mj_EnableCycle = mc_EnableCycle cfg,
       mj_ConsumptionRate = mc_ConsumptionRate cfg, mj_ProductionRate = mc_ProductionRate cfg, mj_PriceModel = mc_PriceModel cfg,
       mj_Summary = mr_Summary result, mj_Metrics = (if includeSteps then Some (mr_Metrics result) else None)\<rparr>))"

definition marketHeader :: "string list" where
  "marketHeader = [''step'', ''mean_price'', ''min_price'', ''max_price'', ''price_spread'', ''price_variance'', ''executed_trades'',
     ''demand_trades'', ''arbitrage_trades'', ''total_volume'', ''produced_volume'', ''consumed_volume'',
     ''available_arbitrage_count'', ''max_arbitrage_profit'', ''liquidity_score'', ''global_mean_acceptance'', ''unmet_demand'',
     ''total_surplus'']"

definition marketRow :: "MarketStepMetrics \<Rightarrow> string list" where
  "marketRow m = [dec_int (sm_Step m), formatFloat (sm_MeanPrice m), formatFloat (sm_MinPrice m), formatFloat (sm_MaxPrice m),
     formatFloat (sm_PriceSpread m), formatFloat (sm_PriceVariance m), dec_int (sm_ExecutedTrades m), dec_int (sm_DemandTrades m),
     dec_int (sm_ArbitrageTrades m), formatFloat (sm_TotalVolume m), formatFloat (sm_ProducedVolume m),
     formatFloat (sm_ConsumedVolume m), dec_int (sm_AvailableArbitrageCount m), formatFloat (sm_MaxArbitrageProfit m),
     formatFloat (sm_LiquidityScore m), formatFloat (sm_GlobalMeanAcceptance m), formatFloat (sm_UnmetDemand m),
     formatFloat (sm_TotalSurplus m)]"

text \<open>
  A CSV file with its rows; or the error of creating or writing it. What such an error leaves on the
  disk, an empty or unfinished file, is not followed.
\<close>

type_synonym csvFile = "string \<times> string list list"

definition writeCSV :: "'x cenv_scheme \<Rightarrow> string \<Rightarrow> string list list \<Rightarrow> err + csvFile" where
  "writeCSV E path rows = (case csv_WriteFile E path rows of None \<Rightarrow> Inr (path, rows) | Some e \<Rightarrow> Inl e)"

definition writeMarketCSV :: "'x cenv_scheme \<Rightarrow> string \<Rightarrow> MarketStepMetrics list \<Rightarrow> err + csvFile" where
  "writeMarketCSV E path metrics = writeCSV E path (marketHeader # map marketRow metrics)"

definition writeMultiMarketText :: "MultiMarketResult \<Rightarrow> string" where
  "writeMultiMarketText result = (let cfg = mu_Config result; summary = mu_Summary result; ids = au_AssetIDs (mm_Universe cfg);
       value = (\<lambda>m assetID. fixed 2 (gm_get (Fin 0) m assetID)) in
     line ''Web4 multi-asset market simulation''
     @ field ''scenario'' (mm_Scenario cfg)
     @ field ''topology'' (mm_Topology cfg)
     @ field ''assets'' (joinWith '','' ids)
     @ field ''steps'' (dec_int (mm_Steps cfg))
     @ field ''alpha'' (fixed 2 (mm_Alpha cfg))
     @ field ''spread'' (fixed 2 (mm_Spread cfg)) @ nl
     @ field ''enable_substitution'' (show_bool (mm_EnableSubstitution cfg))
     @ field ''utility_mode'' (mm_UtilityMode cfg) @ nl
     @ field ''price_model'' (mm_PriceModel cfg) @ nl
     @ line ''final:''
     @ concat (map (\<lambda>assetID.
         field (assetID @ ''_mean'') (value (ms_FinalAssetMeans summary) assetID)
         @ field (assetID @ ''_spread'') (value (ms_FinalAssetSpreads summary) assetID)
         @ field (assetID @ ''_share'') (value (ms_FinalAssetShares summary) assetID)
         @ field (assetID @ ''_flow_share'') (value (ms_FlowShares summary) assetID)
         @ field (assetID @ ''_trade_flow'') (value (ms_TradeFlow summary) assetID)
         @ field (assetID @ ''_payment_flow'') (value (ms_PaymentFlow summary) assetID)
         @ field (assetID @ ''_consumption_flow'') (value (ms_ConsumptionFlow summary) assetID)
         @ field (assetID @ ''_demand_fulfilled'') (value (ms_DemandFulfilled summary) assetID)) ids)
     @ field ''dominant_asset'' (ms_DominantAsset summary)
     @ field ''dominant_asset_by_holdings'' (ms_DominantAssetByHoldings summary)
     @ field ''dominant_asset_by_flow'' (ms_DominantAssetByFlow summary)
     @ field ''flow_concentration'' (fixed 4 (ms_FlowConcentration summary))
     @ field ''switch_count'' (dec_int (ms_TotalSwitchCount summary))
     @ field ''total_trades'' (dec_int (ms_TotalTrades summary))
     @ field ''total_cross_asset_trades'' (dec_int (ms_TotalCrossAssetTrades summary))
     @ field ''total_volume'' (fixed 2 (ms_TotalVolume summary))
     @ field ''total_trade_flow'' (fixed 2 (ms_TotalTradeFlow summary))
     @ field ''total_payment_flow'' (fixed 2 (ms_TotalPaymentFlow summary))
     @ field ''total_consumption_flow'' (fixed 2 (ms_TotalConsumptionFlow summary))
     @ field ''total_demand_fulfilled'' (fixed 2 (ms_TotalDemandFulfilled summary))
     @ (if 2 \<le> length ids then field (ids ! 0 @ ''_'' @ ids ! 1 @ ''_rate'') (fixed 4 (ms_ExampleExchangeRate summary)) else ''''))"

definition writeMultiMarketJSON :: "'x cenv_scheme \<Rightarrow> MultiMarketResult \<Rightarrow> bool \<Rightarrow> err + string" where
  "writeMultiMarketJSON E result includeSteps = (let cfg = mu_Config result in
     json_Encode E (MultiMarketOut \<lparr>xj_Scenario = mm_Scenario cfg, xj_Topology = mm_Topology cfg,
       xj_Assets = au_AssetIDs (mm_Universe cfg), xj_Steps = mm_Steps cfg, xj_Alpha = mm_Alpha cfg, xj_Spread = mm_Spread cfg,
       xj_Seed = mm_Seed cfg, xj_EnableSubstitution = mm_EnableSubstitution cfg, xj_UtilityMode = mm_UtilityMode cfg,
       xj_PriceModel = mm_PriceModel cfg, xj_Summary = mu_Summary result,
       xj_Metrics = (if includeSteps then Some (mu_Metrics result) else None)\<rparr>))"

definition multiMarketHeader :: "string list \<Rightarrow> string list" where
  "multiMarketHeader ids =
     [''step'', ''total_trades'', ''total_volume'', ''dominant_asset'', ''dominant_asset_by_flow'', ''flow_concentration'', ''switch_count'']
     @ concat (map (\<lambda>assetID. map (\<lambda>suffix. assetID @ suffix) [''_mean'', ''_spread'', ''_share'', ''_flow_share'', ''_trade_flow'',
         ''_payment_flow'', ''_consumption_flow'', ''_demand_fulfilled'']) ids)
     @ (if 2 \<le> length ids then [ids ! 0 @ ''_'' @ ids ! 1 @ ''_rate''] else [])"

definition multiMarketRow :: "string list \<Rightarrow> MultiMarketMetrics \<Rightarrow> string list" where
  "multiMarketRow ids m =
     [dec_int (mx_Step m), dec_int (mx_ExecutedTrades m), formatFloat (mx_TotalVolume m), mx_DominantAsset m,
      mx_DominantAssetByFlow m, formatFloat (mx_FlowConcentration m), dec_int (mx_SwitchCount m)]
     @ concat (map (\<lambda>assetID. map (\<lambda>values. formatFloat (gm_get (Fin 0) values assetID))
         [mx_AssetMeans m, mx_AssetSpreads m, mx_AssetShares m, mx_FlowShares m, fm_TradeVolume (mx_Flows m),
          fm_PaymentVolume (mx_Flows m), fm_ConsumptionVolume (mx_Flows m), fm_DemandFulfilled (mx_Flows m)]) ids)
     @ (if 2 \<le> length ids then [formatFloat (gm_get (Fin 0) (mx_ExchangeRates m) (ids ! 0 @ ''/'' @ ids ! 1))] else [])"

definition writeMultiMarketCSV :: "'x cenv_scheme \<Rightarrow> string \<Rightarrow> MultiMarketMetrics list \<Rightarrow> AssetUniverse \<Rightarrow> err + csvFile" where
  "writeMultiMarketCSV E path metrics universe =
     writeCSV E path (multiMarketHeader (au_AssetIDs universe) # map (multiMarketRow (au_AssetIDs universe)) metrics)"

text \<open>
  What a command prints, or its error, and the CSV files that it has written. The output comes after
  the file, so a file may be there although the output fails.
\<close>

type_synonym run = "(err + string) \<times> csvFile list"

definition report :: "string \<Rightarrow> err + csvFile \<Rightarrow> err + string \<Rightarrow> run" where
  "report path csv printed = (if path = '''' then (printed, [])
     else case csv of Inl e \<Rightarrow> (Inl e, []) | Inr file \<Rightarrow> (printed, [file]))"

definition runMultiMarket :: "'x cenv_scheme \<Rightarrow> marketOptions \<Rightarrow> run" where
  "runMultiMarket E opts =
     (case RunMultiMarketSimulation E (multiConfig opts) of
        Inl e \<Rightarrow> (Inl e, [])
      | Inr result \<Rightarrow> report (mo_CSVPath opts)
          (writeMultiMarketCSV E (mo_CSVPath opts) (mu_Metrics result) (mm_Universe (multiConfig opts)))
          (if mo_JSON opts then writeMultiMarketJSON E result (mo_JSONSteps opts) else Inr (writeMultiMarketText result)))"

definition runMarket :: "'x cenv_scheme \<Rightarrow> string list \<Rightarrow> run" where
  "runMarket E args =
     (case parseMarketOptions E args of
        Inl e \<Rightarrow> (Inl e, [])
      | Inr opts \<Rightarrow>
          if mo_MultiAsset opts then runMultiMarket E opts
          else case RunMarketSimulation E (mo_Config opts) of
            Inl e \<Rightarrow> (Inl e, [])
          | Inr result \<Rightarrow> report (mo_CSVPath opts) (writeMarketCSV E (mo_CSVPath opts) (mr_Metrics result))
              (if mo_JSON opts then writeMarketJSON E result (mo_JSONSteps opts) else Inr (writeMarketText result)))"

section \<open>The program\<close>

text \<open>The exit code, none if the program dies of a panic, and what it leaves behind.\<close>

record outcome =
  oc_code :: "int option"
  oc_stdout :: string
  oc_stderr :: string
  oc_files :: "csvFile list"

definition usage :: string where
  "usage = line ''usage:''
     @ line (''  web4 sim acceptance [--scenario partial|unanimous|collapse|split] [--alpha n] [--tau n] [--steps n] [--epsilon n]''
         @ '' [--topology global|full|chain|clustered] [--no-self] [--json]'')
     @ line (''  web4 sim market [--scenario split|clustered|random|collapse|high-liquidity|fragmented|demand-basic|demand-fragmented''
         @ ''|demand-random|cycle-basic|cycle-fragmented|cycle-random|multi-basic|multi-compete|multi-fragmented|multi-flight''
         @ ''|multi-coexist] [--topology full|chain|clustered] [--steps n] [--alpha n] [--spread n] [--min-profit n] [--seed n]''
         @ '' [--trades-per-step n] [--enable-demand] [--max-qty n] [--enable-cycle] [--consumption-rate n] [--production-rate n]''
         @ '' [--price-model acceptance|pipeline] [--multi-asset] [--assets SKUG,WEB4] [--enable-substitution]''
         @ '' [--utility-mode fixed|random|clustered] [--json] [--json-steps] [--csv path]'')"

definition finish :: "run \<Rightarrow> outcome" where
  "finish = (\<lambda>(result, files). case result of
     Inr printed \<Rightarrow> \<lparr>oc_code = Some 0, oc_stdout = printed, oc_stderr = '''', oc_files = files\<rparr>
   | Inl e \<Rightarrow> (if panics e then \<lparr>oc_code = None, oc_stdout = '''', oc_stderr = '''', oc_files = files\<rparr>
       else \<lparr>oc_code = Some 1, oc_stdout = '''', oc_stderr = field ''error'' (err_text e), oc_files = files\<rparr>))"

definition Run :: "'x cenv_scheme \<Rightarrow> string list \<Rightarrow> outcome" where
  "Run E args =
     (let help = \<lparr>oc_code = Some 2, oc_stdout = '''', oc_stderr = usage, oc_files = []\<rparr> in
      if length args < 2 \<or> args ! 0 \<noteq> ''sim'' then help
      else if args ! 1 = ''acceptance'' then finish (runAcceptance E (drop 2 args), [])
      else if args ! 1 = ''market'' then finish (runMarket E (drop 2 args))
      else help)"

text \<open>\<open>main\<close>, from \<open>os.Args\<close>, whose first element is the name of the program.\<close>

definition program :: "'x cenv_scheme \<Rightarrow> string list \<Rightarrow> outcome" where
  "program E argv = Run E (tl argv)"

end
