(* ===== verification/CommandRun.thy ===== *)
theory CommandRun
  imports Command MultiRun
begin

text \<open>
  The command \<open>sim acceptance\<close> does not panic: its options and scenarios lead to a run of the dynamics that
  returns all its states, with scores in the unit interval.
\<close>

section \<open>Errors that are no panics\<close>

lemma not_panics_errorfs [simp]: "\<not> panics (errorfs ts)"
  by (simp add: errorfs_def)

lemma invalidValue_no_panic [simp]: "\<not> panics (invalidValue fl name v e)"
  by (simp add: invalidValue_def)

lemma parseFlags_no_panic: "parseFlags E formal args opts = Inl e \<Longrightarrow> \<not> panics e"
proof (induction "length args" arbitrary: args opts rule: less_induct)
  case less
  show ?case
  proof (cases args)
    case (Cons s rest)
    have ih: "parseFlags E formal rest o' = Inl e \<Longrightarrow> \<not> panics e"
      "rest = v # more \<Longrightarrow> parseFlags E formal more o' = Inl e \<Longrightarrow> \<not> panics e" for o' v more
      using less.hyps [of rest] less.hyps [of more] Cons by auto
    show ?thesis using less.prems unfolding Cons
      by (auto simp: Let_def simp del: not_None_eq split: if_splits option.splits sum.splits list.splits prod.splits dest: ih)
  qed (use less.prems in simp)
qed

lemma NewDynamicsConfig_Inl: "NewDynamicsConfig alpha steps tau = Inl e \<Longrightarrow> \<not> panics e"
  by (auto simp: NewDynamicsConfig_def validateDynamicsConfig_def Let_def guard_def split: if_splits)

lemma parseAcceptanceOptions_no_panic: "parseAcceptanceOptions E args = Inl e \<Longrightarrow> \<not> panics e"
  by (auto simp: parseAcceptanceOptions_def validateCLISteps_def guard_Inl attempt_Inl
      dest: parseFlags_no_panic NewDynamicsConfig_Inl)

lemma ScenarioState_no_panic: "ScenarioState name = Inl e \<Longrightarrow> \<not> panics e"
  by (auto simp: ScenarioState_def split: if_splits)

section \<open>Scores in the unit interval\<close>

lemma of_count_small: "n \<le> 2 ^ 53 \<Longrightarrow> of_count n = Fin (of_nat n)"
  by (simp add: of_count_def rnd_of_nat)

lemma ratio_unit:
  assumes "a \<le> b" "0 < b" "b \<le> 2 ^ 53"
  shows "funit (fdiv (of_count a) (of_count b))"
proof -
  have "funit (rnd (of_nat a / of_nat b))" using assms by (intro funit_rnd) simp_all
  then show ?thesis using assms by (auto simp: of_count_small Let_def fzero_def)
qed

lemma fbound_unit: "funit x \<Longrightarrow> fbound 60 x"
  using fbound_mono [OF funit_fbound] by simp

lemma StepAcceptance_units:
  assumes "units state" "funit alpha" "length (ac_Scores state) \<le> 2 ^ 53"
  shows "units (StepAcceptance state tau alpha)"
proof (cases "ac_Scores state = []")
  case False
  have "funit (BinaryAcceptanceRatio state tau)" using False assms(3)
    by (auto simp: BinaryAcceptanceRatio_def intro!: ratio_unit)
  then show ?thesis using assms(1,2)
    by (auto simp: StepAcceptance_def units_def Let_def intro!: funit_nudge fbound_unit)
qed (simp add: StepAcceptance_def units_def)

definition small :: "Topology \<Rightarrow> bool" where
  "small t \<longleftrightarrow> list_all (\<lambda>(n, ids). length ids \<le> 4) (tp_Neighbors t)"

lemma length_sortedUnique: "length (sortedUnique ids) \<le> length ids"
proof -
  have "length (sortedUnique ids) = card (set ids)"
    using distinct_card [OF sortedUnique_distinct] by simp
  then show ?thesis using card_length by metis
qed

lemma small_neighborhood: "small t \<Longrightarrow> length (Topology_Neighborhood t n b) \<le> 5"
proof -
  assume "small t"
  then have "length (gm_get [] (tp_Neighbors t) n) \<le> 4"
    by (auto simp: small_def gm_get_def list_all_iff split: option.splits dest!: map_of_SomeD)
  then have "length (gm_get [] (tp_Neighbors t) n @ (if b then [n] else [])) \<le> 5" by simp
  then show ?thesis unfolding Topology_Neighborhood_def using length_sortedUnique order_trans by blast
qed

lemma StepLocalAcceptance_units:
  assumes "units state" "funit (ld_Alpha cfg)" "small t"
  shows "units (StepLocalAcceptance state t cfg)"
proof -
  have "funit (LocalAcceptanceRatio state t n (ld_Tau cfg) (ld_IncludeSelf cfg))" for n
    using small_neighborhood [OF assms(3), of n "ld_IncludeSelf cfg"]
    by (auto simp: LocalAcceptanceRatio_def Let_def intro!: ratio_unit)
  then show ?thesis using assms(1,2)
    by (auto simp: StepLocalAcceptance_def units_def [of "\<lparr>ac_Scores = _\<rparr>"] Let_def intro!: funit_nudge fbound_unit score_of_units)
qed

section \<open>Runs\<close>

lemma length_iterates [simp]: "length (iterates f n x) = Suc n"
  by (induction n arbitrary: x) simp_all

lemma hd_iterates [simp]: "hd (iterates f n x) = x"
  by (cases n) simp_all

lemma iterates_all: "P x \<Longrightarrow> (\<And>y. P y \<Longrightarrow> P (f y)) \<Longrightarrow> y \<in> set (iterates f n x) \<Longrightarrow> P y"
  by (induction n arbitrary: x) auto

lemma small_topologies:
  assumes "ids = [''A'', ''B'', ''C''] \<or> ids = [''A'', ''B'', ''C'', ''D'']"
  shows "small (FullMeshTopology ids)" "small (ChainTopology ids)" "small (ClusteredTopology [ids])"
    "small (ClusteredTopology [[''A'', ''B''], [''C'']])" "small (ClusteredTopology [[''A'', ''C''], [''B'', ''D'']])"
proof -
  have "small (FullMeshTopology [''A'', ''B'', ''C'']) \<and> small (ChainTopology [''A'', ''B'', ''C''])
      \<and> small (ClusteredTopology [[''A'', ''B'', ''C'']])" by code_simp
  moreover have "small (FullMeshTopology [''A'', ''B'', ''C'', ''D'']) \<and> small (ChainTopology [''A'', ''B'', ''C'', ''D''])
      \<and> small (ClusteredTopology [[''A'', ''B'', ''C'', ''D'']])" by code_simp
  ultimately show "small (FullMeshTopology ids)" "small (ChainTopology ids)" "small (ClusteredTopology [ids])"
    using assms by auto
  show "small (ClusteredTopology [[''A'', ''B''], [''C'']])" "small (ClusteredTopology [[''A'', ''C''], [''B'', ''D'']])"
    by code_simp+
qed

lemma scenario_initial:
  assumes "ScenarioState name = Inr initial"
  shows "units initial" "length (ac_Scores initial) \<le> 4" "small (ScenarioTopology name topology initial)"
proof -
  show "units initial" using assms by (auto simp: ScenarioState_def units_def intro!: funit_rnd split: if_splits)
  show "length (ac_Scores initial) \<le> 4" using assms by (auto simp: ScenarioState_def split: if_splits)
  have k: "keys (ac_Scores initial) = [''A'', ''B'', ''C''] \<or> keys (ac_Scores initial) = [''A'', ''B'', ''C'', ''D'']"
    using assms by (auto simp: ScenarioState_def keys_def split: if_splits)
  have "sort [''A'', ''B'', ''C''] = [''A'', ''B'', ''C'']" "sort [''A'', ''B'', ''C'', ''D''] = [''A'', ''B'', ''C'', ''D'']"
    by code_simp+
  with k have ids: "cli_stateNodeIDs initial = [''A'', ''B'', ''C''] \<or> cli_stateNodeIDs initial = [''A'', ''B'', ''C'', ''D'']"
    by (auto simp: cli_stateNodeIDs_def)
  have "small \<lparr>tp_Neighbors = []\<rparr>" by (simp add: small_def)
  then show "small (ScenarioTopology name topology initial)" using small_topologies [OF ids]
    by (auto simp: ScenarioTopology_def scenarioClusters_def Let_def)
qed

text \<open>With accepted options the run returns every state.\<close>

lemma parsed_options:
  assumes "parseAcceptanceOptions E args = Inr opts"
  shows "0 \<le> ao_Steps opts" "ao_Steps opts \<le> MaxSteps" "\<not> flt (ao_Alpha opts) (Fin 0)" "\<not> flt (Fin 1) (ao_Alpha opts)"
    "validateDynamicsConfig \<lparr>dy_Alpha = ao_Alpha opts, dy_Steps = ao_Steps opts, dy_Tau = ao_Tau opts\<rparr> = Inr ()"
  using assms by (auto simp: parseAcceptanceOptions_def validateCLISteps_def NewDynamicsConfig_def validateDynamicsConfig_def
      Let_def split: prod.splits)

lemma acceptance_runs:
  assumes "parseAcceptanceOptions E args = Inr opts" "ScenarioState (ao_Scenario opts) = Inr initial"
  obtains states topology where "runScenarioDynamics initial opts = Inr (states, topology)" "hd states = initial"
    "length states = Suc (nat (ao_Steps opts))" "\<not> fisnan (ao_Alpha opts) \<Longrightarrow> \<forall>s \<in> set states. units s"
proof -
  note o = parsed_options [OF assms(1)] and i = scenario_initial [OF assms(2)]
  have alpha: "\<not> fisnan (ao_Alpha opts) \<Longrightarrow> funit (ao_Alpha opts)"
    using o(3,4) by (cases "ao_Alpha opts") auto
  have steps: "\<not> ao_Steps opts + 1 < 0" using o(1) by simp
  show thesis
  proof (cases "ao_Topology opts = ''global''")
    case True
    let ?states = "iterates (\<lambda>s. StepAcceptance s (ao_Tau opts) (ao_Alpha opts)) (nat (ao_Steps opts)) initial"
    have "units s" if "\<not> fisnan (ao_Alpha opts)" "s \<in> set ?states" for s
      using iterates_all [where P = "\<lambda>s. units s \<and> length (ac_Scores s) \<le> 4", OF _ _ that(2)] i(1,2)
        StepAcceptance_units [OF _ alpha [OF that(1)]] by (auto simp: StepAcceptance_def Let_def)
    then show ?thesis using that [of ?states "\<lparr>tp_Neighbors = []\<rparr>"] True o(5) steps
      by (simp add: runScenarioDynamics_def NewDynamicsConfig_def RunDynamics_def guard_def)
  next
    case False
    let ?t = "ScenarioTopology (ao_Scenario opts) (ao_Topology opts) initial"
    let ?cfg = "\<lparr>ld_Alpha = ao_Alpha opts, ld_Steps = ao_Steps opts, ld_Tau = ao_Tau opts, ld_IncludeSelf = (\<not> ao_NoSelf opts)\<rparr>"
    let ?states = "iterates (\<lambda>s. StepLocalAcceptance s ?t ?cfg) (nat (ao_Steps opts)) initial"
    have "units s" if "\<not> fisnan (ao_Alpha opts)" "s \<in> set ?states" for s
      using iterates_all [where P = units, OF i(1) _ that(2)] StepLocalAcceptance_units [of _ ?cfg ?t] alpha [OF that(1)] i(3) by simp
    then show ?thesis using that [of ?states ?t] False o(5) steps
      by (simp add: runScenarioDynamics_def NewLocalDynamicsConfig_def RunLocalDynamics_def guard_def Let_def)
  qed
qed

text \<open>The command ends with an exit code.\<close>

lemma runAcceptance_no_panic:
  assumes "\<And>v e. json_Encode E v = Inl e \<Longrightarrow> \<not> panics e" "runAcceptance E args = Inl e"
  shows "\<not> panics e"
proof (cases "parseAcceptanceOptions E args")
  case (Inl e')
  then show ?thesis using assms(2) parseAcceptanceOptions_no_panic by (auto simp: runAcceptance_def)
next
  case (Inr opts)
  note opts = this
  show ?thesis
  proof (cases "ScenarioState (ao_Scenario opts)")
    case (Inl e')
    then show ?thesis using assms(2) opts ScenarioState_no_panic by (auto simp: runAcceptance_def)
  next
    case (Inr initial)
    obtain states topology where "runScenarioDynamics initial opts = Inr (states, topology)"
      using acceptance_runs [OF opts Inr] by blast
    then show ?thesis using assms opts Inr by (auto simp: runAcceptance_def writeJSON_def split: if_splits)
  qed
qed

section \<open>CSV files\<close>

text \<open>A CSV file of the market command has a header, a row for each step and one for the state before, all of one width.\<close>

lemma length_multiMarketRow: "length (multiMarketRow ids m) = length (multiMarketHeader ids)"
  by (simp add: multiMarketRow_def multiMarketHeader_def length_concat comp_def sum_list_triv)

lemma length_marketRow: "length (marketRow m) = length marketHeader"
  by (simp add: marketRow_def marketHeader_def)

definition rectangular :: "nat \<Rightarrow> string list list \<Rightarrow> bool" where
  "rectangular n rows \<longleftrightarrow> length rows = Suc n \<and> (\<forall>r \<in> set rows. length r = length (hd rows))"

lemma multiConfig_steps: "mm_Steps (multiConfig opts) = mc_Steps (mo_Config opts)"
  by (simp add: multiConfig_def Let_def)

lemma report_files: "snd (report path csv printed) = [file] \<Longrightarrow> csv = Inr file \<and> path \<noteq> ''''"
  by (auto simp: report_def split: if_splits sum.splits)

lemma writeCSV_Inr: "writeCSV E path rows = Inr file \<longleftrightarrow> csv_WriteFile E path rows = None \<and> file = (path, rows)"
  by (auto simp: writeCSV_def split: option.splits)

lemma market_csv:
  assumes "snd (runMarket E args) = [(path, rows)]"
  obtains opts where "parseMarketOptions E args = Inr opts" "path = mo_CSVPath opts" "path \<noteq> ''''"
    "rectangular (Suc (nat (mc_Steps (mo_Config opts)))) rows"
proof -
  obtain opts where opts: "parseMarketOptions E args = Inr opts"
    using assms by (auto simp: runMarket_def split: sum.splits)
  show thesis
  proof (cases "mo_MultiAsset opts")
    case True
    then obtain res where res: "RunMultiMarketSimulation E (multiConfig opts) = Inr res"
      using assms opts by (auto simp: runMarket_def runMultiMarket_def split: sum.splits)
    have w: "writeMultiMarketCSV E (mo_CSVPath opts) (mu_Metrics res) (mm_Universe (multiConfig opts)) = Inr (path, rows) \<and> mo_CSVPath opts \<noteq> ''''"
      by (rule report_files) (use assms opts True res in \<open>simp add: runMarket_def runMultiMarket_def\<close>)
    obtain r where "multi_ok (mu_Config res) (nat (mm_Steps (multiConfig opts))) r" "mu_Metrics res = ru_metrics r"
      using RunMultiMarketSimulation_ok [OF res] by blast
    then have "map mx_Step (mu_Metrics res) = map int [0..<Suc (nat (mm_Steps (multiConfig opts)))]" by (simp add: multi_ok_def)
    then have "length (mu_Metrics res) = Suc (nat (mc_Steps (mo_Config opts)))"
      by (metis length_map length_upt diff_zero multiConfig_steps)
    then show ?thesis using w by (intro that [OF opts]) (auto simp: writeMultiMarketCSV_def writeCSV_Inr rectangular_def length_multiMarketRow)
  next
    case False
    then obtain res where res: "RunMarketSimulation E (mo_Config opts) = Inr res"
      using assms opts by (auto simp: runMarket_def split: sum.splits)
    have w: "writeMarketCSV E (mo_CSVPath opts) (mr_Metrics res) = Inr (path, rows) \<and> mo_CSVPath opts \<noteq> ''''"
      by (rule report_files) (use assms opts False res in \<open>simp add: runMarket_def\<close>)
    obtain r where "run_ok (mr_Config res) (nodes (mr_Initial res)) False (nat (mc_Steps (mo_Config opts))) r" "mr_Metrics res = rn_metrics r"
      using RunMarketSimulation_ok [OF res, of False] by blast
    then have "map sm_Step (mr_Metrics res) = map int [0..<Suc (nat (mc_Steps (mo_Config opts)))]" by (simp add: run_ok_def)
    then have "length (mr_Metrics res) = Suc (nat (mc_Steps (mo_Config opts)))" by (metis length_map length_upt diff_zero)
    then show ?thesis using w by (intro that [OF opts]) (auto simp: writeMarketCSV_def writeCSV_Inr rectangular_def length_marketRow)
  qed
qed

end
