(* ===== verification/Spec2Isabelle.thy ===== *)
theory Spec2Isabelle
  imports Peers MultiRun CommandRun
begin

text \<open>
  Web4-v3: a node-to-node trading protocol in Go. Every participant is a node that issues values in
  units of its own, values those of the others by local prices, and trades them with another node
  directly: there is no common ledger. This development models the packages under \<open>src/core\<close>, the
  command line in \<open>src/internal/cli\<close> and \<open>src/cmd/web4\<close>, and proves what they promise.

  \<^bold>\<open>The parts and how they interact.\<close> A value is an amount of a unit, bound to its issuer and depth;
  values, transactions and intents have identifiers that are hashes of a canonical encoding. Values
  come into being by signed issuances and move by signed transfers; a policy decides whether a node
  accepts one. A node has an inventory, a price state, a flow and a trade history. A seller quotes a
  sale from the prices of both parties, each party may sign an intent to it, and the execution checks
  the quote, the intents and the balances, makes the trade durable in a store and moves the amounts.
  Over the network the same happens by signed messages in length-prefixed frames: a handler per session
  remembers what was negotiated and calls the execution. The market simulation runs price and
  acceptance dynamics over nodes and topologies, and the command line runs it and prints its results.

  \<^bold>\<open>The theories\<close>, each with the source files that it models, in the order of their imports:

  \<^item> \<open>Prelude\<close>: error values (\<open>Err\<close>, with a panic as one kind of error), the sequencing of calls that may
    fail, byte strings, Go's maps. \<open>Float64\<close>: binary64 arithmetic as exact rationals rounded to nearest even.
  \<^item> \<open>Amount\<close> (\<open>core/model/amount.go\<close>): fixed-point amounts on 64-bit words, wrap-around included.
  \<^item> \<open>Canonical\<close> (\<open>core/canonical/encode.go\<close>): the encoding under every hash.
  \<^item> \<open>Crypto\<close> (\<open>core/crypto\<close>): hashes, signatures, encryption, as wrappers of outside code.
  \<^item> \<open>Ids\<close> (\<open>core/model/types.go\<close>, \<open>ids.go\<close>): the data of the ledger and its identifiers.
  \<^item> \<open>Inventory\<close>, \<open>Protocol\<close> (\<open>core/model/protocol.go\<close>): the inventory with its invariant, and the
    validation and application of issuances and bilateral trades.
  \<^item> \<open>Transfers\<close> (\<open>core/model/issue.go\<close>, \<open>transfer.go\<close>, \<open>validate.go\<close>): signed issuances and transfers.
  \<^item> \<open>Price\<close> (\<open>core/price\<close>) and \<open>Policy\<close> (\<open>core/policy\<close>): local prices and the local decision to accept.
  \<^item> \<open>NodeCore\<close>, \<open>Quote\<close>, \<open>Intent\<close>, \<open>NodeStore\<close>, \<open>Trade\<close> (\<open>core/node\<close>): the node, from its state to the
    execution of quotes, plain (\<open>ExecuteTrade\<close>) and signed (\<open>executeSignedTrade\<close>). \<open>Liveness\<close> holds facts.
  \<^item> \<open>Disk\<close>, \<open>JsonStore\<close>, \<open>Recovery\<close> (\<open>core/store\<close>): the system calls, the store of JSON files with its
    transactions, and its opening with the recovery. \<open>Durability\<close>, \<open>Saved\<close>, \<open>Calm\<close> hold facts.
  \<^item> \<open>Message\<close> (\<open>core/message\<close>) and \<open>Frame\<close> (\<open>core/transport\<close>): envelopes, payloads, frames on streams.
  \<^item> \<open>Sessions\<close>, \<open>Handler\<close> (\<open>core/handler\<close>): the state of a session and the reaction to one message;
    \<open>Reaction\<close> holds facts. \<open>Runtime\<close> (\<open>core/net\<close>): a session over a connection, the server's loop.
  \<^item> \<open>Tables\<close>, \<open>Exchange\<close>, \<open>Market\<close>, \<open>MultiMarket\<close> (\<open>core/sim\<close>): the state of the simulations, their rules,
    and the two simulations; \<open>Arbitrage\<close>, \<open>MarketRun\<close>, \<open>MultiRun\<close> hold facts.
  \<^item> \<open>Command\<close> (\<open>internal/cli/cli.go\<close>, \<open>cmd/web4/main.go\<close>): flags, commands, outputs and exit codes;
    \<open>CommandRun\<close> holds facts.
  \<^item> \<open>World\<close>, \<open>Coins\<close>, \<open>Peers\<close>: concrete parties, at which the properties are witnessed.

  \<^bold>\<open>How the model corresponds to the code.\<close> Definitions have the names of the functions they translate; a
  method has its type in front where the name alone is taken (\<open>Inventory_Add\<close>, \<open>Node_Price\<close>), and a name
  that occurs in two packages has the package in front (\<open>h_buildTradeTx\<close>, \<open>sim_clamp01\<close>). Structs are records,
  updated explicitly: an operation on a node returns the node after it. A call that may fail returns
  \<open>err + 'a\<close>; an error carries its sentinels, as \<open>errors.Is\<close> sees them, and its text; a panic of the
  code, explicit or of the runtime, is an error with \<open>panics\<close>. \<open>guard\<close> and \<open>attempt\<close> are the code's early returns.
  Amounts, times and lengths are words of their width; steps and counts of the simulation are \<open>int\<close>, since their
  limit keeps them far from the bounds of the type. A map is an association list with distinct keys and is
  iterated in the order of the list. Go leaves that order open: a theorem about all lists speaks about all
  orders. Where the code sorts, the model sorts. The order decides which negotiation the handler's
  \<open>authorizedNegotiation\<close> finds for an authorized trade, if several match, and how the sums of floats are rounded
  in means such as \<open>AcceptanceMean\<close>.

  \<^bold>\<open>Code outside the repository\<close> is an argument: the record \<open>env\<close> has BLAKE3, Ed25519, XChaCha20-Poly1305
  and \<open>math.Exp\<close>; \<open>jenv\<close> adds \<open>encoding/json\<close>, \<open>senv\<close> adds \<open>math/rand\<close>, \<open>cenv\<close> adds \<open>strconv\<close>'s syntax of numbers,
  the JSON encoder and the writing of CSV files; the record \<open>network\<close> has the sockets, the clock and the nonces of a
  session, and a disk has a script of the outcomes of its system calls. What a property needs of them is a named hypothesis:
  \<open>signs_verify\<close> (a signature verifies under its key), \<open>payload_reads\<close> and \<open>sendable\<close> (JSON is read back as written),
  \<open>exp_ok\<close> (the exponential of a number that is not positive lies between 0 and 1), or that the hash is injective on the
  encodings that two trades have.

  \<^bold>\<open>Interfaces.\<close> The locale \<open>prefix_code\<close> (\<open>Canonical\<close>) is a self-delimiting code; varints, strings, byte strings,
  integers and whole values are interpretations, and the injectivity of the encoding comes from it. The locale \<open>ledger\<close>
  (\<open>Inventory\<close>) has lookup, credit and debit with their laws; its interpretation is the inventory, and the
  movement of amounts by trades and transactions is proved in it. The locale \<open>trade_store\<close> (\<open>NodeStore\<close>) is what the
  execution of signed trades needs of a store; its interpretation is the JSON store, over every script of faults. A run of a session is
  the inductive relation \<open>session_run\<close> (\<open>Reaction\<close>), and what happens to a store, by operations, crashes and restarts, is
  \<open>store_step\<close> (\<open>Recovery\<close>); their invariants are proved by rule induction.

  \<^bold>\<open>What the properties show.\<close> Trades move exactly the agreed amounts and refine the ledger's transaction; a failure
  changes neither node, with the store failing as well; a fresh quote executes; a signed trade needs both consents and is never
  executed twice, over crashes, restarts and recovery; what the store reports as stored can be loaded, and it serves on a healthy disk.
  The ledger conserves units, and valid transactions are sound. Encodings are injective and identifiers commit to their
  content. Quotes are covered, prices are prices, checked arithmetic is exact. A signed message arrives, a replayed one
  changes nothing, a session returns and answers, and moves the inventory only by trades that it negotiated. Simulations keep
  their nodes, limits and sums, and the command that runs the dynamics of acceptance is safe on all arguments. Some properties record
  errors of the code: the seller that sold out and panics, the store that a failing marker blocks, the session that can never buy,
  the frame cut off after its header, the amount that overflows, the switches that are no switches.

  \<^bold>\<open>Termination, bounds and fuel.\<close> There is no fuel except where the code has its own bound. \<open>writeUvarint\<close> ends because the word
  shrinks; \<open>serveLoop\<close> because every turn takes bytes from the finite stream, whether \<open>MaxMessages\<close> limits it or not; the
  loops of the simulations run for the number of steps. \<open>TrimSpace\<close> strips at most as many times as the text is
  long. The floats are exact, for all values, infinities and NaN included, without fused multiplication and addition (as compiled for amd64).

  \<^bold>\<open>Not modelled.\<close> Locks and goroutines: an operation that the code runs under its locks is one step, and the
  interleaving of operations is a sequence of steps (\<open>session_run\<close>, \<open>store_step\<close>); data races are out of reach of
  this model. TCP itself, which is bytes that arrive; the source of randomness and the clock, which are arguments. The bytes of JSON
  documents: a document is the Go value that was marshalled, and its torn text reads as an error. What a failing
  write of a CSV file leaves on the disk, and errors of printing. Tests, scripts and documentation.
\<close>

section \<open>Trades\<close>

text \<open>C1: an executed trade moves exactly the two agreed amounts: the seller gives the sold amount,
  which it held, and receives the price, the buyer the other way round; every other balance of both
  stays, and together they hold of every unit what they held before.\<close>

theorem trade_moves_the_amounts:
  assumes "ExecuteTrade E s b q = (Inr tx, s', b')" "inv_ok (n_Inventory s)" "inv_ok (n_Inventory b)"
  shows "n_ID s \<noteq> n_ID b \<and> 0 < sint (q_SellAmount q) \<and> 0 < sint (q_BuyAmount q)
    \<and> sint (q_SellAmount q) \<le> sint (balanceLocked s (q_SellUnit q))
    \<and> sint (q_BuyAmount q) \<le> sint (balanceLocked b (q_BuyUnit q))
    \<and> (\<forall>u. let given = (if u = q_SellUnit q then sint (q_SellAmount q) else 0);
                paid = (if u = q_BuyUnit q then sint (q_BuyAmount q) else 0) in
         sint (balanceLocked s' u) = sint (balanceLocked s u) - given + paid
         \<and> sint (balanceLocked b' u) = sint (balanceLocked b u) + given - paid)"
  using ExecuteTrade_trades [OF assms] by (auto simp: traded_def swapped_def balanceLocked_def Let_def)

theorem trade_moves_the_amounts_witness:
  "\<exists>tx s' b'. ExecuteTrade W (alice (2 * one) None) bob deal = (Inr tx, s', b')
     \<and> sint (balanceLocked s' aUnit) = 1000000 \<and> sint (balanceLocked b' aUnit) = 1000000"
proof -
  obtain tx s' b' where x: "ExecuteTrade W (alice (2 * one) None) bob deal = (Inr tx, s', b')"
    using deal_executes [of "2 * one"] by (auto simp: sint_one)
  have "sint (balanceLocked s' aUnit) = 1000000 \<and> sint (balanceLocked b' aUnit) = 1000000"
    using trade_moves_the_amounts [OF x] by (simp add: alice_def bob_def party_ok party_balance deal_def sint_one Let_def)
  then show ?thesis using x by blast
qed

text \<open>C2: executing a trade between two nodes refines the ledger's \<open>ApplyTradeTx\<close>: on the inventory of
  both parties together, the transaction that was executed is valid and its application gives the
  balances that the two nodes end with.\<close>

theorem trade_refines_ledger:
  assumes "ExecuteTrade E s b q = (Inr tx, s', b')" "inv_ok (n_Inventory s)" "inv_ok (n_Inventory b)"
  shows "\<exists>c c'. combinedInventory s b = Inr c \<and> ApplyTradeTx E c tx = Inr c'
    \<and> (\<forall>u. Inventory_Get c (n_ID s) u = balanceLocked s u \<and> Inventory_Get c (n_ID b) u = balanceLocked b u
         \<and> Inventory_Get c' (n_ID s) u = balanceLocked s' u \<and> Inventory_Get c' (n_ID b) u = balanceLocked b' u)"
  by (rule ExecuteTrade_ledger [OF assms])


theorem trade_refines_ledger_witness:
  "\<exists>tx s' b' c c'. ExecuteTrade W (alice (2 * one) None) bob deal = (Inr tx, s', b')
     \<and> combinedInventory (alice (2 * one) None) bob = Inr c \<and> ApplyTradeTx W c tx = Inr c'
     \<and> Inventory_Get c' aliceID bUnit = balanceLocked s' bUnit"
proof -
  obtain tx s' b' where x: "ExecuteTrade W (alice (2 * one) None) bob deal = (Inr tx, s', b')"
    using deal_executes [of "2 * one"] by (auto simp: sint_one)
  show ?thesis using trade_refines_ledger [OF x] x by (auto simp: alice_def bob_def party_ok)
qed







section \<open>Signed trades\<close>

text \<open>C6: a signed trade is executed only with the consent of both parties: each signed, with the key its
  identifier stands for, an intent with the terms of the quote, both at the same time and not more
  than 24 hours before; and the balances move exactly by the agreed amounts.\<close>

theorem signed_trade_is_authorized:
  assumes "executeSignedTrade E A h s b q ss bs f = (Inr tx, s', b', h')"
    and "inv_ok (n_Inventory s)" "inv_ok (n_Inventory b)"
  shows "VerifyTradeIntent E ss \<and> VerifyTradeIntent E bs
    \<and> NodeIDFromPublicKey (si_PublicKey ss) = Inr (n_ID s) \<and> NodeIDFromPublicKey (si_PublicKey bs) = Inr (n_ID b)
    \<and> intentMatchesQuote (si_Intent ss) q (n_ID s) \<and> intentMatchesQuote (si_Intent bs) q (n_ID b)
    \<and> \<not> MaxSignedIntentAge <s maxOf (n_NowUnix s) (n_NowUnix b) - ti_Timestamp (si_Intent ss)
    \<and> traded s (q_SellUnit q) (q_SellAmount q) (q_BuyUnit q) (q_BuyAmount q) s'
    \<and> traded b (q_BuyUnit q) (q_BuyAmount q) (q_SellUnit q) (q_SellAmount q) b'"
  by (rule signed_trade_sound [OF assms])

theorem signed_trade_is_authorized_witness:
  "\<exists>tx s' b' h'. executeSignedTrade W json_store (\<lambda>_. emptyDisk) (alice (2 * one) (Some 0)) bob deal
       (signed aliceID) (signed bobID) True = (Inr tx, s', b', h')
     \<and> sint (balanceLocked s' bUnit) = 1000000"
proof -
  obtain tx s' b' h' where x: "executeSignedTrade W json_store (\<lambda>_. emptyDisk) (alice (2 * one) (Some 0)) bob deal
       (signed aliceID) (signed bobID) True = (Inr tx, s', b', h')"
    using deal_signed_on_disk by blast
  have "traded (alice (2 * one) (Some 0)) aUnit one bUnit one s'"
    using signed_trade_is_authorized [OF x] by (simp add: alice_def bob_def party_ok deal_def)
  then have "sint (balanceLocked s' bUnit) = sint (balanceLocked (alice (2 * one) (Some 0)) bUnit) + 1000000"
    by (simp add: traded_def swapped_def balanceLocked_def sint_one)
  then show ?thesis using x by (auto simp: alice_def party_balance)
qed

text \<open>C7: no signed trade is executed twice on one JSON store. After a first execution, let the store live
  on in any way (operations that fail or stop half way included, and restarts of the process that
  run its recovery): every later execution of the same authorizations by nodes on that store fails,
  even nodes that have lost their memory.\<close>

theorem no_trade_executes_twice:
  assumes "executeSignedTrade E json_store h s b q ss bs f = (Inr tx, s', b', h')"
    and "n_Store s = Some p \<or> n_Store b = Some p"
    and "(store_step E)\<^sup>*\<^sup>* (h' p) (h2 p)" "n_Store s2 = Some p \<or> n_Store b2 = Some p"
  shows "\<exists>e. fst (executeSignedTrade E json_store h2 s2 b2 q ss bs f2) = Inl e"
  by (rule json_no_replay [where p = p and h' = h' and ?h2.0 = h2, OF assms])

theorem no_trade_executes_twice_witness:
  "\<exists>tx s' b' h' e. executeSignedTrade W json_store (\<lambda>_. emptyDisk) (alice (2 * one) (Some 0)) bob deal
       (signed aliceID) (signed bobID) True = (Inr tx, s', b', h')
     \<and> fst (executeSignedTrade W json_store (\<lambda>_. snd (NewJSONStore W (restart (h' 0) [Crash])))
              (alice (2 * one) (Some 0)) bob deal (signed aliceID) (signed bobID) True) = Inl e"
proof -
  obtain tx s' b' h' where x: "executeSignedTrade W json_store (\<lambda>_. emptyDisk) (alice (2 * one) (Some 0)) bob deal
       (signed aliceID) (signed bobID) True = (Inr tx, s', b', h')"
    using deal_signed_on_disk by blast
  have "store_step W (h' 0) (snd (NewJSONStore W (restart (h' 0) [Crash])))" by (rule restarted)
  then have "\<exists>e. fst (executeSignedTrade W json_store (\<lambda>_. snd (NewJSONStore W (restart (h' 0) [Crash])))
              (alice (2 * one) (Some 0)) bob deal (signed aliceID) (signed bobID) True) = Inl e"
    by (intro no_trade_executes_twice [OF x, where p = 0]) (auto simp: alice_def)
  then show ?thesis using x by blast
qed





section \<open>The JSON store\<close>







text \<open>C13: an inventory in which a holding has gone down to zero is saved without complaint, but cannot be
  loaded: the load panics, so a node that has sold out cannot be restarted from its store.\<close>

theorem zero_holding_blocks_restart:
  assumes "SaveInventory n iv d = (Inr (), d')" "inv_ok iv"
    and "gm_has (gm_get [] (Holdings iv) n) u" "Inventory_Get iv n u = 0"
  shows "\<exists>e. LoadInventoryJSON d' n = Inl e \<and> panics e"
  by (rule load_zero_holding [OF SaveInventory_saves [OF assms(1)] assms(2-4)])

theorem zero_holding_blocks_restart_witness:
  "\<exists>d' e. SaveInventory aliceID (n_Inventory (alice 0 None)) emptyDisk = (Inr (), d') \<and> LoadInventoryJSON d' aliceID = Inl e \<and> panics e"
proof -
  obtain d' where d: "SaveInventory aliceID (n_Inventory (alice 0 None)) emptyDisk = (Inr (), d')"
    using saves_on_empty_disk(1) by blast
  have h: "gm_get [] (Holdings (n_Inventory (alice 0 None))) aliceID = [(aUnit, 0)]"
    using party_fields(7) [of aliceID aUnit 0 None] by (simp add: alice_def held_def)
  have "\<exists>e. LoadInventoryJSON d' aliceID = Inl e \<and> panics e"
    using party_balance [of aliceID aUnit 0 None aUnit] party_ok(2) [of aliceID aUnit 0 None] h
    by (intro zero_holding_blocks_restart [OF d, where u = aUnit]) (auto simp: alice_def balanceLocked_def gm_has_def)
  then show ?thesis using d by blast
qed

text \<open>C14: one failing \<open>Sync\<close>, that of the executed marker, makes a trade half durable: the caller is told
  that it failed, the files of the trade are installed, and the store cannot be opened any more,
  because the commit record it finds has lost its manifest.\<close>

theorem failed_marker_blocks_store:
  "case PersistExecutedTradeJSON i tx [] (blank (marker_fails e)) of (r, d) \<Rightarrow>
     r = Inl e \<and> fileAt d (tradePath i) = Some (Doc (TradeDoc tx)) \<and> HasExecutedTradeJSON d i
     \<and> (\<exists>e'. fst (NewJSONStore E (restart d faults)) = Inl e')"
proof (cases "PersistExecutedTradeJSON i tx [] (blank (marker_fails e))")
  case (Pair r d)
  note p = persist_marker_fails [OF Pair]
  then have "orphan i (restart d faults)" by (simp add: orphan_def restart_def)
  moreover have "HasExecutedTradeJSON d i" using p by (auto simp: orphan_def HasExecutedTradeJSON_iff marker_def)
  ultimately show ?thesis using p Pair orphan_blocks_store by simp
qed

section \<open>The ledger\<close>

text \<open>C15: the ledger conserves: applying a trade moves exactly its outputs to their owners and takes its
  inputs from the two parties; no unit is created or lost, and no balance becomes negative.\<close>

theorem ledger_conserves:
  assumes "ApplyTradeTx E iv tx = Inr iv'" "inv_ok iv"
  shows "inv_ok iv' \<and> (inv_nonneg iv \<longrightarrow> inv_nonneg iv') \<and> (\<forall>u. inv_total iv' u = inv_total iv u)
    \<and> (\<forall>n u. sint (Inventory_Get iv' n u) = trade_balance iv tx n u)"
  using ApplyTradeTx_ok [OF assms] ApplyTradeTx_conserves [OF assms] ApplyTradeTx_balance [OF assms] by blast

theorem ledger_conserves_witness:
  "\<exists>c tx c'. combinedInventory (alice (2 * one) None) bob = Inr c \<and> ApplyTradeTx W c tx = Inr c'
     \<and> inv_total c' aUnit = inv_total c aUnit"
proof -
  obtain tx s' b' where x: "ExecuteTrade W (alice (2 * one) None) bob deal = (Inr tx, s', b')"
    using deal_executes [of "2 * one"] by (auto simp: sint_one)
  obtain c c' where c: "combinedInventory (alice (2 * one) None) bob = Inr c" "ApplyTradeTx W c tx = Inr c'"
    using ExecuteTrade_ledger [OF x] by (auto simp: alice_def bob_def party_ok)
  have "inv_ok c" by (rule combinedInventory_ok_inv [OF c(1)])
  then show ?thesis using ledger_conserves [OF c(2)] c by blast
qed

text \<open>C16: the ledger accepts all it should: a valid trade is applied exactly when no balance after it
  leaves the range of amounts.\<close>

theorem ledger_accepts_valid_trades:
  assumes "ValidateTradeTx E (Some tx) iv = Inr ()" "inv_ok iv"
  shows "(\<exists>iv'. ApplyTradeTx E iv tx = Inr iv') \<longleftrightarrow> (\<forall>n u. trade_balance iv tx n u < 2 ^ 63)"
  by (rule ApplyTradeTx_succeeds [OF assms])

theorem ledger_accepts_valid_trades_witness:
  "\<exists>c tx. combinedInventory (alice (2 * one) None) bob = Inr c \<and> ValidateTradeTx W (Some tx) c = Inr ()
     \<and> (\<forall>n u. trade_balance c tx n u < 2 ^ 63)"
proof -
  obtain tx s' b' where x: "ExecuteTrade W (alice (2 * one) None) bob deal = (Inr tx, s', b')"
    using deal_executes [of "2 * one"] by (auto simp: sint_one)
  obtain c c' where c: "combinedInventory (alice (2 * one) None) bob = Inr c" "ApplyTradeTx W c tx = Inr c'"
    using ExecuteTrade_ledger [OF x] by (auto simp: alice_def bob_def party_ok)
  have k: "inv_ok c" by (rule combinedInventory_ok_inv [OF c(1)])
  have "ValidateTradeTx W (Some tx) c = Inr ()" using c(2) by (simp add: ApplyTradeTx_def)
  then show ?thesis using ledger_accepts_valid_trades [OF _ k] c by blast
qed

text \<open>C17: an issuance creates the amounts of its outputs, in its own unit, for their owners, and nothing
  else; and its outputs have distinct identifiers that are the hashes of their contents.\<close>

theorem issuance_creates_its_outputs:
  assumes "ApplyStructuralIssueTx E iv tx = Inr iv'" "inv_ok iv"
  shows "inv_total iv' u = inv_total iv u + (if u = i_Unit tx then (\<Sum>v\<leftarrow>i_Outputs tx. sint (v_Amount v)) else 0)
    \<and> sint (Inventory_Get iv' n u) = sint (Inventory_Get iv n u) + valued v_Owner n u (i_Outputs tx)
    \<and> distinct (map v_ID (i_Outputs tx)) \<and> (\<forall>v \<in> set (i_Outputs tx). ValueIDFor E v = Inr (v_ID v))"
  using ApplyStructuralIssueTx_total [OF assms] ApplyStructuralIssueTx_balance [OF assms]
    ValidateStructuralIssueTx_sound [OF ApplyStructuralIssueTx_steps(1) [OF assms]] by blast

theorem issuance_creates_its_outputs_witness:
  "\<exists>tx iv. NewIssueTx W0 aliceKey (hashBytes 1) ''coin'' 5 900 = Inr (tx, coin)
     \<and> ApplyStructuralIssueTx W0 NewInventoryState tx = Inr iv \<and> sint (Inventory_Get iv aliceID (UnitID 0)) = 5"
proof -
  obtain tx where t: "NewIssueTx W0 aliceKey (hashBytes 1) ''coin'' 5 900 = Inr (tx, coin)" using coin_issued by blast
  obtain iv where a: "ApplyStructuralIssueTx W0 NewInventoryState tx = Inr iv" using coin_applied [OF t] by blast
  have "i_Outputs tx = [coin]" using NewIssueTx_Inr [OF t] by blast
  then have "sint (Inventory_Get iv aliceID (UnitID 0)) = 5"
    using issuance_creates_its_outputs [OF a inv_ok_New, of "UnitID 0" aliceID] empty_balance by (simp add: coin_def)
  then show ?thesis using t a by blast
qed

section \<open>Signed values\<close>

text \<open>C18: what \<open>NewIssueTx\<close> builds is accepted by \<open>ValidateIssueTx\<close>, and what \<open>NewTransferTx\<close> builds by
  \<open>ValidateTransferTx\<close> for the same inputs, if the signature scheme works for the key.\<close>

theorem built_transactions_are_valid:
  assumes "signs_verify E priv"
  shows "(\<forall>owner name amt expiry tx v. NewIssueTx E priv owner name amt expiry = Inr (tx, v)
        \<longrightarrow> ValidateIssueTx E (Some tx) v = Inr ())
    \<and> (\<forall>ins raw tx. NewTransferTx E priv ins raw = Inr tx \<longrightarrow> ValidateTransferTx E (Some tx) ins = Inr ())"
  using NewIssueTx_valid [OF _ assms] NewTransferTx_valid [OF _ assms] by blast

theorem built_transactions_are_valid_witness:
  "(\<exists>tx. NewIssueTx W0 aliceKey (hashBytes 1) ''coin'' 5 900 = Inr (tx, coin) \<and> ValidateIssueTx W0 (Some tx) coin = Inr ())
    \<and> ValidateTransferTx W0 (Some paid) [coin] = Inr ()"
  using coin_issued coin_sent built_transactions_are_valid [OF aliceKey_signs] by blast

text \<open>C19: a transfer that validates spends distinct inputs, all of its author, and no others; conserves
  every unit under its issuer; moves the depth beyond that of every input; neither drops nor extends
  an expiry; and carries the signature of its author over its content.\<close>

theorem valid_transfer_is_sound:
  assumes "ValidateTransferTx E (Some tx) vs = Inr ()"
  shows "distinct (x_Inputs tx) \<and> mset (x_Inputs tx) = mset (map v_ID vs)
    \<and> (\<forall>v \<in> set vs. v_Owner v = x_Author tx \<and> ValueIDFor E v = Inr (v_ID v))
    \<and> (\<forall>u. unit_sum u vs = unit_sum u (x_Outputs tx))
    \<and> (\<forall>w \<in> set (x_Outputs tx). vkey w \<in> vkey ` set vs \<and> 0 < sint (v_Amount w) \<and> v_Owner w \<noteq> NodeID 0
         \<and> (\<forall>v \<in> set vs. unat (v_Depth v) < unat (v_Depth w)
              \<and> (vkey v = vkey w \<longrightarrow> v_ExpiryUnix v \<noteq> 0 \<longrightarrow>
                   v_ExpiryUnix w \<noteq> 0 \<and> sint (v_ExpiryUnix w) \<le> sint (v_ExpiryUnix v))))
    \<and> (\<exists>p. transferPreimage tx = Inr p \<and> Verify E (NodeID_PublicKey (x_Author tx)) p (x_Signature tx))"
  using ValidateTransferTx_sound [OF assms] by (intro conjI ballI impI) blast+

theorem valid_transfer_is_sound_witness:
  "ValidateTransferTx W0 (Some paid) [coin] = Inr () \<and> unit_sum (UnitID 0) [coin] = unit_sum (UnitID 0) (x_Outputs paid)"
proof -
  have v: "ValidateTransferTx W0 (Some paid) [coin] = Inr ()" by (rule NewTransferTx_valid [OF coin_sent aliceKey_signs])
  then show ?thesis using valid_transfer_is_sound [OF v] by blast
qed



section \<open>Encodings and identifiers\<close>

text \<open>C21: a varint is self-delimiting and takes one to ten bytes: whatever follows, it can be told where
  it ends and which number it is.\<close>

theorem varint_is_self_delimiting:
  "(writeUvarint x @ r = writeUvarint y @ s \<longleftrightarrow> x = y \<and> r = s)
   \<and> 1 \<le> length (writeUvarint x) \<and> length (writeUvarint x) \<le> 10"
  using writeUvarint_prefix [of x r y s] writeUvarint_length [of x] uvarint_ne [of x] by (cases "writeUvarint x") auto

text \<open>C22: the canonical encoding is injective: two lists of fields with the same bytes are the same up to
  the order of the entries of maps.\<close>

theorem canonical_encoding_is_injective:
  assumes "EncodeFields fs = Inr b" "EncodeFields gs = Inr b" "fields_fit fs" "fields_fit gs"
  shows "fields_norm fs = fields_norm gs"
  by (rule EncodeFields_inj [OF assms])

theorem canonical_encoding_is_injective_witness:
  "\<exists>b. EncodeFields [(''m'', VMap [(''a'', VInt 1), (''b'', VBytes [2])])] = Inr b
     \<and> fields_norm [(''m'', VMap [(''a'', VInt 1), (''b'', VBytes [2])])]
       = fields_norm [(''m'', VMap [(''b'', VBytes [2]), (''a'', VInt 1)])]"
proof -
  obtain b where b: "EncodeFields [(''m'', VMap [(''a'', VInt 1), (''b'', VBytes [2])])] = Inr b"
    by (simp add: EncodeFields_def)
  have "encodeValue (VMap [(''a'', VInt 1), (''b'', VBytes [2])]) = encodeValue (VMap [(''b'', VBytes [2]), (''a'', VInt 1)])"
    by (rule encodeValue_map_order) (simp_all add: add_mset_commute)
  then have "EncodeFields [(''m'', VMap [(''b'', VBytes [2]), (''a'', VInt 1)])] = Inr b"
    using b by (simp add: EncodeFields_def del: encodeValue.simps)
  then show ?thesis
    using canonical_encoding_is_injective [OF b] b by (auto simp: fields_fit_def)
qed

text \<open>C23: the identifier of an authorized trade commits to all of it: two authorized trades with one
  identifier have the same transaction, parties, keys and signatures, as long as the hash tells the
  byte strings at hand apart.\<close>

theorem trade_identifier_commits:
  assumes "AuthorizedTradeID E x = Inr i" "AuthorizedTradeID E y = Inr i" "authFits x" "authFits y"
    and "inj_on (HashBytes E) (set (authPreimages E x) \<union> set (authPreimages E y))"
  shows "tradeContent (at_Tx x) = tradeContent (at_Tx y) \<and> at_SellerAuth x = at_SellerAuth y
    \<and> at_BuyerAuth x = at_BuyerAuth y"
  by (rule AuthorizedTradeID_commits [OF assms])

theorem trade_identifier_commits_witness:
  "copied \<noteq> zeroAuthorized \<and> AuthorizedTradeID W1 copied = AuthorizedTradeID W1 zeroAuthorized
   \<and> tradeContent (at_Tx copied) = tradeContent (at_Tx zeroAuthorized)"
proof -
  obtain i where i: "AuthorizedTradeID W1 copied = Inr i" using AuthorizedTradeID_total by blast
  have "tradeContent (at_Tx copied) = tradeContent (at_Tx zeroAuthorized)"
    using trade_identifier_commits [OF i] copied_id W1_tells_apart i by simp
  then show ?thesis using copied_id by (simp add: copied_def zeroAuthorized_def)
qed

section \<open>Quotes and prices\<close>

text \<open>C24: an executable quote states what both parties can do: the seller has what it sells, the buyer
  what it pays, the bid of the buyer covers the ask of the seller with its spread, and the price is
  the rounded midpoint.\<close>

theorem executable_quote_is_covered:
  assumes "QuoteSell E s (Some b) su bu sa spread = (Inr q, s', Some b')" "q_Executable q"
  shows "q_Seller q = n_ID s \<and> q_Buyer q = n_ID b \<and> n_ID s \<noteq> n_ID b
    \<and> 0 < sint sa \<and> sint sa \<le> sint (balanceLocked s su)
    \<and> 0 < sint (q_BuyAmount q) \<and> sint (q_BuyAmount q) \<le> sint (balanceLocked b bu)
    \<and> \<not> flt (q_BuyerBid q) (q_SellerAsk q)
    \<and> FromFloat (fdiv (fadd (q_SellerAsk q) (q_BuyerBid q)) (Fin 2)) = Inr (q_BuyAmount q)"
  using quoteSell_executable [OF assms] by blast

theorem executable_quote_is_covered_witness:
  "\<exists>s' b'. QuoteSell W (alice (2 * one) None) (Some bob) aUnit bUnit one (Fin 0) = (Inr deal, s', Some b')
     \<and> sint one \<le> sint (balanceLocked (alice (2 * one) None) aUnit)"
  using executable_quote_is_covered [OF deal_quoted] deal_quoted by (auto simp: deal_def)

text \<open>C25: whatever the features, the trades and the configuration are (infinities and not-a-numbers
  included), a computed price is a number that is not negative, and its weights are between 0 and 1.\<close>

theorem computed_price_is_a_price:
  assumes "\<forall>x. fnonneg (fneg x) \<longrightarrow> funit (math_Exp E x)"
  shows "price_ok (ComputePrice E f trades volume lastUnix now cfg)"
  by (rule ComputePrice_ok [OF assms])

theorem computed_price_is_a_price_witness:
  "price_ok (ComputePrice W \<lparr>af_Cost = NaN, af_Age = Inf True, af_Stability = NaN\<rparr> [] 5 0 100 plainConfig)"
  by (rule computed_price_is_a_price) (simp add: W_def funit_def)

section \<open>Amounts\<close>

text \<open>C26: checked addition and subtraction are exact: they succeed exactly when the true result is an
  amount, and then give it; subtraction also refuses to take what is not there.\<close>

theorem checked_arithmetic_is_exact:
  "(CheckedAdd a b = Inr c \<longleftrightarrow> sint c = sint a + sint b)
   \<and> ((\<exists>e. CheckedAdd a b = Inl e) \<longleftrightarrow> \<not> (- (2 ^ 63) \<le> sint a + sint b \<and> sint a + sint b < 2 ^ 63))
   \<and> (Sub a b = Inr c \<longleftrightarrow> 0 \<le> sint b \<and> sint b \<le> sint a \<and> sint c = sint a - sint b)"
  using CheckedAdd_Inr [of a b c] CheckedAdd_Inl [of a b] Sub_Inr [of a b c] by auto

text \<open>C27: an amount of at most 2^50 millionths survives the way to a float and back.\<close>

theorem amount_float_round_trip:
  assumes "0 \<le> sint a" "sint a \<le> 2 ^ 50"
  shows "FromFloatChecked (ToFloat a) = Inr a"
  by (rule FromFloat_ToFloat [OF assms])

theorem amount_float_round_trip_witness: "FromFloatChecked (ToFloat 1234567) = Inr 1234567"
  by (rule amount_float_round_trip) simp_all


text \<open>Hex text is read back as the hash that was written, and only text of 64 digits is read.\<close>

theorem hash_hex_round_trip: "ParseHashHex (HashHex h) = Inr h \<and> length (HashHex h) = 64"
  using ParseHashHex_HashHex by (simp add: HashHex_def)

section \<open>Messages\<close>

text \<open>C29: a message moves goods only as a trade that this session negotiated: when a handled message
  changes the inventory of the node, there is a pending quote between the node and its peer for which
  the session had collected both intents, each with a good signature and the terms of the quote; the
  node has moved exactly the amounts of that quote; and its clock shows exactly the second of the quote.\<close>

theorem handled_trade_was_negotiated:
  assumes "HandleMessage E A hp rand h msg pub = (r, h', hp')" "inv_ok (n_Inventory (h_Node h))"
    and "n_Inventory (h_Node h') \<noteq> n_Inventory (h_Node h)"
  shows "\<exists>qid quote ss bs. (qid, quote) \<in> set (s_PendingQuotes (h_Session h)) \<and> qp_Executable quote
    \<and> {ss, bs} \<subseteq> set (gm_get [] (s_PendingIntents (h_Session h)) qid)
    \<and> sessionOwnsParties h (qp_Seller quote) (qp_Buyer quote)
    \<and> ti_Party (si_Intent ss) = qp_Seller quote \<and> ti_Party (si_Intent bs) = qp_Buyer quote
    \<and> VerifyTradeIntent E ss \<and> VerifyTradeIntent E bs
    \<and> h_intentMatchesQuote (si_Intent ss) quote \<and> h_intentMatchesQuote (si_Intent bs) quote
    \<and> settled (h_Node h) quote (h_Node h') \<and> qp_ExpiryUnix quote = n_NowUnix (h_Node h)"
  using HandleMessage_cases(1) [OF assms(1,2)] assms(3) by (auto simp: untouched_def settles_def negotiated_def)

theorem handled_trade_was_negotiated_witness:
  "\<exists>(J :: jenv) msg m h' hp' quote. HandleMessage J json_store (\<lambda>_. emptyDisk) (Inr 1) seller msg (NodeID_Bytes bobID) = (Inr (Some m, None), h', hp')
     \<and> balanceLocked (h_Node h') bUnit = one \<and> settled (h_Node seller) quote (h_Node h')"
proof -
  obtain J :: jenv and msg m h' hp' where x: "HandleMessage J json_store (\<lambda>_. emptyDisk) (Inr 1) seller msg (NodeID_Bytes bobID) = (Inr (Some m, None), h', hp')"
    and b: "balanceLocked (h_Node h') bUnit = one" using seller_trades by blast
  have ok: "inv_ok (n_Inventory (h_Node seller))" by (simp add: seller_def alice_def party_ok)
  have i: "Inventory_Get (n_Inventory (h_Node seller)) aliceID bUnit = 0"
    using party_balance [of aliceID aUnit "2 * one" "Some 0" bUnit] by (simp add: seller_def alice_def balanceLocked_def)
  have "n_ID (h_Node h') = aliceID"
    using HandleMessage_cases(1) [OF x ok] untouched_same settles_same by (fastforce simp: same_party_def seller_def alice_def)
  then have "n_Inventory (h_Node h') \<noteq> n_Inventory (h_Node seller)" using i b by (auto simp: balanceLocked_def one_def)
  from handled_trade_was_negotiated [OF x ok this] obtain quote where "settled (h_Node seller) quote (h_Node h')" by (elim exE conjE)
  then show ?thesis using x b by blast
qed



text \<open>C31: no message is handled twice in a session: once a message of the peer with a good signature has
  been handled, whatever its outcome was, every later message with its identifier is answered with
  an error and changes neither the node, the session nor the stores.\<close>

theorem replayed_message_changes_nothing:
  assumes "session_run E A pub (newHandler n peerID, hp) ms (h, hp1)" "inv_ok (n_Inventory n)" "m \<in> set ms"
    and "VerifyEnvelope E (m_Envelope m) (m_PayloadBytes m) pub = Inr ()" "e_Sender (m_Envelope m) = peerID"
    and "e_MessageID (m_Envelope msg) = e_MessageID (m_Envelope m)"
  shows "\<exists>e. HandleMessage E A hp1 rand h msg pub = (Inr (None, Some e), h, hp1)"
proof (cases "admitted E h msg pub")
  case True
  have "admitted E (newHandler n peerID) m pub" using assms(4,5) by (simp add: admitted_def)
  then have "HasSeen (h_Session h) (e_MessageID (m_Envelope msg))"
    using session_run_invariant(5) [OF assms(1)] assms(2,3,6) by auto
  then show ?thesis using HandleMessage_seen [OF True] by blast
qed (blast dest: HandleMessage_refused)

theorem replayed_message_changes_nothing_witness:
  "\<exists>(J :: jenv) msg h e. session_run J json_store (NodeID_Bytes bobID) (newHandler pinged bobID, \<lambda>_. emptyDisk) [msg] (h, \<lambda>_. emptyDisk)
     \<and> HandleMessage J json_store (\<lambda>_. emptyDisk) (Inr 1) h msg (NodeID_Bytes bobID) = (Inr (None, Some e), h, \<lambda>_. emptyDisk)"
proof -
  obtain J msg h where m: "said W bobID thePing J msg"
    and s: "session_run J json_store (NodeID_Bytes bobID) (newHandler pinged bobID, \<lambda>_. emptyDisk) [msg] (h, \<lambda>_. emptyDisk)"
    using someone_pings ping_session by blast
  have "VerifyEnvelope J (m_Envelope msg) (m_PayloadBytes msg) (NodeID_Bytes bobID) = Inr ()" "e_Sender (m_Envelope msg) = bobID"
    using said_verifies [OF m W_signatures(1)] m by (simp_all add: said_def)
  then have "\<exists>e. HandleMessage J json_store (\<lambda>_. emptyDisk) (Inr 1) h msg (NodeID_Bytes bobID) = (Inr (None, Some e), h, \<lambda>_. emptyDisk)"
    using replayed_message_changes_nothing [OF s, of msg msg] by simp
  then show ?thesis using s by blast
qed








text \<open>C35: a signed message arrives: framed, read back from a stream whatever follows it, verified with the
  key of its sender and decoded, it gives the payload that was signed, in its normal form.\<close>

theorem signed_message_arrives:
  assumes "SignEnvelope E priv t p ts nonce = Inr (env, b)" "signs_verify E priv" "payload_reads E t p"
    and "sendable E \<lparr>m_Envelope = env, m_PayloadBytes = b\<rparr>"
  shows "\<exists>d q. EncodeFrame E \<lparr>m_Envelope = env, m_PayloadBytes = b\<rparr> = Inr d
    \<and> (\<forall>rest. ReadFrame E (d @ rest) = (Inr \<lparr>m_Envelope = env, m_PayloadBytes = b\<rparr>, rest))
    \<and> VerifyEnvelope E env b (ed25519_Public priv) = Inr ()
    \<and> normalizePayload t p = Inr q \<and> DecodePayload E t b = Inr q"
  using SignEnvelope_verifies [OF assms(1-3)] sendable_frame [OF assms(4)] by blast

theorem signed_message_arrives_witness:
  "\<exists>(J :: jenv) env d. SignEnvelope J (keyOf bobID) TypePing thePing 5 1 = Inr (env, [2])
     \<and> ReadFrame J (d @ [9, 9]) = (Inr \<lparr>m_Envelope = env, m_PayloadBytes = [2]\<rparr>, [9, 9])
     \<and> DecodePayload J TypePing [2] = Inr thePing"
proof -
  obtain J msg where s: "said W bobID thePing J msg" "signs_verify J (keyOf bobID)" "sendable J msg" using someone_pings by blast
  have e: "SignEnvelope J (keyOf bobID) TypePing thePing 5 1 = Inr (m_Envelope msg, [2])" "payload_reads J TypePing thePing"
    and m: "msg = \<lparr>m_Envelope = m_Envelope msg, m_PayloadBytes = [2]\<rparr>"
    using s(1) unfolding said_def thePing_plain(3) by auto
  have n: "normalizePayload TypePing thePing = Inr thePing" by (simp add: normalizePayload_Inr thePing_plain)
  from s(3) m have "sendable J \<lparr>m_Envelope = m_Envelope msg, m_PayloadBytes = [2]\<rparr>" by simp
  from signed_message_arrives [OF e(1) s(2) e(2) this] obtain d where
    "ReadFrame J (d @ [9, 9]) = (Inr \<lparr>m_Envelope = m_Envelope msg, m_PayloadBytes = [2]\<rparr>, [9, 9])"
    "DecodePayload J TypePing [2] = Inr thePing" using n by auto
  then show ?thesis using e(1) by blast
qed

text \<open>C36: a stream that breaks off in a frame is an error, and the session ends it as a clean end of the
  stream in two cases: when not one byte of the frame has come, as it should, but also when the
  stream breaks off right after the header, with the payload still missing.\<close>

theorem cut_frame_is_an_error:
  assumes "encodePayloadFrame p = Inr d" "n < length d"
  shows "\<exists>e. fst (ReadFrame E (take n d)) = Inl e \<and> (isCleanEOF e \<longleftrightarrow> n = 0 \<or> n = FrameHeaderSize)"
  using ReadFrame_cut [OF assms, of E] isCleanEOF_truncated by auto

theorem cut_frame_is_an_error_witness:
  "\<exists>(J :: jenv) d e. encodePayloadFrame [7] = Inr d \<and> length d = FrameHeaderSize + 1
     \<and> fst (ReadFrame J (take FrameHeaderSize d)) = Inl e \<and> isCleanEOF e"
proof -
  obtain d where d: "encodePayloadFrame [7] = Inr d" "length d = FrameHeaderSize + 1"
    by (simp add: encodePayloadFrame_def MaxFrameSize_def FrameHeaderSize_def)
  have "\<exists>e. fst (ReadFrame J (take FrameHeaderSize d)) = Inl e \<and> isCleanEOF e" for J :: jenv
    using cut_frame_is_an_error [OF d(1), of FrameHeaderSize J] d(2) by simp
  then show ?thesis using d by blast
qed

section \<open>The market simulation\<close>



text \<open>C38: the simulation of several assets counts per step the executed trades and those between two
  assets, which are among them and stay within the limit, and adds them up in the summary. With
  substitution every trade between two assets counts as a switch, also one that neither party needed
  to switch for, and the switches in the metrics of a step are those of all steps so far.\<close>

theorem multi_run_counts:
  assumes "RunMultiMarketSimulation E cfg = Inr res"
  shows "map mx_Step (mu_Metrics res) = map int [0..<Suc (nat (mm_Steps cfg))]
    \<and> (\<forall>m \<in> set (mu_Metrics res). 0 \<le> mx_CrossAssetTrades m \<and> mx_CrossAssetTrades m \<le> mx_ExecutedTrades m
         \<and> mx_ExecutedTrades m \<le> mm_TradesPerStep (mu_Config res))
    \<and> ms_TotalTrades (mu_Summary res) = sum_list (map mx_ExecutedTrades (mu_Metrics res))
    \<and> ms_TotalCrossAssetTrades (mu_Summary res) = sum_list (map mx_CrossAssetTrades (mu_Metrics res))
    \<and> ms_TotalSwitchCount (mu_Summary res) = (if mm_EnableSubstitution cfg then ms_TotalCrossAssetTrades (mu_Summary res) else 0)
    \<and> map mx_SwitchCount (mu_Metrics res) = map (\<lambda>i. if mm_EnableSubstitution cfg
         then sum_list (map mx_CrossAssetTrades (take (Suc i) (mu_Metrics res))) else 0) [0..<Suc (nat (mm_Steps cfg))]"
proof -
  obtain r where r: "multi_ok (mu_Config res) (nat (mm_Steps cfg)) r" "mu_Metrics res = ru_metrics r"
    "ms_TotalTrades (mu_Summary res) = ru_totalTrades r" "ms_TotalCrossAssetTrades (mu_Summary res) = ru_totalCross r"
    "ms_TotalSwitchCount (mu_Summary res) = ru_totalSwitches r"
    "mm_EnableSubstitution (mu_Config res) = mm_EnableSubstitution cfg"
    using RunMultiMarketSimulation_ok [OF assms] .
  then show ?thesis unfolding multi_ok_def cross_sum_def by simp
qed

theorem multi_run_counts_witness:
  "\<exists>(M :: senv) res. RunMultiMarketSimulation M (DefaultMultiMarketConfig\<lparr>mm_Steps := 2, mm_EnableDemand := False\<rparr>) = Inr res
     \<and> map mx_Step (mu_Metrics res) = [0, 1, 2]"
proof -
  let ?cfg = "DefaultMultiMarketConfig\<lparr>mm_Steps := 2, mm_EnableDemand := False\<rparr>"
  have v: "ValidateMultiMarketConfig ?cfg = Inr ()" "2 \<le> length (au_AssetIDs (mm_Universe ?cfg))" by code_simp+
  let ?M = "env.extend W (senv.fields (\<lambda>_ _. Fin 0)) :: senv"
  have "\<not> mm_EnableDemand ?cfg" "mm_PriceModel ?cfg \<in> {'''', PriceModelAcceptance}"
    by (simp_all add: DefaultMultiMarketConfig_def)
  then obtain res where res: "RunMultiMarketSimulation ?M ?cfg = Inr res" using RunMultiMarketSimulation_returns [OF v] by blast
  have "map mx_Step (mu_Metrics res) = map int [0..<Suc 2]"
    using multi_run_counts [OF res] by (simp add: DefaultMultiMarketConfig_def)
  moreover have "map int [0..<Suc 2] = [0, 1, 2]" by (simp add: upt_rec)
  ultimately show ?thesis using res by metis
qed

text \<open>C39: \<open>FindArbitrage\<close> finds the opportunities that the prices offer and no others: every pair of
  different nodes with a price of the asset, whose difference reaches the wanted profit, which counts
  as zero when it is negative. It lists each once, the highest profit first, then by nodes.\<close>

theorem arbitrage_is_complete:
  "set (FindArbitrage pt assetID minProfit) = {opp. op_BuyFrom opp \<noteq> op_SellTo opp \<and> op_AssetID opp = assetID
      \<and> PriceTable_Get pt (op_BuyFrom opp) assetID = Some (op_BuyPrice opp)
      \<and> PriceTable_Get pt (op_SellTo opp) assetID = Some (op_SellPrice opp)
      \<and> op_Profit opp = fsub (op_SellPrice opp) (op_BuyPrice opp) \<and> fle (max0 minProfit) (op_Profit opp)}
    \<and> sorted_wrt (\<lambda>a b. flt (op_Profit b) (op_Profit a)
        \<or> feq (op_Profit a) (op_Profit b) \<and> (op_BuyFrom a < op_BuyFrom b
            \<or> op_BuyFrom a = op_BuyFrom b \<and> op_SellTo a < op_SellTo b)) (FindArbitrage pt assetID minProfit)"
proof -
  have o: "offered pt assetID minProfit opp" if "opp \<in> set (FindArbitrage pt assetID minProfit)" for opp
    using that by (simp add: set_FindArbitrage)
  have "flt (op_Profit b) (op_Profit a) \<or> feq (op_Profit a) (op_Profit b) \<and> (op_BuyFrom a < op_BuyFrom b
      \<or> op_BuyFrom a = op_BuyFrom b \<and> op_SellTo a < op_SellTo b)"
    if "a \<in> set (FindArbitrage pt assetID minProfit)" "b \<in> set (FindArbitrage pt assetID minProfit)" "better a b" for a b
    using better_iff [OF not_nan_offered not_nan_offered, OF o o, OF that(1,2)] that(3) by (auto simp: less_prod_simp)
  then have "sorted_wrt (\<lambda>a b. flt (op_Profit b) (op_Profit a)
        \<or> feq (op_Profit a) (op_Profit b) \<and> (op_BuyFrom a < op_BuyFrom b
            \<or> op_BuyFrom a = op_BuyFrom b \<and> op_SellTo a < op_SellTo b)) (FindArbitrage pt assetID minProfit)"
    by (rule sorted_wrt_mono_rel [OF _ FindArbitrage_sorted])
  then show ?thesis by (simp add: set_FindArbitrage offered_def)
qed

section \<open>The command line\<close>



end
